(* ===== verification/Prelude.thy ===== *)
theory Prelude
  imports Main "HOL-Library.Word"
begin

text \<open>
  Shared vocabulary of the development.

  \<^item> A fallible query of the Rust code (\<open>Result<A, E>\<close> computed from storage) is a value of
    \<open>'e + 'a\<close>, with \<open>Inl\<close> for \<open>Err\<close> and \<open>Inr\<close> for \<open>Ok\<close>; \<open>bindE\<close> is the \<open>?\<close> operator.
  \<^item> An operation that may change storage is a function \<open>'s \<Rightarrow> ('e + 'a) \<times> 's\<close>. The state is
    returned with errors too: the storage of a pallet is not rolled back by an \<open>Err\<close> unless a
    caller asks for it (\<open>transactional\<close>).
  \<^item> Machine integers are words. The checked and saturating operations of Rust's integers are
    characterised on \<open>unat\<close>, so that the component proofs are linear arithmetic on \<open>nat\<close>.
\<close>

section \<open>Results and stateful operations\<close>

type_synonym ('s, 'e, 'a) op = "'s \<Rightarrow> ('e + 'a) \<times> 's"

named_theorems op_simps \<open>evaluation rules of the operation combinators\<close>

definition is_ok :: "'e + 'a \<Rightarrow> bool" where
  "is_ok r = (case r of Inl _ \<Rightarrow> False | Inr _ \<Rightarrow> True)"

lemma is_ok_simps [simp]: "is_ok (Inr x)" "\<not> is_ok (Inl e)"
  by (simp_all add: is_ok_def)

lemma is_ok_iff: "is_ok r \<longleftrightarrow> (\<exists>x. r = Inr x)"
  by (cases r) simp_all

lemma not_is_ok_iff: "\<not> is_ok r \<longleftrightarrow> (\<exists>e. r = Inl e)"
  by (cases r) simp_all

definition bindE :: "'e + 'a \<Rightarrow> ('a \<Rightarrow> 'e + 'b) \<Rightarrow> 'e + 'b" where
  "bindE r f = (case r of Inl e \<Rightarrow> Inl e | Inr x \<Rightarrow> f x)"

definition ok_orE :: "'e \<Rightarrow> 'a option \<Rightarrow> 'e + 'a" where
  "ok_orE e x = (case x of None \<Rightarrow> Inl e | Some y \<Rightarrow> Inr y)"

definition ensureE :: "bool \<Rightarrow> 'e \<Rightarrow> 'e + unit" where
  "ensureE b e = (if b then Inr () else Inl e)"

lemma bindE_simps [simp]:
  "bindE (Inl e) f = Inl e" "bindE (Inr x) f = f x"
  by (simp_all add: bindE_def)

lemma ok_orE_simps [simp]:
  "ok_orE e None = Inl e" "ok_orE e (Some x) = Inr x"
  by (simp_all add: ok_orE_def)

lemma ensureE_simps [simp]:
  "ensureE True e = Inr ()" "ensureE False e = Inl e"
  by (simp_all add: ensureE_def)

lemma bindE_Inr_iff: "bindE r f = Inr y \<longleftrightarrow> (\<exists>x. r = Inr x \<and> f x = Inr y)"
  by (cases r) simp_all

lemma bindE_Inl_iff: "bindE r f = Inl e \<longleftrightarrow> r = Inl e \<or> (\<exists>x. r = Inr x \<and> f x = Inl e)"
  by (cases r) simp_all

lemma ok_orE_Inr_iff: "ok_orE e x = Inr y \<longleftrightarrow> x = Some y"
  by (cases x) simp_all

lemma ensureE_Inr_iff: "ensureE b e = Inr u \<longleftrightarrow> b"
  by (simp add: ensureE_def)

lemmas resultE_iffs = bindE_Inr_iff ok_orE_Inr_iff ensureE_Inr_iff

definition ret :: "'a \<Rightarrow> ('s, 'e, 'a) op" where
  "ret x = (\<lambda>s. (Inr x, s))"

definition throw :: "'e \<Rightarrow> ('s, 'e, 'a) op" where
  "throw e = (\<lambda>s. (Inl e, s))"

definition bindO :: "('s, 'e, 'a) op \<Rightarrow> ('a \<Rightarrow> ('s, 'e, 'b) op) \<Rightarrow> ('s, 'e, 'b) op" where
  "bindO m f = (\<lambda>s. case m s of (Inl e, s') \<Rightarrow> (Inl e, s') | (Inr x, s') \<Rightarrow> f x s')"

definition thenO :: "('s, 'e, 'a) op \<Rightarrow> ('s, 'e, 'b) op \<Rightarrow> ('s, 'e, 'b) op" where
  "thenO m n = bindO m (\<lambda>_. n)"

definition readE :: "('s \<Rightarrow> 'e + 'a) \<Rightarrow> ('s, 'e, 'a) op" where
  "readE q = (\<lambda>s. (q s, s))"

definition gets :: "('s \<Rightarrow> 'a) \<Rightarrow> ('s, 'e, 'a) op" where
  "gets f = (\<lambda>s. (Inr (f s), s))"

definition modify :: "('s \<Rightarrow> 's) \<Rightarrow> ('s, 'e, unit) op" where
  "modify f = (\<lambda>s. (Inr (), f s))"

definition ensureO :: "bool \<Rightarrow> 'e \<Rightarrow> ('s, 'e, unit) op" where
  "ensureO b e = (if b then ret () else throw e)"

definition ok_orO :: "'e \<Rightarrow> 'a option \<Rightarrow> ('s, 'e, 'a) op" where
  "ok_orO e x = (case x of None \<Rightarrow> throw e | Some y \<Rightarrow> ret y)"

text \<open>
  A dispatched call runs in a storage layer of its own: FRAME discards the changes of a call
  that returns an error.
\<close>

definition transactional :: "('s, 'e, 'a) op \<Rightarrow> ('s, 'e, 'a) op" where
  "transactional m = (\<lambda>s. case m s of (Inl e, _) \<Rightarrow> (Inl e, s) | (Inr x, s') \<Rightarrow> (Inr x, s'))"

lemma op_eval [simp, op_simps]:
  "ret x s = (Inr x, s)"
  "throw e s = (Inl e, s)"
  "readE q s = (q s, s)"
  "gets f s = (Inr (f s), s)"
  "modify g s = (Inr (), g s)"
  "ensureO b e s = (if b then (Inr (), s) else (Inl e, s))"
  by (simp_all add: ret_def throw_def readE_def gets_def modify_def ensureO_def)

lemma ok_orO_eval [simp, op_simps]:
  "ok_orO e None s = (Inl e, s)" "ok_orO e (Some x) s = (Inr x, s)"
  by (simp_all add: ok_orO_def)

lemma if_op [simp]: "(if b then m else (n :: ('s, 'e, 'a) op)) s = (if b then m s else n s)"
  by simp

lemma bindO_eval [op_simps]:
  "m s = (Inr x, s') \<Longrightarrow> bindO m f s = f x s'"
  "m s = (Inl e, s') \<Longrightarrow> bindO m f s = (Inl e, s')"
  by (simp_all add: bindO_def)

lemma thenO_eval [op_simps]:
  "m s = (Inr x, s') \<Longrightarrow> thenO m n s = n s'"
  "m s = (Inl e, s') \<Longrightarrow> thenO m n s = (Inl e, s')"
  by (simp_all add: thenO_def bindO_def)

lemma bindO_Inr_iff:
  "bindO m f s = (Inr y, t) \<longleftrightarrow> (\<exists>x s'. m s = (Inr x, s') \<and> f x s' = (Inr y, t))"
  by (auto simp: bindO_def split: prod.splits sum.splits)

lemma bindO_Inl_iff:
  "bindO m f s = (Inl e, t) \<longleftrightarrow>
     m s = (Inl e, t) \<or> (\<exists>x s'. m s = (Inr x, s') \<and> f x s' = (Inl e, t))"
  by (auto simp: bindO_def split: prod.splits sum.splits)

lemma thenO_Inr_iff:
  "thenO m n s = (Inr y, t) \<longleftrightarrow> (\<exists>x s'. m s = (Inr x, s') \<and> n s' = (Inr y, t))"
  by (auto simp: thenO_def bindO_Inr_iff)

lemma bindO_readE [simp]: "bindO (readE q) f s = (case q s of Inl e \<Rightarrow> (Inl e, s) | Inr x \<Rightarrow> f x s)"
  by (simp add: bindO_def)

lemma bindO_simps [simp]:
  "bindO (ret x) f s = f x s"
  "bindO (throw e) f s = (Inl e, s)"
  "bindO (gets g) k s = k (g s) s"
  "bindO (modify h) l s = l () (h s)"
  "bindO (ensureO b e) l s = (if b then l () s else (Inl e, s))"
  by (simp_all add: bindO_def ensureO_def)

lemma bindO_ok_orO [simp]:
  "bindO (ok_orO e x) f s = (case x of None \<Rightarrow> (Inl e, s) | Some y \<Rightarrow> f y s)"
  by (cases x) (simp_all add: bindO_def)

lemma thenO_simps [simp]:
  "thenO (ret x) n s = n s"
  "thenO (throw e) n s = (Inl e, s)"
  "thenO (modify h) n s = n (h s)"
  "thenO (ensureO b e) n s = (if b then n s else (Inl e, s))"
  "thenO (readE q) n s = (case q s of Inl e \<Rightarrow> (Inl e, s) | Inr _ \<Rightarrow> n s)"
  by (simp_all add: thenO_def ret_def throw_def bindO_def readE_def modify_def ensureO_def split: sum.split)

lemma transactional_Inr_iff: "transactional m s = (Inr x, t) \<longleftrightarrow> m s = (Inr x, t)"
  by (auto simp: transactional_def split: prod.splits sum.splits)

lemma transactional_Inl: "transactional m s = (Inl e, t) \<Longrightarrow> t = s"
  by (auto simp: transactional_def split: prod.splits sum.splits)

text \<open>An operation keeps a predicate of the state, whatever it returns.\<close>

definition keeps :: "('s \<Rightarrow> bool) \<Rightarrow> ('s, 'e, 'a) op \<Rightarrow> bool" where
  "keeps P m = (\<forall>s r t. P s \<longrightarrow> m s = (r, t) \<longrightarrow> P t)"

lemma keepsI: "(\<And>s r t. P s \<Longrightarrow> m s = (r, t) \<Longrightarrow> P t) \<Longrightarrow> keeps P m"
  by (auto simp: keeps_def)

lemma keepsD: "keeps P m \<Longrightarrow> P s \<Longrightarrow> P (snd (m s))"
  by (cases "m s") (auto simp: keeps_def)

lemma keepsE: "keeps P m \<Longrightarrow> P s \<Longrightarrow> m s = (r, t) \<Longrightarrow> P t"
  by (auto simp: keeps_def)

lemma keeps_bindO [intro]:
  assumes "keeps P m" and "\<And>x. keeps P (f x)"
  shows "keeps P (bindO m f)"
proof (rule keepsI)
  fix s r t assume "P s" and run: "bindO m f s = (r, t)"
  obtain q s' where q: "m s = (q, s')" by (cases "m s")
  with assms(1) \<open>P s\<close> have "P s'" by (auto dest: keepsE)
  with q run assms(2) show "P t"
    by (cases q) (auto simp: bindO_def dest: keepsE)
qed

lemma keeps_thenO [intro]: "keeps P m \<Longrightarrow> keeps P n \<Longrightarrow> keeps P (thenO m n)"
  by (auto simp: thenO_def)

lemma keeps_basic [intro, simp]:
  "keeps P (ret x)" "keeps P (throw e)" "keeps P (readE q)" "keeps P (gets f)"
  "keeps P (ensureO b e)" "keeps P (ok_orO e y)"
  by (auto simp: keeps_def ok_orO_def split: if_splits option.splits)

lemma keeps_modify: "(\<And>s. P s \<Longrightarrow> P (h s)) \<Longrightarrow> keeps P (modify h)"
  by (simp add: keeps_def)

lemma keeps_transactional [intro]: "keeps P m \<Longrightarrow> keeps P (transactional m)"
  by (fastforce simp: keeps_def transactional_def split: prod.splits sum.splits)

lemma keeps_if [intro]: "keeps P m \<Longrightarrow> keeps P n \<Longrightarrow> keeps P (if b then m else n)"
  by simp

section \<open>Checked and saturating machine arithmetic\<close>

type_synonym u32 = "32 word"
type_synonym u64 = "64 word"
type_synonym u128 = "128 word"

named_theorems arith_iffs \<open>machine operations read as natural numbers\<close>

definition checked_add :: "'w::len word \<Rightarrow> 'w word \<Rightarrow> 'w word option" where
  "checked_add a b = (if unat a + unat b < 2 ^ LENGTH('w) then Some (a + b) else None)"

definition checked_sub :: "'w::len word \<Rightarrow> 'w word \<Rightarrow> 'w word option" where
  "checked_sub a b = (if b \<le> a then Some (a - b) else None)"

definition checked_mul :: "'w::len word \<Rightarrow> 'w word \<Rightarrow> 'w word option" where
  "checked_mul a b = (if unat a * unat b < 2 ^ LENGTH('w) then Some (a * b) else None)"

definition checked_div :: "'w::len word \<Rightarrow> 'w word \<Rightarrow> 'w word option" where
  "checked_div a b = (if b = 0 then None else Some (a div b))"

definition sat_add :: "'w::len word \<Rightarrow> 'w word \<Rightarrow> 'w word" where
  "sat_add a b = (if unat a + unat b < 2 ^ LENGTH('w) then a + b else - 1)"

definition sat_sub :: "'w::len word \<Rightarrow> 'w word \<Rightarrow> 'w word" where
  "sat_sub a b = (if b \<le> a then a - b else 0)"

lemma unat_bound: "unat (a :: 'w::len word) < 2 ^ LENGTH('w)"
  by (rule unsigned_less)

lemma unat_of_nat_small: "n < 2 ^ LENGTH('w) \<Longrightarrow> unat (of_nat n :: 'w::len word) = n"
  by (simp add: unat_of_nat take_bit_nat_eq_self)

lemma unat_of_nat_le: "n \<le> unat (x :: 'w::len word) \<Longrightarrow> unat (of_nat n :: 'w word) = n"
  by (rule unat_of_nat_small, rule le_less_trans [OF _ unat_bound [of x]])

lemma unat_add_exact:
  "unat a + unat b < 2 ^ LENGTH('w) \<Longrightarrow> unat (a + b :: 'w::len word) = unat a + unat b"
  by (simp add: unat_word_ariths(1))

lemma unat_mul_exact:
  "unat a * unat b < 2 ^ LENGTH('w) \<Longrightarrow> unat (a * b :: 'w::len word) = unat a * unat b"
  by (simp add: unat_word_ariths(2))

lemma checked_add_Some_iff [arith_iffs]:
  "checked_add a b = Some c \<longleftrightarrow> unat c = unat a + unat b"
proof
  assume "checked_add a b = Some c"
  then show "unat c = unat a + unat b"
    by (auto simp: checked_add_def unat_add_exact split: if_splits)
next
  assume eq: "unat c = unat a + unat b"
  then have "unat a + unat b < 2 ^ LENGTH('a)"
    using unat_bound [of c] by simp
  with eq show "checked_add a b = Some c"
    by (simp add: checked_add_def word_unat_eq_iff unat_add_exact)
qed

lemma checked_add_None_iff [arith_iffs]:
  "checked_add a b = None \<longleftrightarrow> 2 ^ LENGTH('w) \<le> unat a + unat (b :: 'w::len word)"
  by (auto simp: checked_add_def)

lemma checked_sub_Some_iff [arith_iffs]:
  "checked_sub a b = Some c \<longleftrightarrow> unat a = unat c + unat b"
proof
  assume "checked_sub a b = Some c"
  then show "unat a = unat c + unat b"
    by (auto simp: checked_sub_def word_le_nat_alt unat_sub split: if_splits)
next
  assume eq: "unat a = unat c + unat b"
  then have le: "b \<le> a" by (simp add: word_le_nat_alt)
  then have "a - b = c" using eq by (simp add: word_unat_eq_iff unat_sub)
  with le show "checked_sub a b = Some c" by (simp add: checked_sub_def)
qed

lemma checked_sub_None_iff [arith_iffs]: "checked_sub a b = None \<longleftrightarrow> unat a < unat b"
  by (auto simp: checked_sub_def word_le_nat_alt)

lemma checked_mul_Some_iff [arith_iffs]:
  "checked_mul a b = Some c \<longleftrightarrow> unat c = unat a * unat b"
proof
  assume "checked_mul a b = Some c"
  then show "unat c = unat a * unat b"
    by (auto simp: checked_mul_def unat_mul_exact split: if_splits)
next
  assume eq: "unat c = unat a * unat b"
  then have "unat a * unat b < 2 ^ LENGTH('a)"
    using unat_bound [of c] by simp
  with eq show "checked_mul a b = Some c"
    by (simp add: checked_mul_def word_unat_eq_iff unat_mul_exact)
qed

lemma checked_mul_None_iff [arith_iffs]:
  "checked_mul a b = None \<longleftrightarrow> 2 ^ LENGTH('w) \<le> unat a * unat (b :: 'w::len word)"
  by (auto simp: checked_mul_def)

lemma unat_max_word: "unat (- 1 :: 'w::len word) = 2 ^ LENGTH('w) - 1"
  by (simp add: unsigned_minus_1_eq_mask mask_eq_exp_minus_1)

lemma unat_sat_add [arith_iffs]:
  "unat (sat_add a b :: 'w::len word) = min (unat a + unat b) (2 ^ LENGTH('w) - 1)"
  by (auto simp: sat_add_def unat_add_exact unat_max_word min_def)

lemma unat_sat_sub [arith_iffs]: "unat (sat_sub a b) = unat a - unat b"
  by (auto simp: sat_sub_def word_le_nat_alt unat_sub)

lemma unat_is_zero: "a = 0 \<longleftrightarrow> unat a = 0"
  by (simp add: word_unat_eq_iff)

lemma sat_sub_exact: "b \<le> a \<Longrightarrow> sat_sub a b = a - b"
  by (simp add: sat_sub_def)

lemma sat_add_zero [simp]: "sat_add a 0 = a" "sat_add 0 a = a"
  using unat_bound [of a] by (simp_all add: sat_add_def)

lemma sat_sub_zero [simp]: "sat_sub a 0 = a" "sat_sub a a = 0"
  by (simp_all add: sat_sub_def)

lemma checked_zero [simp]: "checked_add a 0 = Some a" "checked_sub a 0 = Some a" "checked_sub a a = Some 0"
  by (simp_all add: arith_iffs)

lemma checked_add_sat: "checked_add a b = Some n \<Longrightarrow> sat_add a b = n"
  by (simp add: checked_add_def sat_add_def split: if_splits)

lemma checked_sub_sat: "checked_sub a b = Some n \<Longrightarrow> sat_sub a b = n"
  by (simp add: checked_sub_def sat_sub_def split: if_splits)

lemma sat_add_sub_cancel:
  "unat a + unat b < 2 ^ LENGTH('w) \<Longrightarrow> sat_sub (sat_add a b) b = (a :: 'w::len word)"
  by (simp add: word_unat_eq_iff arith_iffs)

section \<open>Iteration of a partial step\<close>

fun iter_option :: "nat \<Rightarrow> ('a \<Rightarrow> 'a option) \<Rightarrow> 'a \<Rightarrow> 'a option" where
  "iter_option 0 f a = Some a"
| "iter_option (Suc n) f a = Option.bind (f a) (iter_option n f)"

section \<open>Lists of labelled entries\<close>

text \<open>
  A bounded vector of entries with an identifier is searched with \<open>iter().find\<close>, changed in
  place at the first entry with the identifier, and filtered with \<open>retain\<close>.
\<close>

fun update_first :: "('a \<Rightarrow> bool) \<Rightarrow> ('a \<Rightarrow> 'a) \<Rightarrow> 'a list \<Rightarrow> 'a list" where
  "update_first p f [] = []"
| "update_first p f (x # xs) = (if p x then f x # xs else x # update_first p f xs)"

lemma find_Some_update_first:
  "find p xs = Some x \<Longrightarrow> p (f x) \<Longrightarrow> find p (update_first p f xs) = Some (f x)"
  by (induction xs) (auto split: if_splits)

lemma find_update_first_other:
  "(\<And>x. p x \<Longrightarrow> \<not> q x) \<Longrightarrow> (\<And>x. p x \<Longrightarrow> \<not> q (f x)) \<Longrightarrow> find q (update_first p f xs) = find q xs"
  by (induction xs) auto

lemma length_update_first [simp]: "length (update_first p f xs) = length xs"
  by (induction xs) auto

lemma map_update_first: "(\<And>x. p x \<Longrightarrow> g (f x) = g x) \<Longrightarrow> map g (update_first p f xs) = map g xs"
  by (induction xs) auto

lemma sum_list_update_first:
  fixes w :: "'a \<Rightarrow> nat"
  assumes "find p xs = Some x"
  shows "sum_list (map w (update_first p f xs)) + w x = sum_list (map w xs) + w (f x)"
  using assms by (induction xs) (auto split: if_splits)

lemma find_None_ex: "find p xs = None \<longleftrightarrow> \<not> (\<exists>x \<in> set xs. p x)"
  by (auto simp: find_None_iff)

lemma ex_find_Some: "(\<exists>x \<in> set xs. p x) \<longleftrightarrow> (\<exists>x. find p xs = Some x)"
  by (metis find_None_ex not_Some_eq)

lemma find_Some_in: "find p xs = Some x \<Longrightarrow> x \<in> set xs \<and> p x"
  by (auto simp: find_Some_iff)

lemma find_append: "find p (xs @ ys) = (case find p xs of None \<Rightarrow> find p ys | Some x \<Rightarrow> Some x)"
  by (induction xs) auto

lemma sum_list_le_member: "x \<in> set xs \<Longrightarrow> (w x :: nat) \<le> sum_list (map w xs)"
  by (simp add: member_le_sum_list)

end
