(* ===== verification/XpTypes.thy ===== *)
theory XpTypes
  imports Prelude
begin

text \<open>
  Data of the XP pallet: the structures of \<open>pallets/xp/src/types.rs\<close>, the errors, events and
  storage items of \<open>pallets/xp/src/lib.rs\<close>, and the trait errors of \<open>frame/suite/src/xp.rs\<close>.

  The widths are the ones the runtime chooses (\<open>runtime/src/configs/mod.rs\<close>): \<open>Xp = Balance = u128\<close>,
  \<open>Pulse = BlockNumber = u32\<close>. Accounts and XP keys share one type \<open>'k\<close>; the reserve and lock
  reasons are the finite types \<open>'r\<close> and \<open>'l\<close>, whose number of variants is \<open>CARD('r)\<close>, \<open>CARD('l)\<close>.
  The listener \<open>Extensions\<close> is the runtime's \<open>Ignore\<close>, whose hooks are empty, so hooks only
  deposit events.
\<close>

section \<open>Scalars and structures\<close>

type_synonym points = u128
type_synonym pulse = u32
type_synonym block_number = u32

record accumulator =
  acc_value :: pulse
  acc_step :: pulse

record stepper =
  st_threshold :: pulse
  st_per_count :: pulse

record xp =
  xp_free :: points
  xp_reserve :: points
  xp_lock :: points
  xp_pulse :: accumulator
  xp_timestamp :: block_number

record 'i id_xp =
  idxp_id :: 'i
  idxp_points :: points

record 'k genesis_acc =
  ga_owner :: 'k
  ga_id :: 'k

datatype force_genesis_config_t =
    SetMinPulse pulse
  | SetInitXp points
  | SetPulseFactor pulse pulse
  | SetMinTimeStamp block_number

datatype xp_eligibility_t = Progressing pulse | Earning

record xp_progress_info =
  pr_level :: pulse
  pr_progress :: pulse
  pr_threshold :: pulse
  pr_per_action :: pulse

record xp_state_info =
  si_liquid :: points
  si_reserved :: points
  si_locked :: points
  si_multiplier :: pulse
  si_eligibility :: xp_eligibility_t

definition stepper_new :: "pulse \<Rightarrow> pulse \<Rightarrow> stepper option" where
  "stepper_new thr per =
     (if per > thr then None else Some \<lparr>st_threshold = thr, st_per_count = per\<rparr>)"

definition accumulator_default :: accumulator where
  "accumulator_default = \<lparr>acc_value = 0, acc_step = 0\<rparr>"

definition stepper_default :: stepper where
  "stepper_default = \<lparr>st_threshold = 50, st_per_count = 10\<rparr>"

section \<open>Errors\<close>

datatype pallet_error =
    XpNotFound | XpNotDead | InvalidXpOwner | AlreadyXpOwner | CannotReapLockedXp
  | XpLockExists | CannotGenerateXpKey | CannotTransferXp | LowPulseThreshold
  | InsufficientLiquidXp | TooManyLocks | TooManyReserves | XpLockNotFound
  | XpReserveNotFound | InvalidMinTimeStamp | LowTimeStamp | XpNotReaped
  | ReputationDeriveOverflowed | XpCapOverflowed | XpCapUnderflowed | XpComputationError
  | CannotLockZero | CannotReserveZero | XpAlreadyReaped | InsufficientReserveXp
  | XpReserveCapOverflowed | XpReserveCapUnderflowed
  | XpLockCapOverflowed | XpLockCapUnderflowed

text \<open>
  \<open>DispatchError\<close> as far as the pallet uses it: its own module error, the token error of
  \<open>sp_runtime\<close> that \<open>fungible.rs\<close> raises, and an error it only passes on (from the origin
  check or from a dispatched call).
\<close>

datatype dispatch_error = Module pallet_error | FundsUnavailable | Foreign nat

datatype suite_xp_error =
    XE_XpNotFound | XE_XpReserveNotFound | XE_XpLockNotFound | XE_InsufficientLiquidXp
  | XE_TooManyReserves | XE_TooManyLocks | XE_CannotLockZero | XE_CannotReserveZero
  | XE_XpAlreadyReaped | XE_XpNotDead | XE_CannotReapLockedXp | XE_InsufficientReserveXp
  | XE_XpCapOverflowed | XE_XpCapUnderflowed | XE_XpReserveCapOverflowed
  | XE_XpReserveCapUnderflowed | XE_XpLockCapOverflowed | XE_XpLockCapUnderflowed

fun from_xp_error :: "suite_xp_error \<Rightarrow> dispatch_error" where
  "from_xp_error XE_XpNotFound = Module XpNotFound"
| "from_xp_error XE_XpReserveNotFound = Module XpReserveNotFound"
| "from_xp_error XE_XpLockNotFound = Module XpLockNotFound"
| "from_xp_error XE_InsufficientLiquidXp = Module InsufficientLiquidXp"
| "from_xp_error XE_TooManyReserves = Module TooManyReserves"
| "from_xp_error XE_TooManyLocks = Module TooManyLocks"
| "from_xp_error XE_CannotLockZero = Module CannotLockZero"
| "from_xp_error XE_CannotReserveZero = Module CannotReserveZero"
| "from_xp_error XE_XpAlreadyReaped = Module XpAlreadyReaped"
| "from_xp_error XE_XpNotDead = Module XpNotDead"
| "from_xp_error XE_CannotReapLockedXp = Module CannotReapLockedXp"
| "from_xp_error XE_InsufficientReserveXp = Module InsufficientReserveXp"
| "from_xp_error XE_XpCapOverflowed = Module XpCapOverflowed"
| "from_xp_error XE_XpCapUnderflowed = Module XpCapUnderflowed"
| "from_xp_error XE_XpReserveCapOverflowed = Module XpReserveCapOverflowed"
| "from_xp_error XE_XpReserveCapUnderflowed = Module XpReserveCapUnderflowed"
| "from_xp_error XE_XpLockCapOverflowed = Module XpLockCapOverflowed"
| "from_xp_error XE_XpLockCapUnderflowed = Module XpLockCapUnderflowed"

section \<open>Events and storage\<close>

datatype ('k, 'r, 'l) event =
    EvXp 'k points
  | EvXpOwner 'k 'k
  | EvXpOfOwner 'k "'k list"
  | EvXpEarn 'k points
  | EvXpReap 'k
  | EvXpSlash 'k points
  | EvXpLock 'k 'l points
  | EvXpLockBurn 'k 'l
  | EvXpLockSlash 'k 'l points
  | EvXpReserve 'k 'r points
  | EvXpReserveSlash 'k 'r points
  | EvGenesisConfigUpdated force_genesis_config_t

text \<open>
  The storage of one pallet instance. \<open>Events\<close> is the sequence of events handed to
  \<open>deposit_event\<close>; \<open>EmitEvents\<close> is the constant of \<open>Config\<close>; \<open>block_number\<close> is the one
  of \<open>frame_system\<close>. \<open>XpOwners\<close> is a double map to the unit value, hence a set of pairs.
\<close>

record ('k, 'r, 'l) store =
  XpOf :: "'k \<rightharpoonup> xp"
  XpOwners :: "('k \<times> 'k) set"
  ReservedXpOf :: "'k \<rightharpoonup> 'r id_xp list"
  LockedXpOf :: "'k \<rightharpoonup> 'l id_xp list"
  ReapedXp :: "'k set"
  MinPulse :: pulse
  InitXp :: points
  PulseFactor :: stepper
  MinTimeStamp :: block_number
  block_number :: block_number
  EmitEvents :: bool
  Events :: "('k, 'r, 'l) event list"

type_synonym ('k, 'r, 'l, 'a) xp_op = "(('k, 'r, 'l) store, dispatch_error, 'a) op"

definition xp_default :: "('k, 'r, 'l) store \<Rightarrow> xp" where
  "xp_default s = \<lparr>xp_free = InitXp s, xp_reserve = 0, xp_lock = 0,
     xp_pulse = accumulator_default, xp_timestamp = block_number s\<rparr>"

definition deposit_event :: "('k, 'r, 'l) event \<Rightarrow> ('k, 'r, 'l, unit) xp_op" where
  "deposit_event ev = modify (\<lambda>s. s\<lparr>Events := Events s @ [ev]\<rparr>)"

text \<open>The common body of the hooks: an event if \<open>EmitEvents\<close> is set.\<close>

definition emit :: "('k, 'r, 'l) event \<Rightarrow> ('k, 'r, 'l, unit) xp_op" where
  "emit ev = (\<lambda>s. if EmitEvents s then deposit_event ev s else (Inr (), s))"

text \<open>
  \<open>StorageMap::mutate\<close> on \<open>XpOf\<close> with a closure that first requires the entry: the value is
  written back whatever the closure returns.
\<close>

definition mutate_xp ::
    "'k \<Rightarrow> (xp \<Rightarrow> (dispatch_error + 'a) \<times> xp) \<Rightarrow> ('k, 'r, 'l, 'a) xp_op" where
  "mutate_xp key f = (\<lambda>s. case XpOf s key of
       None \<Rightarrow> (Inl (Module XpNotFound), s)
     | Some x \<Rightarrow> (fst (f x), s\<lparr>XpOf := (XpOf s)(key \<mapsto> snd (f x))\<rparr>))"

definition put_xp :: "'k \<Rightarrow> xp \<Rightarrow> ('k, 'r, 'l) store \<Rightarrow> ('k, 'r, 'l) store" where
  "put_xp key x s = s\<lparr>XpOf := (XpOf s)(key \<mapsto> x)\<rparr>"

lemma mutate_xp_eval [simp]:
  "XpOf s key = None \<Longrightarrow> mutate_xp key f s = (Inl (Module XpNotFound), s)"
  "XpOf s key = Some x \<Longrightarrow> mutate_xp key f s = (fst (f x), put_xp key (snd (f x)) s)"
  by (simp_all add: mutate_xp_def put_xp_def)

lemma put_xp_sel [simp]:
  "XpOf (put_xp key x s) = (XpOf s)(key \<mapsto> x)"
  "XpOwners (put_xp key x s) = XpOwners s"
  "ReservedXpOf (put_xp key x s) = ReservedXpOf s"
  "LockedXpOf (put_xp key x s) = LockedXpOf s"
  "ReapedXp (put_xp key x s) = ReapedXp s"
  "MinPulse (put_xp key x s) = MinPulse s"
  "InitXp (put_xp key x s) = InitXp s"
  "PulseFactor (put_xp key x s) = PulseFactor s"
  "MinTimeStamp (put_xp key x s) = MinTimeStamp s"
  "block_number (put_xp key x s) = block_number s"
  "EmitEvents (put_xp key x s) = EmitEvents s"
  "Events (put_xp key x s) = Events s"
  by (simp_all add: put_xp_def)

lemma put_xp_twice [simp]: "put_xp key y (put_xp key x s) = put_xp key y s"
  by (simp add: put_xp_def)

text \<open>Events never change what the pallet computes: \<open>ledger\<close> is the storage without them.\<close>

definition ledger :: "('k, 'r, 'l) store \<Rightarrow> ('k, 'r, 'l) store" where
  "ledger s = s\<lparr>Events := []\<rparr>"

lemma emit_cases: "emit ev s = (Inr (), s) \<or> emit ev s = (Inr (), s\<lparr>Events := Events s @ [ev]\<rparr>)"
  by (simp add: emit_def deposit_event_def)

lemma emit_eq: "emit ev s = (Inr (), if EmitEvents s then s\<lparr>Events := Events s @ [ev]\<rparr> else s)"
  by (simp add: emit_def deposit_event_def)

lemma emit_sel [simp]:
  "fst (emit ev s) = Inr ()"
  "XpOf (snd (emit ev s)) = XpOf s"
  "XpOwners (snd (emit ev s)) = XpOwners s"
  "ReservedXpOf (snd (emit ev s)) = ReservedXpOf s"
  "LockedXpOf (snd (emit ev s)) = LockedXpOf s"
  "ReapedXp (snd (emit ev s)) = ReapedXp s"
  "MinPulse (snd (emit ev s)) = MinPulse s"
  "InitXp (snd (emit ev s)) = InitXp s"
  "PulseFactor (snd (emit ev s)) = PulseFactor s"
  "MinTimeStamp (snd (emit ev s)) = MinTimeStamp s"
  "block_number (snd (emit ev s)) = block_number s"
  "EmitEvents (snd (emit ev s)) = EmitEvents s"
  by (simp_all add: emit_eq)

lemma thenO_emit [simp]: "thenO (emit ev) n s = n (snd (emit ev s))"
  by (simp add: thenO_def bindO_def emit_eq)

lemma emit_pair: "emit ev s = (Inr (), snd (emit ev s))"
  by (simp add: emit_eq)

end
