(* ===== verification/XpAccumulator.thy ===== *)
theory XpAccumulator
  imports XpTypes
begin

text \<open>
  The discrete accumulator of the XP pulse (\<open>impl DiscreteAccumulator for Pallet\<close> in
  \<open>pallets/xp/src/xp.rs\<close>) and the contract its callers rely on
  (\<open>frame/suite/src/accumulators.rs\<close>) as the locale \<open>discrete_accumulator\<close>.

  \<open>increment\<close> runs a \<open>while\<close> loop that does not end for a zero threshold, so it is an
  \<open>option\<close>: \<open>None\<close> is "does not return".
\<close>

section \<open>The operations\<close>

partial_function (option) inc_loop :: "pulse \<Rightarrow> pulse \<Rightarrow> pulse \<Rightarrow> (pulse \<times> pulse) option" where
  "inc_loop thr v st =
     (if thr \<le> st then inc_loop thr (sat_add v 1) (sat_sub st thr) else Some (v, st))"

definition increment :: "accumulator \<Rightarrow> stepper \<Rightarrow> accumulator option" where
  "increment accum st =
     map_option (\<lambda>(v, t). \<lparr>acc_value = v, acc_step = t\<rparr>)
       (inc_loop (st_threshold st) (acc_value accum)
          (sat_add (acc_step accum) (st_per_count st)))"

definition decrement :: "accumulator \<Rightarrow> stepper \<Rightarrow> accumulator" where
  "decrement accum st =
     (if acc_step accum \<ge> st_per_count st
      then accum\<lparr>acc_step := sat_sub (acc_step accum) (st_per_count st)\<rparr>
      else let sub_pos = sat_sub (st_per_count st) (acc_step accum);
               deficit = sat_sub (st_threshold st) sub_pos
           in if acc_value accum = 0 then accum\<lparr>acc_step := 0\<rparr>
              else accum\<lparr>acc_value := sat_sub (acc_value accum) 1, acc_step := deficit\<rparr>)"

definition reveal :: "accumulator \<Rightarrow> pulse" where
  "reveal accum = acc_value accum"

section \<open>The loop in closed form\<close>

lemma inc_loop_zero_diverges: "inc_loop 0 v st = None"
proof (rule ccontr)
  assume "inc_loop 0 v st \<noteq> None"
  then obtain r where ret: "inc_loop 0 v st = Some r" by auto
  have "(0 :: pulse) \<noteq> 0"
    by (rule inc_loop.raw_induct [where P = "\<lambda>thr v st r. thr \<noteq> 0", OF _ ret])
       (auto split: if_splits)
  then show False by simp
qed

lemma nat_cap_add: "min (min (a + 1) (M::nat) + k) M = min (a + Suc k) M"
  by simp

lemma inc_loop_closed:
  assumes "thr \<noteq> 0"
  shows "inc_loop thr v st =
           Some (sat_add v (of_nat (unat st div unat thr)), of_nat (unat st mod unat thr))"
  using assms
proof (induction "unat st" arbitrary: v st rule: less_induct)
  case less
  have pos: "0 < unat thr" using less.prems by (simp add: word_unat_eq_iff)
  show ?case
  proof (cases "thr \<le> st")
    case False
    then have lt: "unat st < unat thr" by (simp add: word_le_nat_alt)
    then show ?thesis using False
      by (subst inc_loop.simps) simp
  next
    case True
    then have le: "unat thr \<le> unat st" by (simp add: word_le_nat_alt)
    have st': "unat (sat_sub st thr) = unat st - unat thr" by (simp add: arith_iffs)
    then have smaller: "unat (sat_sub st thr) < unat st" using le pos by simp
    have q: "unat st div unat thr = Suc ((unat st - unat thr) div unat thr)"
      using le pos by (simp add: le_div_geq)
    have m: "unat st mod unat thr = (unat st - unat thr) mod unat thr"
      using le by (simp add: le_mod_geq)
    let ?k = "(unat st - unat thr) div unat thr"
    have kb: "Suc ?k \<le> unat st"
      using q by (metis div_le_dividend)
    have k1: "unat (of_nat ?k :: pulse) = ?k"
      using kb by (intro unat_of_nat_le [of _ st]) simp
    have k2: "unat (of_nat (Suc ?k) :: pulse) = Suc ?k"
      using kb by (rule unat_of_nat_le)
    have "sat_add (sat_add v 1) (of_nat ?k) = sat_add v (of_nat (Suc ?k) :: pulse)"
      unfolding word_unat_eq_iff unat_sat_add k1 k2 using nat_cap_add by simp
    then show ?thesis
      using less.hyps [OF smaller less.prems, of "sat_add v 1"] True
      by (subst inc_loop.simps) (simp add: st' q m)
  qed
qed

lemma increment_None_iff: "increment a st = None \<longleftrightarrow> st_threshold st = 0"
  by (cases "st_threshold st = 0")
     (simp_all add: increment_def inc_loop_zero_diverges inc_loop_closed)

lemma increment_eq:
  assumes "st_threshold st \<noteq> 0"
  shows "increment a st = Some
    \<lparr>acc_value = sat_add (acc_value a)
        (of_nat (unat (sat_add (acc_step a) (st_per_count st)) div unat (st_threshold st))),
     acc_step = of_nat (unat (sat_add (acc_step a) (st_per_count st)) mod unat (st_threshold st))\<rparr>"
  using assms by (simp add: increment_def inc_loop_closed)

text \<open>
  The progress of an accumulator counts steps: \<open>value * threshold + step\<close>. A normalised
  accumulator keeps its step below the threshold.
\<close>

definition progress :: "stepper \<Rightarrow> accumulator \<Rightarrow> nat" where
  "progress st a = unat (acc_value a) * unat (st_threshold st) + unat (acc_step a)"

definition normalised :: "stepper \<Rightarrow> accumulator \<Rightarrow> bool" where
  "normalised st a \<longleftrightarrow> acc_step a < st_threshold st"

lemma increment_values:
  assumes "increment a st = Some a'"
  shows "unat (acc_value a') =
           min (unat (acc_value a) +
                unat (sat_add (acc_step a) (st_per_count st)) div unat (st_threshold st)) (2 ^ 32 - 1)"
    and "unat (acc_step a') = unat (sat_add (acc_step a) (st_per_count st)) mod unat (st_threshold st)"
proof -
  let ?s = "sat_add (acc_step a) (st_per_count st)"
  have thr: "st_threshold st \<noteq> 0" using assms increment_None_iff [of a st] by auto
  have d: "unat (of_nat (unat ?s div unat (st_threshold st)) :: pulse) = unat ?s div unat (st_threshold st)"
    by (rule unat_of_nat_le [of _ ?s]) simp
  have m: "unat (of_nat (unat ?s mod unat (st_threshold st)) :: pulse) = unat ?s mod unat (st_threshold st)"
    by (rule unat_of_nat_le [of _ ?s]) simp
  show "unat (acc_value a') = min (unat (acc_value a) + unat ?s div unat (st_threshold st)) (2 ^ 32 - 1)"
    using assms unat_sat_add [of "acc_value a" "of_nat (unat ?s div unat (st_threshold st))"]
    by (auto simp: increment_eq [OF thr] d)
  show "unat (acc_step a') = unat ?s mod unat (st_threshold st)"
    using assms m by (auto simp: increment_eq [OF thr])
qed

section \<open>The contract of a discrete accumulator\<close>

text \<open>
  What \<open>frame/suite/src/accumulators.rs\<close> asks of an implementation: an accumulator counts
  steps, \<open>increment\<close> adds the steps of one count, \<open>decrement\<close> takes them away and stops at
  zero, and \<open>reveal\<close> is the number of full thresholds. Up to the capacity of the value
  type the accumulator is a counter, whatever its threshold.
\<close>

locale discrete_accumulator =
  fixes inc :: "'a \<Rightarrow> 's \<Rightarrow> 'a option"
    and dec :: "'a \<Rightarrow> 's \<Rightarrow> 'a"
    and rev :: "'a \<Rightarrow> nat"
    and steps :: "'s \<Rightarrow> 'a \<Rightarrow> nat"
    and per :: "'s \<Rightarrow> nat"
    and thr :: "'s \<Rightarrow> nat"
    and cap :: "'s \<Rightarrow> nat"
    and valid :: "'s \<Rightarrow> bool"
    and normal :: "'s \<Rightarrow> 'a \<Rightarrow> bool"
  assumes inc_steps: "valid st \<Longrightarrow> normal st a \<Longrightarrow> steps st a + per st < cap st \<Longrightarrow>
      \<exists>a'. inc a st = Some a' \<and> normal st a' \<and> steps st a' = steps st a + per st"
    and dec_steps: "valid st \<Longrightarrow> normal st a \<Longrightarrow>
      normal st (dec a st) \<and> steps st (dec a st) = steps st a - per st"
    and rev_steps: "normal st a \<Longrightarrow> rev a = steps st a div thr st"
    and steps_inj: "normal st a \<Longrightarrow> normal st b \<Longrightarrow> steps st a = steps st b \<Longrightarrow> a = b"
begin

lemma dec_inc:
  assumes "valid st" "normal st a" "steps st a + per st < cap st"
  shows "\<exists>a'. inc a st = Some a' \<and> dec a' st = a"
proof -
  obtain a' where a': "inc a st = Some a'" "normal st a'" "steps st a' = steps st a + per st"
    using inc_steps [OF assms] by blast
  have "dec a' st = a"
    using dec_steps [OF assms(1) a'(2)] a'(3) assms(2) by (intro steps_inj [of st]) auto
  with a'(1) show ?thesis by blast
qed

lemma inc_many:
  assumes "valid st" "normal st a" "steps st a + n * per st < cap st"
  shows "\<exists>a'. iter_option n (\<lambda>a. inc a st) a = Some a' \<and> normal st a' \<and>
           steps st a' = steps st a + n * per st"
  using assms(2,3)
proof (induction n arbitrary: a)
  case 0 then show ?case by simp
next
  case (Suc n)
  obtain a' where a': "inc a st = Some a'" "normal st a'" "steps st a' = steps st a + per st"
    using inc_steps [OF assms(1) Suc.prems(1)] Suc.prems(2) by auto
  with Suc.IH [OF a'(2)] Suc.prems(2) show ?case by (auto simp: algebra_simps)
qed

lemma rev_many:
  assumes "valid st" "normal st a" "steps st a + n * per st < cap st"
  shows "\<exists>a'. iter_option n (\<lambda>a. inc a st) a = Some a' \<and> normal st a' \<and>
           rev a' = (steps st a + n * per st) div thr st"
  using inc_many [OF assms] rev_steps by metis

end

text \<open>
  A stepper is valid for the pulse when \<open>Stepper::new\<close> accepts it, its threshold is positive
  and a step below the threshold can be raised by the threshold without leaving 32 bits.
\<close>

definition valid_stepper :: "stepper \<Rightarrow> bool" where
  "valid_stepper st \<longleftrightarrow> st_threshold st \<noteq> 0 \<and> st_per_count st \<le> st_threshold st \<and>
     st_threshold st \<le> 2 ^ 31"

definition pulse_cap :: "stepper \<Rightarrow> nat" where
  "pulse_cap st = 2 ^ 32 * unat (st_threshold st)"

lemma increment_progress:
  assumes "valid_stepper st" "normalised st a"
    and "progress st a + unat (st_per_count st) < pulse_cap st"
  shows "\<exists>a'. increment a st = Some a' \<and> normalised st a' \<and>
           progress st a' = progress st a + unat (st_per_count st)"
proof -
  let ?t = "unat (st_threshold st)" and ?p = "unat (st_per_count st)"
  let ?sum = "unat (acc_step a) + ?p"
  have t: "0 < ?t" "?p \<le> ?t" "?t \<le> 2 ^ 31" and lt: "unat (acc_step a) < ?t"
    using assms(1,2)
    by (auto simp: valid_stepper_def normalised_def word_le_nat_alt word_less_nat_alt unat_gt_0)
  obtain a' where a': "increment a st = Some a'"
    using increment_None_iff [of a st] t(1) by (cases "increment a st") auto
  have sum: "unat (sat_add (acc_step a) (st_per_count st)) = ?sum"
    using t lt by (simp add: arith_iffs)
  have "?sum div ?t * ?t + unat (acc_value a) * ?t \<le> progress st a + ?p"
    unfolding progress_def using div_times_less_eq_dividend [of ?sum ?t] by linarith
  then have "(unat (acc_value a) + ?sum div ?t) * ?t < 2 ^ 32 * ?t"
    using assms(3) by (simp add: pulse_cap_def algebra_simps)
  then have fits: "unat (acc_value a) + ?sum div ?t < 2 ^ 32" using t(1) by simp
  have v: "unat (acc_value a') = unat (acc_value a) + ?sum div ?t"
    and s: "unat (acc_step a') = ?sum mod ?t"
    using increment_values [OF a'] fits by (simp_all add: sum)
  have "progress st a' = unat (acc_value a) * ?t + (?sum div ?t * ?t + ?sum mod ?t)"
    by (simp add: progress_def v s algebra_simps)
  also have "\<dots> = progress st a + ?p" by (simp only: div_mult_mod_eq progress_def)
  finally show ?thesis
    using a' s t(1) by (simp add: normalised_def word_less_nat_alt)
qed

lemma decrement_progress:
  assumes "valid_stepper st" "normalised st a"
  shows "normalised st (decrement a st) \<and>
         progress st (decrement a st) = progress st a - unat (st_per_count st)"
proof -
  have t: "unat (st_per_count st) \<le> unat (st_threshold st)" "unat (acc_step a) < unat (st_threshold st)"
    using assms by (simp_all add: valid_stepper_def normalised_def word_le_nat_alt word_less_nat_alt)
  show ?thesis
  proof (cases "unat (acc_value a)")
    case 0
    then have "acc_value a = 0" by (simp add: unat_eq_0)
    then show ?thesis using t
      by (auto simp: decrement_def progress_def normalised_def word_le_nat_alt word_less_nat_alt arith_iffs)
  next
    case (Suc v)
    then have "acc_value a \<noteq> 0" by auto
    then show ?thesis using t Suc
      by (auto simp: decrement_def progress_def normalised_def word_le_nat_alt word_less_nat_alt
          arith_iffs Let_def)
  qed
qed

lemma progress_inj:
  assumes "normalised st a" "normalised st b" "progress st a = progress st b"
  shows "a = b"
proof -
  let ?t = "unat (st_threshold st)"
  have lt: "unat (acc_step a) < ?t" "unat (acc_step b) < ?t"
    using assms(1,2) by (simp_all add: normalised_def word_less_nat_alt)
  have "unat (acc_value a) = progress st a div ?t" "unat (acc_value b) = progress st b div ?t"
    "unat (acc_step a) = progress st a mod ?t" "unat (acc_step b) = progress st b mod ?t"
    using lt by (simp_all add: progress_def)
  with assms(3) show ?thesis by (simp add: word_unat_eq_iff)
qed

interpretation pulse: discrete_accumulator increment decrement "\<lambda>a. unat (reveal a)" progress
  "\<lambda>st. unat (st_per_count st)" "\<lambda>st. unat (st_threshold st)" pulse_cap valid_stepper normalised
proof (unfold_locales, goal_cases)
  case (1 st a) then show ?case by (rule increment_progress)
next
  case (2 st a) then show ?case by (rule decrement_progress)
next
  case (3 st a)
  then show ?case by (simp add: reveal_def progress_def normalised_def word_less_nat_alt)
next
  case (4 st a b) then show ?case by (rule progress_inj)
qed

section \<open>Properties\<close>

text \<open>
  An increment under a non-zero threshold returns; the value grows by the number of full
  thresholds in the stepped counter (capped at the maximal pulse), the rest stays below the
  threshold. Under a zero threshold it never returns.
\<close>

theorem increment_total_spec:
  "case increment a st of
     None \<Rightarrow> st_threshold st = 0
   | Some a' \<Rightarrow> st_threshold st \<noteq> 0 \<and> acc_step a' < st_threshold st \<and>
       unat (acc_step a') = min (unat (acc_step a) + unat (st_per_count st)) (2 ^ 32 - 1)
                              mod unat (st_threshold st) \<and>
       unat (acc_value a') = min (unat (acc_value a) +
           min (unat (acc_step a) + unat (st_per_count st)) (2 ^ 32 - 1) div unat (st_threshold st))
           (2 ^ 32 - 1)"
proof (cases "increment a st")
  case None then show ?thesis using increment_None_iff [of a st] by simp
next
  case (Some a')
  then have thr: "st_threshold st \<noteq> 0" using increment_None_iff [of a st] by auto
  then have "unat (acc_step a') < unat (st_threshold st)"
    using increment_values(2) [OF Some] by (simp add: unat_gt_0)
  then show ?thesis
    using Some thr increment_values [OF Some] by (simp add: arith_iffs word_less_nat_alt)
qed

text \<open>
  A decrement takes back an increment exactly: under a valid stepper and below the pulse
  capacity, decrementing the incremented accumulator gives the accumulator back.
\<close>

theorem decrement_increment:
  assumes "valid_stepper st" "normalised st a"
    and "progress st a + unat (st_per_count st) < pulse_cap st"
  shows "\<exists>a'. increment a st = Some a' \<and> decrement a' st = a"
  using assms by (rule pulse.dec_inc)

lemma decrement_increment_witness:
  "\<exists>a'. increment \<lparr>acc_value = 2, acc_step = 45\<rparr> stepper_default = Some a' \<and>
        decrement a' stepper_default = \<lparr>acc_value = 2, acc_step = 45\<rparr>"
  by (rule decrement_increment)
     (simp_all add: valid_stepper_def normalised_def progress_def pulse_cap_def stepper_default_def
        word_le_nat_alt word_less_nat_alt)

text \<open>
  A repeated action earns pulse at the rate of the stepper: after \<open>n\<close> increments the
  revealed pulse is the number of thresholds in the starting progress plus \<open>n\<close> counts.
\<close>

theorem increments_reveal:
  assumes "valid_stepper st" "normalised st a"
    and "progress st a + n * unat (st_per_count st) < pulse_cap st"
  shows "\<exists>a'. iter_option n (\<lambda>a. increment a st) a = Some a' \<and> normalised st a' \<and>
           unat (reveal a') = (progress st a + n * unat (st_per_count st)) div unat (st_threshold st)"
  using assms by (rule pulse.rev_many)

lemma increments_reveal_witness:
  "\<exists>a'. iter_option 7 (\<lambda>a. increment a stepper_default) accumulator_default = Some a' \<and>
        normalised stepper_default a' \<and>
        unat (reveal a') = (progress stepper_default accumulator_default +
           7 * unat (st_per_count stepper_default)) div unat (st_threshold stepper_default)"
  by (rule increments_reveal)
     (simp_all add: valid_stepper_def normalised_def progress_def pulse_cap_def stepper_default_def
        accumulator_default_def word_le_nat_alt word_less_nat_alt)

text \<open>
  \<open>Stepper::new\<close> refuses only a count above the threshold; the single stepper it accepts
  that makes an increment diverge is the all-zero one.
\<close>

theorem stepper_new_divergence:
  assumes "stepper_new thr per = Some st"
  shows "increment a st = None \<longleftrightarrow> thr = 0 \<and> per = 0"
  using assms by (auto simp: stepper_new_def increment_None_iff word_gt_0 split: if_splits)

lemma stepper_new_divergence_witness:
  "increment accumulator_default \<lparr>st_threshold = 0, st_per_count = 0\<rparr> = None"
  using stepper_new_divergence [of 0 0 "\<lparr>st_threshold = 0, st_per_count = 0\<rparr>" accumulator_default]
  by (simp add: stepper_new_def)

end
