(* ===== verification/XpCore.thy ===== *)
theory XpCore
  imports XpAccumulator
begin

text \<open>
  Queries, ownership and mutation of XP entries: the \<open>XpSystem\<close>, \<open>XpOwner\<close> and \<open>XpMutate\<close>
  implementations of \<open>pallets/xp/src/xp.rs\<close> together with the default methods they inherit
  from \<open>frame/suite/src/xp.rs\<close> (\<open>transfer_owner\<close>, \<open>create_xp\<close>, \<open>slash_xp\<close>, \<open>reset_xp\<close>).

  \<open>earn_xp\<close> runs the accumulator's loop inside the storage closure, so it is an \<open>option\<close>:
  \<open>None\<close> says that the call does not return.
\<close>

section \<open>XpSystem\<close>

definition xp_exists :: "'k \<Rightarrow> ('k, 'r, 'l) store \<Rightarrow> dispatch_error + unit" where
  "xp_exists key s = ensureE (XpOf s key \<noteq> None) (Module XpNotFound)"

definition get_xp :: "'k \<Rightarrow> ('k, 'r, 'l) store \<Rightarrow> dispatch_error + xp" where
  "get_xp key s = (case XpOf s key of None \<Rightarrow> Inl (Module XpNotFound) | Some x \<Rightarrow> Inr x)"

definition has_minimum_xp :: "'k \<Rightarrow> ('k, 'r, 'l) store \<Rightarrow> dispatch_error + unit" where
  "has_minimum_xp key s =
     bindE (get_xp key s) (\<lambda>x. ensureE (xp_timestamp x \<ge> MinTimeStamp s) (Module LowTimeStamp))"

definition get_liquid_xp :: "'k \<Rightarrow> ('k, 'r, 'l) store \<Rightarrow> dispatch_error + points" where
  "get_liquid_xp key s = bindE (get_xp key s) (\<lambda>x. Inr (xp_free x))"

definition get_usable_xp :: "'k \<Rightarrow> ('k, 'r, 'l) store \<Rightarrow> dispatch_error + points" where
  "get_usable_xp key s = bindE (get_xp key s) (\<lambda>x. Inr (sat_add (xp_free x) (xp_reserve x)))"

section \<open>XpOwner\<close>

definition is_owner :: "'k \<Rightarrow> 'k \<Rightarrow> ('k, 'r, 'l) store \<Rightarrow> dispatch_error + unit" where
  "is_owner owner key s = ensureE ((owner, key) \<in> XpOwners s) (Module InvalidXpOwner)"

text \<open>
  The order in which a storage prefix is iterated is the order of the hashed keys, which the
  storage layer decides: \<open>iter_prefix\<close> lists the keys stored under an owner.
\<close>

definition xp_of_owner ::
    "(('k \<times> 'k) set \<Rightarrow> 'k \<Rightarrow> 'k list) \<Rightarrow> 'k \<Rightarrow> ('k, 'r, 'l) store \<Rightarrow> dispatch_error + 'k list" where
  "xp_of_owner iter_prefix owner s = Inr (iter_prefix (XpOwners s) owner)"

definition set_owner :: "'k \<Rightarrow> 'k \<Rightarrow> 'k \<Rightarrow> ('k, 'r, 'l, unit) xp_op" where
  "set_owner owner key new_owner =
     modify (\<lambda>s. s\<lparr>XpOwners := insert (new_owner, key) (XpOwners s - {(owner, key)})\<rparr>)"

definition on_xp_transfer :: "'k \<Rightarrow> 'k \<Rightarrow> ('k, 'r, 'l, unit) xp_op" where
  "on_xp_transfer key new_owner = emit (EvXpOwner key new_owner)"

definition transfer_owner :: "'k \<Rightarrow> 'k \<Rightarrow> 'k \<Rightarrow> ('k, 'r, 'l, unit) xp_op" where
  "transfer_owner owner key new_owner =
     thenO (readE (is_owner owner key))
       (if owner = new_owner then ret ()
        else thenO (set_owner owner key new_owner) (on_xp_transfer key new_owner))"

section \<open>XpMutate\<close>

definition init_xp :: "('k, 'r, 'l) store \<Rightarrow> points" where
  "init_xp s = InitXp s"

definition new_xp :: "'k \<Rightarrow> 'k \<Rightarrow> ('k, 'r, 'l, unit) xp_op" where
  "new_xp owner key = modify (\<lambda>s. s\<lparr>XpOf := (XpOf s)(key \<mapsto> xp_default s),
                                     XpOwners := insert (owner, key) (XpOwners s)\<rparr>)"

definition set_xp :: "'k \<Rightarrow> points \<Rightarrow> ('k, 'r, 'l, unit) xp_op" where
  "set_xp key p = mutate_xp key (\<lambda>x. (Inr (), x\<lparr>xp_free := p\<rparr>))"

definition on_xp_create :: "'k \<Rightarrow> 'k \<Rightarrow> ('k, 'r, 'l, unit) xp_op" where
  "on_xp_create key owner = emit (EvXpOwner key owner)"

definition on_xp_update :: "'k \<Rightarrow> points \<Rightarrow> ('k, 'r, 'l, unit) xp_op" where
  "on_xp_update key p = emit (EvXp key p)"

definition on_xp_earn :: "'k \<Rightarrow> points \<Rightarrow> ('k, 'r, 'l, unit) xp_op" where
  "on_xp_earn key p = emit (EvXpEarn key p)"

definition on_xp_slash :: "'k \<Rightarrow> points \<Rightarrow> ('k, 'r, 'l, unit) xp_op" where
  "on_xp_slash key p = emit (EvXpSlash key p)"

definition create_xp :: "'k \<Rightarrow> 'k \<Rightarrow> ('k, 'r, 'l, unit) xp_op" where
  "create_xp owner key =
     thenO (new_xp owner key)
       (bindO (gets init_xp) (\<lambda>init.
          thenO (set_xp key init) (on_xp_create key owner)))"

definition reset_xp :: "'k \<Rightarrow> ('k, 'r, 'l, points) xp_op" where
  "reset_xp key =
     thenO (readE (xp_exists key))
       (bindO (readE (get_liquid_xp key)) (\<lambda>liquid.
          thenO (set_xp key 0)
            (thenO (on_xp_update key 0) (ret liquid))))"

definition slash_xp :: "'k \<Rightarrow> points \<Rightarrow> ('k, 'r, 'l, points) xp_op" where
  "slash_xp key p =
     thenO (readE (xp_exists key))
       (bindO (readE (get_liquid_xp key)) (\<lambda>liquid.
          if liquid \<ge> p
          then thenO (set_xp key (sat_sub liquid p))
                 (thenO (on_xp_slash key p) (ret p))
          else bindO (reset_xp key) (\<lambda>burn.
                 thenO (on_xp_slash key liquid) (ret burn))))"

text \<open>\<open>has_lock\<close> of \<open>XpLock\<close> stands here because \<open>earn_xp\<close> reads it.\<close>

definition has_lock :: "'k \<Rightarrow> ('k, 'r, 'l) store \<Rightarrow> dispatch_error + unit" where
  "has_lock key s = (case LockedXpOf s key of
       None \<Rightarrow> Inl (Module XpLockNotFound)
     | Some locks \<Rightarrow> if length locks = 0 then Inl (Module XpLockNotFound) else Inr ())"

text \<open>
  The closure of \<open>earn_xp\<close> on the stored value: block height, \<open>MinPulse\<close>, \<open>PulseFactor\<close> and
  the presence of a lock are read from storage. The value is written back with errors too.
\<close>

definition earn_value ::
    "block_number \<Rightarrow> pulse \<Rightarrow> stepper \<Rightarrow> bool \<Rightarrow> points \<Rightarrow> xp \<Rightarrow>
     ((dispatch_error + points) \<times> xp) option" where
  "earn_value now minp factor locked p x =
     (if now \<le> xp_timestamp x \<and> acc_value (xp_pulse x) \<ge> minp then
        (case checked_add (xp_free x) p of
           None \<Rightarrow> Some (Inl (Module XpCapOverflowed), x)
         | Some n \<Rightarrow> Some (Inr (sat_sub n (xp_free x)), x\<lparr>xp_free := n\<rparr>))
      else let x = x\<lparr>xp_timestamp := now\<rparr> in
        if acc_value (xp_pulse x) < minp then
          map_option (\<lambda>pulse. (Inr 0, x\<lparr>xp_pulse := pulse\<rparr>)) (increment (xp_pulse x) factor)
        else (case checked_mul p (ucast (acc_value (xp_pulse x))) of
            None \<Rightarrow> Some (Inl (Module ReputationDeriveOverflowed), x)
          | Some multiplied \<Rightarrow>
        (case checked_add multiplied (xp_free x) of
            None \<Rightarrow> Some (Inl (Module XpCapOverflowed), x)
          | Some n \<Rightarrow>
        (case checked_sub n (xp_free x) of
            None \<Rightarrow> Some (Inl (Module XpComputationError), x)
          | Some actual \<Rightarrow>
              let x = x\<lparr>xp_free := n\<rparr> in
              if locked
              then map_option (\<lambda>pulse. (Inr actual, x\<lparr>xp_pulse := pulse\<rparr>))
                     (increment (xp_pulse x) factor)
              else Some (Inr actual, x)))))"

definition earn_xp ::
    "'k \<Rightarrow> points \<Rightarrow> ('k, 'r, 'l) store \<Rightarrow>
     ((dispatch_error + points) \<times> ('k, 'r, 'l) store) option" where
  "earn_xp key p s = (case XpOf s key of
       None \<Rightarrow> Some (Inl (Module XpNotFound), s)
     | Some x \<Rightarrow>
         map_option
           (\<lambda>(r, x'). case r of
               Inl e \<Rightarrow> (Inl e, put_xp key x' s)
             | Inr actual \<Rightarrow> thenO (on_xp_earn key actual) (ret actual) (put_xp key x' s))
           (earn_value (block_number s) (MinPulse s) (PulseFactor s) (is_ok (has_lock key s)) p x))"

definition quote_earn_xp :: "'k \<Rightarrow> points \<Rightarrow> ('k, 'r, 'l) store \<Rightarrow> dispatch_error + points" where
  "quote_earn_xp key p s =
     bindE (ok_orE (Module XpNotFound) (XpOf s key)) (\<lambda>x.
       if block_number s \<le> xp_timestamp x \<and> acc_value (xp_pulse x) \<ge> MinPulse s then Inr p
       else if acc_value (xp_pulse x) < MinPulse s then Inr 0
       else ok_orE (Module ReputationDeriveOverflowed)
              (checked_mul p (ucast (acc_value (xp_pulse x)))))"

section \<open>Evaluation of the operations\<close>

lemma xp_exists_iff [simp]: "is_ok (xp_exists key s) \<longleftrightarrow> XpOf s key \<noteq> None"
  by (simp add: xp_exists_def ensureE_def)

lemma xp_exists_eval [simp]:
  "XpOf s key = Some x \<Longrightarrow> xp_exists key s = Inr ()"
  "XpOf s key = None \<Longrightarrow> xp_exists key s = Inl (Module XpNotFound)"
  by (simp_all add: xp_exists_def)

lemma get_xp_eval [simp]:
  "XpOf s key = Some x \<Longrightarrow> get_xp key s = Inr x"
  "XpOf s key = None \<Longrightarrow> get_xp key s = Inl (Module XpNotFound)"
  by (simp_all add: get_xp_def)

lemma get_liquid_xp_eval [simp]:
  "XpOf s key = Some x \<Longrightarrow> get_liquid_xp key s = Inr (xp_free x)"
  "XpOf s key = None \<Longrightarrow> get_liquid_xp key s = Inl (Module XpNotFound)"
  by (simp_all add: get_liquid_xp_def)

lemma get_usable_xp_eval [simp]:
  "XpOf s key = Some x \<Longrightarrow> get_usable_xp key s = Inr (sat_add (xp_free x) (xp_reserve x))"
  "XpOf s key = None \<Longrightarrow> get_usable_xp key s = Inl (Module XpNotFound)"
  by (simp_all add: get_usable_xp_def)

lemma set_xp_eval [simp]:
  "XpOf s key = Some x \<Longrightarrow> set_xp key p s = (Inr (), put_xp key (x\<lparr>xp_free := p\<rparr>) s)"
  "XpOf s key = None \<Longrightarrow> set_xp key p s = (Inl (Module XpNotFound), s)"
  by (simp_all add: set_xp_def)

lemma thenO_set_xp [simp]:
  "XpOf s key = Some x \<Longrightarrow> thenO (set_xp key p) n s = n (put_xp key (x\<lparr>xp_free := p\<rparr>) s)"
  by (simp add: thenO_eval)

lemma thenO_hook [simp]:
  "thenO (on_xp_transfer key owner) n s = n (snd (on_xp_transfer key owner s))"
  "thenO (on_xp_create key owner) n s = n (snd (on_xp_create key owner s))"
  "thenO (on_xp_update key p) n s = n (snd (on_xp_update key p s))"
  "thenO (on_xp_earn key p) n s = n (snd (on_xp_earn key p s))"
  "thenO (on_xp_slash key p) n s = n (snd (on_xp_slash key p s))"
  by (simp_all add: on_xp_transfer_def on_xp_create_def on_xp_update_def on_xp_earn_def on_xp_slash_def)

lemmas hook_defs = on_xp_transfer_def on_xp_create_def on_xp_update_def on_xp_earn_def on_xp_slash_def

lemma emit_put_xp [simp]: "put_xp key x (snd (emit ev s)) = snd (emit ev (put_xp key x s))"
  by (simp add: emit_eq put_xp_def)

lemma reset_xp_eval [simp]:
  "XpOf s key = Some x \<Longrightarrow> reset_xp key s =
     (Inr (xp_free x), snd (emit (EvXp key 0) (put_xp key (x\<lparr>xp_free := 0\<rparr>) s)))"
  "XpOf s key = None \<Longrightarrow> reset_xp key s = (Inl (Module XpNotFound), s)"
  by (simp_all add: reset_xp_def on_xp_update_def)

lemma slash_xp_None [simp]:
  "XpOf s key = None \<Longrightarrow> slash_xp key p s = (Inl (Module XpNotFound), s)"
  by (simp add: slash_xp_def)

lemma slash_xp_eval:
  assumes "XpOf s key = Some x"
  shows "fst (slash_xp key p s) = Inr (min (xp_free x) p)"
    and "XpOf (snd (slash_xp key p s)) = (XpOf s)(key \<mapsto> x\<lparr>xp_free := sat_sub (xp_free x) p\<rparr>)"
proof -
  have cap: "\<not> p \<le> xp_free x \<Longrightarrow> sat_sub (xp_free x) p = 0" by (simp add: sat_sub_def)
  show "fst (slash_xp key p s) = Inr (min (xp_free x) p)"
    using assms by (auto simp: slash_xp_def on_xp_slash_def bindO_def min_def)
  show "XpOf (snd (slash_xp key p s)) = (XpOf s)(key \<mapsto> x\<lparr>xp_free := sat_sub (xp_free x) p\<rparr>)"
    using assms cap by (auto simp: slash_xp_def on_xp_slash_def bindO_def)
qed

lemma has_lock_iff [simp]:
  "is_ok (has_lock key s) \<longleftrightarrow> (\<exists>es. LockedXpOf s key = Some es \<and> es \<noteq> [])"
  by (simp add: has_lock_def split: option.split)

section \<open>Earning\<close>

lemma unat_ucast_pulse: "unat (ucast (v :: pulse) :: points) = unat v"
  by (rule unsigned_ucast_eq [THEN trans])
     (simp add: take_bit_nat_eq_self less_le_trans [OF unat_bound [of v]])

lemma add_sub_exact: "checked_add m f = Some n \<Longrightarrow> checked_sub n f = Some m"
  by (simp add: arith_iffs)

lemma add_sat_sub: "checked_add f p = Some n \<Longrightarrow> sat_sub n f = p"
  by (simp add: arith_iffs word_unat_eq_iff)

lemma earn_value_None_iff:
  "earn_value now minp factor locked p x = None \<longleftrightarrow>
     st_threshold factor = 0 \<and>
     (acc_value (xp_pulse x) < minp \<or>
      locked \<and> now > xp_timestamp x \<and>
        unat p * unat (acc_value (xp_pulse x)) + unat (xp_free x) < 2 ^ 128)"
proof (cases "acc_value (xp_pulse x) < minp")
  case True
  then show ?thesis by (auto simp: earn_value_def increment_None_iff)
next
  case False
  then have warm: "\<not> acc_value (xp_pulse x) < minp" "minp \<le> acc_value (xp_pulse x)" by simp_all
  show ?thesis
  proof (cases "now \<le> xp_timestamp x")
    case True
    then show ?thesis using warm by (auto simp: earn_value_def split: option.split)
  next
    case early: False
    let ?m = "checked_mul p (ucast (acc_value (xp_pulse x)))"
    show ?thesis
    proof (cases ?m)
      case None
      then have "2 ^ 128 \<le> unat p * unat (acc_value (xp_pulse x))"
        by (simp add: arith_iffs unat_ucast_pulse)
      then show ?thesis using warm early None by (simp add: earn_value_def)
    next
      case (Some m)
      then have m: "unat m = unat p * unat (acc_value (xp_pulse x))"
        by (simp add: arith_iffs unat_ucast_pulse)
      show ?thesis
      proof (cases "checked_add m (xp_free x)")
        case None
        then have "2 ^ 128 \<le> unat m + unat (xp_free x)" by (simp add: arith_iffs)
        then show ?thesis using warm early Some None m by (simp add: earn_value_def)
      next
        case (Some n)
        then have "unat m + unat (xp_free x) < 2 ^ 128"
          using unat_bound [of n] by (simp add: arith_iffs)
        then show ?thesis
          using warm early Some \<open>?m = Some m\<close> m
          by (auto simp: earn_value_def Let_def add_sub_exact increment_None_iff)
      qed
    qed
  qed
qed

lemma earn_value_Ok:
  assumes "earn_value now minp factor locked p x = Some (Inr a, x')"
  shows "unat (xp_free x') = unat (xp_free x) + unat a"
    and "xp_reserve x' = xp_reserve x" and "xp_lock x' = xp_lock x"
    and "xp_timestamp x' = max (xp_timestamp x) now \<or>
         xp_timestamp x' = now \<and> acc_value (xp_pulse x) < minp"
  using assms
  by (auto simp: earn_value_def Let_def arith_iffs max_def split: if_splits option.splits)

lemma earn_value_Err:
  assumes "earn_value now minp factor locked p x = Some (Inl e, x')"
  shows "x' = x \<or> x' = x\<lparr>xp_timestamp := now\<rparr>"
    and "e = Module XpCapOverflowed \<or> e = Module ReputationDeriveOverflowed"
  using assms
  by (auto simp: earn_value_def Let_def add_sub_exact split: if_splits option.splits)

lemma earn_value_keeps:
  assumes "earn_value now minp factor locked p x = Some (r, x')"
  shows "xp_reserve x' = xp_reserve x \<and> xp_lock x' = xp_lock x"
  using assms by (cases r) (auto dest: earn_value_Ok earn_value_Err)

lemma earn_xp_None [simp]: "XpOf s key = None \<Longrightarrow> earn_xp key p s = Some (Inl (Module XpNotFound), s)"
  by (simp add: earn_xp_def)

definition earn_call :: "'k \<Rightarrow> points \<Rightarrow> ('k, 'r, 'l) store \<Rightarrow> xp \<Rightarrow> ((dispatch_error + points) \<times> xp) option" where
  "earn_call key p s x =
     earn_value (block_number s) (MinPulse s) (PulseFactor s) (is_ok (has_lock key s)) p x"

lemma earn_xp_cases:
  assumes "XpOf s key = Some x" and "earn_xp key p s = Some (r, t)"
  obtains x' where "earn_call key p s x = Some (r, x')"
    and "t = (case r of Inl _ \<Rightarrow> put_xp key x' s | Inr a \<Rightarrow> snd (emit (EvXpEarn key a) (put_xp key x' s)))"
proof -
  from assms obtain q x' where q: "earn_call key p s x = Some (q, x')"
    by (auto simp: earn_xp_def earn_call_def)
  show thesis
    using that q assms
    by (cases q) (auto simp: earn_xp_def earn_call_def on_xp_earn_def split: sum.splits)
qed

text \<open>
  C21: Earning XP returns for every input unless the pulse factor has a zero threshold: a call on
  an existing key diverges exactly when it would step the pulse (warm-up, or a successful scaled
  award to a key with a lock) under a zero threshold.
\<close>

theorem earn_xp_diverges_iff:
  "earn_xp key p s = None \<longleftrightarrow>
     (\<exists>x. XpOf s key = Some x \<and> st_threshold (PulseFactor s) = 0 \<and>
        (acc_value (xp_pulse x) < MinPulse s \<or>
         is_ok (has_lock key s) \<and> block_number s > xp_timestamp x \<and>
           unat p * unat (acc_value (xp_pulse x)) + unat (xp_free x) < 2 ^ 128))"
  by (cases "XpOf s key") (auto simp: earn_xp_def earn_value_None_iff simp del: has_lock_iff)

text \<open>
  A successful earn credits exactly the reported amount to the liquid balance of the key
  and leaves its reserved and locked totals, every other key, the owners and the reserves and
  locks unchanged.
\<close>

theorem earn_xp_credits:
  assumes "earn_xp key p s = Some (Inr a, t)"
  shows "\<exists>x x'. XpOf s key = Some x \<and> XpOf t = (XpOf s)(key \<mapsto> x') \<and>
           unat (xp_free x') = unat (xp_free x) + unat a \<and>
           xp_reserve x' = xp_reserve x \<and> xp_lock x' = xp_lock x \<and>
           XpOwners t = XpOwners s \<and> ReservedXpOf t = ReservedXpOf s \<and> LockedXpOf t = LockedXpOf s"
proof (cases "XpOf s key")
  case None then show ?thesis using assms by simp
next
  case (Some x)
  from earn_xp_cases [OF Some assms] obtain x' where
    run: "earn_call key p s x = Some (Inr a, x')" and t: "t = snd (emit (EvXpEarn key a) (put_xp key x' s))"
    by auto
  show ?thesis
    using Some t earn_value_Ok [OF run [unfolded earn_call_def]] by (auto intro!: exI [of _ x'])
qed

text \<open>
  The amount a successful \<open>earn_xp\<close> credits is the amount \<open>quote_earn_xp\<close> announces in the
  same state; and \<open>earn_xp\<close> only fails where the quote fails or the balance would overflow.
\<close>

theorem earn_xp_matches_quote:
  assumes "earn_xp key p s = Some (r, t)"
  shows "case r of
      Inr a \<Rightarrow> quote_earn_xp key p s = Inr a
    | Inl e \<Rightarrow> quote_earn_xp key p s = Inl e \<or>
        e = Module XpCapOverflowed \<and>
        (\<exists>x q. XpOf s key = Some x \<and> quote_earn_xp key p s = Inr q \<and> 2 ^ 128 \<le> unat q + unat (xp_free x))"
proof (cases "XpOf s key")
  case None then show ?thesis using assms by (auto simp: quote_earn_xp_def)
next
  case (Some x)
  from earn_xp_cases [OF Some assms] obtain x' where run: "earn_call key p s x = Some (r, x')"
    by auto
  show ?thesis
    using run Some
    by (auto simp: earn_call_def earn_value_def quote_earn_xp_def Let_def add_sub_exact
             add_sat_sub checked_add_None_iff simp del: has_lock_iff split: if_splits option.splits)
qed

text \<open>
  Slashing liquid XP removes and reports \<open>min(liquid, points)\<close>: never more than the
  balance holds, and nothing else of the entry, of other keys or of the reserves and locks moves.
\<close>

theorem slash_xp_exact:
  assumes "XpOf s key = Some x"
  shows "\<exists>t. slash_xp key p s = (Inr (min (xp_free x) p), t) \<and>
           XpOf t = (XpOf s)(key \<mapsto> x\<lparr>xp_free := sat_sub (xp_free x) p\<rparr>) \<and>
           unat (sat_sub (xp_free x) p) + unat (min (xp_free x) p) = unat (xp_free x) \<and>
           ReservedXpOf t = ReservedXpOf s \<and> LockedXpOf t = LockedXpOf s \<and> XpOwners t = XpOwners s"
proof -
  have cap: "sat_sub (xp_free x) p = 0" if "\<not> p \<le> xp_free x" using that by (simp add: sat_sub_def)
  have split: "unat (sat_sub (xp_free x) p) + unat (min (xp_free x) p) = unat (xp_free x)"
    by (auto simp: arith_iffs min_def word_le_nat_alt)
  show ?thesis
    using assms cap split
    by (cases "p \<le> xp_free x") (auto simp: slash_xp_def on_xp_slash_def bindO_def min_def)
qed

lemma set_owner_eval [simp]:
  "set_owner owner key new s = (Inr (), s\<lparr>XpOwners := insert (new, key) (XpOwners s - {(owner, key)})\<rparr>)"
  by (simp add: set_owner_def)

lemma is_owner_iff: "is_owner owner key s = Inr () \<longleftrightarrow> (owner, key) \<in> XpOwners s"
  by (simp add: is_owner_def ensureE_def)

text \<open>
  A transfer succeeds exactly for an owner of the key, and then the owners of the key are
  the old ones with the sender replaced by the recipient; no balance is touched. A refused
  transfer changes nothing.
\<close>

theorem transfer_owner_spec:
  "transfer_owner owner key new s =
     (if (owner, key) \<notin> XpOwners s then (Inl (Module InvalidXpOwner), s)
      else if owner = new then (Inr (), s)
      else (Inr (), snd (emit (EvXpOwner key new)
              (s\<lparr>XpOwners := insert (new, key) (XpOwners s - {(owner, key)})\<rparr>))))"
  by (simp add: transfer_owner_def is_owner_def on_xp_transfer_def thenO_def bindO_def ensureE_def emit_eq)

lemma create_xp_eval:
  "create_xp owner key s =
     (Inr (), snd (emit (EvXpOwner key owner)
        (s\<lparr>XpOf := (XpOf s)(key \<mapsto> xp_default s), XpOwners := insert (owner, key) (XpOwners s)\<rparr>)))"
proof -
  have same: "xp_default s\<lparr>xp_free := InitXp s\<rparr> = xp_default s" by (simp add: xp_default_def)
  show ?thesis
    by (simp add: create_xp_def new_xp_def init_xp_def on_xp_create_def emit_pair [symmetric]
        thenO_def bindO_def set_xp_def mutate_xp_def same)
       (simp add: emit_eq)
qed

end
