(* ===== verification/XpAllocation.thy ===== *)
theory XpAllocation
  imports XpCore
begin

text \<open>
  Reserves and locks are two books of the same kind: a list of labelled entries per key and
  a cached total in the XP entry. This theory has the facts the two share: the entries of a
  book, the agreement \<open>book_ok\<close> between the entries and the totals, the invariant \<open>xp_inv\<close>
  of the whole store, and the contract \<open>allocation\<close> under which points move between the
  liquid balance and a book (\<open>burnable_allocation\<close> when entries can also be removed).
\<close>

section \<open>Entries\<close>

definition entries_of :: "('k \<rightharpoonup> 'i id_xp list) \<Rightarrow> 'k \<Rightarrow> 'i id_xp list" where
  "entries_of m key = (case m key of None \<Rightarrow> [] | Some es \<Rightarrow> es)"

definition entry_of :: "'i \<Rightarrow> 'i id_xp list \<Rightarrow> 'i id_xp option" where
  "entry_of i es = find (\<lambda>e. idxp_id e = i) es"

definition points_of :: "'i \<Rightarrow> 'i id_xp list \<Rightarrow> nat" where
  "points_of i es = (case entry_of i es of None \<Rightarrow> 0 | Some e \<Rightarrow> unat (idxp_points e))"

definition entries_total :: "'i id_xp list \<Rightarrow> nat" where
  "entries_total es = sum_list (map (\<lambda>e. unat (idxp_points e)) es)"

definition set_entry :: "'i \<Rightarrow> points \<Rightarrow> 'i id_xp list \<Rightarrow> 'i id_xp list" where
  "set_entry i p es =
     (if entry_of i es = None then es @ [\<lparr>idxp_id = i, idxp_points = p\<rparr>]
      else update_first (\<lambda>e. idxp_id e = i) (\<lambda>e. e\<lparr>idxp_points := p\<rparr>) es)"

definition drop_entry :: "'i \<Rightarrow> 'i id_xp list \<Rightarrow> 'i id_xp list" where
  "drop_entry i es = filter (\<lambda>e. idxp_id e \<noteq> i) es"

lemma entries_of_simps [simp]:
  "entries_of (m(key \<mapsto> es)) key = es"
  "key' \<noteq> key \<Longrightarrow> entries_of (m(key \<mapsto> es)) key' = entries_of m key'"
  "key' \<noteq> key \<Longrightarrow> entries_of (m(key := None)) key' = entries_of m key'"
  "m key = Some es \<Longrightarrow> entries_of m key = es"
  "m key = None \<Longrightarrow> entries_of m key = []"
  by (simp_all add: entries_of_def)

lemma entries_of_upd:
  "entries_of (m(key := v)) key' =
     (if key' = key then (case v of None \<Rightarrow> [] | Some es \<Rightarrow> es) else entries_of m key')"
  by (simp add: entries_of_def)

lemma entry_of_None_iff: "entry_of i es = None \<longleftrightarrow> i \<notin> set (map idxp_id es)"
  by (auto simp: entry_of_def find_None_iff)

lemma entry_of_SomeD: "entry_of i es = Some e \<Longrightarrow> e \<in> set es \<and> idxp_id e = i"
  unfolding entry_of_def by (drule find_Some_in)

lemma list_ex_entry: "list_ex (\<lambda>e. idxp_id e = i) es \<longleftrightarrow> entry_of i es \<noteq> None"
  by (auto simp: entry_of_def list_ex_iff find_None_iff)

lemma points_of_eq [simp]:
  "entry_of i es = None \<Longrightarrow> points_of i es = 0"
  "entry_of i es = Some e \<Longrightarrow> points_of i es = unat (idxp_points e)"
  by (simp_all add: points_of_def)

lemma entries_total_append [simp]: "entries_total (es @ fs) = entries_total es + entries_total fs"
  by (simp add: entries_total_def)

lemma entries_total_simps [simp]:
  "entries_total [] = 0" "entries_total (e # es) = unat (idxp_points e) + entries_total es"
  by (simp_all add: entries_total_def)

lemma points_of_le_total: "points_of i es \<le> entries_total es"
proof (cases "entry_of i es")
  case (Some e)
  then have "e \<in> set es" by (simp add: entry_of_SomeD)
  then show ?thesis
    using Some sum_list_le_member [of e es "\<lambda>e. unat (idxp_points e)"] by (simp add: entries_total_def)
qed simp

lemma entry_of_set_entry [simp]: "entry_of i (set_entry i p es) = Some \<lparr>idxp_id = i, idxp_points = p\<rparr>"
proof (cases "entry_of i es")
  case None
  then show ?thesis by (simp add: set_entry_def entry_of_def find_append)
next
  case (Some e)
  then have "idxp_id e = i" by (simp add: entry_of_SomeD)
  then have e: "e\<lparr>idxp_points := p\<rparr> = \<lparr>idxp_id = i, idxp_points = p\<rparr>" by simp
  show ?thesis
    using Some find_Some_update_first [of "\<lambda>e. idxp_id e = i" es e "\<lambda>e. e\<lparr>idxp_points := p\<rparr>"] e
      \<open>idxp_id e = i\<close>
    by (simp add: set_entry_def entry_of_def)
qed

lemma entry_of_set_entry_other [simp]: "j \<noteq> i \<Longrightarrow> entry_of j (set_entry i p es) = entry_of j es"
proof -
  assume "j \<noteq> i"
  then have "entry_of j (update_first (\<lambda>e. idxp_id e = i) (\<lambda>e. e\<lparr>idxp_points := p\<rparr>) es) = entry_of j es"
    unfolding entry_of_def by (intro find_update_first_other) auto
  then show ?thesis using \<open>j \<noteq> i\<close>
    by (auto simp: set_entry_def entry_of_def find_append split: option.split)
qed

lemma ids_set_entry:
  "set (map idxp_id (set_entry i p es)) = insert i (set (map idxp_id es))"
proof (cases "entry_of i es = None")
  case False
  then have "i \<in> set (map idxp_id es)" using entry_of_None_iff [of i es] by metis
  then show ?thesis using False
    by (simp add: set_entry_def map_update_first insert_absorb del: set_map)
qed (simp add: set_entry_def)

lemma distinct_set_entry:
  "distinct (map idxp_id es) \<Longrightarrow> distinct (map idxp_id (set_entry i p es))"
  using entry_of_None_iff [of i es] by (auto simp: set_entry_def map_update_first)

lemma total_set_entry:
  "entries_total (set_entry i p es) + points_of i es = entries_total es + unat p"
proof (cases "entry_of i es")
  case (Some e)
  then show ?thesis
    using sum_list_update_first [of "\<lambda>e. idxp_id e = i" es e "\<lambda>e. unat (idxp_points e)" "\<lambda>e. e\<lparr>idxp_points := p\<rparr>"]
    by (simp add: set_entry_def entries_total_def entry_of_def)
qed (simp add: set_entry_def)

lemma entry_of_drop_entry [simp]:
  "entry_of i (drop_entry i es) = None"
  "j \<noteq> i \<Longrightarrow> entry_of j (drop_entry i es) = entry_of j es"
  by (auto simp: entry_of_def drop_entry_def find_None_iff, induction es) auto

lemma distinct_drop_entry:
  "distinct (map idxp_id es) \<Longrightarrow> distinct (map idxp_id (drop_entry i es))"
  by (simp add: drop_entry_def distinct_map_filter)

lemma drop_entry_id: "entry_of i es = None \<Longrightarrow> drop_entry i es = es"
  by (auto simp: entry_of_None_iff drop_entry_def intro!: filter_True)

lemma total_drop_entry:
  "distinct (map idxp_id es) \<Longrightarrow> entries_total (drop_entry i es) + points_of i es = entries_total es"
proof (induction es)
  case (Cons e es)
  show ?case
  proof (cases "idxp_id e = i")
    case True
    then have "drop_entry i es = es"
      using Cons.prems by (intro drop_entry_id) (auto simp: entry_of_None_iff)
    then show ?thesis using True by (simp add: drop_entry_def points_of_def entry_of_def)
  next
    case False
    then show ?thesis using Cons by (simp add: drop_entry_def points_of_def entry_of_def)
  qed
qed (simp add: drop_entry_def points_of_def entry_of_def)

text \<open>Distinct labels of a finite type leave room for a label that is not there.\<close>

lemma entries_room:
  fixes es :: "'i::finite id_xp list"
  assumes "distinct (map idxp_id es)" and "entry_of i es = None"
  shows "length es < CARD('i)"
proof -
  have "set (map idxp_id es) \<subset> UNIV" using assms(2) by (auto simp: entry_of_None_iff)
  then have "card (set (map idxp_id es)) < CARD('i)" by (rule psubset_card_mono [OF finite])
  with distinct_card [OF assms(1)] show ?thesis by simp
qed

section \<open>Books\<close>

text \<open>
  A book agrees with the entries it belongs to: the cached total is the sum of the entries,
  labels are not repeated, and only a key with an XP entry has entries.
\<close>

definition book_ok :: "('k \<rightharpoonup> 'i id_xp list) \<Rightarrow> (xp \<Rightarrow> points) \<Rightarrow> ('k \<rightharpoonup> xp) \<Rightarrow> bool" where
  "book_ok m tot xs \<longleftrightarrow>
     (\<forall>key. distinct (map idxp_id (entries_of m key)) \<and>
        (case xs key of
           None \<Rightarrow> entries_of m key = []
         | Some x \<Rightarrow> unat (tot x) = entries_total (entries_of m key)))"

lemma book_ok_distinct: "book_ok m tot xs \<Longrightarrow> distinct (map idxp_id (entries_of m key))"
  by (simp add: book_ok_def)

lemma book_ok_total:
  "book_ok m tot xs \<Longrightarrow> xs key = Some x \<Longrightarrow> unat (tot x) = entries_total (entries_of m key)"
  unfolding book_ok_def by (drule spec [of _ key]) simp

lemma book_ok_absent: "book_ok m tot xs \<Longrightarrow> xs key = None \<Longrightarrow> entries_of m key = []"
  unfolding book_ok_def by (drule spec [of _ key]) simp

lemma book_okI:
  assumes "\<And>key. distinct (map idxp_id (entries_of m key))"
    and "\<And>key. xs key = None \<Longrightarrow> entries_of m key = []"
    and "\<And>key x. xs key = Some x \<Longrightarrow> unat (tot x) = entries_total (entries_of m key)"
  shows "book_ok m tot xs"
  using assms unfolding book_ok_def by (auto split: option.split)

lemma book_ok_points_le:
  "book_ok m tot xs \<Longrightarrow> xs key = Some x \<Longrightarrow> points_of i (entries_of m key) \<le> unat (tot x)"
  using points_of_le_total by (metis book_ok_total)

lemma book_ok_update:
  assumes "book_ok m tot xs"
    and "distinct (map idxp_id es)" and "unat (tot x) = entries_total es"
  shows "book_ok (m(key \<mapsto> es)) tot (xs(key \<mapsto> x))"
  using assms(2,3) book_ok_distinct [OF assms(1)] book_ok_absent [OF assms(1)] book_ok_total [OF assms(1)]
  by (intro book_okI) (auto simp: entries_of_upd split: if_splits)

lemma book_ok_set:
  assumes "book_ok m tot xs" and "xs key = Some x"
    and "unat (tot x') + points_of i (entries_of m key) = unat (tot x) + unat p"
  shows "book_ok (m(key \<mapsto> set_entry i p (entries_of m key))) tot (xs(key \<mapsto> x'))"
  using assms book_ok_total [OF assms(1,2)] book_ok_distinct [OF assms(1), of key]
    total_set_entry [of i p "entries_of m key"]
  by (intro book_ok_update distinct_set_entry) auto

lemma book_ok_drop:
  assumes "book_ok m tot xs" and "xs key = Some x"
    and "unat (tot x') + points_of i (entries_of m key) = unat (tot x)"
  shows "book_ok (m(key \<mapsto> drop_entry i (entries_of m key))) tot (xs(key \<mapsto> x'))"
  using assms book_ok_total [OF assms(1,2)] book_ok_distinct [OF assms(1), of key]
    total_drop_entry [of "entries_of m key" i]
  by (intro book_ok_update distinct_drop_entry) auto

lemma book_ok_put:
  assumes "book_ok m tot xs" and "xs key = Some x" and "tot x' = tot x"
  shows "book_ok m tot (xs(key \<mapsto> x'))"
  using assms book_ok_total [OF assms(1,2)] unfolding book_ok_def by auto

lemma book_ok_new:
  assumes "book_ok m tot xs" and "xs key = None" and "tot x = 0"
  shows "book_ok m tot (xs(key \<mapsto> x))"
  using assms book_ok_absent [OF assms(1,2)] unfolding book_ok_def by auto

lemma book_ok_remove:
  assumes "book_ok m tot xs"
  shows "book_ok (m(key := None)) tot (xs(key := None))"
  using book_ok_distinct [OF assms(1)] book_ok_absent [OF assms(1)] book_ok_total [OF assms(1)]
  by (intro book_okI) (auto simp: entries_of_upd split: if_splits)

lemma book_ok_forget:
  assumes "book_ok m tot xs" and "entries_of m key = []"
  shows "book_ok m tot (xs(key := None))"
  using assms unfolding book_ok_def by auto

text \<open>
  The invariant of the store: both books agree with the XP entries, and a reaped key has no
  XP entry.
\<close>

definition xp_inv :: "('k, 'r, 'l) store \<Rightarrow> bool" where
  "xp_inv s \<longleftrightarrow> book_ok (ReservedXpOf s) xp_reserve (XpOf s) \<and>
     book_ok (LockedXpOf s) xp_lock (XpOf s) \<and> (\<forall>key \<in> ReapedXp s. XpOf s key = None)"

lemma xp_invI:
  "book_ok (ReservedXpOf s) xp_reserve (XpOf s) \<Longrightarrow> book_ok (LockedXpOf s) xp_lock (XpOf s) \<Longrightarrow>
   (\<And>key. key \<in> ReapedXp s \<Longrightarrow> XpOf s key = None) \<Longrightarrow> xp_inv s"
  by (simp add: xp_inv_def)

lemma xp_invD:
  assumes "xp_inv s"
  shows "book_ok (ReservedXpOf s) xp_reserve (XpOf s)" "book_ok (LockedXpOf s) xp_lock (XpOf s)"
    "key \<in> ReapedXp s \<Longrightarrow> XpOf s key = None"
  using assms by (simp_all add: xp_inv_def)

lemma xp_inv_emit [simp]: "xp_inv (snd (emit ev s)) = xp_inv s"
  by (simp add: xp_inv_def)

lemma xp_inv_put:
  assumes "xp_inv s" "XpOf s key = Some x" "xp_reserve x' = xp_reserve x" "xp_lock x' = xp_lock x"
  shows "xp_inv (put_xp key x' s)"
proof (rule xp_invI)
  show "book_ok (ReservedXpOf (put_xp key x' s)) xp_reserve (XpOf (put_xp key x' s))"
    using assms by (auto intro: book_ok_put xp_invD)
  show "book_ok (LockedXpOf (put_xp key x' s)) xp_lock (XpOf (put_xp key x' s))"
    using assms by (auto intro: book_ok_put xp_invD)
  show "\<And>key'. key' \<in> ReapedXp (put_xp key x' s) \<Longrightarrow> XpOf (put_xp key x' s) key' = None"
    using assms by (auto dest: xp_invD(3))
qed

section \<open>The contract of a book\<close>

text \<open>
  \<open>free\<close> is the liquid balance of a key, \<open>held\<close> the total of the book and \<open>amount\<close> one entry.
  \<open>setf\<close> writes the liquid balance and \<open>seth\<close> one entry; a refused write of an entry leaves the
  state as it was. The trait methods that move points are clients of these laws.
\<close>

locale allocation =
  fixes good :: "'s \<Rightarrow> bool"
    and free :: "'s \<Rightarrow> 'k \<Rightarrow> nat"
    and held :: "'s \<Rightarrow> 'k \<Rightarrow> nat"
    and amount :: "'s \<Rightarrow> 'k \<Rightarrow> 'i \<Rightarrow> nat"
    and setf :: "'k \<Rightarrow> points \<Rightarrow> ('s, 'e, unit) op"
    and seth :: "'k \<Rightarrow> 'i \<Rightarrow> points \<Rightarrow> ('s, 'e, unit) op"
  assumes setf_good: "good s \<Longrightarrow> setf k q s = (Inr u, t) \<Longrightarrow> good t"
    and setf_free: "good s \<Longrightarrow> setf k q s = (Inr u, t) \<Longrightarrow> free t = (free s)(k := unat q)"
    and setf_frame: "good s \<Longrightarrow> setf k q s = (Inr u, t) \<Longrightarrow> held t = held s \<and> amount t = amount s"
    and seth_good: "good s \<Longrightarrow> seth k i q s = (Inr u, t) \<Longrightarrow> good t"
    and seth_held: "good s \<Longrightarrow> seth k i q s = (Inr u, t) \<Longrightarrow>
        held t = (held s)(k := held t k) \<and> held t k + amount s k i = held s k + unat q"
    and seth_amount: "good s \<Longrightarrow> seth k i q s = (Inr u, t) \<Longrightarrow>
        amount t = (amount s)(k := (amount s k)(i := unat q))"
    and seth_frame: "good s \<Longrightarrow> seth k i q s = (Inr u, t) \<Longrightarrow> free t = free s"
    and seth_error: "seth k i q s = (Inl e, t) \<Longrightarrow> t = s"
    and amount_le: "good s \<Longrightarrow> amount s k i \<le> held s k"
begin

lemma move_in:
  assumes "good s" and "setf k l s = (Inr u, s1)" and "seth k i q s1 = (Inr v, t)"
    and "unat l + d = free s k" and "unat q = amount s k i + d"
  shows "good t" and "free t = (free s)(k := free s k - d)"
    and "held t = (held s)(k := held s k + d)"
    and "amount t = (amount s)(k := (amount s k)(i := amount s k i + d))"
    and "free t k + held t k = free s k + held s k"
proof -
  note g1 = setf_good [OF assms(1,2)] and f1 = setf_free [OF assms(1,2)]
  have h1: "held s1 = held s" "amount s1 = amount s" using setf_frame [OF assms(1,2)] by simp_all
  show "good t" using seth_good [OF g1 assms(3)] .
  show f: "free t = (free s)(k := free s k - d)"
    using seth_frame [OF g1 assms(3)] f1 assms(4) by (simp flip: assms(4))
  show h: "held t = (held s)(k := held s k + d)"
    using seth_held [OF g1 assms(3)] h1 assms(5) by auto
  show "amount t = (amount s)(k := (amount s k)(i := amount s k i + d))"
    using seth_amount [OF g1 assms(3)] h1 assms(5) by simp
  show "free t k + held t k = free s k + held s k"
    using f h assms(4) by simp
qed

lemma move_out:
  assumes "good s" and "seth k i q s = (Inr v, s1)" and "setf k l s1 = (Inr u, t)"
    and "unat q + d = amount s k i"
  shows "good t" and "free t = (free s)(k := unat l)"
    and "held t = (held s)(k := held s k - d)" and "d \<le> held s k"
    and "amount t = (amount s)(k := (amount s k)(i := amount s k i - d))"
proof -
  note g1 = seth_good [OF assms(1,2)] and f1 = seth_frame [OF assms(1,2)]
    and a1 = seth_amount [OF assms(1,2)]
  have h1: "held s1 = (held s)(k := held s1 k)" "held s1 k + amount s k i = held s k + unat q"
    using seth_held [OF assms(1,2)] by simp_all
  show "good t" using setf_good [OF g1 assms(3)] .
  show "free t = (free s)(k := unat l)" using setf_free [OF g1 assms(3)] f1 by simp
  show "d \<le> held s k" using h1(2) assms(4) amount_le [OF assms(1), of k i] by linarith
  have "held s1 k = held s k - d" using h1(2) assms(4) by linarith
  then show "held t = (held s)(k := held s k - d)"
    using setf_frame [OF g1 assms(3)] h1(1) by simp
  show "amount t = (amount s)(k := (amount s k)(i := amount s k i - d))"
    using setf_frame [OF g1 assms(3)] a1 by (simp flip: assms(4))
qed

lemma shrink:
  assumes "good s" and "seth k i q s = (Inr v, t)" and "unat q + d = amount s k i"
  shows "good t" and "free t = free s" and "held t = (held s)(k := held s k - d)" and "d \<le> held s k"
    and "amount t = (amount s)(k := (amount s k)(i := amount s k i - d))"
proof -
  show "good t" by (rule seth_good [OF assms(1,2)])
  show "free t = free s" by (rule seth_frame [OF assms(1,2)])
  have h: "held t = (held s)(k := held t k)" "held t k + amount s k i = held s k + unat q"
    using seth_held [OF assms(1,2)] by simp_all
  show "d \<le> held s k" using h(2) assms(3) amount_le [OF assms(1), of k i] by linarith
  have "held t k = held s k - d" using h(2) assms(3) by linarith
  then show "held t = (held s)(k := held s k - d)" using h(1) by metis
  show "amount t = (amount s)(k := (amount s k)(i := amount s k i - d))"
    using seth_amount [OF assms(1,2)] by (simp flip: assms(3))
qed

end

text \<open>A book whose entries can be removed altogether (the locks).\<close>

locale burnable_allocation = allocation +
  fixes burn :: "'b \<Rightarrow> 'c \<Rightarrow> ('a, 'e, unit) op"
  assumes burn_good: "good s \<Longrightarrow> burn k i s = (Inr u, t) \<Longrightarrow> good t"
    and burn_held: "good s \<Longrightarrow> burn k i s = (Inr u, t) \<Longrightarrow>
        held t = (held s)(k := held s k - amount s k i)"
    and burn_amount: "good s \<Longrightarrow> burn k i s = (Inr u, t) \<Longrightarrow>
        amount t = (amount s)(k := (amount s k)(i := 0))"
    and burn_frame: "good s \<Longrightarrow> burn k i s = (Inr u, t) \<Longrightarrow> free t = free s"
begin

lemma release:
  assumes "good s" and "setf k l s = (Inr u, s1)" and "burn k i s1 = (Inr v, t)"
  shows "good t" and "free t = (free s)(k := unat l)"
    and "held t = (held s)(k := held s k - amount s k i)"
    and "amount t = (amount s)(k := (amount s k)(i := 0))"
    and "amount s k i \<le> held s k"
proof -
  note g1 = setf_good [OF assms(1,2)] and f1 = setf_free [OF assms(1,2)]
  have h1: "held s1 = held s" "amount s1 = amount s" using setf_frame [OF assms(1,2)] by simp_all
  show "good t" "free t = (free s)(k := unat l)"
    using burn_good [OF g1 assms(3)] burn_frame [OF g1 assms(3)] f1 by simp_all
  show "held t = (held s)(k := held s k - amount s k i)"
    "amount t = (amount s)(k := (amount s k)(i := 0))"
    using burn_held [OF g1 assms(3)] burn_amount [OF g1 assms(3)] h1 by simp_all
  show "amount s k i \<le> held s k" using amount_le [OF assms(1)] .
qed

end

section \<open>The store seen by the contract\<close>

definition free_of :: "('k, 'r, 'l) store \<Rightarrow> 'k \<Rightarrow> nat" where
  "free_of s key = (case XpOf s key of None \<Rightarrow> 0 | Some x \<Rightarrow> unat (xp_free x))"

definition reserved_of :: "('k, 'r, 'l) store \<Rightarrow> 'k \<Rightarrow> nat" where
  "reserved_of s key = (case XpOf s key of None \<Rightarrow> 0 | Some x \<Rightarrow> unat (xp_reserve x))"

definition locked_of :: "('k, 'r, 'l) store \<Rightarrow> 'k \<Rightarrow> nat" where
  "locked_of s key = (case XpOf s key of None \<Rightarrow> 0 | Some x \<Rightarrow> unat (xp_lock x))"

definition reserve_amount :: "('k, 'r, 'l) store \<Rightarrow> 'k \<Rightarrow> 'r \<Rightarrow> nat" where
  "reserve_amount s key reason = points_of reason (entries_of (ReservedXpOf s) key)"

definition lock_amount :: "('k, 'r, 'l) store \<Rightarrow> 'k \<Rightarrow> 'l \<Rightarrow> nat" where
  "lock_amount s key reason = points_of reason (entries_of (LockedXpOf s) key)"

lemmas store_view_defs =
  free_of_def reserved_of_def locked_of_def reserve_amount_def lock_amount_def

lemma store_view_emit [simp]:
  "free_of (snd (emit ev s)) = free_of s" "reserved_of (snd (emit ev s)) = reserved_of s"
  "locked_of (snd (emit ev s)) = locked_of s" "reserve_amount (snd (emit ev s)) = reserve_amount s"
  "lock_amount (snd (emit ev s)) = lock_amount s"
  by (auto simp: store_view_defs fun_eq_iff)

lemma store_view_put:
  "free_of (put_xp key x s) = (free_of s)(key := unat (xp_free x))"
  "reserved_of (put_xp key x s) = (reserved_of s)(key := unat (xp_reserve x))"
  "locked_of (put_xp key x s) = (locked_of s)(key := unat (xp_lock x))"
  "reserve_amount (put_xp key x s) = reserve_amount s"
  "lock_amount (put_xp key x s) = lock_amount s"
  by (auto simp: store_view_defs fun_eq_iff)

lemma set_xp_run:
  assumes "set_xp key q s = (Inr u, t)"
  obtains x where "XpOf s key = Some x" "t = put_xp key (x\<lparr>xp_free := q\<rparr>) s"
  using assms by (cases "XpOf s key") auto

lemma set_xp_laws:
  assumes "set_xp key q s = (Inr u, t)"
  shows "xp_inv s \<Longrightarrow> xp_inv t" and "free_of t = (free_of s)(key := unat q)"
    and "reserved_of t = reserved_of s" "reserve_amount t = reserve_amount s"
    and "locked_of t = locked_of s" "lock_amount t = lock_amount s"
proof -
  obtain x where x: "XpOf s key = Some x" "t = put_xp key (x\<lparr>xp_free := q\<rparr>) s"
    using set_xp_run [OF assms] .
  then show "xp_inv s \<Longrightarrow> xp_inv t" by (simp add: xp_inv_put)
  show "free_of t = (free_of s)(key := unat q)" "reserved_of t = reserved_of s"
    "reserve_amount t = reserve_amount s" "locked_of t = locked_of s" "lock_amount t = lock_amount s"
    using x by (auto simp: store_view_put fun_eq_iff store_view_defs)
qed

section \<open>A concrete store\<close>

text \<open>
  The store on which the properties of the pallet are instantiated: account 7 owns key 1, which
  has 100 liquid points, 30 reserved for \<open>True\<close> and 20 locked for \<open>False\<close>, and key 2, which
  was reaped.
\<close>

definition sample_xp :: xp where
  "sample_xp = \<lparr>xp_free = 100, xp_reserve = 30, xp_lock = 20,
     xp_pulse = \<lparr>acc_value = 3, acc_step = 10\<rparr>, xp_timestamp = 5\<rparr>"

definition sample_store :: "(int, bool, bool) store" where
  "sample_store =
     \<lparr>XpOf = [1 \<mapsto> sample_xp], XpOwners = {(7, 1), (7, 2)},
      ReservedXpOf = [1 \<mapsto> [\<lparr>idxp_id = True, idxp_points = 30\<rparr>]],
      LockedXpOf = [1 \<mapsto> [\<lparr>idxp_id = False, idxp_points = 20\<rparr>]],
      ReapedXp = {2}, MinPulse = 2, InitXp = 1, PulseFactor = stepper_default,
      MinTimeStamp = 4, block_number = 9, EmitEvents = True, Events = []\<rparr>"

lemma sample_simps [simp]:
  "XpOf sample_store = [1 \<mapsto> sample_xp]" "XpOwners sample_store = {(7, 1), (7, 2)}"
  "ReservedXpOf sample_store = [1 \<mapsto> [\<lparr>idxp_id = True, idxp_points = 30\<rparr>]]"
  "LockedXpOf sample_store = [1 \<mapsto> [\<lparr>idxp_id = False, idxp_points = 20\<rparr>]]"
  "ReapedXp sample_store = {2}" "MinPulse sample_store = 2" "InitXp sample_store = 1"
  "PulseFactor sample_store = stepper_default" "MinTimeStamp sample_store = 4"
  "block_number sample_store = 9" "EmitEvents sample_store = True" "Events sample_store = []"
  "xp_free sample_xp = 100" "xp_reserve sample_xp = 30" "xp_lock sample_xp = 20"
  "xp_pulse sample_xp = \<lparr>acc_value = 3, acc_step = 10\<rparr>" "xp_timestamp sample_xp = 5"
  by (simp_all add: sample_store_def sample_xp_def)

lemma sample_view [simp]:
  "free_of sample_store 1 = 100" "reserved_of sample_store 1 = 30" "locked_of sample_store 1 = 20"
  "reserve_amount sample_store 1 True = 30" "reserve_amount sample_store 1 False = 0"
  "lock_amount sample_store 1 False = 20" "lock_amount sample_store 1 True = 0"
  by (simp_all add: store_view_defs points_of_def entry_of_def)

lemma book_ok_empty: "book_ok Map.empty tot Map.empty"
  by (rule book_okI) simp_all

lemma sample_inv: "xp_inv sample_store"
  by (rule xp_invI) (auto intro!: book_ok_update book_ok_empty)

text \<open>Earning and slashing on the sample: key 1 has pulse 3 above the minimum and a lock.\<close>

lemma sample_earn:
  "\<exists>t. earn_xp 1 5 sample_store = Some (Inr 15, t)"
  by (simp add: earn_xp_def earn_value_def has_lock_def Let_def checked_mul_def checked_add_def
      checked_sub_def increment_eq stepper_default_def on_xp_earn_def thenO_def bindO_def emit_eq
      word_le_nat_alt word_less_nat_alt)

lemma earn_xp_credits_witness:
  "\<exists>t. earn_xp 1 5 sample_store = Some (Inr 15, t) \<and> free_of t 1 = 115"
proof -
  obtain t where run: "earn_xp 1 5 sample_store = Some (Inr 15, t)" using sample_earn by blast
  show ?thesis using earn_xp_credits [OF run] run by (auto simp: free_of_def)
qed

lemma earn_xp_matches_quote_witness: "quote_earn_xp 1 5 sample_store = Inr 15"
proof -
  obtain t where run: "earn_xp 1 5 sample_store = Some (Inr 15, t)" using sample_earn by blast
  show ?thesis using earn_xp_matches_quote [OF run] by simp
qed

lemma slash_xp_exact_witness: "\<exists>t. slash_xp 1 150 sample_store = (Inr 100, t)"
  using slash_xp_exact [of sample_store 1 sample_xp 150] by (auto simp: min_def word_le_nat_alt)

end
