(* ===== verification/XpReserve.thy ===== *)
theory XpReserve
  imports XpCore XpAllocation
begin

text \<open>
  Reserves: the \<open>XpReserve\<close> implementation of \<open>pallets/xp/src/xp.rs\<close> and the default methods
  of the trait in \<open>frame/suite/src/xp.rs\<close>. A reserve is an entry of \<open>ReservedXpOf\<close> under the
  key; the \<open>reserve\<close> field of the XP entry caches the sum of the entries.
\<close>

datatype precision = Exact | BestEffort

section \<open>Queries\<close>

definition reserve_exists :: "'k \<Rightarrow> 'r \<Rightarrow> ('k, 'r, 'l) store \<Rightarrow> dispatch_error + unit" where
  "reserve_exists key reason s = (case ReservedXpOf s key of
       None \<Rightarrow> Inl (Module XpReserveNotFound)
     | Some reserves \<Rightarrow>
         if \<not> list_ex (\<lambda>reserve. idxp_id reserve = reason) reserves
         then Inl (Module XpReserveNotFound) else Inr ())"

definition get_reserve_xp :: "'k \<Rightarrow> 'r \<Rightarrow> ('k, 'r, 'l) store \<Rightarrow> dispatch_error + points" where
  "get_reserve_xp key reason s = (case ReservedXpOf s key of
       None \<Rightarrow> Inl (Module XpReserveNotFound)
     | Some reserves \<Rightarrow>
        (case find (\<lambda>reserve. idxp_id reserve = reason) reserves of
           None \<Rightarrow> Inl (Module XpReserveNotFound)
         | Some reserve \<Rightarrow> Inr (idxp_points reserve)))"

definition total_reserved :: "'k \<Rightarrow> ('k, 'r, 'l) store \<Rightarrow> dispatch_error + points" where
  "total_reserved key s = (case XpOf s key of
       None \<Rightarrow> Inl (Module XpNotFound) | Some x \<Rightarrow> Inr (xp_reserve x))"

definition has_reserve :: "'k \<Rightarrow> ('k, 'r, 'l) store \<Rightarrow> dispatch_error + unit" where
  "has_reserve key s = (case ReservedXpOf s key of
       None \<Rightarrow> Inl (Module XpReserveNotFound)
     | Some reserves \<Rightarrow> if reserves = [] then Inl (Module XpReserveNotFound) else Inr ())"

definition get_all_reserves :: "'k \<Rightarrow> ('k, 'r, 'l) store \<Rightarrow> dispatch_error + 'r list" where
  "get_all_reserves key s = Inr (case ReservedXpOf s key of
       None \<Rightarrow> [] | Some reserves \<Rightarrow> map idxp_id reserves)"

definition maximum_reserves :: "('k, 'r::finite, 'l) store \<Rightarrow> nat" where
  "maximum_reserves s = CARD('r)"

definition can_reserve_xp :: "'k \<Rightarrow> points \<Rightarrow> ('k, 'r, 'l) store \<Rightarrow> dispatch_error + unit" where
  "can_reserve_xp key p s =
     bindE (ensureE (p \<noteq> 0) (from_xp_error XE_CannotReserveZero)) (\<lambda>_.
     bindE (get_liquid_xp key s) (\<lambda>reservable.
     bindE (total_reserved key s) (\<lambda>total.
       if p > reservable then Inl (from_xp_error XE_InsufficientLiquidXp)
       else bindE (ok_orE (from_xp_error XE_XpReserveCapOverflowed) (checked_add total p)) (\<lambda>_. Inr ()))))"

definition can_reserve_mutate ::
    "'k \<Rightarrow> 'r \<Rightarrow> points \<Rightarrow> ('k, 'r, 'l) store \<Rightarrow> dispatch_error + unit" where
  "can_reserve_mutate key reason p s =
     bindE (get_reserve_xp key reason s) (\<lambda>reserved.
     bindE (total_reserved key s) (\<lambda>total.
       if reserved < p then
         bindE (ok_orE (from_xp_error XE_XpReserveCapOverflowed)
                  (checked_add total (sat_sub p reserved))) (\<lambda>_. Inr ())
       else if reserved > p then
         bindE (ok_orE (from_xp_error XE_XpReserveCapUnderflowed)
                  (checked_sub total (sat_sub reserved p))) (\<lambda>_. Inr ())
       else Inr ()))"

definition can_reserve_new ::
    "'k \<Rightarrow> points \<Rightarrow> ('k, 'r::finite, 'l) store \<Rightarrow> dispatch_error + unit" where
  "can_reserve_new key p s =
     bindE (xp_exists key s) (\<lambda>_.
     bindE (get_all_reserves key s) (\<lambda>reserves.
       if length reserves \<ge> maximum_reserves s then Inl (from_xp_error XE_TooManyReserves)
       else bindE (total_reserved key s) (\<lambda>total.
         bindE (ok_orE (from_xp_error XE_XpReserveCapOverflowed) (checked_add total p)) (\<lambda>_. Inr ()))))"

section \<open>Mutation\<close>

text \<open>The new entry of \<open>set_reserve\<close>: a bounded push, which writes an empty list back if it fails.\<close>

definition push_reserve :: "'k \<Rightarrow> 'r id_xp \<Rightarrow> ('k, 'r::finite, 'l, unit) xp_op" where
  "push_reserve key reserve = (\<lambda>s.
     let value = (case ReservedXpOf s key of None \<Rightarrow> [] | Some v \<Rightarrow> v) in
     if length value < CARD('r)
     then (Inr (), s\<lparr>ReservedXpOf := (ReservedXpOf s)(key \<mapsto> value @ [reserve])\<rparr>)
     else (Inl (Module TooManyReserves), s\<lparr>ReservedXpOf := (ReservedXpOf s)(key \<mapsto> value)\<rparr>))"

definition grow_reserve :: "points \<Rightarrow> xp \<Rightarrow> (dispatch_error + unit) \<times> xp" where
  "grow_reserve p x = (case checked_add (xp_reserve x) p of
       None \<Rightarrow> (Inl (Module XpReserveCapOverflowed), x)
     | Some new \<Rightarrow> (Inr (), x\<lparr>xp_reserve := new\<rparr>))"

definition move_reserve :: "points \<Rightarrow> points \<Rightarrow> xp \<Rightarrow> (dispatch_error + unit) \<times> xp" where
  "move_reserve current p x =
     (if current > p then (Inr (), x\<lparr>xp_reserve := sat_sub (xp_reserve x) (sat_sub current p)\<rparr>)
      else if current < p then (Inr (), x\<lparr>xp_reserve := sat_add (xp_reserve x) (sat_sub p current)\<rparr>)
      else (Inr (), x))"

definition replace_reserve :: "'k \<Rightarrow> 'r \<Rightarrow> points \<Rightarrow> ('k, 'r, 'l, unit) xp_op" where
  "replace_reserve key reason p = (\<lambda>s. case ReservedXpOf s key of
       None \<Rightarrow> (Inl (Module XpReserveNotFound), s)
     | Some value \<Rightarrow>
        (case find (\<lambda>reserve. idxp_id reserve = reason) value of
           None \<Rightarrow> (Inl (Module XpReserveNotFound), s)
         | Some reserve \<Rightarrow>
             mutate_xp key (move_reserve (idxp_points reserve) p)
               (s\<lparr>ReservedXpOf := (ReservedXpOf s)(key \<mapsto>
                    update_first (\<lambda>e. idxp_id e = reason) (\<lambda>e. e\<lparr>idxp_points := p\<rparr>) value)\<rparr>)))"

definition set_reserve :: "'k \<Rightarrow> 'r \<Rightarrow> points \<Rightarrow> ('k, 'r::finite, 'l, unit) xp_op" where
  "set_reserve key reason p = (\<lambda>s.
     if \<not> is_ok (reserve_exists key reason s)
     then thenO (readE (can_reserve_new key p))
            (thenO (push_reserve key \<lparr>idxp_id = reason, idxp_points = p\<rparr>)
              (mutate_xp key (grow_reserve p))) s
     else thenO (readE (can_reserve_mutate key reason p)) (replace_reserve key reason p) s)"

definition on_reserve_update :: "'k \<Rightarrow> 'r \<Rightarrow> points \<Rightarrow> ('k, 'r, 'l, unit) xp_op" where
  "on_reserve_update key reason p = emit (EvXpReserve key reason p)"

definition on_reserve_slash :: "'k \<Rightarrow> 'r \<Rightarrow> points \<Rightarrow> ('k, 'r, 'l, unit) xp_op" where
  "on_reserve_slash key reason p = emit (EvXpReserveSlash key reason p)"

definition reserve_xp :: "'k \<Rightarrow> 'r \<Rightarrow> points \<Rightarrow> ('k, 'r::finite, 'l, unit) xp_op" where
  "reserve_xp key reason p =
     thenO (readE (xp_exists key))
       (bindO (readE (get_liquid_xp key)) (\<lambda>liquid.
          if liquid < p then throw (from_xp_error XE_InsufficientLiquidXp)
          else bindO (gets (reserve_exists key reason)) (\<lambda>ex.
            if \<not> is_ok ex
            then thenO (set_xp key (sat_sub liquid p))
                   (thenO (set_reserve key reason p) (on_reserve_update key reason p))
            else thenO (set_xp key (sat_sub liquid p))
                   (bindO (readE (get_reserve_xp key reason)) (\<lambda>old.
                      bindO (ok_orO (from_xp_error XE_XpReserveCapOverflowed) (checked_add old p)) (\<lambda>new.
                        thenO (set_reserve key reason new) (on_reserve_update key reason new)))))))"

definition reset_reserve :: "'k \<Rightarrow> 'r \<Rightarrow> ('k, 'r::finite, 'l, points) xp_op" where
  "reset_reserve key reason =
     thenO (readE (xp_exists key))
       (bindO (readE (get_reserve_xp key reason)) (\<lambda>reserve.
          thenO (set_reserve key reason 0) (ret reserve)))"

definition slash_reserve :: "'k \<Rightarrow> 'r \<Rightarrow> points \<Rightarrow> ('k, 'r::finite, 'l, points) xp_op" where
  "slash_reserve key reason p =
     thenO (readE (xp_exists key))
       (bindO (readE (get_reserve_xp key reason)) (\<lambda>reserve.
          if reserve < p
          then bindO (reset_reserve key reason) (\<lambda>burn.
                 thenO (on_reserve_slash key reason burn) (ret burn))
          else thenO (set_reserve key reason (sat_sub reserve p))
                 (thenO (on_reserve_slash key reason p) (ret p))))"

definition withdraw_reserve_partial ::
    "'k \<Rightarrow> 'r \<Rightarrow> points \<Rightarrow> precision \<Rightarrow> ('k, 'r::finite, 'l, unit) xp_op" where
  "withdraw_reserve_partial key reason p precision =
     thenO (readE (xp_exists key))
       (if p = 0 then ret ()
        else thenO (readE (reserve_exists key reason))
          (bindO (readE (get_reserve_xp key reason)) (\<lambda>reserve.
           bindO (readE (get_liquid_xp key)) (\<lambda>liquid.
           bindO (case precision of
               Exact \<Rightarrow>
                 bindO (ok_orO (from_xp_error XE_InsufficientReserveXp) (checked_sub reserve p)) (\<lambda>new_reserve.
                 bindO (ok_orO (from_xp_error XE_XpCapOverflowed) (checked_add liquid p)) (\<lambda>new_free.
                   ret (new_reserve, new_free)))
             | BestEffort \<Rightarrow> ret (sat_sub reserve p, sat_add liquid (min reserve p)))
           (\<lambda>(new_reserve, new_free).
             thenO (if new_reserve = 0
                    then thenO (set_reserve key reason 0) (on_reserve_update key reason 0)
                    else thenO (set_reserve key reason new_reserve) (on_reserve_update key reason new_reserve))
               (set_xp key new_free))))))"

definition withdraw_reserve :: "'k \<Rightarrow> 'r \<Rightarrow> ('k, 'r::finite, 'l, unit) xp_op" where
  "withdraw_reserve key reason =
     thenO (readE (xp_exists key))
       (bindO (readE (get_reserve_xp key reason)) (\<lambda>reserve_points.
          withdraw_reserve_partial key reason reserve_points BestEffort))"

section \<open>Evaluation\<close>

lemma reserve_exists_iff [simp]:
  "is_ok (reserve_exists key reason s) \<longleftrightarrow> entry_of reason (entries_of (ReservedXpOf s) key) \<noteq> None"
  by (auto simp: reserve_exists_def list_ex_entry entry_of_def split: option.split)

lemma reserve_exists_Inr:
  "reserve_exists key reason s = Inr u \<longleftrightarrow> entry_of reason (entries_of (ReservedXpOf s) key) \<noteq> None"
  by (auto simp: reserve_exists_def list_ex_entry entry_of_def split: option.split)

lemma get_reserve_xp_eq:
  "get_reserve_xp key reason s =
     (case entry_of reason (entries_of (ReservedXpOf s) key) of
        None \<Rightarrow> Inl (Module XpReserveNotFound) | Some e \<Rightarrow> Inr (idxp_points e))"
  by (auto simp: get_reserve_xp_def entry_of_def split: option.split)

lemma total_reserved_eval [simp]:
  "XpOf s key = Some x \<Longrightarrow> total_reserved key s = Inr (xp_reserve x)"
  "XpOf s key = None \<Longrightarrow> total_reserved key s = Inl (Module XpNotFound)"
  by (simp_all add: total_reserved_def)

lemma get_all_reserves_eq: "get_all_reserves key s = Inr (map idxp_id (entries_of (ReservedXpOf s) key))"
  by (auto simp: get_all_reserves_def entries_of_def split: option.split)

text \<open>The store after a successful write of one reserve, with the new cached total \<open>n\<close>.\<close>

definition with_reserve ::
    "'k \<Rightarrow> 'r \<Rightarrow> points \<Rightarrow> xp \<Rightarrow> points \<Rightarrow> ('k, 'r, 'l) store \<Rightarrow> ('k, 'r, 'l) store" where
  "with_reserve key reason p x n s = put_xp key (x\<lparr>xp_reserve := n\<rparr>)
     (s\<lparr>ReservedXpOf := (ReservedXpOf s)(key \<mapsto> set_entry reason p (entries_of (ReservedXpOf s) key))\<rparr>)"

lemma set_reserve_new:
  assumes "entry_of reason (entries_of (ReservedXpOf s) key) = None"
  shows "set_reserve key reason p s =
     (case XpOf s key of
        None \<Rightarrow> (Inl (Module XpNotFound), s)
      | Some x \<Rightarrow>
          if length (entries_of (ReservedXpOf s) key) \<ge> CARD('r) then (Inl (Module TooManyReserves), s)
          else (case checked_add (xp_reserve x) p of
              None \<Rightarrow> (Inl (Module XpReserveCapOverflowed), s)
            | Some n \<Rightarrow> (Inr (), with_reserve key reason p x n (s :: ('k, 'r::finite, 'l) store))))"
proof (cases "XpOf s key")
  case None
  then show ?thesis using assms
    by (simp add: set_reserve_def can_reserve_new_def)
next
  case (Some x)
  show ?thesis
  proof (cases "length (entries_of (ReservedXpOf s) key) \<ge> CARD('r)")
    case True
    then show ?thesis using assms Some
      by (simp add: set_reserve_def can_reserve_new_def get_all_reserves_eq maximum_reserves_def)
  next
    case False
    then show ?thesis using assms Some
      by (cases "checked_add (xp_reserve x) p")
         (auto simp: set_reserve_def can_reserve_new_def get_all_reserves_eq maximum_reserves_def
            push_reserve_def entries_of_def thenO_def bindO_def grow_reserve_def with_reserve_def
            set_entry_def mutate_xp_def put_xp_def split: option.splits)
  qed
qed

lemma set_reserve_old:
  assumes "entry_of reason (entries_of (ReservedXpOf s) key) = Some e"
  shows "set_reserve key reason p s =
     (case XpOf s key of
        None \<Rightarrow> (Inl (Module XpNotFound), s)
      | Some x \<Rightarrow>
          if idxp_points e < p then
            (case checked_add (xp_reserve x) (sat_sub p (idxp_points e)) of
               None \<Rightarrow> (Inl (Module XpReserveCapOverflowed), s)
             | Some n \<Rightarrow> (Inr (), with_reserve key reason p x n s))
          else (case checked_sub (xp_reserve x) (sat_sub (idxp_points e) p) of
               None \<Rightarrow> (Inl (Module XpReserveCapUnderflowed), s)
             | Some n \<Rightarrow> (Inr (), with_reserve key reason p x n s)))"
proof -
  from assms obtain es where es: "ReservedXpOf s key = Some es" "entry_of reason es = Some e"
    by (cases "ReservedXpOf s key") (auto simp: entry_of_def)
  show ?thesis
    using es
    by (auto simp: set_reserve_def can_reserve_mutate_def get_reserve_xp_eq replace_reserve_def
        entry_of_def [symmetric] move_reserve_def with_reserve_def set_entry_def checked_add_sat checked_sub_sat put_xp_def
        split: option.split)
qed

lemma set_reserve_run:
  fixes s :: "('k, 'r::finite, 'l) store"
  assumes "set_reserve key reason p s = (Inr u, t)"
  obtains x n where "XpOf s key = Some x" and "t = with_reserve key reason p x n s"
    and "unat n + reserve_amount s key reason = unat (xp_reserve x) + unat p"
proof (cases "entry_of reason (entries_of (ReservedXpOf s) key)")
  case None
  then show ?thesis
    using assms that
    by (auto simp: set_reserve_new reserve_amount_def checked_add_Some_iff split: option.splits if_splits)
next
  case (Some e)
  then show ?thesis
    using assms that
    by (auto simp: set_reserve_old reserve_amount_def arith_iffs word_less_nat_alt
        split: option.splits if_splits)
qed

lemma set_reserve_error: "set_reserve key reason p s = (Inl e, t) \<Longrightarrow> t = s"
  by (cases "entry_of reason (entries_of (ReservedXpOf s) key)")
     (auto simp: set_reserve_new set_reserve_old split: option.splits if_splits)

lemma xp_inv_with_reserve:
  assumes "xp_inv s" "XpOf s key = Some x"
    and "unat n + reserve_amount s key reason = unat (xp_reserve x) + unat p"
  shows "xp_inv (with_reserve key reason p x n s)"
proof (rule xp_invI)
  note inv = xp_invD [OF assms(1)]
  show "book_ok (ReservedXpOf (with_reserve key reason p x n s)) xp_reserve
          (XpOf (with_reserve key reason p x n s))"
    unfolding with_reserve_def put_xp_sel
    using assms(3) by (simp, intro book_ok_set [OF inv(1) assms(2)]) (simp add: reserve_amount_def)
  show "book_ok (LockedXpOf (with_reserve key reason p x n s)) xp_lock
          (XpOf (with_reserve key reason p x n s))"
    using book_ok_put [OF inv(2) assms(2)] by (simp add: with_reserve_def)
  show "\<And>key'. key' \<in> ReapedXp (with_reserve key reason p x n s) \<Longrightarrow>
          XpOf (with_reserve key reason p x n s) key' = None"
    using inv(3) assms(2) by (auto simp: with_reserve_def)
qed

lemma with_reserve_view:
  assumes "XpOf s key = Some x"
  shows "free_of (with_reserve key reason p x n s) = free_of s"
    and "reserved_of (with_reserve key reason p x n s) = (reserved_of s)(key := unat n)"
    and "locked_of (with_reserve key reason p x n s) = locked_of s"
    and "reserve_amount (with_reserve key reason p x n s) =
           (reserve_amount s)(key := (reserve_amount s key)(reason := unat p))"
    and "lock_amount (with_reserve key reason p x n s) = lock_amount s"
  using assms
  by (auto simp: with_reserve_def store_view_put fun_eq_iff store_view_defs entries_of_upd points_of_def)

interpretation reserves: allocation xp_inv free_of reserved_of reserve_amount set_xp
    "set_reserve :: 'k \<Rightarrow> 'r \<Rightarrow> points \<Rightarrow> ('k, 'r::finite, 'l, unit) xp_op"
proof (unfold_locales, goal_cases)
  case (1 s k q u t) then show ?case by (simp add: set_xp_laws(1))
next
  case (2 s k q u t) then show ?case by (simp add: set_xp_laws)
next
  case (3 s k q u t) then show ?case by (simp add: set_xp_laws)
next
  case (4 s k i q u t)
  then show ?case by (elim set_reserve_run) (simp add: xp_inv_with_reserve)
next
  case (5 s k i q u t)
  then show ?case by (elim set_reserve_run) (auto simp: with_reserve_view reserved_of_def)
next
  case (6 s k i q u t)
  then show ?case by (elim set_reserve_run) (simp add: with_reserve_view)
next
  case (7 s k i q u t)
  then show ?case by (elim set_reserve_run) (simp add: with_reserve_view)
next
  case (8 k i q s e t) then show ?case by (rule set_reserve_error)
next
  case (9 s k i)
  then show ?case
    using book_ok_points_le [OF xp_invD(1) [OF 9]] book_ok_absent [OF xp_invD(1) [OF 9]]
    by (cases "XpOf s k") (simp_all add: reserve_amount_def reserved_of_def points_of_def entry_of_def)
qed

lemma keeps_emit [intro, simp]: "keeps xp_inv (emit ev)"
  by (simp add: keeps_def emit_eq xp_inv_def)

lemma keeps_set_xp [intro, simp]: "keeps xp_inv (set_xp key p)"
  unfolding keeps_def
proof (intro allI impI)
  fix s :: "('a, 'b, 'c) store" and r t
  assume "xp_inv s" "set_xp key p s = (r, t)"
  then show "xp_inv t" by (cases "XpOf s key") (auto intro: xp_inv_put)
qed

lemma keeps_set_reserve [intro, simp]: "keeps xp_inv (set_reserve key reason p)"
  unfolding keeps_def
proof (intro allI impI)
  fix s :: "('a, 'b::finite, 'c) store" and r t
  assume "xp_inv s" "set_reserve key reason p s = (r, t)"
  then show "xp_inv t"
    by (cases r) (auto dest: set_reserve_error reserves.seth_good)
qed

lemmas reserve_hooks = on_reserve_update_def on_reserve_slash_def

text \<open>
  What the two primitives and the events keep, the composed operations keep. The contract is
  used for the invariant of the store and for the frame of the state machine.
\<close>

locale reserve_stable =
  fixes P :: "('k, 'r::finite, 'l) store \<Rightarrow> bool"
  assumes emit: "keeps P (emit ev)"
    and set_xp: "keeps P (set_xp key p)"
    and set_reserve: "keeps P (set_reserve key reason p)"
begin

lemmas primitive = emit set_xp set_reserve keeps_basic

lemma reset_reserve: "keeps P (reset_reserve key reason)"
  unfolding reset_reserve_def by (intro keeps_thenO keeps_bindO primitive)

lemma slash_reserve: "keeps P (slash_reserve key reason p)"
  unfolding slash_reserve_def reserve_hooks
  by (intro keeps_thenO keeps_bindO keeps_if reset_reserve primitive)

lemma reserve_xp: "keeps P (reserve_xp key reason p)"
  unfolding reserve_xp_def reserve_hooks
  by (intro keeps_thenO keeps_bindO keeps_if primitive)

lemma withdraw_reserve_partial: "keeps P (withdraw_reserve_partial key reason p precision)"
  unfolding withdraw_reserve_partial_def reserve_hooks
  by (cases precision)
     (auto intro!: keeps_thenO keeps_bindO keeps_if primitive split: prod.split)

lemma withdraw_reserve: "keeps P (withdraw_reserve key reason)"
  unfolding withdraw_reserve_def
  by (intro keeps_thenO keeps_bindO withdraw_reserve_partial primitive)

lemma slash_xp: "keeps P (slash_xp key p)" and reset_xp: "keeps P (reset_xp key)"
  unfolding slash_xp_def reset_xp_def hook_defs
  by (intro keeps_thenO keeps_bindO keeps_if primitive)+

end

interpretation inv_reserve: reserve_stable xp_inv
  by unfold_locales simp_all

lemma entries_put [simp]: "entries_of (ReservedXpOf (put_xp key x s)) = entries_of (ReservedXpOf s)"
  by simp

lemma reserve_amount_entry:
  "reserve_amount s key reason =
     (case entry_of reason (entries_of (ReservedXpOf s) key) of None \<Rightarrow> 0 | Some e \<Rightarrow> unat (idxp_points e))"
  by (simp add: reserve_amount_def points_of_def)

lemma thenO_reserve_hooks [simp]:
  "thenO (on_reserve_update key reason p) n s = n (snd (emit (EvXpReserve key reason p) s))"
  "thenO (on_reserve_slash key reason p) n s = n (snd (emit (EvXpReserveSlash key reason p) s))"
  by (simp_all add: reserve_hooks)

lemma thenO_reserve_update:
  "thenO m (on_reserve_update key reason p) s =
     (case m s of (Inl e, t) \<Rightarrow> (Inl e, t) | (Inr _, t) \<Rightarrow> (Inr (), snd (emit (EvXpReserve key reason p) t)))"
  by (simp add: thenO_def bindO_def reserve_hooks emit_eq split: prod.split sum.split)

text \<open>The amount \<open>reserve_xp\<close> writes: what the entry holds already and the points.\<close>

definition raised_reserve :: "('k, 'r, 'l) store \<Rightarrow> 'k \<Rightarrow> 'r \<Rightarrow> points \<Rightarrow> points option" where
  "raised_reserve s key reason p =
     (case entry_of reason (entries_of (ReservedXpOf s) key) of
        None \<Rightarrow> Some p | Some e \<Rightarrow> checked_add (idxp_points e) p)"

lemma raised_reserve_iff:
  "raised_reserve s key reason p = Some q \<longleftrightarrow> unat q = reserve_amount s key reason + unat p"
  by (auto simp: raised_reserve_def reserve_amount_entry checked_add_Some_iff word_unat_eq_iff
      split: option.split)

lemma raised_reserve_None:
  "raised_reserve s key reason p = None \<longleftrightarrow> 2 ^ 128 \<le> reserve_amount s key reason + unat p"
  using unat_bound [of p]
  by (auto simp: raised_reserve_def reserve_amount_entry checked_add_None_iff split: option.split)

lemma reserve_xp_eval:
  assumes "XpOf s key = Some x"
  shows "reserve_xp key reason p s =
    (if xp_free x < p then (Inl (Module InsufficientLiquidXp), s)
     else let s1 = put_xp key (x\<lparr>xp_free := sat_sub (xp_free x) p\<rparr>) s in
       (case raised_reserve s key reason p of
          None \<Rightarrow> (Inl (Module XpReserveCapOverflowed), s1)
        | Some q \<Rightarrow>
           (case set_reserve key reason q s1 of
              (Inl e, t) \<Rightarrow> (Inl e, t)
            | (Inr _, t) \<Rightarrow> (Inr (), snd (emit (EvXpReserve key reason q) t)))))"
  using assms
  by (auto simp: reserve_xp_def raised_reserve_def get_reserve_xp_eq thenO_reserve_update Let_def
      split: option.split)

lemma reserve_xp_None [simp]: "XpOf s key = None \<Longrightarrow> reserve_xp key reason p s = (Inl (Module XpNotFound), s)"
  by (simp add: reserve_xp_def)

lemma reserve_xp_run:
  assumes "reserve_xp key reason p s = (Inr u, t)"
  obtains x q t1 where "XpOf s key = Some x" "\<not> xp_free x < p"
    and "unat q = reserve_amount s key reason + unat p"
    and "set_reserve key reason q (put_xp key (x\<lparr>xp_free := sat_sub (xp_free x) p\<rparr>) s) = (Inr (), t1)"
    and "t = snd (emit (EvXpReserve key reason q) t1)"
proof (cases "XpOf s key")
  case None
  then show ?thesis using assms by simp
next
  case (Some x)
  with assms that show ?thesis
    by (auto simp: reserve_xp_eval Let_def raised_reserve_iff split: if_splits option.splits prod.splits sum.splits)
qed

text \<open>What a partial withdrawal writes: the remaining reserve and the new liquid balance.\<close>

fun withdrawal :: "precision \<Rightarrow> points \<Rightarrow> points \<Rightarrow> points \<Rightarrow> dispatch_error + points \<times> points" where
  "withdrawal Exact reserve liquid p =
     (case checked_sub reserve p of None \<Rightarrow> Inl (Module InsufficientReserveXp)
      | Some r \<Rightarrow> (case checked_add liquid p of None \<Rightarrow> Inl (Module XpCapOverflowed) | Some l \<Rightarrow> Inr (r, l)))"
| "withdrawal BestEffort reserve liquid p = Inr (sat_sub reserve p, sat_add liquid (min reserve p))"

lemma withdraw_partial_eval:
  assumes "XpOf s key = Some x" and "p \<noteq> 0"
  shows "withdraw_reserve_partial key reason p precision s =
    (case entry_of reason (entries_of (ReservedXpOf s) key) of
       None \<Rightarrow> (Inl (Module XpReserveNotFound), s)
     | Some e \<Rightarrow>
        (case withdrawal precision (idxp_points e) (xp_free x) p of
           Inl err \<Rightarrow> (Inl err, s)
         | Inr (q, l) \<Rightarrow>
            (case set_reserve key reason q s of
               (Inl err, t) \<Rightarrow> (Inl err, t)
             | (Inr _, t) \<Rightarrow> set_xp key l (snd (emit (EvXpReserve key reason q) t)))))"
proof -
  have upd: "(if q = 0 then thenO (set_reserve key reason 0) (on_reserve_update key reason 0)
      else thenO (set_reserve key reason q) (on_reserve_update key reason q))
      = thenO (set_reserve key reason q) (on_reserve_update key reason q)" for q by simp
  have next_op: "thenO (thenO (set_reserve key reason q) (on_reserve_update key reason q)) n s =
      (case set_reserve key reason q s of (Inl err, t) \<Rightarrow> (Inl err, t)
       | (Inr _, t) \<Rightarrow> n (snd (emit (EvXpReserve key reason q) t)))" for q and n :: "('a, 'b, 'c, unit) xp_op"
    by (simp add: thenO_def bindO_def reserve_hooks emit_eq split: prod.split sum.split)
  show ?thesis
  proof (cases "entry_of reason (entries_of (ReservedXpOf s) key)")
    case None
    then have "reserve_exists key reason s = Inl (Module XpReserveNotFound)"
      by (auto simp: reserve_exists_def list_ex_entry split: option.split)
    then show ?thesis using assms None by (simp add: withdraw_reserve_partial_def)
  next
    case (Some e)
    then have "reserve_exists key reason s = Inr ()" by (simp add: reserve_exists_Inr)
    then show ?thesis using assms Some
      by (cases precision)
         (auto simp: withdraw_reserve_partial_def get_reserve_xp_eq upd next_op bindO_def
            split: option.split)
  qed
qed

section \<open>Properties\<close>

text \<open>
  C8: Reserving moves points: on success exactly the requested points leave the liquid balance
  and arrive in the cached total and in the entry of the reason; the sum of liquid and
  reserved XP is unchanged, and no other key, reason or lock is touched.
\<close>

theorem reserve_xp_moves:
  assumes inv: "xp_inv s" and run: "reserve_xp key reason p s = (Inr u, t)"
  shows "unat p \<le> free_of s key \<and>
    free_of t = (free_of s)(key := free_of s key - unat p) \<and>
    reserved_of t = (reserved_of s)(key := reserved_of s key + unat p) \<and>
    reserve_amount t = (reserve_amount s)(key := (reserve_amount s key)
        (reason := reserve_amount s key reason + unat p)) \<and>
    free_of t key + reserved_of t key = free_of s key + reserved_of s key \<and>
    xp_inv t"
proof -
  obtain x q t1 where x: "XpOf s key = Some x" "\<not> xp_free x < p"
    and q: "unat q = reserve_amount s key reason + unat p"
    and set: "set_reserve key reason q (put_xp key (x\<lparr>xp_free := sat_sub (xp_free x) p\<rparr>) s) = (Inr (), t1)"
    and t: "t = snd (emit (EvXpReserve key reason q) t1)"
    using reserve_xp_run [OF run] .
  let ?l = "sat_sub (xp_free x) p"
  have step: "set_xp key ?l s = (Inr (), put_xp key (x\<lparr>xp_free := ?l\<rparr>) s)" using x by simp
  have le: "unat p \<le> unat (xp_free x)" using x(2) by (simp add: word_less_nat_alt)
  then have l: "unat ?l + unat p = free_of s key" using x(1) by (simp add: arith_iffs free_of_def)
  note mv = reserves.move_in [OF inv step set l q]
  show ?thesis using mv le x(1) t by (simp add: free_of_def)
qed

text \<open>
  In a consistent store a reservation of points that the key has is refused only when
  the total of its reserves would leave 128 bits: the limit on the number of reserves is never
  reached, because every reason has at most one entry.
\<close>

theorem reserve_xp_succeeds_iff:
  fixes s :: "('k, 'r::finite, 'l) store"
  assumes inv: "xp_inv s" and x: "XpOf s key = Some x"
  shows "is_ok (fst (reserve_xp key reason p s)) \<longleftrightarrow>
           unat p \<le> unat (xp_free x) \<and> unat (xp_reserve x) + unat p < 2 ^ 128"
proof -
  let ?s1 = "put_xp key (x\<lparr>xp_free := sat_sub (xp_free x) p\<rparr>) s"
  note book = xp_invD(1) [OF inv]
  have le: "reserve_amount s key reason \<le> unat (xp_reserve x)"
    using reserves.amount_le [OF inv, of key reason] x by (simp add: reserved_of_def)
  have ok: "is_ok (fst (set_reserve key reason q ?s1)) \<longleftrightarrow> unat (xp_reserve x) + unat p < 2 ^ 128"
    if q: "unat q = reserve_amount s key reason + unat p" for q
  proof (cases "entry_of reason (entries_of (ReservedXpOf s) key)")
    case None
    then have "length (entries_of (ReservedXpOf s) key) < CARD('r)"
      using entries_room [OF book_ok_distinct [OF book]] by blast
    then show ?thesis using None q
      by (auto simp: set_reserve_new reserve_amount_entry checked_add_def split: option.split)
  next
    case (Some e)
    then show ?thesis using q le unat_bound [of "xp_reserve x"]
      by (auto simp: set_reserve_old reserve_amount_entry checked_add_def checked_sub_def
          word_less_nat_alt word_le_nat_alt unat_sat_sub split: option.split)
  qed
  have step: "is_ok (fst (case m of (Inl e, t) \<Rightarrow> (Inl e, t) | (Inr _, t) \<Rightarrow> (Inr (), h t))) = is_ok (fst m)"
    for m :: "(dispatch_error + unit) \<times> ('k, 'r, 'l) store" and h
    by (cases m; cases "fst m") auto
  show ?thesis
  proof (cases "raised_reserve s key reason p")
    case None
    then have "2 ^ 128 \<le> unat (xp_reserve x) + unat p" using raised_reserve_None [of s key reason p] le by auto
    then show ?thesis using None by (simp add: reserve_xp_eval [OF x] Let_def)
  next
    case (Some q)
    then show ?thesis
      using ok raised_reserve_iff [of s key reason p q]
      by (simp add: reserve_xp_eval [OF x] Let_def step word_less_nat_alt not_less)
  qed
qed

text \<open>
  A reservation that fails on the reserve total has already taken the points from the
  liquid balance: the trait method returns an error in a store whose liquid balance is
  reduced, and only a caller that rolls back undoes that.
\<close>

theorem reserve_xp_partial_failure:
  assumes "xp_inv s" and "XpOf s key = Some x"
    and "unat p \<le> unat (xp_free x)" and "2 ^ 128 \<le> unat (xp_reserve x) + unat p"
  shows "\<exists>e t. reserve_xp key reason p s = (Inl e, t) \<and>
           free_of t = (free_of s)(key := free_of s key - unat p) \<and> reserved_of t = reserved_of s"
proof -
  let ?s1 = "put_xp key (x\<lparr>xp_free := sat_sub (xp_free x) p\<rparr>) s"
  have "\<not> is_ok (fst (reserve_xp key reason p s))"
    using reserve_xp_succeeds_iff [OF assms(1,2)] assms(4) by simp
  moreover have "reserve_xp key reason p s = (Inl e, t) \<Longrightarrow> t = ?s1" for e t
    using assms(2,3)
    by (auto simp: reserve_xp_eval Let_def word_less_nat_alt dest: set_reserve_error
        split: option.splits prod.splits sum.splits if_splits)
  ultimately obtain e where "reserve_xp key reason p s = (Inl e, ?s1)"
    by (metis not_is_ok_iff prod.collapse)
  then show ?thesis using assms(2,3)
    by (auto simp: store_view_put fun_eq_iff unat_sat_sub store_view_defs)
qed

lemma sample_withdraw:
  "is_ok (fst (withdraw_reserve_partial 1 True 12 Exact sample_store))"
  "is_ok (fst (slash_reserve 1 True 12 sample_store))"
  by (simp_all add: withdraw_partial_eval [where x = sample_xp] set_reserve_old entry_of_def checked_sub_def
      checked_add_def sat_sub_def slash_reserve_def get_reserve_xp_eq bindO_def thenO_def reserve_hooks emit_eq
      with_reserve_def word_less_nat_alt word_le_nat_alt)

text \<open>
  Withdrawing from a reserve is the inverse movement: exactly the points (with
  \<open>BestEffort\<close>, at most what the entry holds) leave the entry and the cached total and are added
  to the liquid balance, which is capped at 128 bits; an exact withdrawal loses nothing.
\<close>

theorem withdraw_reserve_partial_moves:
  assumes inv: "xp_inv s" and run: "withdraw_reserve_partial key reason p precision s = (Inr u, t)"
    and "p \<noteq> 0"
  shows "\<exists>d. d = min (unat p) (reserve_amount s key reason) \<and>
    reserved_of t = (reserved_of s)(key := reserved_of s key - d) \<and> d \<le> reserved_of s key \<and>
    reserve_amount t = (reserve_amount s)(key := (reserve_amount s key)
        (reason := reserve_amount s key reason - d)) \<and>
    free_of t = (free_of s)(key := min (free_of s key + d) (2 ^ 128 - 1)) \<and>
    (precision = Exact \<longrightarrow> d = unat p \<and> free_of t key + reserved_of t key = free_of s key + reserved_of s key) \<and>
    xp_inv t"
proof -
  obtain x where x: "XpOf s key = Some x"
    using run by (cases "XpOf s key") (simp_all add: withdraw_reserve_partial_def)
  obtain e q l t1 where e: "entry_of reason (entries_of (ReservedXpOf s) key) = Some e"
    and w: "withdrawal precision (idxp_points e) (xp_free x) p = Inr (q, l)"
    and set: "set_reserve key reason q s = (Inr (), t1)"
    and fin: "set_xp key l (snd (emit (EvXpReserve key reason q) t1)) = (Inr u, t)"
    using run by (auto simp: withdraw_partial_eval [OF x \<open>p \<noteq> 0\<close>] split: option.splits sum.splits prod.splits)
  let ?d = "min (unat p) (reserve_amount s key reason)"
  have amt: "reserve_amount s key reason = unat (idxp_points e)" using e by (simp add: reserve_amount_entry)
  have q: "unat q + ?d = reserve_amount s key reason"
    and l: "unat l = min (free_of s key + ?d) (2 ^ 128 - 1)"
    and ex: "precision = Exact \<Longrightarrow> ?d = unat p \<and> unat l = free_of s key + unat p"
    using w x unat_bound [of l]
    by (cases precision;
        auto simp: amt free_of_def arith_iffs min_def word_le_nat_alt split: option.splits)+
  note sh = reserves.shrink [OF inv set q]
  note wr = set_xp_laws [OF fin]
  have "free_of t key + reserved_of t key = free_of s key + reserved_of s key \<and> ?d = unat p"
    if "precision = Exact"
    using ex [OF that] wr(2,3) sh(2,3,4) by simp
  then show ?thesis
    using sh wr l by (intro exI [of _ ?d]) auto
qed

lemma withdraw_reserve_partial_moves_witness:
  "\<exists>t. withdraw_reserve_partial 1 True 12 Exact sample_store = (Inr (), t) \<and>
       free_of t 1 = 112 \<and> reserved_of t 1 = 18"
proof -
  obtain t where run: "withdraw_reserve_partial 1 True 12 Exact sample_store = (Inr (), t)"
    using sample_withdraw(1) by (metis is_ok_iff old.unit.exhaust prod.collapse)
  show ?thesis
    using withdraw_reserve_partial_moves [OF sample_inv run] run
    by auto
qed

text \<open>
  Slashing a reserve destroys and reports exactly the smaller of the points and the entry;
  the liquid balance and every other entry stay.
\<close>

theorem slash_reserve_exact:
  assumes inv: "xp_inv s" and run: "slash_reserve key reason p s = (Inr a, t)"
  shows "unat a = min (unat p) (reserve_amount s key reason) \<and>
    reserved_of t = (reserved_of s)(key := reserved_of s key - unat a) \<and> unat a \<le> reserved_of s key \<and>
    reserve_amount t = (reserve_amount s)(key := (reserve_amount s key)
        (reason := reserve_amount s key reason - unat a)) \<and>
    free_of t = free_of s \<and> xp_inv t"
proof -
  obtain x e where x: "XpOf s key = Some x" and e: "entry_of reason (entries_of (ReservedXpOf s) key) = Some e"
    using run
    by (cases "XpOf s key") (auto simp: slash_reserve_def get_reserve_xp_eq split: option.splits)
  have amt: "reserve_amount s key reason = unat (idxp_points e)" using e by (simp add: reserve_amount_entry)
  obtain q t1 where set: "set_reserve key reason q s = (Inr (), t1)"
    and t: "t = snd (emit (EvXpReserveSlash key reason a) t1)"
    and q: "unat q + unat a = reserve_amount s key reason" "unat a = min (unat p) (reserve_amount s key reason)"
  proof (cases "idxp_points e < p")
    case True
    then show ?thesis
      using run x e that [of 0]
      by (auto simp: slash_reserve_def reset_reserve_def get_reserve_xp_eq bindO_def thenO_def amt
          reserve_hooks emit_eq word_less_nat_alt split: prod.splits sum.splits)
  next
    case False
    then show ?thesis
      using run x e that [of "sat_sub (idxp_points e) p"]
      by (auto simp: slash_reserve_def get_reserve_xp_eq bindO_def thenO_def amt unat_sat_sub
          reserve_hooks emit_eq word_less_nat_alt split: prod.splits sum.splits)
  qed
  show ?thesis using reserves.shrink [OF inv set q(1)] q(2) t by simp
qed

lemma slash_reserve_exact_witness:
  "\<exists>a t. slash_reserve 1 True 12 sample_store = (Inr a, t) \<and> unat a = 12 \<and> reserved_of t 1 = 18"
proof -
  obtain a t where run: "slash_reserve 1 True 12 sample_store = (Inr a, t)"
    using sample_withdraw(2) by (metis is_ok_iff prod.collapse)
  show ?thesis
    using slash_reserve_exact [OF sample_inv run] run by auto
qed

lemma reserve_xp_moves_witness:
  "\<exists>t. reserve_xp 1 True 40 sample_store = (Inr (), t) \<and> free_of t 1 = 60 \<and> reserved_of t 1 = 70"
proof -
  have "is_ok (fst (reserve_xp 1 True 40 sample_store))"
    by (simp add: reserve_xp_eval [where x = sample_xp] raised_reserve_def set_reserve_old entry_of_def
        checked_add_def sat_sub_def Let_def word_less_nat_alt word_le_nat_alt)
  then obtain t where run: "reserve_xp 1 True 40 sample_store = (Inr (), t)"
    by (metis is_ok_iff old.unit.exhaust prod.collapse)
  show ?thesis
    using reserve_xp_moves [OF sample_inv run] run by auto
qed

lemma reserve_xp_succeeds_iff_witness: "is_ok (fst (reserve_xp 1 False 40 sample_store))"
  using reserve_xp_succeeds_iff [OF sample_inv, of 1 sample_xp False 40] by simp

definition full_store :: "(int, bool, bool) store" where
  "full_store = sample_store
     \<lparr>XpOf := [1 \<mapsto> sample_xp\<lparr>xp_reserve := - 1\<rparr>],
      ReservedXpOf := [1 \<mapsto> [\<lparr>idxp_id = True, idxp_points = - 1\<rparr>]]\<rparr>"

lemma reserve_xp_partial_failure_witness:
  "\<exists>e t. reserve_xp 1 False 40 full_store = (Inl e, t) \<and>
         free_of t = (free_of full_store)(1 := free_of full_store 1 - 40) \<and>
         reserved_of t = reserved_of full_store"
proof -
  have inv: "xp_inv full_store"
    by (rule xp_invI) (auto simp: full_store_def intro!: book_ok_update book_ok_empty)
  show ?thesis
    using reserve_xp_partial_failure [OF inv, of 1 "sample_xp\<lparr>xp_reserve := - 1\<rparr>" 40 False]
    by (simp add: full_store_def unat_max_word)
qed

end
