(* ===== verification/XpLock.thy ===== *)
theory XpLock
  imports XpReserve
begin

text \<open>
  Locks: the \<open>XpLock\<close> implementation of \<open>pallets/xp/src/xp.rs\<close> and the default methods of the
  trait in \<open>frame/suite/src/xp.rs\<close>. Locks are a second book beside the reserves, with no zero
  entries; an entry is removed by \<open>burn_lock\<close>, alone or as the second half of a withdrawal.
\<close>

section \<open>Queries\<close>

definition lock_exists :: "'k \<Rightarrow> 'l \<Rightarrow> ('k, 'r, 'l) store \<Rightarrow> dispatch_error + unit" where
  "lock_exists key reason s = (case LockedXpOf s key of
       None \<Rightarrow> Inl (Module XpLockNotFound)
     | Some locks \<Rightarrow>
         if \<not> list_ex (\<lambda>lock. idxp_id lock = reason) locks
         then Inl (Module XpLockNotFound) else Inr ())"

definition get_lock_xp :: "'k \<Rightarrow> 'l \<Rightarrow> ('k, 'r, 'l) store \<Rightarrow> dispatch_error + points" where
  "get_lock_xp key reason s = (case LockedXpOf s key of
       None \<Rightarrow> Inl (Module XpLockNotFound)
     | Some locks \<Rightarrow>
        (case find (\<lambda>lock. idxp_id lock = reason) locks of
           None \<Rightarrow> Inl (Module XpLockNotFound)
         | Some lock \<Rightarrow> Inr (idxp_points lock)))"

definition total_locked :: "'k \<Rightarrow> ('k, 'r, 'l) store \<Rightarrow> dispatch_error + points" where
  "total_locked key s = (case XpOf s key of
       None \<Rightarrow> Inl (Module XpNotFound) | Some x \<Rightarrow> Inr (xp_lock x))"

definition get_all_locks :: "'k \<Rightarrow> ('k, 'r, 'l) store \<Rightarrow> dispatch_error + 'l list" where
  "get_all_locks key s = Inr (case LockedXpOf s key of
       None \<Rightarrow> [] | Some locks \<Rightarrow> map idxp_id locks)"

definition maximum_locks :: "('k, 'r, 'l::finite) store \<Rightarrow> nat" where
  "maximum_locks s = CARD('l)"

definition can_lock_mutate ::
    "'k \<Rightarrow> 'l \<Rightarrow> points \<Rightarrow> ('k, 'r, 'l) store \<Rightarrow> dispatch_error + unit" where
  "can_lock_mutate key reason p s =
     bindE (ensureE (p \<noteq> 0) (from_xp_error XE_CannotLockZero)) (\<lambda>_.
     bindE (get_lock_xp key reason s) (\<lambda>locked.
     bindE (total_locked key s) (\<lambda>tot.
       if locked < p then
         bindE (ok_orE (from_xp_error XE_XpLockCapOverflowed)
                  (checked_add tot (sat_sub p locked))) (\<lambda>_. Inr ())
       else if locked > p then
         bindE (ok_orE (from_xp_error XE_XpLockCapUnderflowed)
                  (checked_sub tot (sat_sub locked p))) (\<lambda>_. Inr ())
       else Inr ())))"

definition can_lock_new ::
    "'k \<Rightarrow> points \<Rightarrow> ('k, 'r, 'l::finite) store \<Rightarrow> dispatch_error + unit" where
  "can_lock_new key p s =
     bindE (xp_exists key s) (\<lambda>_.
     bindE (ensureE (p \<noteq> 0) (from_xp_error XE_CannotLockZero)) (\<lambda>_.
     bindE (get_all_locks key s) (\<lambda>locks.
       if length locks \<ge> maximum_locks s then Inl (from_xp_error XE_TooManyLocks)
       else bindE (total_locked key s) (\<lambda>tot.
         bindE (ok_orE (from_xp_error XE_XpLockCapOverflowed) (checked_add tot p)) (\<lambda>_. Inr ())))))"

definition can_lock_xp ::
    "'k \<Rightarrow> points \<Rightarrow> ('k, 'r, 'l::finite) store \<Rightarrow> dispatch_error + unit" where
  "can_lock_xp key p s =
     bindE (can_lock_new key p s) (\<lambda>_.
     bindE (get_liquid_xp key s) (\<lambda>lockable.
     bindE (total_locked key s) (\<lambda>tot.
       if p > lockable then Inl (from_xp_error XE_InsufficientLiquidXp)
       else (case checked_add tot p of
           Some _ \<Rightarrow> Inr ()
         | None \<Rightarrow> Inl (from_xp_error XE_XpLockCapOverflowed)))))"

section \<open>Mutation\<close>

text \<open>Burning an entry; the total is set to zero when it does not cover the entry.\<close>

definition shrink_lock :: "points \<Rightarrow> xp \<Rightarrow> (dispatch_error + unit) \<times> xp" where
  "shrink_lock locked x =
     (if xp_lock x < locked then (Inr (), x\<lparr>xp_lock := 0\<rparr>)
      else (Inr (), x\<lparr>xp_lock := sat_sub (xp_lock x) locked\<rparr>))"

definition retain_locks :: "'k \<Rightarrow> 'l \<Rightarrow> ('k, 'r, 'l, unit) xp_op" where
  "retain_locks key reason = (\<lambda>s. case LockedXpOf s key of
       None \<Rightarrow> (Inl (Module XpLockNotFound), s)
     | Some value \<Rightarrow>
         (Inr (), s\<lparr>LockedXpOf := (LockedXpOf s)(key \<mapsto> filter (\<lambda>lock. idxp_id lock \<noteq> reason) value)\<rparr>))"

definition burn_lock :: "'k \<Rightarrow> 'l \<Rightarrow> ('k, 'r, 'l, unit) xp_op" where
  "burn_lock key reason =
     bindO (readE (get_lock_xp key reason)) (\<lambda>locked.
       thenO (retain_locks key reason) (mutate_xp key (shrink_lock locked)))"

definition push_lock :: "'k \<Rightarrow> 'l id_xp \<Rightarrow> ('k, 'r, 'l::finite, unit) xp_op" where
  "push_lock key lock = (\<lambda>s.
     let value = (case LockedXpOf s key of None \<Rightarrow> [] | Some v \<Rightarrow> v) in
     if length value < CARD('l)
     then (Inr (), s\<lparr>LockedXpOf := (LockedXpOf s)(key \<mapsto> value @ [lock])\<rparr>)
     else (Inl (Module TooManyLocks), s\<lparr>LockedXpOf := (LockedXpOf s)(key \<mapsto> value)\<rparr>))"

definition grow_lock :: "points \<Rightarrow> xp \<Rightarrow> (dispatch_error + unit) \<times> xp" where
  "grow_lock p x = (Inr (), x\<lparr>xp_lock := sat_add (xp_lock x) p\<rparr>)"

definition move_lock :: "points \<Rightarrow> points \<Rightarrow> xp \<Rightarrow> (dispatch_error + unit) \<times> xp" where
  "move_lock current p x =
     (if current > p then (Inr (), x\<lparr>xp_lock := sat_sub (xp_lock x) (sat_sub current p)\<rparr>)
      else if current < p then (Inr (), x\<lparr>xp_lock := sat_add (xp_lock x) (sat_sub p current)\<rparr>)
      else (Inr (), x))"

definition replace_lock :: "'k \<Rightarrow> 'l \<Rightarrow> points \<Rightarrow> ('k, 'r, 'l, unit) xp_op" where
  "replace_lock key reason p = (\<lambda>s. case LockedXpOf s key of
       None \<Rightarrow> (Inl (Module XpLockNotFound), s)
     | Some value \<Rightarrow>
        (case find (\<lambda>lock. idxp_id lock = reason) value of
           None \<Rightarrow> (Inl (Module XpLockNotFound), s)
         | Some lock \<Rightarrow>
             mutate_xp key (move_lock (idxp_points lock) p)
               (s\<lparr>LockedXpOf := (LockedXpOf s)(key \<mapsto>
                    update_first (\<lambda>e. idxp_id e = reason) (\<lambda>e. e\<lparr>idxp_points := p\<rparr>) value)\<rparr>)))"

definition set_lock :: "'k \<Rightarrow> 'l \<Rightarrow> points \<Rightarrow> ('k, 'r, 'l::finite, unit) xp_op" where
  "set_lock key reason p = (\<lambda>s.
     if \<not> is_ok (lock_exists key reason s)
     then thenO (readE (can_lock_new key p))
            (thenO (push_lock key \<lparr>idxp_id = reason, idxp_points = p\<rparr>)
              (mutate_xp key (grow_lock p))) s
     else thenO (readE (can_lock_mutate key reason p)) (replace_lock key reason p) s)"

definition on_lock_update :: "'k \<Rightarrow> 'l \<Rightarrow> points \<Rightarrow> ('k, 'r, 'l, unit) xp_op" where
  "on_lock_update key reason p = emit (EvXpLock key reason p)"

definition on_lock_burn :: "'k \<Rightarrow> 'l \<Rightarrow> ('k, 'r, 'l, unit) xp_op" where
  "on_lock_burn key reason = emit (EvXpLockBurn key reason)"

definition on_lock_slash :: "'k \<Rightarrow> 'l \<Rightarrow> points \<Rightarrow> ('k, 'r, 'l, unit) xp_op" where
  "on_lock_slash key reason p = emit (EvXpLockSlash key reason p)"

definition lock_xp :: "'k \<Rightarrow> 'l \<Rightarrow> points \<Rightarrow> ('k, 'r, 'l::finite, unit) xp_op" where
  "lock_xp key reason p =
     thenO (readE (xp_exists key))
       (thenO (ensureO (p \<noteq> 0) (from_xp_error XE_CannotLockZero))
         (bindO (readE (get_liquid_xp key)) (\<lambda>liquid.
          if liquid < p then throw (from_xp_error XE_InsufficientLiquidXp)
          else bindO (gets (lock_exists key reason)) (\<lambda>ex.
            if \<not> is_ok ex
            then thenO (set_xp key (sat_sub liquid p))
                   (thenO (set_lock key reason p) (on_lock_update key reason p))
            else thenO (set_xp key (sat_sub liquid p))
                   (bindO (readE (get_lock_xp key reason)) (\<lambda>old.
                      bindO (ok_orO (from_xp_error XE_XpLockCapOverflowed) (checked_add old p)) (\<lambda>new.
                        thenO (set_lock key reason new) (on_lock_update key reason new))))))))"

definition withdraw_lock :: "'k \<Rightarrow> 'l \<Rightarrow> ('k, 'r, 'l, unit) xp_op" where
  "withdraw_lock key reason =
     thenO (readE (xp_exists key))
       (thenO (readE (lock_exists key reason))
         (bindO (readE (get_lock_xp key reason)) (\<lambda>lock_points.
          bindO (readE (get_liquid_xp key)) (\<lambda>liquid.
            thenO (set_xp key (sat_add liquid lock_points))
              (thenO (burn_lock key reason) (on_lock_burn key reason))))))"

definition slash_lock :: "'k \<Rightarrow> 'l \<Rightarrow> points \<Rightarrow> ('k, 'r, 'l::finite, points) xp_op" where
  "slash_lock key reason p =
     thenO (readE (xp_exists key))
       (bindO (readE (get_lock_xp key reason)) (\<lambda>lock.
          if lock < p
          then thenO (burn_lock key reason)
                 (thenO (on_lock_slash key reason lock)
                   (thenO (on_lock_burn key reason) (ret lock)))
          else thenO (set_lock key reason (sat_sub lock p))
                 (thenO (on_lock_slash key reason p) (ret p))))"

section \<open>Evaluation\<close>

lemma lock_exists_iff [simp]:
  "is_ok (lock_exists key reason s) \<longleftrightarrow> entry_of reason (entries_of (LockedXpOf s) key) \<noteq> None"
  by (auto simp: lock_exists_def list_ex_entry entry_of_def split: option.split)

lemma lock_exists_eval:
  "entry_of reason (entries_of (LockedXpOf s) key) = None \<Longrightarrow>
     lock_exists key reason s = Inl (Module XpLockNotFound)"
  "entry_of reason (entries_of (LockedXpOf s) key) = Some e \<Longrightarrow> lock_exists key reason s = Inr ()"
  by (cases "LockedXpOf s key"; simp add: lock_exists_def list_ex_entry entry_of_def)+

lemma get_lock_xp_eq:
  "get_lock_xp key reason s =
     (case entry_of reason (entries_of (LockedXpOf s) key) of
        None \<Rightarrow> Inl (Module XpLockNotFound) | Some e \<Rightarrow> Inr (idxp_points e))"
  by (auto simp: get_lock_xp_def entry_of_def split: option.split)

lemma total_locked_eval [simp]:
  "XpOf s key = Some x \<Longrightarrow> total_locked key s = Inr (xp_lock x)"
  "XpOf s key = None \<Longrightarrow> total_locked key s = Inl (Module XpNotFound)"
  by (simp_all add: total_locked_def)

lemma get_all_locks_eq: "get_all_locks key s = Inr (map idxp_id (entries_of (LockedXpOf s) key))"
  by (auto simp: get_all_locks_def entries_of_def split: option.split)

lemma lock_amount_entry:
  "lock_amount s key reason =
     (case entry_of reason (entries_of (LockedXpOf s) key) of None \<Rightarrow> 0 | Some e \<Rightarrow> unat (idxp_points e))"
  by (simp add: lock_amount_def points_of_def)

text \<open>The store with new entries and a new cached lock total for a key.\<close>

definition with_locks ::
    "'k \<Rightarrow> 'l id_xp list \<Rightarrow> xp \<Rightarrow> points \<Rightarrow> ('k, 'r, 'l) store \<Rightarrow> ('k, 'r, 'l) store" where
  "with_locks key es x n s =
     put_xp key (x\<lparr>xp_lock := n\<rparr>) (s\<lparr>LockedXpOf := (LockedXpOf s)(key \<mapsto> es)\<rparr>)"

lemma set_lock_new:
  fixes s :: "('k, 'r, 'l::finite) store"
  assumes "entry_of reason (entries_of (LockedXpOf s) key) = None"
  shows "set_lock key reason p s =
     (case XpOf s key of
        None \<Rightarrow> (Inl (Module XpNotFound), s)
      | Some x \<Rightarrow>
          if p = 0 then (Inl (Module CannotLockZero), s)
          else if length (entries_of (LockedXpOf s) key) \<ge> CARD('l) then (Inl (Module TooManyLocks), s)
          else (case checked_add (xp_lock x) p of
              None \<Rightarrow> (Inl (Module XpLockCapOverflowed), s)
            | Some n \<Rightarrow> (Inr (), with_locks key (set_entry reason p (entries_of (LockedXpOf s) key)) x n s)))"
proof (cases "XpOf s key")
  case None
  then show ?thesis using assms by (simp add: set_lock_def can_lock_new_def)
next
  case (Some x)
  show ?thesis
  proof (cases "p = 0 \<or> length (entries_of (LockedXpOf s) key) \<ge> CARD('l)")
    case True
    then show ?thesis using assms Some
      by (auto simp: set_lock_def can_lock_new_def get_all_locks_eq maximum_locks_def)
  next
    case False
    then show ?thesis using assms Some
      by (cases "checked_add (xp_lock x) p")
         (auto simp: set_lock_def can_lock_new_def get_all_locks_eq maximum_locks_def
            push_lock_def entries_of_def thenO_def bindO_def grow_lock_def with_locks_def
            set_entry_def mutate_xp_def put_xp_def checked_add_sat split: option.splits)
  qed
qed

lemma set_lock_old:
  assumes "entry_of reason (entries_of (LockedXpOf s) key) = Some e"
  shows "set_lock key reason p s =
     (if p = 0 then (Inl (Module CannotLockZero), s) else
      case XpOf s key of
        None \<Rightarrow> (Inl (Module XpNotFound), s)
      | Some x \<Rightarrow>
          if idxp_points e < p then
            (case checked_add (xp_lock x) (sat_sub p (idxp_points e)) of
               None \<Rightarrow> (Inl (Module XpLockCapOverflowed), s)
             | Some n \<Rightarrow> (Inr (), with_locks key (set_entry reason p (entries_of (LockedXpOf s) key)) x n s))
          else (case checked_sub (xp_lock x) (sat_sub (idxp_points e) p) of
               None \<Rightarrow> (Inl (Module XpLockCapUnderflowed), s)
             | Some n \<Rightarrow> (Inr (), with_locks key (set_entry reason p (entries_of (LockedXpOf s) key)) x n s)))"
proof -
  from assms obtain es where es: "LockedXpOf s key = Some es" "entry_of reason es = Some e"
    by (cases "LockedXpOf s key") (auto simp: entry_of_def)
  show ?thesis
    using es
    by (auto simp: set_lock_def can_lock_mutate_def get_lock_xp_eq replace_lock_def
        entry_of_def [symmetric] move_lock_def with_locks_def set_entry_def
        checked_add_sat checked_sub_sat put_xp_def split: option.split)
qed

lemma burn_lock_eval:
  "burn_lock key reason s =
     (case entry_of reason (entries_of (LockedXpOf s) key) of
        None \<Rightarrow> (Inl (Module XpLockNotFound), s)
      | Some e \<Rightarrow>
         (case XpOf s key of
            None \<Rightarrow> (Inl (Module XpNotFound),
                s\<lparr>LockedXpOf := (LockedXpOf s)(key \<mapsto> drop_entry reason (entries_of (LockedXpOf s) key))\<rparr>)
          | Some x \<Rightarrow> (Inr (), with_locks key (drop_entry reason (entries_of (LockedXpOf s) key)) x
                         (sat_sub (xp_lock x) (idxp_points e)) s)))"
proof (cases "entry_of reason (entries_of (LockedXpOf s) key)")
  case None
  then show ?thesis by (simp add: burn_lock_def get_lock_xp_eq)
next
  case (Some e)
  then obtain es where es: "LockedXpOf s key = Some es"
    by (cases "LockedXpOf s key") (auto simp: entry_of_def)
  have "xp_lock x < idxp_points e \<Longrightarrow> sat_sub (xp_lock x) (idxp_points e) = 0" for x :: xp
    by (simp add: word_unat_eq_iff arith_iffs word_less_nat_alt)
  then have "snd (shrink_lock (idxp_points e) x) = x\<lparr>xp_lock := sat_sub (xp_lock x) (idxp_points e)\<rparr>"
    and "fst (shrink_lock (idxp_points e) x) = Inr ()" for x
    by (auto simp: shrink_lock_def)
  then show ?thesis using Some es
    by (auto simp: burn_lock_def get_lock_xp_eq retain_locks_def thenO_def bindO_def drop_entry_def
        with_locks_def mutate_xp_def put_xp_def split: option.split)
qed

lemma set_lock_run:
  fixes s :: "('k, 'r, 'l::finite) store"
  assumes "set_lock key reason p s = (Inr u, t)"
  obtains x n where "XpOf s key = Some x" and "p \<noteq> 0"
    and "t = with_locks key (set_entry reason p (entries_of (LockedXpOf s) key)) x n s"
    and "unat n + lock_amount s key reason = unat (xp_lock x) + unat p"
proof (cases "entry_of reason (entries_of (LockedXpOf s) key)")
  case None
  then show ?thesis
    using assms that
    by (auto simp: set_lock_new lock_amount_def checked_add_Some_iff split: option.splits if_splits)
next
  case (Some e)
  then show ?thesis
    using assms that
    by (auto simp: set_lock_old lock_amount_def arith_iffs word_less_nat_alt
        split: option.splits if_splits)
qed

lemma set_lock_error: "set_lock key reason p s = (Inl e, t) \<Longrightarrow> t = s"
  by (cases "entry_of reason (entries_of (LockedXpOf s) key)")
     (auto simp: set_lock_new set_lock_old split: option.splits if_splits)

section \<open>The locks as a book\<close>

lemma xp_inv_with_locks:
  assumes "xp_inv s" "XpOf s key = Some x" "distinct (map idxp_id es)" "unat n = entries_total es"
  shows "xp_inv (with_locks key es x n s)"
proof (rule xp_invI)
  note inv = xp_invD [OF assms(1)]
  show "book_ok (LockedXpOf (with_locks key es x n s)) xp_lock (XpOf (with_locks key es x n s))"
    using book_ok_update [OF inv(2) assms(3), where x = "x\<lparr>xp_lock := n\<rparr>" and key = key] assms(4)
    by (simp add: with_locks_def)
  show "book_ok (ReservedXpOf (with_locks key es x n s)) xp_reserve (XpOf (with_locks key es x n s))"
    using book_ok_put [OF inv(1) assms(2)] by (simp add: with_locks_def)
  show "\<And>key'. key' \<in> ReapedXp (with_locks key es x n s) \<Longrightarrow> XpOf (with_locks key es x n s) key' = None"
    using inv(3) assms(2) by (auto simp: with_locks_def)
qed

lemma with_locks_view:
  assumes "XpOf s key = Some x"
  shows "free_of (with_locks key es x n s) = free_of s"
    and "locked_of (with_locks key es x n s) = (locked_of s)(key := unat n)"
    and "reserved_of (with_locks key es x n s) = reserved_of s"
    and "reserve_amount (with_locks key es x n s) = reserve_amount s"
    and "lock_amount (with_locks key es x n s) = (lock_amount s)(key := (\<lambda>r. points_of r es))"
  using assms
  by (auto simp: with_locks_def store_view_put fun_eq_iff store_view_defs entries_of_upd)

lemma xp_inv_set_lock:
  assumes inv: "xp_inv s" and run: "set_lock key reason p s = (Inr u, t)"
  shows "xp_inv t"
proof -
  obtain x n where x: "XpOf s key = Some x"
    and t: "t = with_locks key (set_entry reason p (entries_of (LockedXpOf s) key)) x n s"
    and n: "unat n + lock_amount s key reason = unat (xp_lock x) + unat p"
    using set_lock_run [OF run] .
  note book = xp_invD(2) [OF inv]
  have "unat n = entries_total (set_entry reason p (entries_of (LockedXpOf s) key))"
    using n book_ok_total [OF book x] total_set_entry [of reason p "entries_of (LockedXpOf s) key"]
    by (simp add: lock_amount_def)
  then show ?thesis
    unfolding t by (intro xp_inv_with_locks inv x distinct_set_entry book_ok_distinct [OF book])
qed

lemma burn_lock_run:
  assumes "xp_inv s" and "burn_lock key reason s = (r, t)" and "t \<noteq> s \<or> r = Inr u"
  obtains x n where "XpOf s key = Some x" and "r = Inr ()"
    and "t = with_locks key (drop_entry reason (entries_of (LockedXpOf s) key)) x n s"
    and "unat n + lock_amount s key reason = unat (xp_lock x)"
proof -
  note book = xp_invD(2) [OF assms(1)]
  obtain e where e: "entry_of reason (entries_of (LockedXpOf s) key) = Some e"
    using assms(2,3) by (auto simp: burn_lock_eval split: option.splits)
  then obtain x where x: "XpOf s key = Some x"
    using book_ok_absent [OF book, of key] by (cases "XpOf s key") (auto simp: entry_of_def)
  have "lock_amount s key reason \<le> unat (xp_lock x)"
    using book_ok_points_le [OF book x] by (simp add: lock_amount_def)
  then show thesis
    using assms(2) e x that [of x "sat_sub (xp_lock x) (idxp_points e)"]
    by (auto simp: burn_lock_eval lock_amount_entry unat_sat_sub)
qed

lemma xp_inv_burn_lock:
  assumes inv: "xp_inv s" and run: "burn_lock key reason s = (r, t)"
  shows "xp_inv t"
proof (cases "t = s")
  case False
  then obtain x n where x: "XpOf s key = Some x"
    and t: "t = with_locks key (drop_entry reason (entries_of (LockedXpOf s) key)) x n s"
    and n: "unat n + lock_amount s key reason = unat (xp_lock x)"
    using burn_lock_run [OF inv run] by blast
  note book = xp_invD(2) [OF inv]
  have "unat n = entries_total (drop_entry reason (entries_of (LockedXpOf s) key))"
    using n book_ok_total [OF book x] total_drop_entry [OF book_ok_distinct [OF book], of reason key]
    by (simp add: lock_amount_def)
  then show ?thesis
    unfolding t by (intro xp_inv_with_locks inv x distinct_drop_entry book_ok_distinct [OF book])
qed (simp add: inv)

lemma points_of_set_entry: "points_of j (set_entry i p es) = (if j = i then unat p else points_of j es)"
  by (simp add: points_of_def)

lemma points_of_drop_entry: "points_of j (drop_entry i es) = (if j = i then 0 else points_of j es)"
  by (simp add: points_of_def)

interpretation locks: burnable_allocation xp_inv free_of locked_of lock_amount set_xp
    "set_lock :: 'k \<Rightarrow> 'l \<Rightarrow> points \<Rightarrow> ('k, 'r, 'l::finite, unit) xp_op" burn_lock
proof (unfold_locales, goal_cases)
  case (1 s k q u t) then show ?case by (simp add: set_xp_laws(1))
next
  case (2 s k q u t) then show ?case by (simp add: set_xp_laws)
next
  case (3 s k q u t) then show ?case by (simp add: set_xp_laws)
next
  case (4 s k i q u t) then show ?case by (rule xp_inv_set_lock)
next
  case (5 s k i q u t)
  then show ?case by (elim set_lock_run) (auto simp: with_locks_view locked_of_def)
next
  case (6 s k i q u t)
  then show ?case
    by (elim set_lock_run) (auto simp: with_locks_view points_of_set_entry lock_amount_def fun_eq_iff)
next
  case (7 s k i q u t)
  then show ?case by (elim set_lock_run) (simp add: with_locks_view)
next
  case (8 k i q s e t) then show ?case by (rule set_lock_error)
next
  case (9 s k i)
  then show ?case
    using book_ok_points_le [OF xp_invD(2) [OF 9]] book_ok_absent [OF xp_invD(2) [OF 9]]
    by (cases "XpOf s k") (simp_all add: lock_amount_def locked_of_def points_of_def entry_of_def)
next
  case (10 s k i u t) then show ?case by (rule xp_inv_burn_lock)
next
  case (11 s k i u t)
  then obtain x n where "XpOf s k = Some x" "unat n + lock_amount s k i = unat (xp_lock x)"
    "t = with_locks k (drop_entry i (entries_of (LockedXpOf s) k)) x n s"
    using burn_lock_run [OF 11(1,2), of u] by blast
  moreover from this have "unat n = locked_of s k - lock_amount s k i" by (simp add: locked_of_def)
  ultimately show ?case by (simp add: with_locks_view)
next
  case (12 s k i u t)
  then obtain x n where "XpOf s k = Some x"
    "t = with_locks k (drop_entry i (entries_of (LockedXpOf s) k)) x n s"
    using burn_lock_run [OF 12(1,2), of u] by blast
  then show ?case by (auto simp: with_locks_view points_of_drop_entry lock_amount_def fun_eq_iff)
next
  case (13 s k i u t)
  then obtain x n where "XpOf s k = Some x"
    "t = with_locks k (drop_entry i (entries_of (LockedXpOf s) k)) x n s"
    using burn_lock_run [OF 13(1,2), of u] by blast
  then show ?case by (simp add: with_locks_view)
qed

lemma keeps_set_lock [intro, simp]: "keeps xp_inv (set_lock key reason p)"
  unfolding keeps_def
proof (intro allI impI)
  fix s :: "('a, 'b, 'c::finite) store" and r t
  assume "xp_inv s" "set_lock key reason p s = (r, t)"
  then show "xp_inv t"
    by (cases r) (auto dest: set_lock_error xp_inv_set_lock)
qed

lemma keeps_burn_lock [intro, simp]: "keeps xp_inv (burn_lock key reason)"
  unfolding keeps_def by (auto intro: xp_inv_burn_lock)

lemmas lock_hooks = on_lock_update_def on_lock_burn_def on_lock_slash_def

locale lock_stable =
  fixes P :: "('k, 'r, 'l::finite) store \<Rightarrow> bool"
  assumes emit: "keeps P (emit ev)"
    and set_xp: "keeps P (set_xp key p)"
    and set_lock: "keeps P (set_lock key reason p)"
    and burn_lock: "keeps P (burn_lock key reason)"
begin

lemmas primitive = emit set_xp set_lock burn_lock keeps_basic

lemma lock_xp: "keeps P (lock_xp key reason p)"
  unfolding lock_xp_def lock_hooks by (intro keeps_thenO keeps_bindO keeps_if primitive)

lemma withdraw_lock: "keeps P (withdraw_lock key reason)"
  unfolding withdraw_lock_def lock_hooks by (intro keeps_thenO keeps_bindO keeps_if primitive)

lemma slash_lock: "keeps P (slash_lock key reason p)"
  unfolding slash_lock_def lock_hooks by (intro keeps_thenO keeps_bindO keeps_if primitive)

end

interpretation inv_lock: lock_stable xp_inv
  by unfold_locales simp_all

section \<open>The movements\<close>

lemma thenO_lock_hook:
  "thenO m (emit ev) s = (case m s of (Inl e, t) \<Rightarrow> (Inl e, t) | (Inr _, t) \<Rightarrow> (Inr (), snd (emit ev t)))"
  by (simp add: thenO_def bindO_def emit_eq split: prod.split sum.split)

definition raised_lock :: "('k, 'r, 'l) store \<Rightarrow> 'k \<Rightarrow> 'l \<Rightarrow> points \<Rightarrow> points option" where
  "raised_lock s key reason p =
     (case entry_of reason (entries_of (LockedXpOf s) key) of
        None \<Rightarrow> Some p | Some e \<Rightarrow> checked_add (idxp_points e) p)"

lemma raised_lock_iff:
  "raised_lock s key reason p = Some q \<longleftrightarrow> unat q = lock_amount s key reason + unat p"
  by (auto simp: raised_lock_def lock_amount_entry checked_add_Some_iff word_unat_eq_iff
      split: option.split)

lemma raised_lock_None:
  "raised_lock s key reason p = None \<longleftrightarrow> 2 ^ 128 \<le> lock_amount s key reason + unat p"
  using unat_bound [of p]
  by (auto simp: raised_lock_def lock_amount_entry checked_add_None_iff split: option.split)

lemma lock_xp_eval:
  assumes "XpOf s key = Some x"
  shows "lock_xp key reason p s =
    (if p = 0 then (Inl (Module CannotLockZero), s)
     else if xp_free x < p then (Inl (Module InsufficientLiquidXp), s)
     else let s1 = put_xp key (x\<lparr>xp_free := sat_sub (xp_free x) p\<rparr>) s in
       (case raised_lock s key reason p of
          None \<Rightarrow> (Inl (Module XpLockCapOverflowed), s1)
        | Some q \<Rightarrow>
           (case set_lock key reason q s1 of
              (Inl e, t) \<Rightarrow> (Inl e, t)
            | (Inr _, t) \<Rightarrow> (Inr (), snd (emit (EvXpLock key reason q) t)))))"
  using assms
  by (auto simp: lock_xp_def raised_lock_def get_lock_xp_eq lock_hooks thenO_lock_hook Let_def
      split: option.split)

lemma lock_xp_None [simp]: "XpOf s key = None \<Longrightarrow> lock_xp key reason p s = (Inl (Module XpNotFound), s)"
  by (simp add: lock_xp_def)

lemma lock_xp_run:
  assumes "lock_xp key reason p s = (Inr u, t)"
  obtains x q t1 where "XpOf s key = Some x" "p \<noteq> 0" "\<not> xp_free x < p"
    and "unat q = lock_amount s key reason + unat p"
    and "set_lock key reason q (put_xp key (x\<lparr>xp_free := sat_sub (xp_free x) p\<rparr>) s) = (Inr (), t1)"
    and "t = snd (emit (EvXpLock key reason q) t1)"
proof (cases "XpOf s key")
  case None
  then show ?thesis using assms by simp
next
  case (Some x)
  with assms that show ?thesis
    by (auto simp: lock_xp_eval Let_def raised_lock_iff split: if_splits option.splits prod.splits sum.splits)
qed

lemma withdraw_lock_eval:
  assumes "XpOf s key = Some x"
  shows "withdraw_lock key reason s =
    (case entry_of reason (entries_of (LockedXpOf s) key) of
       None \<Rightarrow> (Inl (Module XpLockNotFound), s)
     | Some e \<Rightarrow>
        (case burn_lock key reason (put_xp key (x\<lparr>xp_free := sat_add (xp_free x) (idxp_points e)\<rparr>) s) of
           (Inl err, t) \<Rightarrow> (Inl err, t)
         | (Inr _, t) \<Rightarrow> (Inr (), snd (emit (EvXpLockBurn key reason) t))))"
proof (cases "entry_of reason (entries_of (LockedXpOf s) key)")
  case None
  then show ?thesis using assms by (simp add: withdraw_lock_def lock_exists_eval)
next
  case (Some e)
  then show ?thesis using assms
    by (simp add: withdraw_lock_def lock_exists_eval get_lock_xp_eq lock_hooks thenO_lock_hook)
qed

section \<open>Properties\<close>

text \<open>
  C7: Locking moves points: on success exactly the requested points leave the liquid balance
  and arrive in the cached lock total and in the entry of the reason; the sum of liquid and
  locked XP is unchanged, and no other key, reason or reserve is touched.
\<close>

theorem lock_xp_moves:
  assumes inv: "xp_inv s" and run: "lock_xp key reason p s = (Inr u, t)"
  shows "0 < unat p \<and> unat p \<le> free_of s key \<and>
    free_of t = (free_of s)(key := free_of s key - unat p) \<and>
    locked_of t = (locked_of s)(key := locked_of s key + unat p) \<and>
    lock_amount t = (lock_amount s)(key := (lock_amount s key)
        (reason := lock_amount s key reason + unat p)) \<and>
    free_of t key + locked_of t key = free_of s key + locked_of s key \<and>
    xp_inv t"
proof -
  obtain x q t1 where x: "XpOf s key = Some x" "p \<noteq> 0" "\<not> xp_free x < p"
    and q: "unat q = lock_amount s key reason + unat p"
    and set: "set_lock key reason q (put_xp key (x\<lparr>xp_free := sat_sub (xp_free x) p\<rparr>) s) = (Inr (), t1)"
    and t: "t = snd (emit (EvXpLock key reason q) t1)"
    using lock_xp_run [OF run] .
  let ?l = "sat_sub (xp_free x) p"
  have step: "set_xp key ?l s = (Inr (), put_xp key (x\<lparr>xp_free := ?l\<rparr>) s)" using x by simp
  have le: "unat p \<le> unat (xp_free x)" using x(3) by (simp add: word_less_nat_alt)
  then have l: "unat ?l + unat p = free_of s key" using x(1) by (simp add: arith_iffs free_of_def)
  note mv = locks.move_in [OF inv step set l q]
  show ?thesis using mv le x(1,2) t by (simp add: free_of_def unat_gt_0)
qed

lemma lock_xp_moves_witness:
  "\<exists>t. lock_xp 1 False 40 sample_store = (Inr (), t) \<and> free_of t 1 = 60 \<and> locked_of t 1 = 60"
proof -
  have "is_ok (fst (lock_xp 1 False 40 sample_store))"
    by (simp add: lock_xp_eval [where x = sample_xp] raised_lock_def set_lock_old entry_of_def
        checked_add_def sat_sub_def Let_def word_less_nat_alt word_le_nat_alt)
  then obtain t where run: "lock_xp 1 False 40 sample_store = (Inr (), t)"
    by (metis is_ok_iff old.unit.exhaust prod.collapse)
  show ?thesis using lock_xp_moves [OF sample_inv run] run by auto
qed

text \<open>
  A lock of points that the key has is refused in a consistent store only for a zero
  amount or when the lock total would leave 128 bits; the limit on the number of locks is
  never reached.
\<close>

theorem lock_xp_succeeds_iff:
  fixes s :: "('k, 'r, 'l::finite) store"
  assumes inv: "xp_inv s" and x: "XpOf s key = Some x"
  shows "is_ok (fst (lock_xp key reason p s)) \<longleftrightarrow>
           p \<noteq> 0 \<and> unat p \<le> unat (xp_free x) \<and> unat (xp_lock x) + unat p < 2 ^ 128"
proof -
  let ?s1 = "put_xp key (x\<lparr>xp_free := sat_sub (xp_free x) p\<rparr>) s"
  note book = xp_invD(2) [OF inv]
  have le: "lock_amount s key reason \<le> unat (xp_lock x)"
    using locks.amount_le [OF inv, of key reason] x by (simp add: locked_of_def)
  have ok: "is_ok (fst (set_lock key reason q ?s1)) \<longleftrightarrow> unat (xp_lock x) + unat p < 2 ^ 128"
    if q: "unat q = lock_amount s key reason + unat p" and p: "p \<noteq> 0" for q
  proof -
    have nz: "q \<noteq> 0" using p q by (auto simp: unat_is_zero)
    show ?thesis
    proof (cases "entry_of reason (entries_of (LockedXpOf s) key)")
      case None
      then have "length (entries_of (LockedXpOf s) key) < CARD('l)"
        using entries_room [OF book_ok_distinct [OF book]] by blast
      then show ?thesis using None q nz
        by (auto simp: set_lock_new lock_amount_entry checked_add_def split: option.split)
    next
      case (Some e)
      then show ?thesis using q le nz unat_bound [of "xp_lock x"]
        by (auto simp: set_lock_old lock_amount_entry checked_add_def checked_sub_def
            word_less_nat_alt word_le_nat_alt unat_sat_sub split: option.split)
    qed
  qed
  have step: "is_ok (fst (case m of (Inl e, t) \<Rightarrow> (Inl e, t) | (Inr _, t) \<Rightarrow> (Inr (), h t))) = is_ok (fst m)"
    for m :: "(dispatch_error + unit) \<times> ('k, 'r, 'l) store" and h
    by (cases m; cases "fst m") auto
  show ?thesis
  proof (cases "raised_lock s key reason p")
    case None
    then have "2 ^ 128 \<le> unat (xp_lock x) + unat p" using raised_lock_None [of s key reason p] le by auto
    then show ?thesis using None by (simp add: lock_xp_eval [OF x] Let_def)
  next
    case (Some q)
    then show ?thesis
      using ok raised_lock_iff [of s key reason p q]
      by (simp add: lock_xp_eval [OF x] Let_def step word_less_nat_alt not_less)
  qed
qed

lemma lock_xp_succeeds_iff_witness: "is_ok (fst (lock_xp 1 True 40 sample_store))"
  using lock_xp_succeeds_iff [OF sample_inv, of 1 sample_xp True 40] by simp

text \<open>
  Withdrawing a lock succeeds exactly when the lock exists, removes its entry, takes its
  points out of the lock total and adds them to the liquid balance (capped at 128 bits).
\<close>

theorem withdraw_lock_releases:
  fixes s :: "('k, 'r, 'l::finite) store"
  assumes inv: "xp_inv s" and e: "entry_of reason (entries_of (LockedXpOf s) key) = Some e"
  shows "\<exists>t. withdraw_lock key reason s = (Inr (), t) \<and>
    free_of t = (free_of s)(key := min (free_of s key + unat (idxp_points e)) (2 ^ 128 - 1)) \<and>
    locked_of t = (locked_of s)(key := locked_of s key - unat (idxp_points e)) \<and>
    unat (idxp_points e) \<le> locked_of s key \<and>
    entry_of reason (entries_of (LockedXpOf t) key) = None \<and>
    lock_amount t = (lock_amount s)(key := (lock_amount s key)(reason := 0)) \<and> xp_inv t"
proof -
  obtain x where x: "XpOf s key = Some x"
    using book_ok_absent [OF xp_invD(2) [OF inv], of key] e
    by (cases "XpOf s key") (auto simp: entry_of_def)
  let ?l = "sat_add (xp_free x) (idxp_points e)" and ?s1 = "put_xp key (x\<lparr>xp_free := sat_add (xp_free x) (idxp_points e)\<rparr>) s"
  have step: "set_xp key ?l s = (Inr (), ?s1)" using x by simp
  obtain t1 where burn: "burn_lock key reason ?s1 = (Inr (), t1)"
    and gone: "entry_of reason (entries_of (LockedXpOf t1) key) = None"
    using e by (simp add: burn_lock_eval with_locks_def)
  have amt: "lock_amount s key reason = unat (idxp_points e)" using e by (simp add: lock_amount_entry)
  have l: "unat ?l = min (free_of s key + unat (idxp_points e)) (2 ^ 128 - 1)"
    using x by (simp add: free_of_def unat_sat_add)
  show ?thesis
    using locks.release [OF inv step burn] amt l gone
    by (simp add: withdraw_lock_eval [OF x] e burn)
qed

lemma withdraw_lock_releases_witness:
  "\<exists>t. withdraw_lock 1 False sample_store = (Inr (), t) \<and> free_of t 1 = 120 \<and> locked_of t 1 = 0"
  using withdraw_lock_releases [OF sample_inv, of False 1 "\<lparr>idxp_id = False, idxp_points = 20\<rparr>"]
  by (auto simp: entry_of_def)

text \<open>
  Slashing a lock, by the relation of the points to the entry. Above the entry, the whole
  entry is destroyed and removed; below it, exactly the points are destroyed; for exactly the
  entry the slash is refused with \<open>CannotLockZero\<close> and nothing is destroyed.
\<close>

theorem slash_lock_cases:
  assumes inv: "xp_inv s" and e: "entry_of reason (entries_of (LockedXpOf s) key) = Some e"
  shows "\<exists>r t. slash_lock key reason p s = (r, t) \<and> xp_inv t \<and> free_of t = free_of s \<and>
    (if p = idxp_points e then r = Inl (Module CannotLockZero) \<and> t = s
     else r = Inr (min (idxp_points e) p) \<and>
       locked_of t = (locked_of s)(key := locked_of s key - min (unat (idxp_points e)) (unat p)) \<and>
       lock_amount t = (lock_amount s)(key := (lock_amount s key)
          (reason := unat (idxp_points e) - min (unat (idxp_points e)) (unat p))))"
proof -
  obtain x where x: "XpOf s key = Some x"
    using book_ok_absent [OF xp_invD(2) [OF inv], of key] e
    by (cases "XpOf s key") (auto simp: entry_of_def)
  have amt: "lock_amount s key reason = unat (idxp_points e)" using e by (simp add: lock_amount_entry)
  consider "p = idxp_points e" | "idxp_points e < p" | "p < idxp_points e" by fastforce
  then show ?thesis
  proof cases
    case 1
    then have "slash_lock key reason p s = (Inl (Module CannotLockZero), s)"
      using x e by (simp add: slash_lock_def get_lock_xp_eq set_lock_old thenO_eval)
    then show ?thesis using 1 inv by simp
  next
    case 2
    obtain t1 where burn: "burn_lock key reason s = (Inr (), t1)" using e x by (simp add: burn_lock_eval)
    then obtain t where "slash_lock key reason p s = (Inr (idxp_points e), t)"
      "t = snd (emit (EvXpLockBurn key reason) (snd (emit (EvXpLockSlash key reason (idxp_points e)) t1)))"
      using 2 x e by (simp add: slash_lock_def get_lock_xp_eq thenO_eval lock_hooks)
    then show ?thesis
      using 2 amt locks.burn_good [OF inv burn] locks.burn_held [OF inv burn]
        locks.burn_amount [OF inv burn] locks.burn_frame [OF inv burn]
      by (auto simp: min_def word_less_nat_alt word_le_nat_alt)
  next
    case 3
    let ?q = "sat_sub (idxp_points e) p"
    have q: "unat ?q + unat p = lock_amount s key reason" "?q \<noteq> 0"
      using 3 amt by (auto simp: unat_sat_sub word_less_nat_alt unat_is_zero)
    have "unat (sat_sub (idxp_points e) ?q) \<le> unat (xp_lock x)"
      using book_ok_points_le [OF xp_invD(2) [OF inv] x, of reason] amt
      by (simp add: unat_sat_sub lock_amount_def)
    then obtain n where n: "checked_sub (xp_lock x) (sat_sub (idxp_points e) ?q) = Some n"
      by (simp add: checked_sub_def word_le_nat_alt)
    have ge: "\<not> idxp_points e < ?q" by (simp add: word_less_nat_alt unat_sat_sub)
    obtain t1 where set: "set_lock key reason ?q s = (Inr (), t1)"
      using q(2) n ge x by (simp add: set_lock_old [OF e])
    then obtain t where "slash_lock key reason p s = (Inr p, t)"
      "t = snd (emit (EvXpLockSlash key reason p) t1)"
      using less_not_sym [OF 3] x e by (simp add: slash_lock_def get_lock_xp_eq thenO_eval lock_hooks)
    then show ?thesis
      using 3 amt locks.shrink [OF inv set q(1)] by (auto simp: min_def word_less_nat_alt word_le_nat_alt)
  qed
qed

lemma slash_lock_cases_witness:
  "fst (slash_lock 1 False 20 sample_store) = Inl (Module CannotLockZero)"
  using slash_lock_cases [OF sample_inv, of False 1 "\<lparr>idxp_id = False, idxp_points = 20\<rparr>" 20]
  by (auto simp: entry_of_def)

end
