(* ===== verification/XpReap.thy ===== *)
theory XpReap
  imports XpLock
begin

text \<open>
  The end and the beginning of an XP entry: the \<open>XpReap\<close> implementation of
  \<open>pallets/xp/src/xp.rs\<close>, its default methods \<open>can_reap\<close> and \<open>try_reap\<close>, and \<open>begin_xp\<close> of
  \<open>frame/suite/src/xp.rs\<close>, the safe entry point that creates or credits an entry and never
  revives a reaped key.
\<close>

section \<open>Reaping\<close>

definition is_reaped :: "'k \<Rightarrow> ('k, 'r, 'l) store \<Rightarrow> dispatch_error + unit" where
  "is_reaped key s = (if key \<notin> ReapedXp s then Inl (Module XpNotReaped) else Inr ())"

definition reap_xp :: "'k \<Rightarrow> ('k, 'r, 'l, points) xp_op" where
  "reap_xp key =
     bindO (readE (get_usable_xp key)) (\<lambda>reapable.
       bindO (gets (has_lock key)) (\<lambda>locked.
         if is_ok locked then throw (Module XpLockExists)
         else thenO (modify (\<lambda>s. s\<lparr>XpOf := (XpOf s)(key := None),
                                   ReservedXpOf := (ReservedXpOf s)(key := None),
                                   ReapedXp := insert key (ReapedXp s)\<rparr>))
                (ret reapable)))"

definition can_reap :: "'k \<Rightarrow> ('k, 'r, 'l) store \<Rightarrow> dispatch_error + unit" where
  "can_reap key s =
     (if is_ok (is_reaped key s) then Inl (from_xp_error XE_XpAlreadyReaped)
      else bindE (xp_exists key s) (\<lambda>_.
        if is_ok (has_minimum_xp key s) then Inl (from_xp_error XE_XpNotDead)
        else if is_ok (has_lock key s) then Inl (from_xp_error XE_CannotReapLockedXp)
        else Inr ()))"

definition on_xp_reap :: "'k \<Rightarrow> ('k, 'r, 'l, unit) xp_op" where
  "on_xp_reap key = emit (EvXpReap key)"

definition try_reap :: "'k \<Rightarrow> ('k, 'r, 'l, points) xp_op" where
  "try_reap key =
     thenO (readE (can_reap key))
       (bindO (reap_xp key) (\<lambda>p. thenO (on_xp_reap key) (ret p)))"

section \<open>Beginning\<close>

definition begin_xp ::
    "'k \<Rightarrow> 'k \<Rightarrow> points \<Rightarrow> ('k, 'r, 'l) store \<Rightarrow>
     ((dispatch_error + unit) \<times> ('k, 'r, 'l) store) option" where
  "begin_xp owner key p s =
     (if is_ok (is_reaped key s) then Some (Inl (from_xp_error XE_XpAlreadyReaped), s)
      else if \<not> is_ok (xp_exists key s)
      then Some (thenO (create_xp owner key) (ret ()) s)
      else map_option (\<lambda>(r, t). (case r of Inl e \<Rightarrow> Inl e | Inr _ \<Rightarrow> Inr (), t)) (earn_xp key p s))"

section \<open>Evaluation\<close>

lemma is_reaped_iff [simp]: "is_ok (is_reaped key s) \<longleftrightarrow> key \<in> ReapedXp s"
  by (simp add: is_reaped_def)

lemma has_minimum_xp_iff:
  "is_ok (has_minimum_xp key s) \<longleftrightarrow> (\<exists>x. XpOf s key = Some x \<and> MinTimeStamp s \<le> xp_timestamp x)"
  by (cases "XpOf s key") (simp_all add: has_minimum_xp_def ensureE_def)

lemma can_reap_iff:
  "can_reap key s = Inr () \<longleftrightarrow>
     key \<notin> ReapedXp s \<and> \<not> is_ok (has_lock key s) \<and>
     (\<exists>x. XpOf s key = Some x \<and> xp_timestamp x < MinTimeStamp s)"
  by (cases "XpOf s key")
     (auto simp: can_reap_def has_minimum_xp_iff not_le simp del: has_lock_iff)

definition reaped_store :: "'k \<Rightarrow> ('k, 'r, 'l) store \<Rightarrow> ('k, 'r, 'l) store" where
  "reaped_store key s = s\<lparr>XpOf := (XpOf s)(key := None),
     ReservedXpOf := (ReservedXpOf s)(key := None), ReapedXp := insert key (ReapedXp s)\<rparr>"

lemma reap_xp_eval:
  "XpOf s key = None \<Longrightarrow> reap_xp key s = (Inl (Module XpNotFound), s)"
  "XpOf s key = Some x \<Longrightarrow> reap_xp key s =
     (if is_ok (has_lock key s) then (Inl (Module XpLockExists), s)
      else (Inr (sat_add (xp_free x) (xp_reserve x)), reaped_store key s))"
  by (simp_all add: reap_xp_def reaped_store_def del: has_lock_iff)

lemma try_reap_eval:
  "try_reap key s =
     (case can_reap key s of
        Inl e \<Rightarrow> (Inl e, s)
      | Inr _ \<Rightarrow> (Inr (sat_add (xp_free (the (XpOf s key))) (xp_reserve (the (XpOf s key)))),
                 snd (emit (EvXpReap key) (reaped_store key s))))"
proof (cases "can_reap key s")
  case (Inr u)
  then have "can_reap key s = Inr ()" by simp
  then obtain x where "XpOf s key = Some x" "\<not> is_ok (has_lock key s)"
    using can_reap_iff [of key s] by auto
  then show ?thesis
    using Inr by (simp add: try_reap_def on_xp_reap_def reap_xp_eval bindO_def thenO_def emit_eq)
qed (simp add: try_reap_def)

lemma xp_inv_reaped:
  assumes inv: "xp_inv s" and "\<not> is_ok (has_lock key s)"
  shows "xp_inv (reaped_store key s)"
proof (rule xp_invI)
  note D = xp_invD [OF inv]
  have "entries_of (LockedXpOf s) key = []"
    using assms(2) by (cases "LockedXpOf s key") auto
  then show "book_ok (LockedXpOf (reaped_store key s)) xp_lock (XpOf (reaped_store key s))"
    using book_ok_forget [OF D(2)] by (simp add: reaped_store_def)
  show "book_ok (ReservedXpOf (reaped_store key s)) xp_reserve (XpOf (reaped_store key s))"
    using book_ok_remove [OF D(1)] by (simp add: reaped_store_def)
  show "\<And>k. k \<in> ReapedXp (reaped_store key s) \<Longrightarrow> XpOf (reaped_store key s) k = None"
    using D(3) by (auto simp: reaped_store_def)
qed

lemma keeps_reap_ops:
  "keeps xp_inv (reap_xp key)" "keeps xp_inv (try_reap key)"
proof -
  show reap: "keeps xp_inv (reap_xp key)"
    unfolding keeps_def
  proof (intro allI impI, goal_cases)
    case (1 s r t)
    then show ?case
      by (cases "XpOf s key") (auto simp: reap_xp_eval xp_inv_reaped split: if_splits simp del: has_lock_iff)
  qed
  show "keeps xp_inv (try_reap key)"
    unfolding try_reap_def on_xp_reap_def by (intro keeps_thenO keeps_bindO reap keeps_emit keeps_basic)
qed

lemma xp_inv_create:
  assumes inv: "xp_inv s" and "XpOf s key = None" and "key \<notin> ReapedXp s"
  shows "xp_inv (snd (create_xp owner key s))"
proof -
  note D = xp_invD [OF inv]
  have "xp_reserve (xp_default s) = 0" "xp_lock (xp_default s) = 0" by (simp_all add: xp_default_def)
  then show ?thesis
    using book_ok_new [OF D(1) assms(2)] book_ok_new [OF D(2) assms(2)] D(3) assms(3)
    by (auto simp: create_xp_eval intro!: xp_invI)
qed

lemma xp_inv_earn:
  assumes inv: "xp_inv s" and run: "earn_xp key p s = Some (r, t)"
  shows "xp_inv t"
proof (cases "XpOf s key")
  case None
  then show ?thesis using run inv by simp
next
  case (Some x)
  obtain x' where v: "earn_call key p s x = Some (r, x')"
    and t: "t = (case r of Inl _ \<Rightarrow> put_xp key x' s | Inr a \<Rightarrow> snd (emit (EvXpEarn key a) (put_xp key x' s)))"
    using earn_xp_cases [OF Some run] .
  have "xp_inv (put_xp key x' s)"
    using earn_value_keeps [OF v [unfolded earn_call_def]] by (intro xp_inv_put [OF inv Some]) simp_all
  then show ?thesis by (cases r) (simp_all add: t)
qed

lemma xp_inv_begin:
  assumes inv: "xp_inv s" and run: "begin_xp owner key p s = Some (r, t)"
  shows "xp_inv t"
proof -
  consider "key \<in> ReapedXp s" | "key \<notin> ReapedXp s" "XpOf s key = None"
    | "key \<notin> ReapedXp s" "XpOf s key \<noteq> None" by blast
  then show ?thesis
  proof cases
    case 1
    then show ?thesis using run inv by (simp add: begin_xp_def)
  next
    case 2
    then show ?thesis
      using run xp_inv_create [OF inv 2(2,1), of owner]
      by (auto simp: begin_xp_def create_xp_eval thenO_def bindO_def)
  next
    case 3
    then show ?thesis
      using run xp_inv_earn [OF inv] by (auto simp: begin_xp_def)
  qed
qed

section \<open>Properties\<close>

text \<open>
  \<open>try_reap\<close> reaps exactly the entries that exist, were not reaped, are older than the
  minimum timestamp and carry no lock. It reports their liquid and reserved XP, removes the
  entry and its reserves, blacklists the key and touches no other key; otherwise it changes
  nothing.
\<close>

theorem try_reap_spec:
  "case try_reap key s of
     (Inr a, t) \<Rightarrow>
        (\<exists>x. XpOf s key = Some x \<and> xp_timestamp x < MinTimeStamp s \<and>
             unat a = min (unat (xp_free x) + unat (xp_reserve x)) (2 ^ 128 - 1)) \<and>
        key \<notin> ReapedXp s \<and> \<not> is_ok (has_lock key s) \<and>
        XpOf t = (XpOf s)(key := None) \<and> ReservedXpOf t = (ReservedXpOf s)(key := None) \<and>
        ReapedXp t = insert key (ReapedXp s) \<and> LockedXpOf t = LockedXpOf s
   | (Inl e, t) \<Rightarrow> t = s \<and>
        \<not> (key \<notin> ReapedXp s \<and> \<not> is_ok (has_lock key s) \<and>
           (\<exists>x. XpOf s key = Some x \<and> xp_timestamp x < MinTimeStamp s))"
proof (cases "can_reap key s")
  case (Inl e)
  then have "can_reap key s \<noteq> Inr ()" by simp
  then show ?thesis using Inl can_reap_iff [of key s] by (simp add: try_reap_eval del: has_lock_iff)
next
  case (Inr u)
  then have "can_reap key s = Inr ()" by simp
  then obtain x where "XpOf s key = Some x" "\<not> is_ok (has_lock key s)"
    "xp_timestamp x < MinTimeStamp s" "key \<notin> ReapedXp s"
    using can_reap_iff [of key s] by auto
  then show ?thesis
    using Inr by (simp add: try_reap_eval reaped_store_def unat_sat_add del: has_lock_iff)
qed

text \<open>
  A reaped key is never revived by \<open>begin_xp\<close>: the call is refused and the store, in
  particular the missing entry, stays. A key that is neither reaped nor present is created
  with the initial points for the given owner.
\<close>

theorem begin_xp_never_revives:
  assumes inv: "xp_inv s"
  shows "(key \<in> ReapedXp s \<longrightarrow>
            begin_xp owner key p s = Some (Inl (Module XpAlreadyReaped), s) \<and> XpOf s key = None) \<and>
         (key \<notin> ReapedXp s \<and> XpOf s key = None \<longrightarrow>
            (\<exists>t. begin_xp owner key p s = Some (Inr (), t) \<and>
               XpOf t = (XpOf s)(key \<mapsto> xp_default s) \<and> free_of t key = unat (InitXp s) \<and>
               XpOwners t = insert (owner, key) (XpOwners s) \<and> xp_inv t))"
proof (intro conjI impI)
  assume key: "key \<notin> ReapedXp s \<and> XpOf s key = None"
  then show "\<exists>t. begin_xp owner key p s = Some (Inr (), t) \<and>
               XpOf t = (XpOf s)(key \<mapsto> xp_default s) \<and> free_of t key = unat (InitXp s) \<and>
               XpOwners t = insert (owner, key) (XpOwners s) \<and> xp_inv t"
    using xp_inv_create [OF inv, of key owner]
    by (simp add: begin_xp_def create_xp_eval thenO_def bindO_def free_of_def xp_default_def)
qed (use xp_invD(3) [OF inv] in \<open>simp_all add: begin_xp_def\<close>)

lemma begin_xp_never_revives_witness:
  "begin_xp 7 2 5 sample_store = Some (Inl (Module XpAlreadyReaped), sample_store)"
  using begin_xp_never_revives [OF sample_inv, of 2 7 5] by simp

end
