(* ===== verification/XpPallet.thy ===== *)
theory XpPallet
  imports XpReap
begin

text \<open>
  The surface of the XP pallet: genesis, the dispatchable calls and the public query functions
  of \<open>pallets/xp/src/lib.rs\<close>, and key generation (\<open>xp_key_gen\<close> in \<open>pallets/xp/src/xp.rs\<close> over
  \<open>frame/suite/src/keys.rs\<close>).

  A call receives the outcome of its origin check (\<open>ensure_signed\<close>, \<open>ensure_root\<close>) as an
  argument, and runs in the storage layer that FRAME gives every dispatched call
  (\<open>transactional\<close>). What \<open>call\<close> dispatches is a parameter.
\<close>

section \<open>Genesis\<close>

record 'k genesis_config =
  gc_min_pulse :: pulse
  gc_init_xp :: points
  gc_pulse_factor :: stepper
  gc_genesis_acc :: "'k genesis_acc list"

definition genesis_default :: "'k genesis_config" where
  "genesis_default = \<lparr>gc_min_pulse = 3, gc_init_xp = 1,
     gc_pulse_factor = the (stepper_new 50 10), gc_genesis_acc = []\<rparr>"

definition genesis_build :: "'k genesis_config \<Rightarrow> ('k, 'r, 'l) store \<Rightarrow> ('k, 'r, 'l) store" where
  "genesis_build c s =
     foldl (\<lambda>s acc. snd (new_xp (ga_owner acc) (ga_id acc) s))
       (s\<lparr>MinPulse := gc_min_pulse c, InitXp := gc_init_xp c, MinTimeStamp := 0,
          PulseFactor := gc_pulse_factor c\<rparr>)
       (gc_genesis_acc c)"

section \<open>Key generation\<close>

record ('k, 'n) key_seed =
  ks_target :: 'k
  ks_item :: xp
  ks_salt :: 'n

definition key_gen ::
    "(xp \<Rightarrow> 'b list) \<Rightarrow> ('k \<Rightarrow> 'b list) \<Rightarrow> ('n \<Rightarrow> 'b list) \<Rightarrow> ('b list \<Rightarrow> 'b list) \<Rightarrow>
     ('b list \<Rightarrow> 'k option) \<Rightarrow> ('k, 'n) key_seed \<Rightarrow> 'k option" where
  "key_gen enc_item enc_target enc_salt hash decode seed =
     decode (hash (enc_item (ks_item seed) @ enc_target (ks_target seed) @ enc_salt (ks_salt seed)))"

definition gen_key ::
    "(xp \<Rightarrow> 'b list) \<Rightarrow> ('k \<Rightarrow> 'b list) \<Rightarrow> ('n \<Rightarrow> 'b list) \<Rightarrow> ('b list \<Rightarrow> 'b list) \<Rightarrow>
     ('b list \<Rightarrow> 'k option) \<Rightarrow> 'k \<Rightarrow> xp \<Rightarrow> 'n \<Rightarrow> 'k option" where
  "gen_key enc_item enc_target enc_salt hash decode target item salt =
     key_gen enc_item enc_target enc_salt hash decode
       \<lparr>ks_target = target, ks_item = item, ks_salt = salt\<rparr>"

text \<open>\<open>gen\<close> is \<open>gen_key\<close> at the runtime's codec and hash, \<open>account_nonce\<close> the one of \<open>frame_system\<close>.\<close>

definition xp_key_gen ::
    "('k \<Rightarrow> xp \<Rightarrow> 'n \<Rightarrow> 'k option) \<Rightarrow> ('k \<Rightarrow> 'n) \<Rightarrow> 'k \<Rightarrow> xp \<Rightarrow> dispatch_error + 'k" where
  "xp_key_gen gen account_nonce owner x =
     (case gen owner x (account_nonce owner) of
        None \<Rightarrow> Inl (Module CannotGenerateXpKey) | Some key \<Rightarrow> Inr key)"

section \<open>Queries\<close>

definition ceil_div_pulse :: "pulse \<Rightarrow> pulse \<Rightarrow> dispatch_error + pulse" where
  "ceil_div_pulse value by' =
     bindE (ensureE (by' \<noteq> 0) (Module XpComputationError)) (\<lambda>_.
       let adjusted = (case checked_sub value 1 of None \<Rightarrow> 0 | Some v \<Rightarrow> v) in
       ok_orE (Module XpComputationError)
         (Option.bind (checked_div adjusted by') (\<lambda>v. checked_add v 1)))"

definition xp_eligibility :: "'k \<Rightarrow> ('k, 'r, 'l) store \<Rightarrow> dispatch_error + xp_eligibility_t" where
  "xp_eligibility key s =
     bindE (get_xp key s) (\<lambda>x.
       let current_pulse = acc_value (xp_pulse x);
           current_progress = acc_step (xp_pulse x);
           required_pulse = MinPulse s;
           thr = st_threshold (PulseFactor s);
           per_action = st_per_count (PulseFactor s)
       in if current_pulse \<ge> required_pulse then Inr Earning
       else
         bindE (ensureE (per_action \<noteq> 0) (Module XpComputationError)) (\<lambda>_.
         bindE (ok_orE (Module XpComputationError) (checked_sub required_pulse current_pulse)) (\<lambda>remaining_pulses.
         bindE (ceil_div_pulse thr per_action) (\<lambda>actions_per_pulse.
         let remaining_progress = (case checked_sub thr current_progress of None \<Rightarrow> 0 | Some v \<Rightarrow> v) in
         bindE (ceil_div_pulse remaining_progress per_action) (\<lambda>actions_to_next_pulse.
         let extra_pulses = (case checked_sub remaining_pulses 1 of None \<Rightarrow> 0 | Some v \<Rightarrow> v) in
         bindE (ok_orE (Module XpComputationError) (checked_mul extra_pulses actions_per_pulse)) (\<lambda>extra_actions.
         bindE (ok_orE (Module XpComputationError) (checked_add actions_to_next_pulse extra_actions)) (\<lambda>total_actions.
           Inr (Progressing total_actions))))))))"

definition xp_state :: "'k \<Rightarrow> ('k, 'r, 'l) store \<Rightarrow> dispatch_error + xp_state_info" where
  "xp_state key s =
     bindE (get_xp key s) (\<lambda>x.
     bindE (xp_eligibility key s) (\<lambda>eligibility.
       Inr \<lparr>si_liquid = xp_free x, si_reserved = xp_reserve x, si_locked = xp_lock x,
            si_multiplier = (if acc_value (xp_pulse x) < MinPulse s then 1 else acc_value (xp_pulse x)),
            si_eligibility = eligibility\<rparr>))"

definition xp_liquid :: "'k \<Rightarrow> ('k, 'r, 'l) store \<Rightarrow> dispatch_error + points" where
  "xp_liquid key s = bindE (xp_exists key s) (\<lambda>_. get_liquid_xp key s)"

definition xp_keys ::
    "(('k \<times> 'k) set \<Rightarrow> 'k \<Rightarrow> 'k list) \<Rightarrow> 'k \<Rightarrow> ('k, 'r, 'l) store \<Rightarrow> dispatch_error + 'k list" where
  "xp_keys iter_prefix owner s = bindE (xp_of_owner iter_prefix owner s) Inr"

definition is_disposable :: "'k \<Rightarrow> ('k, 'r, 'l) store \<Rightarrow> dispatch_error + unit" where
  "is_disposable key s = bindE (can_reap key s) (\<lambda>_. Inr ())"

definition xp_multiplier :: "'k \<Rightarrow> ('k, 'r, 'l) store \<Rightarrow> dispatch_error + pulse option" where
  "xp_multiplier key s =
     bindE (get_xp key s) (\<lambda>x.
       if acc_value (xp_pulse x) < MinPulse s then Inr None
       else if xp_timestamp x \<ge> block_number s then Inr None
       else Inr (Some (acc_value (xp_pulse x))))"

definition xp_progress :: "'k \<Rightarrow> ('k, 'r, 'l) store \<Rightarrow> dispatch_error + xp_progress_info" where
  "xp_progress key s =
     bindE (get_xp key s) (\<lambda>x.
       Inr \<lparr>pr_level = acc_value (xp_pulse x), pr_progress = acc_step (xp_pulse x),
            pr_threshold = st_threshold (PulseFactor s), pr_per_action = st_per_count (PulseFactor s)\<rparr>)"

definition earn_preview ::
    "'k \<Rightarrow> points \<Rightarrow> ('k, 'r, 'l) store \<Rightarrow> (dispatch_error + xp_state_info) option" where
  "earn_preview key raw s =
     (case bindE (get_xp key s) (\<lambda>x.
             bindE (quote_earn_xp key raw s) (\<lambda>reward.
             bindE (ok_orE (Module XpCapOverflowed) (checked_add (xp_free x) reward)) (\<lambda>new_free.
               Inr (x, new_free)))) of
        Inl e \<Rightarrow> Some (Inl e)
      | Inr (x, new_free) \<Rightarrow>
          map_option (\<lambda>next_pulse.
            bindE (if acc_value next_pulse \<ge> MinPulse s then Inr Earning else xp_eligibility key s)
              (\<lambda>next_eligibility.
                 Inr \<lparr>si_liquid = new_free, si_reserved = xp_reserve x, si_locked = xp_lock x,
                      si_multiplier = (case next_eligibility of Earning \<Rightarrow> acc_value next_pulse
                                                              | Progressing _ \<Rightarrow> 1),
                      si_eligibility = next_eligibility\<rparr>))
            (increment (xp_pulse x) (PulseFactor s)))"

definition xp_last_earn :: "'k \<Rightarrow> ('k, 'r, 'l) store \<Rightarrow> dispatch_error + block_number" where
  "xp_last_earn key s = bindE (get_xp key s) (\<lambda>x. Inr (xp_timestamp x))"

section \<open>Calls\<close>

type_synonym 'k signed = "dispatch_error + 'k"
type_synonym root = "dispatch_error + unit"

definition call ::
    "('k \<Rightarrow> 'call \<Rightarrow> ('k, 'r, 'l, unit) xp_op) \<Rightarrow> 'k signed \<Rightarrow> 'k \<Rightarrow> 'call \<Rightarrow> ('k, 'r, 'l, unit) xp_op" where
  "call dispatch origin xp_id c =
     transactional
       (bindO (readE (\<lambda>_. origin)) (\<lambda>caller.
          thenO (readE (is_owner caller xp_id))
            (thenO (dispatch xp_id c) (ret ()))))"

definition handover :: "'k signed \<Rightarrow> 'k \<Rightarrow> 'k \<Rightarrow> ('k, 'r, 'l, unit) xp_op" where
  "handover origin xp_id new_owner =
     transactional
       (bindO (readE (\<lambda>_. origin)) (\<lambda>caller.
          thenO (readE (xp_exists xp_id))
         (thenO (readE (is_owner caller xp_id))
         (thenO (ensureO (caller \<noteq> new_owner) (Module AlreadyXpOwner))
         (thenO (transfer_owner caller xp_id new_owner)
         (bindO (gets EmitEvents) (\<lambda>on.
            if \<not> on then deposit_event (EvXpOwner xp_id new_owner) else ret ())))))))"

definition dispose :: "'k signed \<Rightarrow> 'k \<Rightarrow> 'k \<Rightarrow> ('k, 'r, 'l, unit) xp_op" where
  "dispose origin owner xp_id =
     transactional
       (bindO (readE (\<lambda>_. origin)) (\<lambda>_.
          thenO (readE (xp_exists xp_id))
         (thenO (readE (is_owner owner xp_id))
         (thenO (try_reap xp_id)
         (bindO (gets EmitEvents) (\<lambda>on.
            if \<not> on then deposit_event (EvXpReap xp_id) else ret ()))))))"

definition inspect_my_xp :: "'k signed \<Rightarrow> 'k \<Rightarrow> ('k, 'r, 'l, unit) xp_op" where
  "inspect_my_xp origin xp_id =
     transactional
       (bindO (readE (\<lambda>_. origin)) (\<lambda>caller.
          thenO (readE (xp_exists xp_id))
         (thenO (readE (is_owner caller xp_id))
         (bindO (readE (xp_liquid xp_id)) (\<lambda>liquid.
            deposit_event (EvXp xp_id liquid))))))"

definition inspect_xp_keys_of ::
    "(('k \<times> 'k) set \<Rightarrow> 'k \<Rightarrow> 'k list) \<Rightarrow> 'k signed \<Rightarrow> 'k \<Rightarrow> ('k, 'r, 'l, unit) xp_op" where
  "inspect_xp_keys_of iter_prefix origin owner =
     transactional
       (bindO (readE (\<lambda>_. origin)) (\<lambda>_.
          bindO (readE (xp_keys iter_prefix owner)) (\<lambda>ids.
            deposit_event (EvXpOfOwner owner ids))))"

definition force_handover :: "root \<Rightarrow> 'k \<Rightarrow> 'k \<Rightarrow> 'k \<Rightarrow> ('k, 'r, 'l, unit) xp_op" where
  "force_handover origin owner xp_id new_owner =
     transactional
       (bindO (readE (\<lambda>_. origin)) (\<lambda>_.
          thenO (readE (xp_exists xp_id))
         (thenO (readE (is_owner owner xp_id))
         (thenO (ensureO (owner \<noteq> new_owner) (Module AlreadyXpOwner))
         (thenO (transfer_owner owner xp_id new_owner)
         (bindO (gets EmitEvents) (\<lambda>on.
            if \<not> on then deposit_event (EvXpOwner xp_id new_owner) else ret ())))))))"

definition apply_genesis_field :: "force_genesis_config_t \<Rightarrow> ('k, 'r, 'l, unit) xp_op" where
  "apply_genesis_field field = (case field of
       SetMinPulse min_pulse \<Rightarrow> modify (\<lambda>s. s\<lparr>MinPulse := min_pulse\<rparr>)
     | SetInitXp init \<Rightarrow> modify (\<lambda>s. s\<lparr>InitXp := init\<rparr>)
     | SetPulseFactor thr per_count \<Rightarrow>
         (case stepper_new thr per_count of
            None \<Rightarrow> throw (Module LowPulseThreshold)
          | Some st \<Rightarrow> modify (\<lambda>s. s\<lparr>PulseFactor := st\<rparr>))
     | SetMinTimeStamp min_block \<Rightarrow>
         bindO (gets block_number) (\<lambda>current_block.
           if min_block > current_block then throw (Module InvalidMinTimeStamp)
           else modify (\<lambda>s. s\<lparr>MinTimeStamp := min_block\<rparr>)))"

definition force_genesis_config :: "root \<Rightarrow> force_genesis_config_t \<Rightarrow> ('k, 'r, 'l, unit) xp_op" where
  "force_genesis_config origin field =
     transactional
       (bindO (readE (\<lambda>_. origin)) (\<lambda>_.
          thenO (apply_genesis_field field)
            (deposit_event (EvGenesisConfigUpdated field))))"

section \<open>Warming up\<close>

lemma ceil_div_pulse_bound:
  assumes "ceil_div_pulse v b = Inr c"
  shows "unat v \<le> unat c * unat b"
proof -
  have b: "b \<noteq> 0" using assms by (simp add: ceil_div_pulse_def bindE_Inr_iff ensureE_Inr_iff)
  let ?a = "case checked_sub v 1 of None \<Rightarrow> 0 | Some w \<Rightarrow> w"
  have a: "unat v \<le> Suc (unat ?a)"
    by (auto simp: arith_iffs split: option.split)
  have "unat c = unat ?a div unat b + 1"
    using assms b
    by (simp add: ceil_div_pulse_def checked_div_def ok_orE_Inr_iff checked_add_Some_iff unat_div_distrib)
  moreover have "unat ?a < (unat ?a div unat b + 1) * unat b"
    using b dividend_less_div_times [of "unat b" "unat ?a"] by (simp add: unat_gt_0 algebra_simps)
  ultimately show ?thesis using a by simp
qed

lemma eligibility_actions:
  assumes x: "XpOf s key = Some x" and el: "xp_eligibility key s = Inr (Progressing n)"
    and norm: "normalised (PulseFactor s) (xp_pulse x)"
  shows "unat (MinPulse s) * unat (st_threshold (PulseFactor s))
           \<le> progress (PulseFactor s) (xp_pulse x) + unat n * unat (st_per_count (PulseFactor s))"
    and "acc_value (xp_pulse x) < MinPulse s"
proof -
  let ?t = "st_threshold (PulseFactor s)" and ?per = "st_per_count (PulseFactor s)"
  let ?v = "acc_value (xp_pulse x)" and ?st = "acc_step (xp_pulse x)"
  show lt: "acc_value (xp_pulse x) < MinPulse s"
    using el x by (auto simp: xp_eligibility_def Let_def not_le split: if_splits)
  have room: "unat ?st < unat ?t" using norm by (simp add: normalised_def word_less_nat_alt)
  from el x lt obtain rem per_pulse next_pulse extra where
    rem': "checked_sub (MinPulse s) ?v = Some rem"
    and pp: "ceil_div_pulse ?t ?per = Inr per_pulse"
    and np: "ceil_div_pulse (case checked_sub ?t ?st of None \<Rightarrow> 0 | Some v \<Rightarrow> v) ?per = Inr next_pulse"
    and ex: "checked_mul (case checked_sub rem 1 of None \<Rightarrow> 0 | Some v \<Rightarrow> v) per_pulse = Some extra"
    and n': "checked_add next_pulse extra = Some n"
    by (auto simp: xp_eligibility_def Let_def bindE_Inr_iff ok_orE_Inr_iff split: if_splits)
  have rem: "unat (MinPulse s) = unat rem + unat ?v" using rem' by (simp add: checked_sub_Some_iff)
  have n: "unat n = unat next_pulse + unat (case checked_sub rem 1 of None \<Rightarrow> 0 | Some v \<Rightarrow> v) * unat per_pulse"
    using ex n' by (simp add: checked_mul_Some_iff checked_add_Some_iff)
  have "unat (case checked_sub ?t ?st of None \<Rightarrow> 0 | Some v \<Rightarrow> v) = unat ?t - unat ?st"
    using room by (auto simp: arith_iffs split: option.split)
  then have first: "unat ?t - unat ?st \<le> unat next_pulse * unat ?per"
    using ceil_div_pulse_bound [OF np] by simp
  have pos: "0 < unat rem" using rem lt by (simp add: word_less_nat_alt)
  have "unat (case checked_sub rem 1 of None \<Rightarrow> 0 | Some v \<Rightarrow> v) = unat rem - 1"
    using pos by (auto simp: arith_iffs split: option.split)
  then have "unat n * unat ?per = unat next_pulse * unat ?per + (unat rem - 1) * (unat per_pulse * unat ?per)"
    using n by (simp add: algebra_simps)
  then have "unat ?t - unat ?st + (unat rem - 1) * unat ?t \<le> unat n * unat ?per"
    using first mult_le_mono2 [OF ceil_div_pulse_bound [OF pp], of "unat rem - 1"] by linarith
  moreover have "unat (MinPulse s) * unat ?t = unat ?v * unat ?t + unat ?t + (unat rem - 1) * unat ?t"
    using rem pos by (cases "unat rem") (simp_all add: algebra_simps)
  ultimately show "unat (MinPulse s) * unat ?t \<le> progress (PulseFactor s) (xp_pulse x) + unat n * unat ?per"
    using room unfolding progress_def by linarith
qed

text \<open>Where a key stands after \<open>k\<close> calls of \<open>earn_xp\<close> that began at progress \<open>q\<close>.\<close>

definition warming :: "'k \<Rightarrow> nat \<Rightarrow> ('k, 'r, 'l) store \<Rightarrow> bool" where
  "warming key q s \<longleftrightarrow> (\<exists>x. XpOf s key = Some x \<and>
     (MinPulse s \<le> acc_value (xp_pulse x) \<or>
      normalised (PulseFactor s) (xp_pulse x) \<and> progress (PulseFactor s) (xp_pulse x) = q))"

lemma increment_mono: "increment a st = Some a' \<Longrightarrow> acc_value a \<le> acc_value a'"
  using increment_values(1) [of a st a'] unat_bound [of "acc_value a"] by (simp add: word_le_nat_alt)

lemma normalised_below:
  assumes "normalised st a" "unat (acc_value a) < m"
  shows "progress st a < m * unat (st_threshold st)"
proof -
  have "progress st a < unat (acc_value a) * unat (st_threshold st) + unat (st_threshold st)"
    using assms(1) by (simp add: progress_def normalised_def word_less_nat_alt)
  also have "\<dots> = Suc (unat (acc_value a)) * unat (st_threshold st)" by simp
  also have "\<dots> \<le> m * unat (st_threshold st)" using assms(2) by (intro mult_right_mono) simp_all
  finally show ?thesis .
qed

lemma earn_warms:
  assumes w: "warming key q s" and valid: "valid_stepper (PulseFactor s)"
  shows "\<exists>r t. earn_xp key p s = Some (r, t) \<and>
           warming key (q + unat (st_per_count (PulseFactor s))) t \<and>
           PulseFactor t = PulseFactor s \<and> MinPulse t = MinPulse s \<and> block_number t = block_number s"
proof -
  let ?st = "PulseFactor s"
  obtain x where x: "XpOf s key = Some x"
    and cases: "MinPulse s \<le> acc_value (xp_pulse x) \<or>
      normalised ?st (xp_pulse x) \<and> progress ?st (xp_pulse x) = q"
    using w by (auto simp: warming_def)
  have "earn_xp key p s \<noteq> None"
    using valid by (simp add: earn_xp_def x earn_value_None_iff valid_stepper_def)
  then obtain r t where run: "earn_xp key p s = Some (r, t)" by auto
  obtain x' where v: "earn_call key p s x = Some (r, x')"
    and t: "t = (case r of Inl _ \<Rightarrow> put_xp key x' s | Inr a \<Rightarrow> snd (emit (EvXpEarn key a) (put_xp key x' s)))"
    using earn_xp_cases [OF x run] .
  have sel: "XpOf t key = Some x'" "PulseFactor t = ?st" "MinPulse t = MinPulse s" "block_number t = block_number s"
    by (cases r; simp add: t)+
  have "MinPulse s \<le> acc_value (xp_pulse x') \<or>
      normalised ?st (xp_pulse x') \<and> progress ?st (xp_pulse x') = q + unat (st_per_count ?st)"
  proof (cases "MinPulse s \<le> acc_value (xp_pulse x)")
    case True
    then show ?thesis
      using v by (auto simp: earn_call_def earn_value_def Let_def not_less dest: increment_mono order_trans
          split: if_splits option.splits)
  next
    case False
    then have lt: "acc_value (xp_pulse x) < MinPulse s" by simp
    have norm: "normalised ?st (xp_pulse x)" "progress ?st (xp_pulse x) = q" using cases False by auto
    have "unat (acc_value (xp_pulse x)) < 2 ^ 32 - 1"
      using lt unat_bound [of "MinPulse s"] by (simp add: word_less_nat_alt)
    then have "progress ?st (xp_pulse x) < (2 ^ 32 - 1) * unat (st_threshold ?st)"
      by (rule normalised_below [OF norm(1)])
    moreover have "unat (st_per_count ?st) \<le> unat (st_threshold ?st)"
      using valid by (simp add: valid_stepper_def word_le_nat_alt)
    ultimately have "progress ?st (xp_pulse x) + unat (st_per_count ?st) < pulse_cap ?st"
      unfolding pulse_cap_def by simp
    then obtain a' where "increment (xp_pulse x) ?st = Some a'" "normalised ?st a'"
      "progress ?st a' = q + unat (st_per_count ?st)"
      using increment_progress [OF valid norm(1)] norm(2) by auto
    then show ?thesis using v lt False by (auto simp: earn_call_def earn_value_def Let_def)
  qed
  then show ?thesis using run sel by (auto simp: warming_def)
qed

lemma earn_many_warms:
  assumes "warming key q s" and "valid_stepper (PulseFactor s)"
  shows "\<exists>t. iter_option n (\<lambda>s. map_option snd (earn_xp key p s)) s = Some t \<and>
           warming key (q + n * unat (st_per_count (PulseFactor s))) t \<and>
           PulseFactor t = PulseFactor s \<and> MinPulse t = MinPulse s \<and> block_number t = block_number s"
  using assms
proof (induction n arbitrary: q s)
  case 0 then show ?case by simp
next
  case (Suc n)
  obtain r t where t: "earn_xp key p s = Some (r, t)"
    "warming key (q + unat (st_per_count (PulseFactor s))) t"
    "PulseFactor t = PulseFactor s" "MinPulse t = MinPulse s" "block_number t = block_number s"
    using earn_warms [OF Suc.prems] by blast
  show ?case using Suc.IH [OF t(2)] Suc.prems(2) t by (simp add: add.assoc)
qed

text \<open>
  The number of actions \<open>xp_eligibility\<close> announces suffices: after that many calls of
  \<open>earn_xp\<close>, even all in one block and whatever their points, the key is earning.
\<close>

theorem eligibility_reached:
  assumes "XpOf s key = Some x" and "xp_eligibility key s = Inr (Progressing n)"
    and valid: "valid_stepper (PulseFactor s)" and norm: "normalised (PulseFactor s) (xp_pulse x)"
  shows "\<exists>t. iter_option (unat n) (\<lambda>s. map_option snd (earn_xp key p s)) s = Some t \<and>
           block_number t = block_number s \<and> xp_eligibility key t = Inr Earning"
proof -
  let ?st = "PulseFactor s"
  have "warming key (progress ?st (xp_pulse x)) s" using assms(1) norm by (auto simp: warming_def)
  then obtain t where t: "iter_option (unat n) (\<lambda>s. map_option snd (earn_xp key p s)) s = Some t"
    "warming key (progress ?st (xp_pulse x) + unat n * unat (st_per_count ?st)) t"
    "PulseFactor t = ?st" "MinPulse t = MinPulse s" "block_number t = block_number s"
    using earn_many_warms [OF _ valid] by blast
  from t(2) obtain y where y: "XpOf t key = Some y" and
    c: "MinPulse s \<le> acc_value (xp_pulse y) \<or>
      normalised ?st (xp_pulse y) \<and>
      progress ?st (xp_pulse y) = progress ?st (xp_pulse x) + unat n * unat (st_per_count ?st)"
    using t(3,4) by (auto simp: warming_def)
  have "MinPulse s \<le> acc_value (xp_pulse y)"
  proof (rule ccontr)
    assume "\<not> MinPulse s \<le> acc_value (xp_pulse y)"
    then have lt: "unat (acc_value (xp_pulse y)) < unat (MinPulse s)" by (simp add: word_le_nat_alt)
    with c have n': "normalised ?st (xp_pulse y)"
      "progress ?st (xp_pulse y) = progress ?st (xp_pulse x) + unat n * unat (st_per_count ?st)"
      by (auto simp: word_le_nat_alt)
    show False
      using normalised_below [OF n'(1) lt] n'(2) eligibility_actions(1) [OF assms(1,2) norm] by simp
  qed
  then show ?thesis using t(1,4,5) y by (simp add: xp_eligibility_def)
qed

definition warming_store :: "(int, bool, bool) store" where
  "warming_store = sample_store\<lparr>MinPulse := 5\<rparr>"

lemma eligibility_reached_witness:
  "\<exists>t. iter_option 9 (\<lambda>s. map_option snd (earn_xp 1 1000 s)) warming_store = Some t \<and>
       block_number t = block_number warming_store \<and> xp_eligibility 1 t = Inr Earning"
proof -
  have nine: "xp_eligibility 1 warming_store = Inr (Progressing 9)"
    by (simp add: xp_eligibility_def warming_store_def Let_def ceil_div_pulse_def checked_sub_def
        checked_div_def checked_mul_def checked_add_def stepper_default_def word_le_nat_alt)
  have "valid_stepper (PulseFactor warming_store)"
    "normalised (PulseFactor warming_store) (xp_pulse sample_xp)"
    by (simp_all add: warming_store_def valid_stepper_def normalised_def stepper_default_def
        word_le_nat_alt word_less_nat_alt)
  then show ?thesis
    using eligibility_reached [of warming_store 1 sample_xp 9 1000] nine
    by (simp add: warming_store_def)
qed

section \<open>Calls\<close>

lemma transactional_eval:
  "m s = (Inr x, t) \<Longrightarrow> transactional m s = (Inr x, t)"
  "m s = (Inl e, t) \<Longrightarrow> transactional m s = (Inl e, s)"
  by (simp_all add: transactional_def)

lemma deposit_event_eval [simp]: "deposit_event ev s = (Inr (), s\<lparr>Events := Events s @ [ev]\<rparr>)"
  by (simp add: deposit_event_def)

lemma handover_eval:
  "handover origin xp_id new s =
     (case origin of
        Inl e \<Rightarrow> (Inl e, s)
      | Inr caller \<Rightarrow>
          if XpOf s xp_id = None then (Inl (Module XpNotFound), s)
          else if (caller, xp_id) \<notin> XpOwners s then (Inl (Module InvalidXpOwner), s)
          else if caller = new then (Inl (Module AlreadyXpOwner), s)
          else (Inr (), s\<lparr>XpOwners := insert (new, xp_id) (XpOwners s - {(caller, xp_id)}),
                          Events := Events s @ [EvXpOwner xp_id new]\<rparr>))"
proof (cases origin)
  case (Inl e)
  then show ?thesis by (simp add: handover_def transactional_def bindO_def)
next
  case (Inr caller)
  consider "XpOf s xp_id = None" | "XpOf s xp_id \<noteq> None" "(caller, xp_id) \<notin> XpOwners s"
    | "XpOf s xp_id \<noteq> None" "(caller, xp_id) \<in> XpOwners s" by blast
  then show ?thesis
  proof cases
    case 3
    then have own: "is_owner caller xp_id s = Inr ()" by (simp add: is_owner_iff)
    show ?thesis
    proof (cases "caller = new")
      case False
      let ?s = "s\<lparr>XpOwners := insert (new, xp_id) (XpOwners s - {(caller, xp_id)})\<rparr>"
      have "thenO (transfer_owner caller xp_id new) n s = n (snd (emit (EvXpOwner xp_id new) ?s))" for n :: "('a, 'b, 'c, unit) xp_op"
        using 3 False by (simp add: transfer_owner_spec thenO_eval)
      then show ?thesis using Inr 3 own False
        by (auto simp: handover_def transactional_def emit_eq)
    qed (use Inr 3 own in \<open>auto simp: handover_def transactional_def\<close>)
  qed (use Inr in \<open>auto simp: handover_def transactional_def is_owner_def\<close>)
qed

text \<open>
  A handover is accepted exactly for an existing key, an owner that signs and a different
  recipient. It replaces the signer by the recipient among the owners of the key, deposits
  exactly one \<open>XpOwner\<close> event whatever \<open>EmitEvents\<close> is, and changes nothing else; a refused
  handover changes nothing.
\<close>

theorem handover_spec:
  "handover origin xp_id new s =
     (case origin of
        Inl e \<Rightarrow> (Inl e, s)
      | Inr caller \<Rightarrow>
          if XpOf s xp_id = None then (Inl (Module XpNotFound), s)
          else if (caller, xp_id) \<notin> XpOwners s then (Inl (Module InvalidXpOwner), s)
          else if caller = new then (Inl (Module AlreadyXpOwner), s)
          else (Inr (), s\<lparr>XpOwners := insert (new, xp_id) (XpOwners s - {(caller, xp_id)}),
                          Events := Events s @ [EvXpOwner xp_id new]\<rparr>))"
  by (rule handover_eval)

text \<open>
  The forced handover does for root what a handover does for the owner: with the same
  owner named, the two calls have the same result and the same effect.
\<close>

theorem force_handover_eq_handover:
  "force_handover origin owner xp_id new s =
     (case origin of Inl e \<Rightarrow> (Inl e, s) | Inr _ \<Rightarrow> handover (Inr owner) xp_id new s)"
  by (cases origin) (simp_all add: force_handover_def handover_def transactional_def bindO_def)

text \<open>
  C0: Disposal by any signer succeeds exactly when the named account owns the key and the entry
  is reapable. It removes entry and reserves, blacklists the key, deposits exactly one \<open>XpReap\<close>
  event - and leaves the ownership record of the reaped key in place.
\<close>

theorem dispose_spec:
  "case dispose (Inr caller) owner xp_id s of
     (Inr _, t) \<Rightarrow> (owner, xp_id) \<in> XpOwners s \<and> can_reap xp_id s = Inr () \<and>
        t = (reaped_store xp_id s)\<lparr>Events := Events s @ [EvXpReap xp_id]\<rparr> \<and>
        (owner, xp_id) \<in> XpOwners t
   | (Inl _, t) \<Rightarrow> t = s \<and> \<not> ((owner, xp_id) \<in> XpOwners s \<and> can_reap xp_id s = Inr ())"
proof (cases "can_reap xp_id s")
  case (Inl e)
  then show ?thesis
    by (cases "XpOf s xp_id"; cases "(owner, xp_id) \<in> XpOwners s")
       (simp_all add: dispose_def transactional_def is_owner_def try_reap_eval bindO_def thenO_def)
next
  case (Inr u)
  then have can: "can_reap xp_id s = Inr ()" by simp
  then obtain x where x: "XpOf s xp_id = Some x" using can_reap_iff [of xp_id s] by auto
  show ?thesis
  proof (cases "(owner, xp_id) \<in> XpOwners s")
    case False
    then show ?thesis using x by (simp add: dispose_def transactional_def is_owner_def)
  next
    case True
    then have own: "is_owner owner xp_id s = Inr ()" by (simp add: is_owner_iff)
    have "thenO (try_reap xp_id) n s = n (snd (emit (EvXpReap xp_id) (reaped_store xp_id s)))" for n :: "('a, 'b, 'c, unit) xp_op"
      using can by (simp add: try_reap_eval thenO_eval)
    then show ?thesis using x own can True
      by (auto simp: dispose_def transactional_def emit_eq reaped_store_def)
  qed
qed

text \<open>
  A call is dispatched with the XP identity as its origin only for an owner of the identity,
  and an error, of the check or of the dispatched call, leaves the store as it was.
\<close>

theorem call_spec:
  "call dispatch (Inr caller) xp_id c s =
     (if (caller, xp_id) \<notin> XpOwners s then (Inl (Module InvalidXpOwner), s)
      else case dispatch xp_id c s of (Inl e, _) \<Rightarrow> (Inl e, s) | (Inr _, t) \<Rightarrow> (Inr (), t))"
  by (auto simp: call_def transactional_def is_owner_def thenO_def bindO_def split: prod.split sum.split)

section \<open>Configuration\<close>

text \<open>What the configuration keeps: a count never above the threshold, a minimum timestamp not in the future.\<close>

definition config_ok :: "('k, 'r, 'l) store \<Rightarrow> bool" where
  "config_ok s \<longleftrightarrow> st_per_count (PulseFactor s) \<le> st_threshold (PulseFactor s) \<and>
     MinTimeStamp s \<le> block_number s"

lemma force_genesis_config_eval:
  "force_genesis_config (Inr ()) field s =
     (let report = (\<lambda>t. (Inr (), t\<lparr>Events := Events s @ [EvGenesisConfigUpdated field]\<rparr>)) in
      case field of
        SetMinPulse m \<Rightarrow> report (s\<lparr>MinPulse := m\<rparr>)
      | SetInitXp i \<Rightarrow> report (s\<lparr>InitXp := i\<rparr>)
      | SetPulseFactor thr per \<Rightarrow>
          if per > thr then (Inl (Module LowPulseThreshold), s)
          else report (s\<lparr>PulseFactor := \<lparr>st_threshold = thr, st_per_count = per\<rparr>\<rparr>)
      | SetMinTimeStamp b \<Rightarrow>
          if b > block_number s then (Inl (Module InvalidMinTimeStamp), s)
          else report (s\<lparr>MinTimeStamp := b\<rparr>))"
  by (cases field)
     (auto simp: force_genesis_config_def apply_genesis_field_def transactional_def thenO_def
        bindO_def stepper_new_def Let_def)

lemma force_genesis_config_keeps_config:
  assumes "config_ok s"
  shows "config_ok (snd (force_genesis_config origin field s))"
proof (cases origin)
  case (Inl e)
  then show ?thesis using assms by (simp add: force_genesis_config_def transactional_def)
next
  case (Inr u)
  then have "origin = Inr ()" by simp
  then show ?thesis using assms
    by (cases field) (auto simp: force_genesis_config_eval config_ok_def Let_def)
qed

text \<open>
  A forced update of a parameter writes exactly the named parameter and reports it, or is
  refused and changes nothing: a pulse factor with a count above its threshold and a minimum
  timestamp in the future are the only values refused, so the configuration stays sane.
\<close>

theorem force_genesis_config_spec:
  "force_genesis_config (Inr ()) field s =
     (let report = (\<lambda>t. (Inr (), t\<lparr>Events := Events s @ [EvGenesisConfigUpdated field]\<rparr>)) in
      case field of
        SetMinPulse m \<Rightarrow> report (s\<lparr>MinPulse := m\<rparr>)
      | SetInitXp i \<Rightarrow> report (s\<lparr>InitXp := i\<rparr>)
      | SetPulseFactor thr per \<Rightarrow>
          if per > thr then (Inl (Module LowPulseThreshold), s)
          else report (s\<lparr>PulseFactor := \<lparr>st_threshold = thr, st_per_count = per\<rparr>\<rparr>)
      | SetMinTimeStamp b \<Rightarrow>
          if b > block_number s then (Inl (Module InvalidMinTimeStamp), s)
          else report (s\<lparr>MinTimeStamp := b\<rparr>))
   \<and> (config_ok s \<longrightarrow> config_ok (snd (force_genesis_config origin field s)))"
  using force_genesis_config_eval force_genesis_config_keeps_config by blast

lemma force_genesis_config_spec_witness:
  "config_ok (snd (force_genesis_config (Inr ()) (SetPulseFactor 100 7) sample_store))"
  using force_genesis_config_spec [of "SetPulseFactor 100 7" sample_store "Inr ()"]
  by (simp add: config_ok_def stepper_default_def word_le_nat_alt)

section \<open>Genesis\<close>

lemma new_xp_eval:
  "new_xp owner key s = (Inr (), s\<lparr>XpOf := (XpOf s)(key \<mapsto> xp_default s), XpOwners := insert (owner, key) (XpOwners s)\<rparr>)"
  by (simp add: new_xp_def)

lemma genesis_fold:
  fixes s :: "('k, 'r, 'l) store"
  defines "f \<equiv> \<lambda>(s :: ('k, 'r, 'l) store) acc. snd (new_xp (ga_owner acc) (ga_id acc) s)"
  shows "foldl f s accs = s\<lparr>XpOf := (\<lambda>k. if k \<in> ga_id ` set accs then Some (xp_default s) else XpOf s k),
           XpOwners := XpOwners s \<union> (\<lambda>a. (ga_owner a, ga_id a)) ` set accs\<rparr>"
proof (induction accs arbitrary: s)
  case (Cons a accs)
  have "xp_default (f s a) = xp_default s" by (simp add: f_def new_xp_eval xp_default_def)
  then show ?case
    using Cons.IH [of "f s a"] by (auto simp: f_def new_xp_eval fun_eq_iff)
qed simp

text \<open>
  Genesis establishes the invariant: every listed identity exists with the configured
  initial points and no reserve or lock, belongs to its listed owners, and nothing else exists.
\<close>

theorem genesis_build_establishes:
  assumes "XpOf s = Map.empty" "XpOwners s = {}" "ReservedXpOf s = Map.empty"
    "LockedXpOf s = Map.empty" "ReapedXp s = {}"
  shows "xp_inv (genesis_build c s) \<and>
    dom (XpOf (genesis_build c s)) = ga_id ` set (gc_genesis_acc c) \<and>
    XpOwners (genesis_build c s) = (\<lambda>a. (ga_owner a, ga_id a)) ` set (gc_genesis_acc c) \<and>
    (\<forall>key \<in> ga_id ` set (gc_genesis_acc c). free_of (genesis_build c s) key = unat (gc_init_xp c))"
proof -
  let ?s0 = "s\<lparr>MinPulse := gc_min_pulse c, InitXp := gc_init_xp c, MinTimeStamp := 0,
               PulseFactor := gc_pulse_factor c\<rparr>"
  have built: "genesis_build c s = ?s0\<lparr>XpOf := (\<lambda>k. if k \<in> ga_id ` set (gc_genesis_acc c)
        then Some (xp_default ?s0) else None),
      XpOwners := (\<lambda>a. (ga_owner a, ga_id a)) ` set (gc_genesis_acc c)\<rparr>"
    using genesis_fold [of ?s0 "gc_genesis_acc c"] assms by (simp add: genesis_build_def cong: if_cong)
  have "xp_inv (genesis_build c s)"
    using assms unfolding built
    by (intro xp_invI book_okI) (auto simp: xp_default_def split: if_splits)
  then show ?thesis
    unfolding built by (auto simp: free_of_def xp_default_def dom_def)
qed

definition empty_store :: "(int, bool, bool) store" where
  "empty_store = sample_store\<lparr>XpOf := Map.empty, XpOwners := {}, ReservedXpOf := Map.empty,
     LockedXpOf := Map.empty, ReapedXp := {}\<rparr>"

lemma genesis_build_establishes_witness:
  "free_of (genesis_build (genesis_default\<lparr>gc_genesis_acc := [\<lparr>ga_owner = 7, ga_id = 1\<rparr>]\<rparr>) empty_store) 1 = 1"
  using genesis_build_establishes [of empty_store "genesis_default\<lparr>gc_genesis_acc := [\<lparr>ga_owner = 7, ga_id = 1\<rparr>]\<rparr>"]
  by (simp add: empty_store_def genesis_default_def)

section \<open>Generated keys\<close>

text \<open>
  Two generated keys coincide only through the hash: with the fixed-width codec of accounts
  and XP structures, different owners, entries or nonces that yield the same key exhibit two
  different byte strings with one hash value.
\<close>

theorem gen_key_collision:
  assumes item: "\<And>x y. enc_item x = enc_item y \<Longrightarrow> x = y" "\<And>x y. length (enc_item x) = length (enc_item y)"
    and target: "\<And>j k. enc_target j = enc_target k \<Longrightarrow> j = k" "\<And>j k. length (enc_target j) = length (enc_target k)"
    and salt: "\<And>m n. enc_salt m = enc_salt n \<Longrightarrow> m = n"
    and decode: "\<And>b c k. decode b = Some k \<Longrightarrow> decode c = Some k \<Longrightarrow> b = c"
    and keys: "gen_key enc_item enc_target enc_salt hash decode o1 x1 n1 = Some key"
      "gen_key enc_item enc_target enc_salt hash decode o2 x2 n2 = Some key"
    and different: "(o1, x1, n1) \<noteq> (o2, x2, n2)"
  shows "\<exists>b c. b \<noteq> c \<and> hash b = hash c"
proof -
  let ?pre = "\<lambda>x k n. enc_item x @ enc_target k @ enc_salt n"
  have "hash (?pre x1 o1 n1) = hash (?pre x2 o2 n2)"
    using keys by (auto simp: gen_key_def key_gen_def intro: decode)
  moreover have "?pre x1 o1 n1 \<noteq> ?pre x2 o2 n2"
    using different item(1) target(1) salt item(2) [of x1 x2] target(2) [of o1 o2] by auto
  ultimately show ?thesis by blast
qed

lemma gen_key_collision_witness:
  "\<exists>b c. b \<noteq> c \<and> (\<lambda>_ :: (xp + int + nat) list. [] :: (xp + int + nat) list) b = (\<lambda>_. []) c"
  by (rule gen_key_collision [of "\<lambda>x. [Inl x]" "\<lambda>k. [Inr (Inl k)]" "\<lambda>n. [Inr (Inr n)]"
        "\<lambda>b. if b = [] then Some (5 :: int) else None" "\<lambda>_. []" 1 sample_xp 0 5 2 sample_xp 0])
     (simp_all add: gen_key_def key_gen_def split: if_splits)

end
