(* ===== verification/XpFungible.thy ===== *)
theory XpFungible
  imports XpPallet
begin

text \<open>
  The fungible adapter \<open>pallets/xp/src/fungible.rs\<close>: XP presented through the \<open>fungible\<close> traits of
  \<open>frame_support\<close>. Liquid XP is the balance, reserves are holds, locks are freezes; there is no
  issuance and no transfer. The argument types of the traits are the ones of \<open>frame_support\<close>.
\<close>

section \<open>Vocabulary of the traits\<close>

datatype preservation = Expendable | Protect | Preserve
datatype fortitude = Polite | Force
datatype provenance = Minted | Extant

datatype deposit_consequence = DepositSuccess | DepositBlocked | DepositUnknownAsset | DepositOverflow
datatype withdraw_consequence = WithdrawSuccess | WithdrawUnknownAsset | WithdrawBalanceLow

section \<open>Inspect\<close>

definition minimum_balance :: points where
  "minimum_balance = 0"

definition total_balance :: "'k \<Rightarrow> ('k, 'r, 'l) store \<Rightarrow> points" where
  "total_balance who s = (case get_usable_xp who s of Inl _ \<Rightarrow> 0 | Inr b \<Rightarrow> b)"

definition balance :: "'k \<Rightarrow> ('k, 'r, 'l) store \<Rightarrow> points" where
  "balance who s = (case get_liquid_xp who s of Inl _ \<Rightarrow> 0 | Inr b \<Rightarrow> b)"

definition reducible_balance ::
    "'k \<Rightarrow> preservation \<Rightarrow> fortitude \<Rightarrow> ('k, 'r, 'l) store \<Rightarrow> points" where
  "reducible_balance who preservation force s = balance who s"

definition can_deposit :: "'k \<Rightarrow> points \<Rightarrow> provenance \<Rightarrow> ('k, 'r, 'l) store \<Rightarrow> deposit_consequence" where
  "can_deposit who amount provenance s =
     (if \<not> is_ok (xp_exists who s) then DepositUnknownAsset
      else if amount = 0 then DepositSuccess
      else if provenance = Minted then DepositBlocked
      else if checked_add (balance who s) amount = None then DepositOverflow
      else DepositSuccess)"

definition can_withdraw :: "'k \<Rightarrow> points \<Rightarrow> ('k, 'r, 'l) store \<Rightarrow> withdraw_consequence" where
  "can_withdraw who amount s =
     (if \<not> is_ok (xp_exists who s) then WithdrawUnknownAsset
      else if amount = 0 then WithdrawSuccess
      else if amount > balance who s then WithdrawBalanceLow
      else WithdrawSuccess)"

section \<open>Unbalanced\<close>

definition write_balance :: "'k \<Rightarrow> points \<Rightarrow> ('k, 'r, 'l, points option) xp_op" where
  "write_balance who amount = thenO (set_xp who amount) (ret None)"

definition increase_balance :: "'k \<Rightarrow> points \<Rightarrow> precision \<Rightarrow> ('k, 'r, 'l, points) xp_op" where
  "increase_balance who amount precision =
     thenO (readE (xp_exists who))
       (bindO (gets (balance who)) (\<lambda>current.
        bindO (case precision of
                 BestEffort \<Rightarrow> ret (sat_add current amount)
               | Exact \<Rightarrow> ok_orO (Module XpCapOverflowed) (checked_add current amount)) (\<lambda>increased.
          thenO (write_balance who increased) (ret (sat_sub increased current)))))"

definition decrease_balance ::
    "'k \<Rightarrow> points \<Rightarrow> precision \<Rightarrow> preservation \<Rightarrow> fortitude \<Rightarrow> ('k, 'r, 'l, points) xp_op" where
  "decrease_balance who amount precision preservation force =
     thenO (readE (xp_exists who))
       (bindO (gets (reducible_balance who preservation force)) (\<lambda>reducible.
        bindO (case precision of
                 BestEffort \<Rightarrow> ret (sat_sub reducible (min amount reducible))
               | Exact \<Rightarrow> ok_orO (Module XpCapUnderflowed) (checked_sub reducible amount)) (\<lambda>decreased.
          thenO (write_balance who decreased) (ret (sat_sub reducible decreased)))))"

section \<open>Mutate\<close>

definition done_mint_into :: "'k \<Rightarrow> points \<Rightarrow> ('k, 'r, 'l, unit) xp_op" where
  "done_mint_into who amount = on_xp_update who amount"

definition done_burn_from :: "'k \<Rightarrow> points \<Rightarrow> ('k, 'r, 'l, unit) xp_op" where
  "done_burn_from who amount = on_xp_update who amount"

definition mint_into :: "'k \<Rightarrow> points \<Rightarrow> ('k, 'r, 'l, points) xp_op" where
  "mint_into who amount =
     bindO (increase_balance who amount Exact) (\<lambda>actual.
       thenO (done_mint_into who amount) (ret actual))"

definition burn_from ::
    "'k \<Rightarrow> points \<Rightarrow> preservation \<Rightarrow> precision \<Rightarrow> fortitude \<Rightarrow> ('k, 'r, 'l, points) xp_op" where
  "burn_from who amount preservation precision force =
     bindO (gets (\<lambda>s. min (reducible_balance who preservation force s) amount)) (\<lambda>actual.
       thenO (ensureO (actual = amount \<or> precision = BestEffort) FundsUnavailable)
         (bindO (decrease_balance who actual BestEffort preservation force) (\<lambda>actual.
            thenO (done_burn_from who actual) (ret actual))))"

definition shelve :: "'k \<Rightarrow> points \<Rightarrow> ('k, 'r, 'l, points) xp_op" where
  "shelve who amount =
     bindO (gets (\<lambda>s. min (reducible_balance who Expendable Polite s) amount)) (\<lambda>actual.
       thenO (ensureO (actual = amount) FundsUnavailable)
         (decrease_balance who actual BestEffort Expendable Polite))"

definition restore :: "'k \<Rightarrow> points \<Rightarrow> ('k, 'r, 'l, points) xp_op" where
  "restore who amount = increase_balance who amount Exact"

definition transfer :: "'k \<Rightarrow> 'k \<Rightarrow> points \<Rightarrow> preservation \<Rightarrow> ('k, 'r, 'l, points) xp_op" where
  "transfer source dest amount preservation = throw (Module CannotTransferXp)"

definition set_balance :: "'k \<Rightarrow> points \<Rightarrow> ('k, 'r, 'l) store \<Rightarrow> points \<times> ('k, 'r, 'l) store" where
  "set_balance who amount s =
     (if \<not> is_ok (xp_exists who s) then (0, s)
      else let t = snd (mutate_xp who (\<lambda>x. (Inr () :: dispatch_error + unit, x\<lparr>xp_free := amount\<rparr>)) s)
           in (balance who t, t))"

section \<open>Holds\<close>

definition total_balance_on_hold :: "'k \<Rightarrow> ('k, 'r, 'l) store \<Rightarrow> points" where
  "total_balance_on_hold who s =
     (if \<not> is_ok (has_reserve who s) then 0
      else case total_reserved who s of Inl _ \<Rightarrow> 0 | Inr on_hold \<Rightarrow> on_hold)"

definition balance_on_hold :: "'r \<Rightarrow> 'k \<Rightarrow> ('k, 'r, 'l) store \<Rightarrow> points" where
  "balance_on_hold reason who s =
     (if \<not> is_ok (reserve_exists who reason s) then 0
      else case get_reserve_xp who reason s of Inl _ \<Rightarrow> 0 | Inr on_hold \<Rightarrow> on_hold)"

definition set_balance_on_hold :: "'r \<Rightarrow> 'k \<Rightarrow> points \<Rightarrow> ('k, 'r::finite, 'l, unit) xp_op" where
  "set_balance_on_hold reason who amount =
     bindO (gets (reserve_exists who reason)) (\<lambda>ex.
       if \<not> is_ok ex \<and> amount = 0 then ret ()
       else thenO (set_reserve who reason amount) (ret ()))"

section \<open>Freezes\<close>

definition balance_frozen :: "'l \<Rightarrow> 'k \<Rightarrow> ('k, 'r, 'l) store \<Rightarrow> points" where
  "balance_frozen i who s =
     (if \<not> is_ok (lock_exists who i s) then 0
      else case get_lock_xp who i s of Inl _ \<Rightarrow> 0 | Inr frozen \<Rightarrow> frozen)"

definition can_freeze :: "'l \<Rightarrow> 'k \<Rightarrow> ('k, 'r, 'l) store \<Rightarrow> bool" where
  "can_freeze i who s =
     (if \<not> is_ok (xp_exists who s) then False
      else if is_ok (lock_exists who i s) then False else True)"

definition thaw :: "'l \<Rightarrow> 'k \<Rightarrow> ('k, 'r, 'l, unit) xp_op" where
  "thaw i who = thenO (readE (xp_exists who)) (thenO (burn_lock who i) (ret ()))"

definition set_freeze :: "'l \<Rightarrow> 'k \<Rightarrow> points \<Rightarrow> ('k, 'r, 'l::finite, unit) xp_op" where
  "set_freeze i who amount =
     bindO (gets (lock_exists who i)) (\<lambda>ex.
       if is_ok ex \<and> amount = 0 then thenO (thaw i who) (ret ())
       else thenO (set_lock who i amount) (ret ()))"

definition extend_freeze :: "'l \<Rightarrow> 'k \<Rightarrow> points \<Rightarrow> ('k, 'r, 'l::finite, unit) xp_op" where
  "extend_freeze i who amount =
     (if amount = 0 then ret ()
      else bindO (readE (get_lock_xp who i)) (\<lambda>freeze_balance.
        thenO (set_lock who i (max freeze_balance amount)) (ret ())))"

text \<open>\<open>set_frozen\<close> is a provided method of the trait in \<open>frame_support\<close>, hence a parameter.\<close>

definition increase_frozen ::
    "('l \<Rightarrow> 'k \<Rightarrow> points \<Rightarrow> fortitude \<Rightarrow> ('k, 'r, 'l, unit) xp_op) \<Rightarrow>
     'l \<Rightarrow> 'k \<Rightarrow> points \<Rightarrow> ('k, 'r, 'l, unit) xp_op" where
  "increase_frozen set_frozen i who amount =
     bindO (gets (balance_frozen i who)) (\<lambda>frozen.
       bindO (ok_orO (Module XpCapOverflowed) (checked_add frozen amount)) (\<lambda>a.
         set_frozen i who a Force))"

section \<open>Evaluation\<close>

lemma balance_eq: "unat (balance who s) = free_of s who"
  by (cases "XpOf s who") (simp_all add: balance_def free_of_def)

lemma balance_eval [simp]: "XpOf s who = Some x \<Longrightarrow> balance who s = xp_free x"
  by (simp add: balance_def)

lemma balance_absent [simp]: "XpOf s who = None \<Longrightarrow> balance who s = 0"
  by (simp add: balance_def)

lemma write_balance_eval [simp]:
  "XpOf s who = Some x \<Longrightarrow> write_balance who p s = (Inr None, put_xp who (x\<lparr>xp_free := p\<rparr>) s)"
  by (simp add: write_balance_def)

lemma thenO_write_balance [simp]:
  "XpOf s who = Some x \<Longrightarrow> thenO (write_balance who p) n s = n (put_xp who (x\<lparr>xp_free := p\<rparr>) s)"
  by (simp add: thenO_eval)

lemma min_less_eq_iff: "unat (min a b) = min (unat a) (unat b)" for a b :: "'w::len word"
  by (simp add: min_def word_le_nat_alt)

lemma increase_balance_eval:
  assumes "XpOf s who = Some x"
  shows "increase_balance who p Exact s =
      (case checked_add (xp_free x) p of
         None \<Rightarrow> (Inl (Module XpCapOverflowed), s)
       | Some n \<Rightarrow> (Inr p, put_xp who (x\<lparr>xp_free := n\<rparr>) s))"
    and "increase_balance who p BestEffort s =
      (Inr (sat_sub (sat_add (xp_free x) p) (xp_free x)), put_xp who (x\<lparr>xp_free := sat_add (xp_free x) p\<rparr>) s)"
  using assms by (auto simp: increase_balance_def add_sat_sub split: option.split)

lemma sat_sub_twice: "b \<le> a \<Longrightarrow> sat_sub a (sat_sub a b) = b"
  by (simp add: word_unat_eq_iff arith_iffs word_le_nat_alt)

lemma decrease_balance_eval:
  assumes "XpOf s who = Some x"
  shows "decrease_balance who p BestEffort pr f s =
      (Inr (min p (xp_free x)), put_xp who (x\<lparr>xp_free := sat_sub (xp_free x) p\<rparr>) s)"
    and "decrease_balance who p Exact pr f s =
      (case checked_sub (xp_free x) p of
         None \<Rightarrow> (Inl (Module XpCapUnderflowed), s)
       | Some n \<Rightarrow> (Inr p, put_xp who (x\<lparr>xp_free := n\<rparr>) s))"
proof -
  have m: "sat_sub (xp_free x) (min p (xp_free x)) = sat_sub (xp_free x) p"
    by (simp add: word_unat_eq_iff unat_sat_sub min_less_eq_iff)
  have twice: "sat_sub (xp_free x) (sat_sub (xp_free x) p) = min p (xp_free x)"
    by (simp add: word_unat_eq_iff unat_sat_sub min_less_eq_iff)
  show "decrease_balance who p BestEffort pr f s =
      (Inr (min p (xp_free x)), put_xp who (x\<lparr>xp_free := sat_sub (xp_free x) p\<rparr>) s)"
    using assms by (simp add: decrease_balance_def reducible_balance_def m twice)
  have "checked_sub (xp_free x) p = Some n \<Longrightarrow> sat_sub (xp_free x) n = p" for n
    by (simp add: word_unat_eq_iff arith_iffs)
  then show "decrease_balance who p Exact pr f s =
      (case checked_sub (xp_free x) p of
         None \<Rightarrow> (Inl (Module XpCapUnderflowed), s)
       | Some n \<Rightarrow> (Inr p, put_xp who (x\<lparr>xp_free := n\<rparr>) s))"
    using assms by (auto simp: decrease_balance_def reducible_balance_def split: option.split)
qed

lemma balance_ops_absent:
  assumes "XpOf s who = None"
  shows "increase_balance who p pc s = (Inl (Module XpNotFound), s)"
    and "decrease_balance who p pc pr f s = (Inl (Module XpNotFound), s)"
  using assms by (simp_all add: increase_balance_def decrease_balance_def)

section \<open>What the adapter keeps\<close>

locale adapter_stable = r: reserve_stable P + l: lock_stable P
  for P :: "('k, 'r::finite, 'l::finite) store \<Rightarrow> bool"
begin

lemmas primitive = r.primitive l.set_lock l.burn_lock

lemma write_balance: "keeps P (write_balance who p)"
  unfolding write_balance_def by (intro keeps_thenO primitive)

lemma increase_balance: "keeps P (increase_balance who p precision)"
  unfolding increase_balance_def
  by (cases precision) (auto intro!: keeps_thenO keeps_bindO write_balance primitive)

lemma decrease_balance: "keeps P (decrease_balance who p precision pr f)"
  unfolding decrease_balance_def
  by (cases precision) (auto intro!: keeps_thenO keeps_bindO write_balance primitive)

lemma mint_into: "keeps P (mint_into who p)"
  unfolding mint_into_def done_mint_into_def hook_defs
  by (intro keeps_thenO keeps_bindO increase_balance primitive)

lemma burn_from: "keeps P (burn_from who p pr precision f)"
  unfolding burn_from_def done_burn_from_def hook_defs
  by (intro keeps_thenO keeps_bindO decrease_balance primitive)

lemma shelve: "keeps P (shelve who p)"
  unfolding shelve_def by (intro keeps_thenO keeps_bindO decrease_balance primitive)

lemma restore: "keeps P (restore who p)"
  unfolding restore_def by (rule increase_balance)

lemma set_balance_on_hold: "keeps P (set_balance_on_hold reason who p)"
  unfolding set_balance_on_hold_def by (intro keeps_thenO keeps_bindO keeps_if primitive)

lemma thaw: "keeps P (thaw i who)"
  unfolding thaw_def by (intro keeps_thenO primitive)

lemma set_freeze: "keeps P (set_freeze i who p)"
  unfolding set_freeze_def by (intro keeps_thenO keeps_bindO keeps_if thaw primitive)

lemma extend_freeze: "keeps P (extend_freeze i who p)"
  unfolding extend_freeze_def by (intro keeps_thenO keeps_bindO keeps_if primitive)

end

interpretation inv_adapter: adapter_stable xp_inv
  by unfold_locales

lemma set_balance_eq:
  "snd (set_balance who p s) = (if XpOf s who = None then s else snd (set_xp who p s))"
  by (cases "XpOf s who") (simp_all add: set_balance_def)

section \<open>Properties\<close>

text \<open>
  The deposit query is sound and complete for the balance: on an existing key, an exact
  increase of an extant amount succeeds exactly when \<open>can_deposit\<close> says success, and then
  credits exactly the amount.
\<close>

theorem can_deposit_iff_increase:
  "can_deposit who p Extant s = DepositSuccess \<longleftrightarrow>
     (\<exists>t. increase_balance who p Exact s = (Inr p, t) \<and>
          free_of t = (free_of s)(who := free_of s who + unat p))"
proof (cases "XpOf s who")
  case None
  then show ?thesis by (simp add: can_deposit_def balance_ops_absent)
next
  case (Some x)
  have upd: "free_of (put_xp who (x\<lparr>xp_free := n\<rparr>) s) = (free_of s)(who := unat n)" for n
    by (simp add: store_view_put)
  show ?thesis
  proof (cases "checked_add (xp_free x) p")
    case None
    moreover have "p \<noteq> 0" using None by auto
    ultimately show ?thesis using Some by (simp add: can_deposit_def increase_balance_eval)
  next
    case (Some n)
    then have "unat n = free_of s who + unat p"
      using \<open>XpOf s who = Some x\<close> by (simp add: checked_add_Some_iff free_of_def)
    then show ?thesis using Some \<open>XpOf s who = Some x\<close>
      by (simp add: can_deposit_def increase_balance_eval upd)
  qed
qed

text \<open>
  The withdrawal query is sound and complete: an exact burn succeeds exactly when
  \<open>can_withdraw\<close> says success, and then removes exactly the amount from the liquid balance.
\<close>

theorem can_withdraw_iff_burn:
  "can_withdraw who p s = WithdrawSuccess \<longleftrightarrow>
     (\<exists>t. burn_from who p pr Exact f s = (Inr p, t) \<and> unat p \<le> free_of s who \<and>
          free_of t = (free_of s)(who := free_of s who - unat p))"
proof (cases "XpOf s who")
  case None
  then show ?thesis
    by (simp add: can_withdraw_def burn_from_def reducible_balance_def balance_ops_absent bindO_def)
next
  case (Some x)
  have burn: "burn_from who p pr Exact f s =
      (if p \<le> xp_free x
       then (Inr p, snd (emit (EvXp who p) (put_xp who (x\<lparr>xp_free := sat_sub (xp_free x) p\<rparr>) s)))
       else (Inl FundsUnavailable, s))"
    using Some
    by (auto simp: burn_from_def reducible_balance_def decrease_balance_eval bindO_def done_burn_from_def
        on_xp_update_def thenO_def emit_eq min_def)
  show ?thesis
    using Some unfolding burn
    by (auto simp: can_withdraw_def free_of_def store_view_put unat_sat_sub word_le_nat_alt fun_eq_iff
        word_less_nat_alt)
qed

text \<open>
  Shelving and restoring an amount are inverse on the whole storage of balances: restoring
  what was shelved gives the entry of the key back exactly.
\<close>

theorem shelve_restore:
  assumes "shelve who p s = (Inr a, t)"
  shows "a = p \<and> (\<exists>x. XpOf s who = Some x \<and>
           restore who p t = (Inr p, put_xp who x t) \<and> XpOf (put_xp who x t) = XpOf s)"
proof (cases "XpOf s who")
  case None
  then show ?thesis using assms
    by (simp add: shelve_def reducible_balance_def balance_ops_absent split: if_splits)
next
  case (Some x)
  then have le: "min (xp_free x) p = p"
    and t: "(Inr (min p (xp_free x)), put_xp who (x\<lparr>xp_free := sat_sub (xp_free x) p\<rparr>) s) = (Inr a, t)"
    using assms by (simp_all add: shelve_def reducible_balance_def decrease_balance_eval split: if_splits)
  then have a: "a = p" using le by (simp add: min.commute)
  have "p \<le> xp_free x" using min.cobounded1 [of "xp_free x" p] unfolding le .
  then have "checked_add (sat_sub (xp_free x) p) p = Some (xp_free x)"
    by (simp add: arith_iffs word_le_nat_alt)
  then show ?thesis using Some t a
    by (auto simp: restore_def increase_balance_eval fun_eq_iff)
qed

lemma shelve_restore_witness:
  "\<exists>t. restore 1 40 (snd (shelve 1 40 sample_store)) = (Inr 40, t) \<and> XpOf t = XpOf sample_store"
proof -
  obtain t where "shelve 1 40 sample_store = (Inr 40, t)"
    by (simp add: shelve_def reducible_balance_def decrease_balance_eval min_def word_le_nat_alt)
  with shelve_restore [OF this] show ?thesis by auto
qed

text \<open>
  Freezing through the adapter: setting a freeze to zero on a locked key removes the lock
  without returning its points to the liquid balance, and setting it to a positive amount makes
  exactly that amount frozen, leaving the liquid balance as it was.
\<close>

theorem set_freeze_spec:
  fixes s :: "('k, 'r, 'l::finite) store"
  assumes inv: "xp_inv s" and run: "set_freeze i who p s = (Inr u, t)"
  shows "balance_frozen i who t = p \<and> free_of t = free_of s \<and>
         locked_of t who + lock_amount s who i = locked_of s who + unat p \<and> xp_inv t"
proof (cases "is_ok (lock_exists who i s) \<and> p = 0")
  case True
  then have burn: "burn_lock who i s = (Inr (), t)"
    using run
    by (auto simp: set_freeze_def thaw_def thenO_def bindO_def split: sum.splits prod.splits)
  have "lock_amount s who i \<le> locked_of s who" by (rule locks.amount_le [OF inv])
  moreover have "entry_of i (entries_of (LockedXpOf t) who) = None"
    using burn by (auto simp: burn_lock_eval with_locks_def split: option.splits)
  ultimately show ?thesis
    using True locks.burn_good [OF inv burn] locks.burn_held [OF inv burn] locks.burn_frame [OF inv burn]
    by (simp add: balance_frozen_def)
next
  case False
  then have set: "set_lock who i p s = (Inr (), t)"
    using run by (auto simp: set_freeze_def thenO_def bindO_def split: sum.splits prod.splits)
  have "get_lock_xp who i t = Inr p" "is_ok (lock_exists who i t)"
    using set by (elim set_lock_run; simp add: with_locks_def get_lock_xp_eq)+
  then show ?thesis
    using locks.seth_good [OF inv set] locks.seth_held [OF inv set] locks.seth_frame [OF inv set]
    by (simp add: balance_frozen_def del: lock_exists_iff)
qed

lemma set_freeze_spec_witness:
  "balance_frozen False 1 (snd (set_freeze False 1 50 sample_store)) = 50"
proof -
  obtain t where "set_freeze False 1 50 sample_store = (Inr (), t)"
    by (simp add: set_freeze_def thenO_def bindO_def set_lock_old entry_of_def checked_add_def sat_sub_def
        word_less_nat_alt word_le_nat_alt)
  with set_freeze_spec [OF sample_inv this] show ?thesis by simp
qed

end
