(* ===== verification/XpMachine.thy ===== *)
theory XpMachine
  imports XpFungible
begin

text \<open>
  The XP pallet as a state machine: a step is a dispatched call, a call of one of the trait
  methods other pallets use (\<open>begin_xp\<close>, \<open>earn_xp\<close>, the reserve, lock, reap and fungible
  operations, raw setters included), or the next block. The invariant of the reachable stores
  adds to \<open>xp_inv\<close> the sanity of the configuration, timestamps that are not in the future and
  exactly one owner for every key that exists or was reaped.

  \<open>new_xp\<close>, \<open>create_xp\<close> and \<open>set_owner\<close> check nothing themselves. They are steps where their
  caller keeps to \<open>creatable\<close> and \<open>entitled\<close>, which are exactly the calls that keep a store
  consistent (\<open>new_xp_keeps_iff\<close>, \<open>create_xp_keeps_iff\<close>, \<open>set_owner_keeps_iff\<close>); \<open>any_step\<close> has
  them without a condition.
\<close>

section \<open>Steps\<close>

inductive balance_op :: "(('k, 'r::finite, 'l::finite) store \<Rightarrow> ('k, 'r, 'l) store) \<Rightarrow> bool" where
  bo_set_xp: "balance_op (\<lambda>s. snd (set_xp k p s))"
| bo_slash_xp: "balance_op (\<lambda>s. snd (slash_xp k p s))"
| bo_reset_xp: "balance_op (\<lambda>s. snd (reset_xp k s))"
| bo_set_reserve: "balance_op (\<lambda>s. snd (set_reserve k r p s))"
| bo_reserve: "balance_op (\<lambda>s. snd (reserve_xp k r p s))"
| bo_withdraw_partial: "balance_op (\<lambda>s. snd (withdraw_reserve_partial k r p pc s))"
| bo_withdraw: "balance_op (\<lambda>s. snd (withdraw_reserve k r s))"
| bo_reset_reserve: "balance_op (\<lambda>s. snd (reset_reserve k r s))"
| bo_slash_reserve: "balance_op (\<lambda>s. snd (slash_reserve k r p s))"
| bo_set_lock: "balance_op (\<lambda>s. snd (set_lock k l p s))"
| bo_burn_lock: "balance_op (\<lambda>s. snd (burn_lock k l s))"
| bo_lock: "balance_op (\<lambda>s. snd (lock_xp k l p s))"
| bo_withdraw_lock: "balance_op (\<lambda>s. snd (withdraw_lock k l s))"
| bo_slash_lock: "balance_op (\<lambda>s. snd (slash_lock k l p s))"
| bo_increase: "balance_op (\<lambda>s. snd (increase_balance k p pc s))"
| bo_decrease: "balance_op (\<lambda>s. snd (decrease_balance k p pc pr f s))"
| bo_mint: "balance_op (\<lambda>s. snd (mint_into k p s))"
| bo_burn: "balance_op (\<lambda>s. snd (burn_from k p pr pc f s))"
| bo_shelve: "balance_op (\<lambda>s. snd (shelve k p s))"
| bo_restore: "balance_op (\<lambda>s. snd (restore k p s))"
| bo_set_balance: "balance_op (\<lambda>s. snd (set_balance k p s))"
| bo_hold: "balance_op (\<lambda>s. snd (set_balance_on_hold r k p s))"
| bo_set_freeze: "balance_op (\<lambda>s. snd (set_freeze l k p s))"
| bo_extend_freeze: "balance_op (\<lambda>s. snd (extend_freeze l k p s))"
| bo_thaw: "balance_op (\<lambda>s. snd (thaw l k s))"

text \<open>
  What the callers of the unchecked primitives must ensure: a key is created when it is not
  reaped and either new or its owner's, without reserves and locks; the owner of a key is
  replaced by naming it.
\<close>

definition creatable :: "'k \<Rightarrow> 'k \<Rightarrow> ('k, 'r, 'l) store \<Rightarrow> bool" where
  "creatable owner k s \<longleftrightarrow> k \<notin> ReapedXp s \<and>
     (case XpOf s k of None \<Rightarrow> True
      | Some x \<Rightarrow> (owner, k) \<in> XpOwners s \<and> xp_reserve x = 0 \<and> xp_lock x = 0)"

definition entitled :: "'k \<Rightarrow> 'k \<Rightarrow> 'k \<Rightarrow> ('k, 'r, 'l) store \<Rightarrow> bool" where
  "entitled owner k new s \<longleftrightarrow> (owner, k) \<in> XpOwners s \<or> (new, k) \<in> XpOwners s"

inductive step :: "('k, 'r::finite, 'l::finite) store \<Rightarrow> ('k, 'r, 'l) store \<Rightarrow> bool" where
  st_balance: "balance_op f \<Longrightarrow> step s (f s)"
| st_earn: "earn_xp k p s = Some (r, t) \<Longrightarrow> step s t"
| st_begin: "begin_xp owner k p s = Some (r, t) \<Longrightarrow> step s t"
| st_reap: "step s (snd (reap_xp k s))"
| st_try_reap: "step s (snd (try_reap k s))"
| st_transfer: "step s (snd (transfer_owner owner k new s))"
| st_handover: "step s (snd (handover origin k new s))"
| st_force_handover: "step s (snd (force_handover rt owner k new s))"
| st_dispose: "step s (snd (dispose origin owner k s))"
| st_config: "step s (snd (force_genesis_config rt field s))"
| st_block: "block_number s < n \<Longrightarrow> step s (s\<lparr>block_number := n\<rparr>)"
| st_new: "creatable owner k s \<Longrightarrow> step s (snd (new_xp owner k s))"
| st_create: "creatable owner k s \<Longrightarrow> step s (snd (create_xp owner k s))"
| st_set_owner: "entitled owner k new s \<Longrightarrow> step s (snd (set_owner owner k new s))"

inductive_cases stepE: "step s t"

inductive reachable :: "('k, 'r::finite, 'l::finite) store \<Rightarrow> ('k, 'r, 'l) store \<Rightarrow> bool" where
  reach_refl: "reachable s s"
| reach_step: "reachable s t \<Longrightarrow> step t u \<Longrightarrow> reachable s u"

inductive any_step :: "('k, 'r::finite, 'l::finite) store \<Rightarrow> ('k, 'r, 'l) store \<Rightarrow> bool" where
  any_checked: "step s t \<Longrightarrow> any_step s t"
| any_new: "any_step s (snd (new_xp owner k s))"
| any_create: "any_step s (snd (create_xp owner k s))"
| any_set_owner: "any_step s (snd (set_owner owner k new s))"

section \<open>Frames\<close>

text \<open>
  A quiet change touches no owner, no blacklist entry, no parameter, and neither creates nor
  removes an entry nor changes its pulse or timestamp.
\<close>

definition quiet :: "('k, 'r, 'l) store \<Rightarrow> ('k, 'r, 'l) store \<Rightarrow> bool" where
  "quiet s t \<longleftrightarrow> XpOwners t = XpOwners s \<and> ReapedXp t = ReapedXp s \<and> MinPulse t = MinPulse s \<and>
     InitXp t = InitXp s \<and> PulseFactor t = PulseFactor s \<and> MinTimeStamp t = MinTimeStamp s \<and>
     block_number t = block_number s \<and>
     (\<forall>k. map_option (\<lambda>x. (xp_pulse x, xp_timestamp x)) (XpOf t k)
          = map_option (\<lambda>x. (xp_pulse x, xp_timestamp x)) (XpOf s k))"

lemma quiet_refl [simp]: "quiet s s"
  by (simp add: quiet_def)

lemma quiet_put:
  assumes "quiet s0 s" "XpOf s k = Some x" "xp_pulse x' = xp_pulse x" "xp_timestamp x' = xp_timestamp x"
  shows "quiet s0 (put_xp k x' s)"
proof -
  have "map_option (\<lambda>x. (xp_pulse x, xp_timestamp x)) (XpOf s0 k) = Some (xp_pulse x, xp_timestamp x)"
    using assms(1,2) unfolding quiet_def by (metis (no_types, lifting) option.simps(9))
  then show ?thesis using assms by (auto simp: quiet_def)
qed

lemma quiet_books [simp]:
  "quiet s0 (s\<lparr>ReservedXpOf := m\<rparr>) = quiet s0 s" "quiet s0 (s\<lparr>LockedXpOf := m'\<rparr>) = quiet s0 s"
  "quiet s0 (s\<lparr>Events := es\<rparr>) = quiet s0 s"
  by (simp_all add: quiet_def)

lemma quiet_emit [simp]: "quiet s0 (snd (emit ev s)) = quiet s0 s"
  by (simp add: quiet_def)

lemma keeps_quiet_emit: "keeps (quiet s0) (emit ev)"
  by (simp add: keeps_def emit_eq)

lemma keeps_quiet_set_xp: "keeps (quiet s0) (set_xp k p)"
  unfolding keeps_def
proof (intro allI impI, goal_cases)
  case (1 s r t)
  then show ?case by (cases "XpOf s k") (auto intro: quiet_put)
qed

lemma keeps_quiet_set_reserve: "keeps (quiet s0) (set_reserve k r p)"
  unfolding keeps_def
proof (intro allI impI, goal_cases)
  case (1 s res t)
  show ?case
  proof (cases res)
    case (Inl e)
    then show ?thesis using 1 set_reserve_error by metis
  next
    case (Inr u)
    then show ?thesis using 1
      by (auto elim!: set_reserve_run intro!: quiet_put simp: with_reserve_def)
  qed
qed

lemma keeps_quiet_set_lock: "keeps (quiet s0) (set_lock k l p)"
  unfolding keeps_def
proof (intro allI impI, goal_cases)
  case (1 s res t)
  show ?case
  proof (cases res)
    case (Inl e)
    then show ?thesis using 1 set_lock_error by metis
  next
    case (Inr u)
    then show ?thesis using 1
      by (auto elim!: set_lock_run intro!: quiet_put simp: with_locks_def)
  qed
qed

lemma keeps_quiet_burn_lock: "keeps (quiet s0) (burn_lock k l)"
  unfolding keeps_def
proof (intro allI impI, goal_cases)
  case (1 s res t)
  then show ?case
    by (auto simp: burn_lock_eval with_locks_def intro!: quiet_put split: option.splits)
qed

interpretation quiet_adapter: adapter_stable "quiet s0" for s0
  by unfold_locales
     (rule keeps_quiet_emit keeps_quiet_set_xp keeps_quiet_set_reserve keeps_quiet_set_lock
        keeps_quiet_burn_lock)+

context adapter_stable
begin

lemma set_balance: "P s \<Longrightarrow> P (snd (set_balance k p s))"
  using keepsD [OF r.set_xp] by (simp add: set_balance_eq)

lemma balance_op_keeps: "balance_op f \<Longrightarrow> P s \<Longrightarrow> P (f s)"
  by (erule balance_op.cases)
     (simp_all add: set_balance keepsD r.set_xp r.slash_xp r.reset_xp r.set_reserve r.reserve_xp
        r.withdraw_reserve_partial r.withdraw_reserve r.reset_reserve r.slash_reserve
        l.set_lock l.burn_lock l.lock_xp l.withdraw_lock l.slash_lock
        increase_balance decrease_balance mint_into burn_from shelve restore
        set_balance_on_hold set_freeze extend_freeze thaw)

end

section \<open>The invariant\<close>

definition timely :: "('k, 'r, 'l) store \<Rightarrow> bool" where
  "timely s \<longleftrightarrow> (\<forall>k x. XpOf s k = Some x \<longrightarrow> xp_timestamp x \<le> block_number s)"

definition known :: "('k, 'r, 'l) store \<Rightarrow> 'k set" where
  "known s = dom (XpOf s) \<union> ReapedXp s"

definition owners_ok :: "('k, 'r, 'l) store \<Rightarrow> bool" where
  "owners_ok s \<longleftrightarrow> snd ` XpOwners s = known s \<and> inj_on snd (XpOwners s)"

lemma owners_ok_unique: "owners_ok s \<Longrightarrow> (o1, k) \<in> XpOwners s \<Longrightarrow> (o2, k) \<in> XpOwners s \<Longrightarrow> o1 = o2"
  unfolding owners_ok_def using inj_onD [of snd "XpOwners s" "(o1, k)" "(o2, k)"] by simp

definition store_ok :: "('k, 'r, 'l) store \<Rightarrow> bool" where
  "store_ok s \<longleftrightarrow> xp_inv s \<and> config_ok s \<and> timely s \<and> owners_ok s"

lemma store_okI: "xp_inv s \<Longrightarrow> config_ok s \<Longrightarrow> timely s \<Longrightarrow> owners_ok s \<Longrightarrow> store_ok s"
  by (simp add: store_ok_def)

lemma quiet_entry:
  assumes "quiet s t"
  shows "(XpOf t k = None) = (XpOf s k = None)"
    and "XpOf t k = Some x \<Longrightarrow> \<exists>y. XpOf s k = Some y \<and> xp_timestamp x = xp_timestamp y"
proof -
  have "map_option (\<lambda>x. (xp_pulse x, xp_timestamp x)) (XpOf t k)
      = map_option (\<lambda>x. (xp_pulse x, xp_timestamp x)) (XpOf s k)"
    using assms by (simp add: quiet_def)
  then show "(XpOf t k = None) = (XpOf s k = None)"
    and "XpOf t k = Some x \<Longrightarrow> \<exists>y. XpOf s k = Some y \<and> xp_timestamp x = xp_timestamp y"
    by (cases "XpOf s k"; cases "XpOf t k"; simp)+
qed

lemma quiet_fields:
  assumes "quiet s t"
  shows "XpOwners t = XpOwners s" "ReapedXp t = ReapedXp s" "PulseFactor t = PulseFactor s"
    "MinTimeStamp t = MinTimeStamp s" "block_number t = block_number s" "known t = known s"
proof -
  show "XpOwners t = XpOwners s" "ReapedXp t = ReapedXp s" "PulseFactor t = PulseFactor s"
    "MinTimeStamp t = MinTimeStamp s" "block_number t = block_number s"
    using assms by (simp_all add: quiet_def)
  then show "known t = known s"
    using quiet_entry(1) [OF assms] by (simp add: known_def dom_def)
qed

lemma quiet_store_ok:
  assumes "quiet s t" "store_ok s" "xp_inv t"
  shows "store_ok t"
proof (rule store_okI)
  note eq = quiet_fields [OF assms(1)]
  show "xp_inv t" by (rule assms(3))
  show "config_ok t" "owners_ok t"
    using assms(2) by (simp_all add: eq store_ok_def config_ok_def owners_ok_def)
  show "timely t"
    unfolding timely_def
  proof (intro allI impI)
    fix k x assume "XpOf t k = Some x"
    then obtain y where "XpOf s k = Some y" "xp_timestamp x = xp_timestamp y"
      using quiet_entry(2) [OF assms(1)] by blast
    then show "xp_timestamp x \<le> block_number t"
      using assms(2) by (simp add: eq store_ok_def timely_def)
  qed
qed

lemma balance_op_store_ok: "balance_op f \<Longrightarrow> store_ok s \<Longrightarrow> store_ok (f s)"
  by (rule quiet_store_ok [OF quiet_adapter.balance_op_keeps [OF _ quiet_refl]])
     (simp_all add: inv_adapter.balance_op_keeps store_ok_def)

lemma earn_value_timestamp:
  "earn_value now minp factor locked p x = Some (r, x') \<Longrightarrow>
     xp_timestamp x' = xp_timestamp x \<or> xp_timestamp x' = now"
  by (auto simp: earn_value_def Let_def split: if_splits option.splits)

lemma earn_store_ok:
  assumes ok: "store_ok s" and run: "earn_xp k p s = Some (r, t)"
  shows "store_ok t"
proof (cases "XpOf s k")
  case None
  then show ?thesis using run ok by simp
next
  case (Some x)
  obtain x' where v: "earn_call k p s x = Some (r, x')"
    and t: "t = (case r of Inl _ \<Rightarrow> put_xp k x' s | Inr a \<Rightarrow> snd (emit (EvXpEarn k a) (put_xp k x' s)))"
    using earn_xp_cases [OF Some run] .
  have sel: "XpOf t = (XpOf s)(k \<mapsto> x')" "XpOwners t = XpOwners s" "ReapedXp t = ReapedXp s"
    "PulseFactor t = PulseFactor s" "MinTimeStamp t = MinTimeStamp s" "block_number t = block_number s"
    by (cases r; simp add: t)+
  have kn: "known t = known s" using Some by (auto simp: known_def sel)
  show ?thesis
  proof (rule store_okI)
    show "xp_inv t" using ok run by (auto simp: store_ok_def intro: xp_inv_earn)
    show "config_ok t" "owners_ok t"
      using ok kn by (simp_all add: store_ok_def config_ok_def owners_ok_def sel)
    show "timely t"
      using ok Some earn_value_timestamp [OF v [unfolded earn_call_def]]
      by (auto simp: store_ok_def timely_def sel)
  qed
qed

lemma begin_store_ok:
  assumes ok: "store_ok s" and run: "begin_xp owner k p s = Some (r, t)"
  shows "store_ok t"
proof -
  consider "k \<in> ReapedXp s" | "k \<notin> ReapedXp s" "XpOf s k = None"
    | "k \<notin> ReapedXp s" "XpOf s k \<noteq> None" by blast
  then show ?thesis
  proof cases
    case 1
    then show ?thesis using run ok by (simp add: begin_xp_def)
  next
    case 2
    then have t: "t = snd (create_xp owner k s)"
      using run by (simp add: begin_xp_def create_xp_eval thenO_def bindO_def)
    have fresh: "k \<notin> snd ` XpOwners s" using ok 2 by (auto simp: store_ok_def owners_ok_def known_def)
    show ?thesis
    proof (rule store_okI)
      show "xp_inv t" using ok xp_inv_begin [OF _ run] by (simp add: store_ok_def)
      show "config_ok t" using ok by (simp add: t create_xp_eval store_ok_def config_ok_def)
      show "timely t"
        using ok by (auto simp: t create_xp_eval store_ok_def timely_def xp_default_def)
      show "owners_ok t"
        using ok fresh 2 by (auto simp: t create_xp_eval store_ok_def owners_ok_def known_def inj_on_def)
    qed
  next
    case 3
    then show ?thesis using run earn_store_ok [OF ok] by (auto simp: begin_xp_def)
  qed
qed

lemma reaped_store_ok:
  assumes ok: "store_ok s" and "XpOf s k \<noteq> None" "\<not> is_ok (has_lock k s)"
  shows "store_ok (reaped_store k s)"
proof (rule store_okI)
  show "xp_inv (reaped_store k s)" using ok xp_inv_reaped [OF _ assms(3)] by (simp add: store_ok_def)
  show "config_ok (reaped_store k s)" "timely (reaped_store k s)"
    using ok by (auto simp: store_ok_def config_ok_def timely_def reaped_store_def)
  have "known (reaped_store k s) = known s" using assms(2) by (auto simp: known_def reaped_store_def)
  then show "owners_ok (reaped_store k s)" using ok by (simp add: store_ok_def owners_ok_def reaped_store_def)
qed

lemma store_ok_emit [simp]: "store_ok (snd (emit ev s)) = store_ok s"
  by (simp add: store_ok_def config_ok_def timely_def owners_ok_def known_def)

lemma store_ok_events [simp]: "store_ok (s\<lparr>Events := es\<rparr>) = store_ok s"
  by (simp add: store_ok_def xp_inv_def config_ok_def timely_def owners_ok_def known_def)

lemma reap_ops_store_ok:
  assumes "store_ok s"
  shows "store_ok (snd (reap_xp k s))" and "store_ok (snd (try_reap k s))"
proof -
  show "store_ok (snd (reap_xp k s))"
    by (cases "XpOf s k")
       (auto simp: reap_xp_eval assms simp del: has_lock_iff intro: reaped_store_ok [OF assms])
  show "store_ok (snd (try_reap k s))"
  proof (cases "can_reap k s")
    case (Inr u)
    then have "XpOf s k \<noteq> None" "\<not> is_ok (has_lock k s)"
      using can_reap_iff [of k s] by auto
    then show ?thesis using Inr reaped_store_ok [OF assms] by (simp add: try_reap_eval)
  qed (simp add: try_reap_eval assms)
qed

lemma moved_owner_ok:
  assumes ok: "store_ok s" and own: "(owner, k) \<in> XpOwners s"
  shows "store_ok (s\<lparr>XpOwners := insert (new, k) (XpOwners s - {(owner, k)})\<rparr>)" (is "store_ok ?t")
proof (rule store_okI)
  show "xp_inv ?t" "config_ok ?t" "timely ?t"
    using ok by (simp_all add: store_ok_def xp_inv_def config_ok_def timely_def)
  have inj: "inj_on snd (XpOwners s)" and dom: "snd ` XpOwners s = known s"
    using ok by (simp_all add: store_ok_def owners_ok_def)
  have only: "(o', k) \<in> XpOwners s \<Longrightarrow> o' = owner" for o'
    using inj own by (fastforce simp: inj_on_def)
  have "snd ` XpOwners ?t = known s" using own dom by (force simp: image_iff)
  moreover have "inj_on snd (XpOwners ?t)" using inj only by (fastforce simp: inj_on_def)
  ultimately show "owners_ok ?t" by (simp add: owners_ok_def known_def)
qed

lemma transfer_store_ok: "store_ok s \<Longrightarrow> store_ok (snd (transfer_owner owner k new s))"
  by (simp add: transfer_owner_spec moved_owner_ok)

lemma handover_store_ok:
  assumes ok: "store_ok s"
  shows "store_ok (snd (handover origin k new s))"
proof (cases origin)
  case (Inl e)
  then show ?thesis using ok by (simp add: handover_eval)
next
  case (Inr caller)
  show ?thesis
  proof (cases "(caller, k) \<in> XpOwners s")
    case True
    let ?t = "s\<lparr>XpOwners := insert (new, k) (XpOwners s - {(caller, k)})\<rparr>"
    have "store_ok (?t\<lparr>Events := Events s @ [EvXpOwner k new]\<rparr>)"
      unfolding store_ok_events by (rule moved_owner_ok [OF ok True])
    then show ?thesis using ok Inr by (simp add: handover_eval)
  qed (use ok Inr in \<open>simp add: handover_eval\<close>)
qed

lemma force_handover_store_ok: "store_ok s \<Longrightarrow> store_ok (snd (force_handover rt owner k new s))"
  using handover_store_ok [of s "Inr owner"]
  by (cases rt) (simp_all add: force_handover_def handover_def transactional_def bindO_def)

lemma dispose_cases:
  "snd (dispose origin owner k s) = s \<or>
   (XpOf s k \<noteq> None \<and> \<not> is_ok (has_lock k s) \<and>
    (\<exists>es. snd (dispose origin owner k s) = (reaped_store k s)\<lparr>Events := es\<rparr>))"
proof (cases "can_reap k s")
  case (Inl e)
  then show ?thesis
    by (auto simp: dispose_def transactional_def try_reap_eval thenO_def bindO_def split: sum.split)
next
  case (Inr u)
  then have "XpOf s k \<noteq> None" "\<not> is_ok (has_lock k s)"
    using can_reap_iff [of k s] by auto
  then show ?thesis using Inr
    by (auto simp: dispose_def transactional_def try_reap_eval thenO_def bindO_def emit_eq
        simp del: has_lock_iff split: sum.split)
qed

lemma dispose_store_ok: "store_ok s \<Longrightarrow> store_ok (snd (dispose origin owner k s))"
  using dispose_cases [of origin owner k s] reaped_store_ok [of s k] by auto

lemma config_fields:
  "XpOf (snd (force_genesis_config rt field s)) = XpOf s \<and>
   XpOwners (snd (force_genesis_config rt field s)) = XpOwners s \<and>
   ReservedXpOf (snd (force_genesis_config rt field s)) = ReservedXpOf s \<and>
   LockedXpOf (snd (force_genesis_config rt field s)) = LockedXpOf s \<and>
   ReapedXp (snd (force_genesis_config rt field s)) = ReapedXp s \<and>
   block_number (snd (force_genesis_config rt field s)) = block_number s"
proof (cases rt)
  case (Inr u)
  then have "rt = Inr ()" by simp
  then show ?thesis by (cases field) (simp_all add: force_genesis_config_eval Let_def)
qed (simp add: force_genesis_config_def transactional_def)

lemma config_store_ok: "store_ok s \<Longrightarrow> store_ok (snd (force_genesis_config rt field s))"
  using config_fields [of rt field s] force_genesis_config_keeps_config [of s rt field]
  by (simp add: store_ok_def xp_inv_def timely_def owners_ok_def known_def)

lemma block_store_ok: "store_ok s \<Longrightarrow> block_number s < n \<Longrightarrow> store_ok (s\<lparr>block_number := n\<rparr>)"
  by (fastforce simp: store_ok_def xp_inv_def config_ok_def timely_def owners_ok_def known_def
      dest: less_imp_le intro: order_trans)

text \<open>The unchecked primitives keep a store consistent exactly when their caller keeps to the rule.\<close>

lemma new_xp_keeps:
  assumes ok: "store_ok s" and "creatable owner k s"
  shows "store_ok (snd (new_xp owner k s))" (is "store_ok ?t")
proof (rule store_okI)
  note inv = ok [unfolded store_ok_def]
  have D: "book_ok (ReservedXpOf s) xp_reserve (XpOf s)" "book_ok (LockedXpOf s) xp_lock (XpOf s)"
    "\<And>key. key \<in> ReapedXp s \<Longrightarrow> XpOf s key = None"
    using inv by (simp_all add: xp_inv_def)
  have zero: "xp_reserve (xp_default s) = 0" "xp_lock (xp_default s) = 0" by (simp_all add: xp_default_def)
  have books: "book_ok (ReservedXpOf s) xp_reserve ((XpOf s)(k \<mapsto> xp_default s)) \<and>
      book_ok (LockedXpOf s) xp_lock ((XpOf s)(k \<mapsto> xp_default s))"
  proof (cases "XpOf s k")
    case None
    show ?thesis using book_ok_new [OF D(1) None zero(1)] book_ok_new [OF D(2) None zero(2)] by simp
  next
    case (Some x)
    then have eq: "xp_reserve (xp_default s) = xp_reserve x" "xp_lock (xp_default s) = xp_lock x"
      using assms(2) zero by (simp_all add: creatable_def)
    show ?thesis using book_ok_put [OF D(1) Some eq(1)] book_ok_put [OF D(2) Some eq(2)] by simp
  qed
  have "k \<notin> ReapedXp s" using assms(2) by (simp add: creatable_def)
  then have "((XpOf s)(k \<mapsto> xp_default s)) key = None" if "key \<in> ReapedXp s" for key
    using D(3) [OF that] that by auto
  then show "xp_inv ?t" using books by (intro xp_invI) (simp_all add: new_xp_eval)
  show "config_ok ?t" using inv by (simp add: new_xp_eval config_ok_def)
  show "timely ?t" using inv by (auto simp: new_xp_eval timely_def xp_default_def)
  have "(owner, k) \<in> XpOwners s \<or> k \<notin> known s"
    using assms(2) by (auto simp: creatable_def known_def split: option.splits)
  then show "owners_ok ?t"
  proof
    assume own: "(owner, k) \<in> XpOwners s"
    then have "k \<in> known s" using inv by (force simp: owners_ok_def)
    then have "known ?t = known s" by (auto simp: new_xp_eval known_def)
    moreover have "XpOwners ?t = XpOwners s" using own by (auto simp: new_xp_eval)
    ultimately show ?thesis using inv by (simp add: owners_ok_def)
  next
    assume fresh: "k \<notin> known s"
    then show ?thesis using inv by (auto simp: new_xp_eval owners_ok_def known_def inj_on_def)
  qed
qed

lemma new_xp_keeps_iff:
  assumes ok: "store_ok s"
  shows "store_ok (snd (new_xp owner k s)) \<longleftrightarrow> creatable owner k s"
proof
  assume t: "store_ok (snd (new_xp owner k s))" (is "store_ok ?t")
  then have inv: "xp_inv ?t" "owners_ok ?t" by (simp_all add: store_ok_def)
  have reaped: "k \<notin> ReapedXp s" using xp_invD(3) [OF inv(1), of k] by (auto simp: new_xp_eval)
  have zero: "entries_total (entries_of (ReservedXpOf s) k) = 0" "entries_total (entries_of (LockedXpOf s) k) = 0"
    using book_ok_total [OF xp_invD(1) [OF inv(1)], of k] book_ok_total [OF xp_invD(2) [OF inv(1)], of k]
    by (simp_all add: new_xp_eval xp_default_def)
  show "creatable owner k s"
  proof (cases "XpOf s k")
    case (Some x)
    then have "k \<in> snd ` XpOwners s" using ok by (auto simp: store_ok_def owners_ok_def known_def)
    then obtain o' where o': "(o', k) \<in> XpOwners s" by force
    then have "o' = owner" using owners_ok_unique [OF inv(2), of o' k owner] by (simp add: new_xp_eval)
    moreover have "unat (xp_reserve x) = 0" "unat (xp_lock x) = 0"
      using book_ok_total [OF xp_invD(1), of s k x] book_ok_total [OF xp_invD(2), of s k x] ok Some zero
      by (simp_all add: store_ok_def)
    ultimately show ?thesis using reaped Some o' by (simp add: creatable_def unat_0_iff)
  qed (simp add: creatable_def reaped)
qed (rule new_xp_keeps [OF ok])

lemma create_new: "store_ok (snd (create_xp owner k s)) = store_ok (snd (new_xp owner k s))"
  by (simp add: create_xp_eval new_xp_eval)

lemma create_xp_keeps_iff: "store_ok s \<Longrightarrow> store_ok (snd (create_xp owner k s)) \<longleftrightarrow> creatable owner k s"
  by (simp add: create_new new_xp_keeps_iff)

lemma set_owner_keeps_iff:
  assumes ok: "store_ok s"
  shows "store_ok (snd (set_owner owner k new s)) \<longleftrightarrow> entitled owner k new s"
proof (cases "(owner, k) \<in> XpOwners s")
  case True
  then show ?thesis using moved_owner_ok [OF ok True] by (simp add: entitled_def)
next
  case False
  show ?thesis
  proof
    assume t: "store_ok (snd (set_owner owner k new s))"
    then have t: "owners_ok (s\<lparr>XpOwners := insert (new, k) (XpOwners s)\<rparr>)" (is "owners_ok ?t")
      using False by (simp add: store_ok_def)
    then have "k \<in> known s" by (auto simp: owners_ok_def known_def)
    then have "k \<in> snd ` XpOwners s" using ok by (simp add: store_ok_def owners_ok_def)
    then obtain o' where "(o', k) \<in> XpOwners s" by force
    moreover from this have "o' = new" using owners_ok_unique [OF t, of o' k new] by simp
    ultimately show "entitled owner k new s" by (simp add: entitled_def)
  next
    assume "entitled owner k new s"
    then have "s\<lparr>XpOwners := insert (new, k) (XpOwners s - {(owner, k)})\<rparr> = s"
      using False by (simp add: entitled_def insert_absorb)
    then show "store_ok (snd (set_owner owner k new s))" using ok by simp
  qed
qed

lemma step_store_ok:
  assumes "step s t" "store_ok s"
  shows "store_ok t"
  using assms(1)
proof (cases rule: step.cases)
  case (st_new owner k)
  then show ?thesis using new_xp_keeps [OF assms(2)] by simp
next
  case (st_create owner k)
  then show ?thesis using create_xp_keeps_iff [OF assms(2)] by simp
next
  case (st_set_owner owner k new)
  then show ?thesis using set_owner_keeps_iff [OF assms(2)] by (simp del: set_owner_eval)
qed (use assms(2) in \<open>auto intro: balance_op_store_ok earn_store_ok begin_store_ok reap_ops_store_ok
       transfer_store_ok handover_store_ok force_handover_store_ok dispose_store_ok config_store_ok
       block_store_ok\<close>)

lemma reachable_ok: "reachable s t \<Longrightarrow> store_ok s \<Longrightarrow> store_ok t"
  by (induction rule: reachable.induct) (auto intro: step_store_ok)

section \<open>The blacklist only grows\<close>

lemma earn_reaped: "earn_xp k p s = Some (r, t) \<Longrightarrow> ReapedXp t = ReapedXp s"
  by (cases "XpOf s k") (auto elim!: earn_xp_cases split: sum.splits)

lemma begin_reaped: "begin_xp owner k p s = Some (r, t) \<Longrightarrow> ReapedXp t = ReapedXp s"
  by (auto simp: begin_xp_def create_xp_eval thenO_def bindO_def dest: earn_reaped split: if_splits)

lemma handover_reaped: "ReapedXp (snd (handover origin k new s)) = ReapedXp s"
  by (cases origin) (simp_all add: handover_eval)

lemma step_reaped: "step s t \<Longrightarrow> ReapedXp s \<subseteq> ReapedXp t"
proof (erule stepE, goal_cases)
  case (1 f)
  then show ?case using quiet_fields(2) [OF quiet_adapter.balance_op_keeps [OF 1(2) quiet_refl]] by simp
next
  case (2 k p r) then show ?case by (simp add: earn_reaped)
next
  case (3 owner k p r) then show ?case by (simp add: begin_reaped)
next
  case (4 k) then show ?case
    by (cases "XpOf s k") (auto simp: reap_xp_eval reaped_store_def simp del: has_lock_iff)
next
  case (5 k) then show ?case
    by (cases "can_reap k s") (auto simp: try_reap_eval reaped_store_def)
next
  case (6 owner k new) then show ?case by (simp add: transfer_owner_spec)
next
  case (7 origin k new) then show ?case by (simp add: handover_reaped)
next
  case (8 rt owner k new) then show ?case
    using handover_reaped [of "Inr owner" k new s]
    by (cases rt) (simp_all add: force_handover_def handover_def transactional_def bindO_def)
next
  case (9 origin owner k) then show ?case
    using dispose_cases [of origin owner k s] by (auto simp: reaped_store_def)
next
  case (10 rt field) then show ?case using config_fields [of rt field s] by simp
next
  case (11 n) then show ?case by simp
qed (simp_all add: new_xp_eval create_xp_eval)

lemma any_step_reaped: "any_step s t \<Longrightarrow> ReapedXp s \<subseteq> ReapedXp t"
  by (erule any_step.cases) (use step_reaped in \<open>auto simp: new_xp_eval create_xp_eval\<close>)

lemma any_steps_reaped: "any_step\<^sup>*\<^sup>* s t \<Longrightarrow> ReapedXp s \<subseteq> ReapedXp t"
  by (induction rule: rtranclp_induct) (auto dest: any_step_reaped)

lemma reachable_reaped: "reachable s t \<Longrightarrow> ReapedXp s \<subseteq> ReapedXp t"
  by (induction rule: reachable.induct) (auto dest: step_reaped)

section \<open>Properties\<close>

text \<open>
  C1: In every store reachable by calls and trait methods, in whatever order they run and fail,
  the cached totals equal the sums of the entries, no reason occurs twice, a reaped key has no
  entry, the configuration is sane, no timestamp is in the future, and every key that exists or
  was reaped has exactly one owner. The unchecked \<open>new_xp\<close>, \<open>create_xp\<close> and \<open>set_owner\<close> are
  among the steps as far as their caller ensures \<open>creatable\<close> and \<open>entitled\<close>; in every other case
  they break this consistency.
\<close>

theorem reachable_consistent:
  assumes "store_ok s" and "reachable s t"
  shows "xp_inv t \<and> config_ok t \<and>
    (\<forall>k x. XpOf t k = Some x \<longrightarrow> xp_timestamp x \<le> block_number t \<and>
        unat (xp_reserve x) = entries_total (entries_of (ReservedXpOf t) k) \<and>
        unat (xp_lock x) = entries_total (entries_of (LockedXpOf t) k)) \<and>
    (\<forall>k. (XpOf t k \<noteq> None \<or> k \<in> ReapedXp t) \<longleftrightarrow> (\<exists>!owner. (owner, k) \<in> XpOwners t)) \<and>
    (\<forall>owner k. store_ok (snd (create_xp owner k t)) \<longleftrightarrow> creatable owner k t) \<and>
    (\<forall>owner k. store_ok (snd (new_xp owner k t)) \<longleftrightarrow> creatable owner k t) \<and>
    (\<forall>owner k new. store_ok (snd (set_owner owner k new t)) \<longleftrightarrow> entitled owner k new t)"
proof -
  have ok: "xp_inv t" "config_ok t" "timely t" "owners_ok t"
    using reachable_ok [OF assms(2,1)] by (simp_all add: store_ok_def)
  have "(XpOf t k \<noteq> None \<or> k \<in> ReapedXp t) \<longleftrightarrow> k \<in> snd ` XpOwners t" for k
    using ok(4) by (auto simp: owners_ok_def known_def)
  moreover have "k \<in> snd ` XpOwners t \<longleftrightarrow> (\<exists>owner. (owner, k) \<in> XpOwners t)" for k by force
  moreover have "(\<exists>owner. (owner, k) \<in> XpOwners t) \<longleftrightarrow> (\<exists>!owner. (owner, k) \<in> XpOwners t)" for k
    using owners_ok_unique [OF ok(4)] by blast
  ultimately have "(XpOf t k \<noteq> None \<or> k \<in> ReapedXp t) \<longleftrightarrow> (\<exists>!owner. (owner, k) \<in> XpOwners t)" for k
    by simp
  moreover have "store_ok t" by (rule reachable_ok [OF assms(2,1)])
  ultimately show ?thesis
    using ok book_ok_total [OF xp_invD(1) [OF ok(1)]] book_ok_total [OF xp_invD(2) [OF ok(1)]]
    by (simp add: timely_def create_xp_keeps_iff new_xp_keeps_iff set_owner_keeps_iff del: set_owner_eval)
qed

lemma sample_ok: "store_ok sample_store"
  using sample_inv
  by (auto simp: store_ok_def config_ok_def timely_def owners_ok_def known_def stepper_default_def
      word_le_nat_alt dom_def)

lemma sample_reachable: "reachable sample_store (snd (lock_xp 1 True 5 (snd (reserve_xp 1 False 40 sample_store))))"
proof -
  have "step sample_store (snd (reserve_xp 1 False 40 sample_store))"
    by (rule st_balance [OF bo_reserve])
  moreover have "step u (snd (lock_xp 1 True 5 u))" for u :: "(int, bool, bool) store"
    by (rule st_balance [OF bo_lock])
  ultimately show ?thesis by (blast intro: reach_refl reach_step)
qed

lemma reachable_consistent_witness:
  "xp_inv (snd (lock_xp 1 True 5 (snd (reserve_xp 1 False 40 sample_store))))"
  using reachable_consistent [OF sample_ok sample_reachable] by simp

text \<open>
  C4: A reaped key stays blacklisted, whatever is called, unchecked primitives included, and it
  has no entry and no points as long as their callers ensure \<open>creatable\<close> and \<open>entitled\<close>. The
  blacklist itself does not stop \<open>create_xp\<close>: it gives a reaped key a fresh entry and a further
  owner.
\<close>

theorem reaped_forever:
  assumes "store_ok s" and "k \<in> ReapedXp s"
  shows "(any_step\<^sup>*\<^sup>* s t \<longrightarrow> k \<in> ReapedXp t) \<and>
    (reachable s t \<longrightarrow> XpOf t k = None \<and> balance k t = 0) \<and>
    fst (create_xp owner k s) = Inr () \<and> XpOf (snd (create_xp owner k s)) k = Some (xp_default s) \<and>
    (owner, k) \<in> XpOwners (snd (create_xp owner k s))"
proof -
  have "XpOf t k = None" if "reachable s t"
    using reachable_reaped [OF that] assms(2) reachable_ok [OF that assms(1)] xp_invD(3) [of t k]
    by (auto simp: store_ok_def)
  then show ?thesis using any_steps_reaped [of s t] assms(2) by (auto simp: create_xp_eval)
qed

lemma reaped_forever_witness:
  "XpOf (snd (lock_xp 1 True 5 (snd (reserve_xp 1 False 40 sample_store)))) 2 = None \<and>
   2 \<in> ReapedXp (snd (create_xp 9 2 sample_store)) \<and> XpOf (snd (create_xp 9 2 sample_store)) 2 \<noteq> None"
proof -
  have two: "2 \<in> ReapedXp sample_store" by simp
  have "any_step\<^sup>*\<^sup>* sample_store (snd (create_xp 9 2 sample_store))"
    by (rule r_into_rtranclp) (rule any_create)
  then show ?thesis
    using reaped_forever [OF sample_ok two, of "snd (lock_xp 1 True 5 (snd (reserve_xp 1 False 40 sample_store)))"]
      reaped_forever [OF sample_ok two, of "snd (create_xp 9 2 sample_store)" 9] sample_reachable
    by auto
qed

text \<open>
  Genesis starts the machine in a consistent store, provided the listed identities are
  distinct and the pulse factor does not count above its threshold.
\<close>

theorem genesis_consistent:
  assumes "XpOf s = Map.empty" "XpOwners s = {}" "ReservedXpOf s = Map.empty"
    "LockedXpOf s = Map.empty" "ReapedXp s = {}"
    and ids: "distinct (map ga_id (gc_genesis_acc c))"
    and factor: "st_per_count (gc_pulse_factor c) \<le> st_threshold (gc_pulse_factor c)"
  shows "store_ok (genesis_build c s)"
proof -
  let ?s0 = "s\<lparr>MinPulse := gc_min_pulse c, InitXp := gc_init_xp c, MinTimeStamp := 0,
               PulseFactor := gc_pulse_factor c\<rparr>"
  have built: "genesis_build c s = ?s0\<lparr>XpOf := (\<lambda>k. if k \<in> ga_id ` set (gc_genesis_acc c)
        then Some (xp_default ?s0) else None),
      XpOwners := (\<lambda>a. (ga_owner a, ga_id a)) ` set (gc_genesis_acc c)\<rparr>"
    using genesis_fold [of ?s0 "gc_genesis_acc c"] assms by (simp add: genesis_build_def cong: if_cong)
  show ?thesis
  proof (rule store_okI)
    show "xp_inv (genesis_build c s)"
      using assms unfolding built
      by (intro xp_invI book_okI) (auto simp: xp_default_def split: if_splits)
    show "config_ok (genesis_build c s)" using factor by (simp add: built config_ok_def)
    show "timely (genesis_build c s)" by (auto simp: built timely_def xp_default_def split: if_splits)
    have inj: "inj_on ga_id (set (gc_genesis_acc c))" using ids by (simp add: distinct_map)
    show "owners_ok (genesis_build c s)"
      using assms(5) inj_onD [OF inj] unfolding built owners_ok_def known_def inj_on_def
      by (auto simp: image_iff dom_def split: if_splits)
  qed
qed

lemma genesis_consistent_witness:
  "store_ok (genesis_build (genesis_default\<lparr>gc_genesis_acc := [\<lparr>ga_owner = 7, ga_id = 1\<rparr>]\<rparr>) empty_store)"
  by (rule genesis_consistent)
     (simp_all add: empty_store_def genesis_default_def stepper_new_def word_le_nat_alt word_less_nat_alt)

end
