(* ===== verification/VirtualField.thy ===== *)
theory VirtualField
  imports Prelude
begin

text \<open>
  Virtual fields (\<open>frame/suite/src/virtuals.rs\<close>): a field of a virtual structure holds no value,
  one value or a bounded vector of values (\<open>SumDynType\<close>), and is read and written only through
  \<open>access\<close> and \<open>mutate\<close> (\<open>VirtualDynField\<close>). The helpers of \<open>DynFieldHelpers\<close> are default
  methods over these two, so they take them as arguments here; the contract they rely on is the
  locale \<open>virtual_dyn_field\<close>. The concrete structure is \<open>ProductType\<close> of
  \<open>pallets/commitment/src/balance.rs\<close>, whose three fields interpret the locale. The addon field
  is the empty extension in the share-balance schema and is left out.
\<close>

section \<open>The field representation\<close>

datatype 'v sum_dyn = NoneField | SomeField 'v | ManyField "'v list"

definition sum_dyn_default :: "'v sum_dyn" where
  "sum_dyn_default = NoneField"

fun try_into_none :: "'v sum_dyn \<Rightarrow> unit + unit" where
  "try_into_none NoneField = Inr ()"
| "try_into_none _ = Inl ()"

fun try_into_some :: "'v sum_dyn \<Rightarrow> unit + 'v" where
  "try_into_some (SomeField v) = Inr v"
| "try_into_some _ = Inl ()"

definition from_some :: "'v \<Rightarrow> 'v sum_dyn" where
  "from_some v = SomeField v"

fun into_many :: "'v sum_dyn \<Rightarrow> 'v list" where
  "into_many NoneField = []"
| "into_many (SomeField v) = [v]"
| "into_many (ManyField vs) = vs"

definition try_from_many :: "nat \<Rightarrow> 'v list \<Rightarrow> unit + 'v sum_dyn" where
  "try_from_many bound vs = (if length vs \<le> bound then Inr (ManyField vs) else Inl ())"

definition set_index :: "'v \<Rightarrow> 'v list \<Rightarrow> nat \<Rightarrow> 'v \<Rightarrow> 'v list" where
  "set_index dflt v i x =
     (let v' = (if i \<ge> length v then v @ replicate (i + 1 - length v) dflt else v) in v'[i := x])"

section \<open>The helpers\<close>

definition index_get :: "('s \<Rightarrow> 'v sum_dyn) \<Rightarrow> nat \<Rightarrow> 's \<Rightarrow> 'v option" where
  "index_get access i x =
     (let v = into_many (access x) in if i < length v then Some (v ! i) else None)"

definition field_iter :: "('s \<Rightarrow> 'v sum_dyn) \<Rightarrow> 's \<Rightarrow> 'v list" where
  "field_iter access x = into_many (access x)"

definition iter_mut ::
  "nat \<Rightarrow> ('s \<Rightarrow> 'v sum_dyn) \<Rightarrow> ('v sum_dyn \<Rightarrow> 's \<Rightarrow> 's) \<Rightarrow> ('v \<Rightarrow> 'v) \<Rightarrow> ('s, unit, unit) op" where
  "iter_mut bound access mutate f =
     bindO (gets (\<lambda>x. map f (into_many (access x)))) (\<lambda>vec.
     bindO (readE (\<lambda>_. try_from_many bound vec)) (\<lambda>repr.
     modify (mutate repr)))"

definition index_set ::
  "nat \<Rightarrow> 'v \<Rightarrow> ('s \<Rightarrow> 'v sum_dyn) \<Rightarrow> ('v sum_dyn \<Rightarrow> 's \<Rightarrow> 's) \<Rightarrow> nat \<Rightarrow> 'v \<Rightarrow> ('s, unit, unit) op" where
  "index_set bound dflt access mutate i value =
     bindO (gets (\<lambda>x. set_index dflt (into_many (access x)) i value)) (\<lambda>v.
     bindO (readE (\<lambda>_. try_from_many bound v)) (\<lambda>repr.
     modify (mutate repr)))"

definition field_get :: "('s \<Rightarrow> 'v sum_dyn) \<Rightarrow> 's \<Rightarrow> 'v option" where
  "field_get access x = (case try_into_some (access x) of Inl _ \<Rightarrow> None | Inr v \<Rightarrow> Some v)"

definition field_set :: "('v sum_dyn \<Rightarrow> 's \<Rightarrow> 's) \<Rightarrow> 'v \<Rightarrow> 's \<Rightarrow> 's" where
  "field_set mutate v = mutate (from_some v)"

section \<open>The contract of a field\<close>

lemma set_index_nth: "set_index dflt v i x ! i = x"
  by (simp add: set_index_def Let_def nth_append)

lemma length_set_index: "length (set_index dflt v i x) = max (length v) (Suc i)"
  by (simp add: set_index_def Let_def)

lemma set_index_other:
  "j < length v \<Longrightarrow> j \<noteq> i \<Longrightarrow> set_index dflt v i x ! j = v ! j"
  by (simp add: set_index_def Let_def nth_append)

lemma set_index_gap:
  "length v \<le> j \<Longrightarrow> j < i \<Longrightarrow> set_index dflt v i x ! j = dflt"
  by (simp add: set_index_def Let_def nth_append)

locale virtual_dyn_field =
  fixes access :: "'s \<Rightarrow> 'v sum_dyn"
    and mutate :: "'v sum_dyn \<Rightarrow> 's \<Rightarrow> 's"
  assumes access_mutate: "access (mutate r x) = r"
    and mutate_mutate: "mutate r (mutate r' x) = mutate r x"
    and mutate_access: "mutate (access x) x = x"
begin

lemma index_set_eval:
  "index_set bound dflt access mutate i v x =
     (if max (length (into_many (access x))) (Suc i) \<le> bound
      then (Inr (), mutate (ManyField (set_index dflt (into_many (access x)) i v)) x)
      else (Inl (), x))"
  by (simp add: index_set_def try_from_many_def length_set_index)

lemma index_get_set:
  "index_set bound dflt access mutate i v x = (Inr u, y) \<Longrightarrow> index_get access i y = Some v"
  by (auto simp: index_set_eval index_get_def access_mutate length_set_index set_index_nth
        split: if_splits)

lemma index_get_other:
  assumes "index_set bound dflt access mutate i v x = (Inr u, y)" and "j \<noteq> i"
    and "index_get access j x = Some w"
  shows "index_get access j y = Some w"
  using assms
  by (auto simp: index_set_eval index_get_def access_mutate length_set_index set_index_other Let_def
        split: if_splits)

lemma index_set_error: "index_set bound dflt access mutate i v x = (Inl e, y) \<Longrightarrow> y = x \<and> bound \<le> max (length (into_many (access x))) i"
  by (auto simp: index_set_eval split: if_splits)

lemma index_set_twice:
  assumes "index_set bound dflt access mutate i v x = (Inr u, y)"
  shows "index_set bound dflt access mutate i w y = index_set bound dflt access mutate i w x"
proof -
  from assms have le: "max (length (into_many (access x))) (Suc i) \<le> bound"
    and y: "y = mutate (ManyField (set_index dflt (into_many (access x)) i v)) x"
    by (auto simp: index_set_eval split: if_splits)
  have "set_index dflt (set_index dflt vs i v) i w = set_index dflt vs i w" for vs :: "'v list"
    by (simp add: set_index_def Let_def)
  with le y show ?thesis
    by (simp add: index_set_eval access_mutate mutate_mutate length_set_index)
qed

lemma field_get_set: "field_get access (field_set mutate v x) = Some v"
  by (simp add: field_get_def field_set_def from_some_def access_mutate)

lemma iter_mut_spec:
  "iter_mut bound access mutate f x =
     (if length (field_iter access x) \<le> bound
      then (Inr (), mutate (ManyField (map f (field_iter access x))) x) else (Inl (), x))"
  by (simp add: iter_mut_def field_iter_def try_from_many_def)

end

section \<open>The product structure\<close>

record ('a, 'r, 't) product_type =
  pt_asset :: "'a sum_dyn"
  pt_bias :: "'r sum_dyn"
  pt_time :: "'t sum_dyn"

definition product_default :: "('a, 'r, 't) product_type" where
  "product_default =
     \<lparr>pt_asset = sum_dyn_default, pt_bias = sum_dyn_default, pt_time = sum_dyn_default\<rparr>"

definition mutate_asset :: "'a sum_dyn \<Rightarrow> ('a, 'r, 't) product_type \<Rightarrow> ('a, 'r, 't) product_type" where
  "mutate_asset v x = x\<lparr>pt_asset := v\<rparr>"

definition mutate_bias :: "'r sum_dyn \<Rightarrow> ('a, 'r, 't) product_type \<Rightarrow> ('a, 'r, 't) product_type" where
  "mutate_bias v x = x\<lparr>pt_bias := v\<rparr>"

definition mutate_time :: "'t sum_dyn \<Rightarrow> ('a, 'r, 't) product_type \<Rightarrow> ('a, 'r, 't) product_type" where
  "mutate_time v x = x\<lparr>pt_time := v\<rparr>"

fun field_len :: "'v sum_dyn \<Rightarrow> nat" where
  "field_len NoneField = 0"
| "field_len (SomeField _) = 1"
| "field_len (ManyField vs) = length vs"

fun field_min :: "'v sum_dyn \<Rightarrow> nat" where
  "field_min NoneField = 0"
| "field_min (SomeField _) = 1"
| "field_min (ManyField _) = 0"

fun field_max :: "nat \<Rightarrow> 'v sum_dyn \<Rightarrow> nat" where
  "field_max bound NoneField = 0"
| "field_max bound (SomeField _) = 1"
| "field_max bound (ManyField _) = bound"

interpretation asset_field: virtual_dyn_field pt_asset mutate_asset
  by unfold_locales (simp_all add: mutate_asset_def)

interpretation bias_field: virtual_dyn_field pt_bias mutate_bias
  by unfold_locales (simp_all add: mutate_bias_def)

interpretation time_field: virtual_dyn_field pt_time mutate_time
  by unfold_locales (simp_all add: mutate_time_def)

lemma field_len_many: "field_len f = length (into_many f)"
  by (cases f) simp_all

text \<open>The bound of a field holds of every representation the helpers write.\<close>

definition within_bound :: "nat \<Rightarrow> 'v sum_dyn \<Rightarrow> bool" where
  "within_bound bound f = (field_min f \<le> field_len f \<and> field_len f \<le> field_max bound f)"

lemma within_bound_iff:
  "within_bound bound f \<longleftrightarrow> (case f of ManyField vs \<Rightarrow> length vs \<le> bound | _ \<Rightarrow> True)"
  by (cases f) (simp_all add: within_bound_def)

text \<open>Writing an element of a virtual field and reading it back gives the value, reading
  another element that existed gives its old value, and elements the write had to create hold the
  default; the write fails exactly when the vector would exceed its bound, and then changes nothing.\<close>
theorem index_set_spec:
  fixes x :: "('a, 'r, 't) product_type"
  shows "index_set bound dflt pt_asset mutate_asset i v x =
      (if max (field_len (pt_asset x)) (Suc i) \<le> bound
       then (Inr (), x\<lparr>pt_asset := ManyField (map (\<lambda>j. if j = i then v
                 else case index_get pt_asset j x of None \<Rightarrow> dflt | Some w \<Rightarrow> w)
              [0 ..< max (field_len (pt_asset x)) (Suc i)])\<rparr>)
       else (Inl (), x))"
proof -
  have "set_index dflt (into_many (pt_asset x)) i v =
      map (\<lambda>j. if j = i then v else case index_get pt_asset j x of None \<Rightarrow> dflt | Some w \<Rightarrow> w)
        [0 ..< max (field_len (pt_asset x)) (Suc i)]"
    by (rule nth_equalityI)
       (auto simp: length_set_index field_len_many index_get_def set_index_nth set_index_other
          set_index_gap Let_def)
  then show ?thesis
    by (simp add: asset_field.index_set_eval field_len_many mutate_asset_def)
qed

end
