(* ===== verification/ShareBalance.thy ===== *)
theory ShareBalance
  imports VirtualField
begin

text \<open>
  The share-based lazy balance (\<open>frame/plugins/src/balances.rs\<close>): the virtual structures
  \<open>balance\<close> and \<open>receipt\<close>, the error type, and one definition per plugin model
  (\<open>ModelDeposit\<close> is \<open>model_deposit\<close> and so on), in the order of the code.

  An operation that takes the balance by a mutable handle is an \<open>op\<close> on the balance: the handle
  keeps what was written before an error. The asset, the inner integer of the rational and the
  time are words of any width. The fixed-point type itself (\<open>sp_arithmetic\<close>) is not code of the
  repository, so its operations are the argument \<open>fx\<close>. The \<open>debug_assert!\<close> of the unreachable
  branches and the diagnostic parameters \<open>variant\<close>, \<open>id\<close> and \<open>subject\<close>, which are only printed,
  are left out; \<open>InvalidPluginParams\<close> is the answer to a carrier of the wrong operation, which the
  typed arguments here rule out.
\<close>

section \<open>The fixed-point operations\<close>

text \<open>A rational is its inner integer; \<open>fx_div\<close> is the associated constant \<open>DIV\<close>, the inner
  integer of one.\<close>

record ('a, 'i) fixed_ops =
  fx_div :: 'i
  fx_from_integer :: "'a \<Rightarrow> 'i"
  fx_from_rational :: "'a \<Rightarrow> 'a \<Rightarrow> 'i option"
  fx_checked_mul :: "'i \<Rightarrow> 'i \<Rightarrow> 'i option"
  fx_checked_div :: "'i \<Rightarrow> 'i \<Rightarrow> 'i option"

section \<open>Errors\<close>

datatype share_balance_error =
    CorruptedVirtualField | InvalidPluginParams | ZeroDepositNotAllowed
  | BalanceNotInitiatedViaDeposit | BalanceDrainedCannotDeposit | InadequatePrecision
  | LessThanOneShareDerived | AssetOverflow | AssetUnderflow | SharesOverflow | SharesUnderflow
  | RequiresExistingDeposits | ZeroAdjustmentNotAllowed | InvalidReceipt
  | FixedPointScalingFailed | AllDepositsWithdrawn

fun into_dispatch_error :: "share_balance_error \<Rightarrow> string" where
  "into_dispatch_error CorruptedVirtualField = ''CorruptedVirtualField''"
| "into_dispatch_error InvalidPluginParams = ''InvalidPluginParams''"
| "into_dispatch_error InadequatePrecision = ''InadequatePrecision''"
| "into_dispatch_error AssetOverflow = ''AssetOverflow''"
| "into_dispatch_error SharesOverflow = ''SharesOverflow''"
| "into_dispatch_error FixedPointScalingFailed = ''FixedPointScalingFailed''"
| "into_dispatch_error AssetUnderflow = ''AssetUnderflow''"
| "into_dispatch_error InvalidReceipt = ''InvalidReceipt''"
| "into_dispatch_error SharesUnderflow = ''SharesUnderflow''"
| "into_dispatch_error BalanceNotInitiatedViaDeposit = ''BalanceNotInitiatedViaDeposit''"
| "into_dispatch_error BalanceDrainedCannotDeposit = ''BalanceDrainedCannotDeposit''"
| "into_dispatch_error ZeroDepositNotAllowed = ''ZeroDepositNotAllowed''"
| "into_dispatch_error AllDepositsWithdrawn = ''AllDepositsWithdrawn''"
| "into_dispatch_error RequiresExistingDeposits = ''RequiresExistingDeposits''"
| "into_dispatch_error LessThanOneShareDerived = ''LessThanOneShareDerived''"
| "into_dispatch_error ZeroAdjustmentNotAllowed = ''ZeroAdjustmentNotAllowed''"

definition map_errO :: "'f \<Rightarrow> ('s, 'e, 'a) op \<Rightarrow> ('s, 'f, 'a) op" where
  "map_errO e m = (\<lambda>s. case m s of (Inl _, t) \<Rightarrow> (Inl e, t) | (Inr x, t) \<Rightarrow> (Inr x, t))"

definition needO :: "'e \<Rightarrow> ('s \<Rightarrow> 'a option) \<Rightarrow> ('s, 'e, 'a) op" where
  "needO e f = readE (\<lambda>s. ok_orE e (f s))"

section \<open>The virtual structure of a balance\<close>

type_synonym ('a, 'i, 't) lazy_virtual = "('a word, 'i word, 't word) product_type"
type_synonym ('a, 'i, 't, 'r) balance_op = "(('a, 'i, 't) lazy_virtual, share_balance_error, 'r) op"

definition effective :: "('a::len, 'i::len, 't::len) lazy_virtual \<Rightarrow> 'a word option" where
  "effective = index_get pt_asset 0"

definition set_effective :: "'a::len word \<Rightarrow> ('a, 'i::len, 't::len, unit) balance_op" where
  "set_effective v = map_errO CorruptedVirtualField (index_set 2 0 pt_asset mutate_asset 0 v)"

definition issued :: "('a::len, 'i::len, 't::len) lazy_virtual \<Rightarrow> 'a word option" where
  "issued = index_get pt_asset 1"

definition set_issued :: "'a::len word \<Rightarrow> ('a, 'i::len, 't::len, unit) balance_op" where
  "set_issued v = map_errO CorruptedVirtualField (index_set 2 0 pt_asset mutate_asset 1 v)"

definition bias :: "('a::len, 'i::len, 't::len) lazy_virtual \<Rightarrow> 'i word option" where
  "bias = field_get pt_bias"

definition set_bias :: "'i::len word \<Rightarrow> ('a::len, 'i, 't::len, unit) balance_op" where
  "set_bias v = modify (field_set mutate_bias v)"

definition checkpoint :: "('a::len, 'i::len, 't::len) lazy_virtual \<Rightarrow> 't word option" where
  "checkpoint = index_get pt_time 0"

definition set_checkpoint :: "'t::len word \<Rightarrow> ('a::len, 'i::len, 't, unit) balance_op" where
  "set_checkpoint v = map_errO CorruptedVirtualField (index_set 2 0 pt_time mutate_time 0 v)"

definition drainpoint :: "('a::len, 'i::len, 't::len) lazy_virtual \<Rightarrow> 't word option" where
  "drainpoint = index_get pt_time 1"

definition set_drainpoint :: "'t::len word \<Rightarrow> ('a::len, 'i::len, 't, unit) balance_op" where
  "set_drainpoint v = map_errO CorruptedVirtualField (index_set 2 0 pt_time mutate_time 1 v)"

definition init_balance ::
  "('a::len word, 'i::len word) fixed_ops \<Rightarrow> ('a, 'i, 't::len, unit) balance_op" where
  "init_balance fx =
     thenO (set_effective 0)
    (thenO (set_issued 0)
    (thenO (set_bias (fx_div fx))
    (thenO (set_checkpoint 0)
           (set_drainpoint 0))))"

definition is_fresh_balance ::
  "('a::len word, 'i::len word) fixed_ops \<Rightarrow> ('a, 'i, 't::len, unit) balance_op" where
  "is_fresh_balance fx =
     bindO (gets effective) (\<lambda>e. if e = None then init_balance fx else ret ())"

section \<open>The virtual structure of a receipt\<close>

definition principal :: "('a::len, 'i::len, 't::len) lazy_virtual \<Rightarrow> 'a word option" where
  "principal = index_get pt_asset 0"

definition set_principal :: "'a::len word \<Rightarrow> ('a, 'i::len, 't::len, unit) balance_op" where
  "set_principal v = map_errO CorruptedVirtualField (index_set 2 0 pt_asset mutate_asset 0 v)"

definition shares :: "('a::len, 'i::len, 't::len) lazy_virtual \<Rightarrow> 'a word option" where
  "shares = index_get pt_asset 1"

definition set_shares :: "'a::len word \<Rightarrow> ('a, 'i::len, 't::len, unit) balance_op" where
  "set_shares v = map_errO CorruptedVirtualField (index_set 2 0 pt_asset mutate_asset 1 v)"

definition receipt_bias :: "('a::len, 'i::len, 't::len) lazy_virtual \<Rightarrow> 'i word option" where
  "receipt_bias = field_get pt_bias"

definition receipt_set_bias :: "'i::len word \<Rightarrow> ('a::len, 'i, 't::len, unit) balance_op" where
  "receipt_set_bias v = modify (field_set mutate_bias v)"

definition receipt_checkpoint :: "('a::len, 'i::len, 't::len) lazy_virtual \<Rightarrow> 't word option" where
  "receipt_checkpoint = field_get pt_time"

definition receipt_set_checkpoint :: "'t::len word \<Rightarrow> ('a::len, 'i::len, 't, unit) balance_op" where
  "receipt_set_checkpoint v = modify (field_set mutate_time v)"

definition new_receipt ::
  "'a::len word \<Rightarrow> 'a word \<Rightarrow> 'i::len word \<Rightarrow> 't::len word \<Rightarrow>
     share_balance_error + ('a, 'i, 't) lazy_virtual" where
  "new_receipt asset sh b cp =
     (case thenO (set_principal asset)
          (thenO (set_shares sh)
          (thenO (receipt_set_bias b)
                 (receipt_set_checkpoint cp))) product_default of
        (Inl e, _) \<Rightarrow> Inl e
      | (Inr _, r) \<Rightarrow> Inr r)"

section \<open>State mutations\<close>

definition balance_checkpoint :: "('a::len, 'i::len, 't::len, unit) balance_op" where
  "balance_checkpoint =
     bindO (needO BalanceNotInitiatedViaDeposit checkpoint) (\<lambda>cp.
     bindO (needO BalanceNotInitiatedViaDeposit bias) (\<lambda>b.
     thenO (if b = 0 then set_drainpoint (sat_add cp 1) else ret ())
           (set_checkpoint (sat_add cp 1))))"

definition derive_shares ::
  "('a::len word, 'i::len word) fixed_ops \<Rightarrow> 'a word \<Rightarrow> 'i word \<Rightarrow> 'a word \<Rightarrow> share_balance_error + 'a word" where
  "derive_shares fx asset b iss =
     (if iss = 0 then Inr asset
      else bindE (ok_orE InadequatePrecision (fx_checked_div fx (fx_from_integer fx asset) b)) (\<lambda>quot.
           bindE (ok_orE FixedPointScalingFailed (checked_div quot (fx_div fx))) (\<lambda>actual.
           Inr (ucast actual))))"

definition model_deposit ::
  "('a::len word, 'i::len word) fixed_ops \<Rightarrow> 'a word \<Rightarrow>
     ('a, 'i, 't::len, 'a word \<times> ('a, 'i, 't) lazy_virtual) balance_op" where
  "model_deposit fx asset =
     thenO (ensureO (asset \<noteq> 0) ZeroDepositNotAllowed)
    (thenO (is_fresh_balance fx)
    (bindO (needO CorruptedVirtualField bias) (\<lambda>b.
     bindO (needO CorruptedVirtualField effective) (\<lambda>eff.
     bindO (needO CorruptedVirtualField issued) (\<lambda>iss.
     thenO (ensureO (b \<noteq> 0) BalanceDrainedCannotDeposit)
    (bindO (readE (\<lambda>_. derive_shares fx asset b iss)) (\<lambda>sh.
     thenO (ensureO (sh \<noteq> 0) LessThanOneShareDerived)
    (bindO (ok_orO AssetOverflow (checked_add eff asset)) (\<lambda>new_effective.
     bindO (ok_orO SharesOverflow (checked_add iss sh)) (\<lambda>new_issued.
     thenO (set_effective new_effective)
    (thenO (set_issued new_issued)
    (bindO (needO CorruptedVirtualField checkpoint) (\<lambda>cp.
     bindO (readE (\<lambda>_. new_receipt asset sh b cp)) (\<lambda>receipt.
     ret (asset, receipt)))))))))))))))"

definition model_can_deposit ::
  "'a::len word \<Rightarrow> ('a, 'i::len, 't::len) lazy_virtual \<Rightarrow> share_balance_error + unit" where
  "model_can_deposit asset bal =
     (case effective bal of
        None \<Rightarrow> Inr ()
      | Some eff \<Rightarrow>
          bindE (ok_orE CorruptedVirtualField (issued bal)) (\<lambda>iss.
          bindE (ok_orE CorruptedVirtualField (bias bal)) (\<lambda>b.
          bindE (ensureE (\<not> (b = 0 \<and> iss \<noteq> 0)) BalanceDrainedCannotDeposit) (\<lambda>_.
          ensureE (checked_add eff asset \<noteq> None) AssetOverflow))))"

definition model_mint ::
  "('a::len word, 'i::len word) fixed_ops \<Rightarrow> 'a word \<Rightarrow> ('a, 'i, 't::len, 'a word) balance_op" where
  "model_mint fx asset =
     (if asset = 0 then ret 0
      else bindO (needO BalanceNotInitiatedViaDeposit effective) (\<lambda>eff.
           bindO (needO BalanceNotInitiatedViaDeposit issued) (\<lambda>iss.
           thenO (ensureO (iss \<noteq> 0) RequiresExistingDeposits)
          (bindO (ok_orO AssetOverflow (checked_add eff asset)) (\<lambda>new_effective.
           bindO (ok_orO InadequatePrecision (fx_from_rational fx new_effective iss)) (\<lambda>new_bias.
           thenO (set_effective new_effective)
          (thenO (set_bias new_bias)
          (thenO balance_checkpoint
          (ret asset)))))))))"

definition model_can_mint ::
  "'a::len word \<Rightarrow> ('a, 'i::len, 't::len) lazy_virtual \<Rightarrow> share_balance_error + unit" where
  "model_can_mint asset bal =
     bindE (ensureE (asset \<noteq> 0) ZeroAdjustmentNotAllowed) (\<lambda>_.
     bindE (ok_orE BalanceNotInitiatedViaDeposit (issued bal)) (\<lambda>iss.
     bindE (ok_orE BalanceNotInitiatedViaDeposit (effective bal)) (\<lambda>eff.
     bindE (ensureE (iss \<noteq> 0) RequiresExistingDeposits) (\<lambda>_.
     ensureE (checked_add eff asset \<noteq> None) AssetOverflow))))"

definition model_reap ::
  "('a::len word, 'i::len word) fixed_ops \<Rightarrow> 'a word \<Rightarrow> ('a, 'i, 't::len, 'a word) balance_op" where
  "model_reap fx asset =
     (if asset = 0 then ret 0
      else bindO (needO BalanceNotInitiatedViaDeposit effective) (\<lambda>eff.
           bindO (needO BalanceNotInitiatedViaDeposit issued) (\<lambda>iss.
           thenO (ensureO (iss \<noteq> 0) RequiresExistingDeposits)
          (bindO (ok_orO AssetUnderflow (checked_sub eff asset)) (\<lambda>new_effective.
           thenO (set_effective new_effective)
          (thenO (if new_effective = 0 then set_bias 0
                  else bindO (ok_orO InadequatePrecision (fx_from_rational fx new_effective iss)) set_bias)
          (thenO balance_checkpoint
          (ret asset))))))))"

definition model_can_reap ::
  "'a::len word \<Rightarrow> ('a, 'i::len, 't::len) lazy_virtual \<Rightarrow> share_balance_error + unit" where
  "model_can_reap asset bal =
     bindE (ensureE (asset \<noteq> 0) ZeroAdjustmentNotAllowed) (\<lambda>_.
     bindE (ok_orE BalanceNotInitiatedViaDeposit (issued bal)) (\<lambda>iss.
     bindE (ensureE (iss \<noteq> 0) RequiresExistingDeposits) (\<lambda>_.
     bindE (ok_orE BalanceNotInitiatedViaDeposit (effective bal)) (\<lambda>eff.
     ensureE (checked_sub eff asset \<noteq> None) AssetUnderflow))))"

definition model_withdraw ::
  "('a::len word, 'i::len word) fixed_ops \<Rightarrow> ('a, 'i, 't::len) lazy_virtual \<Rightarrow>
     ('a, 'i, 't, 'a word) balance_op" where
  "model_withdraw fx receipt =
     bindO (needO BalanceNotInitiatedViaDeposit effective) (\<lambda>eff.
     bindO (needO BalanceNotInitiatedViaDeposit issued) (\<lambda>iss.
     bindO (ok_orO InvalidReceipt (shares receipt)) (\<lambda>sh.
     thenO (ensureO (\<not> (sh > iss \<or> sh = 0 \<or> iss = 0)) InvalidReceipt)
    (bindO (ok_orO InvalidReceipt (receipt_bias receipt)) (\<lambda>rb0.
     bindO (ok_orO InadequatePrecision (fx_checked_mul fx (fx_from_integer fx sh) rb0)) (\<lambda>vf0.
     bindO (ok_orO InvalidReceipt (receipt_checkpoint receipt)) (\<lambda>cp.
     bindO (needO BalanceNotInitiatedViaDeposit drainpoint) (\<lambda>dp.
     let (value_fixed, rb) =
           (if dp > cp then (fx_from_integer fx sh, fx_div fx) else (vf0, rb0)) in
     bindO (needO BalanceNotInitiatedViaDeposit bias) (\<lambda>b.
     bindO (ok_orO InadequatePrecision (fx_checked_div fx b rb)) (\<lambda>final_ratio.
     bindO (ok_orO InadequatePrecision (fx_checked_mul fx value_fixed final_ratio)) (\<lambda>final_value.
     bindO (ok_orO FixedPointScalingFailed (checked_div final_value (fx_div fx))) (\<lambda>withdraw_fixed.
     let withdraw = min (ucast withdraw_fixed) eff in
     bindO (ok_orO AssetUnderflow (checked_sub eff withdraw)) (\<lambda>new_effective.
     bindO (ok_orO SharesUnderflow (checked_sub iss sh)) (\<lambda>new_issued.
     thenO (set_effective new_effective)
    (thenO (set_issued new_issued)
    (if new_issued = 0
     then if new_effective \<noteq> 0
          then thenO (init_balance fx) (ret (sat_add withdraw new_effective))
          else thenO (set_bias (fx_div fx)) (ret withdraw)
     else ret withdraw))))))))))))))))"

section \<open>Checks and queries\<close>

definition model_can_withdraw ::
  "('a::len, 'i::len, 't::len) lazy_virtual \<Rightarrow> ('a, 'i, 't) lazy_virtual \<Rightarrow> share_balance_error + unit" where
  "model_can_withdraw receipt bal =
     bindE (ok_orE BalanceNotInitiatedViaDeposit (issued bal)) (\<lambda>iss.
     bindE (ok_orE InvalidReceipt (shares receipt)) (\<lambda>sh.
     bindE (ensureE (receipt_bias receipt \<noteq> None) InvalidReceipt) (\<lambda>_.
     bindE (ensureE (receipt_checkpoint receipt \<noteq> None) InvalidReceipt) (\<lambda>_.
     ensureE (\<not> (sh > iss \<or> sh = 0 \<or> iss = 0)) InvalidReceipt))))"

definition model_total_value ::
  "('a::len, 'i::len, 't::len) lazy_virtual \<Rightarrow> share_balance_error + 'a word" where
  "model_total_value bal = (case effective bal of None \<Rightarrow> Inr 0 | Some eff \<Rightarrow> Inr eff)"

definition model_receipt_active_value ::
  "('a::len word, 'i::len word) fixed_ops \<Rightarrow> ('a, 'i, 't::len) lazy_virtual \<Rightarrow> ('a, 'i, 't) lazy_virtual \<Rightarrow>
     share_balance_error + 'a word" where
  "model_receipt_active_value fx receipt bal =
     bindE (model_can_withdraw receipt bal) (\<lambda>_. fst (model_withdraw fx receipt bal))"

definition model_drain ::
  "('a::len word, 'i::len word) fixed_ops \<Rightarrow> ('a, 'i, 't::len, 'a word) balance_op" where
  "model_drain fx = bindO (readE model_total_value) (model_reap fx)"

definition model_has_deposits ::
  "('a::len, 'i::len, 't::len) lazy_virtual \<Rightarrow> share_balance_error + unit" where
  "model_has_deposits bal =
     bindE (ensureE (bal \<noteq> product_default) BalanceNotInitiatedViaDeposit) (\<lambda>_.
     bindE (ok_orE BalanceNotInitiatedViaDeposit (issued bal)) (\<lambda>iss.
     ensureE (iss \<noteq> 0) AllDepositsWithdrawn))"

definition model_receipt_deposit_value ::
  "('a::len, 'i::len, 't::len) lazy_virtual \<Rightarrow> share_balance_error + 'a word" where
  "model_receipt_deposit_value receipt = ok_orE InvalidReceipt (principal receipt)"

text \<open>The limits are the default of the abstract type \<open>T::Limits\<close>, whatever the input.\<close>

definition model_deposit_limits :: "'l \<Rightarrow> share_balance_error + 'l" where
  "model_deposit_limits limits_default = Inr limits_default"

definition model_mint_limits :: "'l \<Rightarrow> share_balance_error + 'l" where
  "model_mint_limits limits_default = Inr limits_default"

definition model_reap_limits :: "'l \<Rightarrow> share_balance_error + 'l" where
  "model_reap_limits limits_default = Inr limits_default"

end
