(* ===== verification/SharePool.thy ===== *)
theory SharePool
  imports ShareBalance
begin

text \<open>
  What the share-balance operations do to an initialised balance. \<open>mk_balance\<close> is the layout the
  operations leave behind; on it every operation is computed in closed form, and the closed forms
  are related to an abstract pool with exact arithmetic. The locale \<open>fixed_point\<close> is the
  documented behaviour of \<open>sp_arithmetic\<close>'s unsigned fixed-point types, shown consistent by
  the instance \<open>fixed_u64\<close>.
\<close>

section \<open>The contract of the fixed-point type\<close>

text \<open>
  \<open>saturating_from_integer\<close> multiplies by \<open>DIV\<close> and saturates at the largest inner value;
  the checked operations round towards zero and give \<open>None\<close> on overflow and division by zero;
  \<open>Asset: From<Inner>\<close> exists only when the inner integer is no wider than the asset.
\<close>

locale fixed_point =
  fixes fx :: "('a::len word, 'i::len word) fixed_ops"
  assumes inner_fits: "LENGTH('i) \<le> LENGTH('a)"
    and div_pos: "fx_div fx \<noteq> 0"
    and from_integer: "unat (fx_from_integer fx n) = min (unat n * unat (fx_div fx)) (2 ^ LENGTH('i) - 1)"
    and from_rational: "fx_from_rational fx n d = Some r \<longleftrightarrow>
          d \<noteq> 0 \<and> unat r = unat n * unat (fx_div fx) div unat d"
    and fixed_mul: "fx_checked_mul fx x y = Some r \<longleftrightarrow>
          unat r = unat x * unat y div unat (fx_div fx)"
    and fixed_div: "fx_checked_div fx x y = Some r \<longleftrightarrow>
          y \<noteq> 0 \<and> unat r = unat x * unat (fx_div fx) div unat y"

definition narrow :: "nat \<Rightarrow> 'i::len word option" where
  "narrow n = (if n < 2 ^ LENGTH('i) then Some (of_nat n) else None)"

definition floor_ops :: "'i::len word \<Rightarrow> ('a::len word, 'i word) fixed_ops" where
  "floor_ops D = \<lparr>
     fx_div = D,
     fx_from_integer = (\<lambda>n. of_nat (min (unat n * unat D) (2 ^ LENGTH('i) - 1))),
     fx_from_rational = (\<lambda>n d. if d = 0 then None else narrow (unat n * unat D div unat d)),
     fx_checked_mul = (\<lambda>x y. narrow (unat x * unat y div unat D)),
     fx_checked_div = (\<lambda>x y. if y = 0 then None else narrow (unat x * unat D div unat y))\<rparr>"

lemma narrow_Some_iff: "narrow n = Some (r :: 'i::len word) \<longleftrightarrow> unat r = n"
  using unat_bound [of r] by (auto simp: narrow_def unat_of_nat_small)

lemma narrow_None_iff: "(narrow n :: 'i::len word option) = None \<longleftrightarrow> 2 ^ LENGTH('i) \<le> n"
  by (auto simp: narrow_def)

lemma floor_ops_fixed_point:
  assumes "LENGTH('i) \<le> LENGTH('a)" and "(D :: 'i::len word) \<noteq> 0"
  shows "fixed_point (floor_ops D :: ('a::len word, 'i word) fixed_ops)"
proof -
  have "min n (2 ^ LENGTH('i) - Suc 0) < 2 ^ LENGTH('i)" for n :: nat
    by (simp add: min.strict_coboundedI2)
  then show ?thesis
    using assms by unfold_locales (auto simp: floor_ops_def narrow_Some_iff unat_of_nat_small)
qed

text \<open>The runtime's types: \<open>FixedU64\<close> over the 128-bit points of the XP pallet.\<close>

definition fixed_u64_ops :: "(128 word, 64 word) fixed_ops" where
  "fixed_u64_ops = floor_ops 1000000000"

interpretation fixed_u64: fixed_point fixed_u64_ops
  unfolding fixed_u64_ops_def by (rule floor_ops_fixed_point) simp_all

section \<open>The layout of an initialised balance\<close>

definition mk_balance ::
  "'a::len word \<Rightarrow> 'a word \<Rightarrow> 'i::len word \<Rightarrow> 't::len word \<Rightarrow> 't word \<Rightarrow> ('a, 'i, 't) lazy_virtual" where
  "mk_balance e n b c d =
     \<lparr>pt_asset = ManyField [e, n], pt_bias = SomeField b, pt_time = ManyField [c, d]\<rparr>"

definition mk_receipt ::
  "'a::len word \<Rightarrow> 'a word \<Rightarrow> 'i::len word \<Rightarrow> 't::len word \<Rightarrow> ('a, 'i, 't) lazy_virtual" where
  "mk_receipt p s b c =
     \<lparr>pt_asset = ManyField [p, s], pt_bias = SomeField b, pt_time = SomeField c\<rparr>"

named_theorems layout \<open>the accessors on the layout\<close>

lemma map_errO_eval [layout]:
  "m s = (Inr x, t) \<Longrightarrow> map_errO e m s = (Inr x, t)"
  "m s = (Inl f, t) \<Longrightarrow> map_errO e m s = (Inl e, t)"
  by (simp_all add: map_errO_def)

lemma needO_bind [simp]:
  "bindO (needO e f) k s = (case f s of None \<Rightarrow> (Inl e, s) | Some x \<Rightarrow> k x s)"
  by (cases "f s") (simp_all add: needO_def)

lemma needO_eval: "needO e f s = (ok_orE e (f s), s)"
  by (simp add: needO_def)

lemmas index_set_asset = asset_field.index_set_eval [where dflt = 0 and bound = 2]
lemmas index_set_time = time_field.index_set_eval [where dflt = 0 and bound = 2]

lemma getters [layout]:
  "effective (mk_balance e n b c d) = Some e"
  "issued (mk_balance e n b c d) = Some n"
  "bias (mk_balance e n b c d) = Some b"
  "checkpoint (mk_balance e n b c d) = Some c"
  "drainpoint (mk_balance e n b c d) = Some d"
  "principal (mk_receipt p s b c) = Some p"
  "shares (mk_receipt p s b c) = Some s"
  "receipt_bias (mk_receipt p s b c) = Some b"
  "receipt_checkpoint (mk_receipt p s b c) = Some c"
  by (simp_all add: effective_def issued_def bias_def checkpoint_def drainpoint_def principal_def
        shares_def receipt_bias_def receipt_checkpoint_def index_get_def field_get_def
        mk_balance_def mk_receipt_def)

lemma setters [layout]:
  "set_effective x (mk_balance e n b c d) = (Inr (), mk_balance x n b c d)"
  "set_issued x (mk_balance e n b c d) = (Inr (), mk_balance e x b c d)"
  "set_bias y (mk_balance e n b c d) = (Inr (), mk_balance e n y c d)"
  "set_checkpoint t (mk_balance e n b c d) = (Inr (), mk_balance e n b t d)"
  "set_drainpoint t (mk_balance e n b c d) = (Inr (), mk_balance e n b c t)"
  by (simp_all add: set_effective_def set_issued_def set_bias_def set_checkpoint_def
        set_drainpoint_def map_errO_def index_set_asset index_set_time field_set_def from_some_def
        mutate_asset_def mutate_bias_def mutate_time_def mk_balance_def set_index_def)

lemma default_effective [layout]: "effective product_default = None" "issued product_default = None"
  by (simp_all add: effective_def issued_def index_get_def product_default_def sum_dyn_default_def)

lemma mk_balance_neq_default [simp]: "mk_balance e n b c d \<noteq> product_default"
  by (simp add: mk_balance_def product_default_def sum_dyn_default_def)

lemma mk_balance_inject [simp]:
  "mk_balance e n b c d = mk_balance e' n' b' c' d' \<longleftrightarrow>
     e = e' \<and> n = n' \<and> b = b' \<and> c = c' \<and> d = d'"
  by (auto simp: mk_balance_def)

lemma new_receipt_eval [layout]: "new_receipt p s b c = Inr (mk_receipt p s b c)"
  by (simp add: new_receipt_def thenO_def bindO_def set_principal_def set_shares_def
        receipt_set_bias_def receipt_set_checkpoint_def map_errO_def index_set_asset
        field_set_def from_some_def mutate_asset_def mutate_bias_def mutate_time_def
        product_default_def sum_dyn_default_def mk_receipt_def set_index_def)

lemma init_default [layout]:
  "init_balance fx product_default = (Inr (), mk_balance 0 0 (fx_div fx) 0 0)"
  by (simp add: init_balance_def thenO_def bindO_def set_effective_def set_issued_def set_bias_def
        set_checkpoint_def set_drainpoint_def map_errO_def index_set_asset index_set_time
        field_set_def from_some_def mutate_asset_def mutate_bias_def mutate_time_def
        product_default_def sum_dyn_default_def mk_balance_def set_index_def)

lemma init_eval [layout]:
  "init_balance fx (mk_balance e n b c d) = (Inr (), mk_balance 0 0 (fx_div fx) 0 0)"
  by (simp add: init_balance_def thenO_def bindO_def layout)

lemma fresh_eval [layout]:
  "is_fresh_balance fx (mk_balance e n b c d) = (Inr (), mk_balance e n b c d)"
  "is_fresh_balance fx product_default = (Inr (), mk_balance 0 0 (fx_div fx) 0 0)"
  by (simp_all add: is_fresh_balance_def layout)

lemma checkpoint_eval [layout]:
  "balance_checkpoint (mk_balance e n b c d) =
     (Inr (), mk_balance e n b (sat_add c 1) (if b = 0 then sat_add c 1 else d))"
  by (simp add: balance_checkpoint_def thenO_def bindO_def needO_eval layout)

section \<open>The operations in closed form\<close>

lemma deposit_eval:
  "model_deposit fx a (mk_balance e n b c d) =
     (if a = 0 then (Inl ZeroDepositNotAllowed, mk_balance e n b c d)
      else if b = 0 then (Inl BalanceDrainedCannotDeposit, mk_balance e n b c d)
      else case derive_shares fx a b n of
        Inl er \<Rightarrow> (Inl er, mk_balance e n b c d)
      | Inr sh \<Rightarrow>
          if sh = 0 then (Inl LessThanOneShareDerived, mk_balance e n b c d)
          else case checked_add e a of
            None \<Rightarrow> (Inl AssetOverflow, mk_balance e n b c d)
          | Some e' \<Rightarrow>
              (case checked_add n sh of
                 None \<Rightarrow> (Inl SharesOverflow, mk_balance e n b c d)
               | Some n' \<Rightarrow> (Inr (a, mk_receipt a sh b c), mk_balance e' n' b c d)))"
  by (auto simp: model_deposit_def thenO_eval layout split: sum.splits option.splits)

lemma deposit_fresh:
  "model_deposit fx a product_default =
     (if a = 0 then (Inl ZeroDepositNotAllowed, product_default)
      else model_deposit fx a (mk_balance 0 0 (fx_div fx) 0 0))"
  by (simp add: model_deposit_def thenO_eval layout)

lemma mint_eval:
  "model_mint fx a (mk_balance e n b c d) =
     (if a = 0 then (Inr 0, mk_balance e n b c d)
      else if n = 0 then (Inl RequiresExistingDeposits, mk_balance e n b c d)
      else case checked_add e a of
        None \<Rightarrow> (Inl AssetOverflow, mk_balance e n b c d)
      | Some e' \<Rightarrow>
          (case fx_from_rational fx e' n of
             None \<Rightarrow> (Inl InadequatePrecision, mk_balance e n b c d)
           | Some b' \<Rightarrow>
               (Inr a, mk_balance e' n b' (sat_add c 1) (if b' = 0 then sat_add c 1 else d))))"
  by (auto simp: model_mint_def thenO_eval layout split: option.splits)

lemma reap_eval:
  "model_reap fx a (mk_balance e n b c d) =
     (if a = 0 then (Inr 0, mk_balance e n b c d)
      else if n = 0 then (Inl RequiresExistingDeposits, mk_balance e n b c d)
      else case checked_sub e a of
        None \<Rightarrow> (Inl AssetUnderflow, mk_balance e n b c d)
      | Some e' \<Rightarrow>
          if e' = 0 then (Inr a, mk_balance 0 n 0 (sat_add c 1) (sat_add c 1))
          else case fx_from_rational fx e' n of
            None \<Rightarrow> (Inl InadequatePrecision, mk_balance e' n b c d)
          | Some b' \<Rightarrow>
              (Inr a, mk_balance e' n b' (sat_add c 1) (if b' = 0 then sat_add c 1 else d)))"
  by (auto simp: model_reap_def thenO_eval layout split: option.splits)

lemma adjust_fresh:
  "model_mint fx a product_default =
     ((if a = 0 then Inr 0 else Inl BalanceNotInitiatedViaDeposit), product_default)"
  "model_reap fx a product_default =
     ((if a = 0 then Inr 0 else Inl BalanceNotInitiatedViaDeposit), product_default)"
  "model_withdraw fx r product_default = (Inl BalanceNotInitiatedViaDeposit, product_default)"
  "model_drain fx product_default = (Inr 0, product_default)"
  by (simp_all add: model_mint_def model_reap_def model_withdraw_def model_drain_def
        model_total_value_def layout)

lemma drain_eval: "model_drain fx (mk_balance e n b c d) = model_reap fx e (mk_balance e n b c d)"
  by (simp add: model_drain_def model_total_value_def layout)

text \<open>The value a receipt resolves to, before the cap.\<close>

definition redeem ::
  "('a::len word, 'i::len word) fixed_ops \<Rightarrow> 'a word \<Rightarrow> 'i word \<Rightarrow> bool \<Rightarrow> 'i word \<Rightarrow>
     share_balance_error + 'a word" where
  "redeem fx sh rb drained b =
     bindE (ok_orE InadequatePrecision (fx_checked_mul fx (fx_from_integer fx sh) rb)) (\<lambda>vf0.
     let (v, r) = (if drained then (fx_from_integer fx sh, fx_div fx) else (vf0, rb)) in
     bindE (ok_orE InadequatePrecision (fx_checked_div fx b r)) (\<lambda>ratio.
     bindE (ok_orE InadequatePrecision (fx_checked_mul fx v ratio)) (\<lambda>fin.
     bindE (ok_orE FixedPointScalingFailed (checked_div fin (fx_div fx))) (\<lambda>q.
     Inr (ucast q)))))"

lemma withdraw_eval:
  "model_withdraw fx (mk_receipt p sh rb rc) (mk_balance e n b c d) =
     (if n < sh \<or> sh = 0 \<or> n = 0 then (Inl InvalidReceipt, mk_balance e n b c d)
      else case redeem fx sh rb (rc < d) b of
        Inl er \<Rightarrow> (Inl er, mk_balance e n b c d)
      | Inr v \<Rightarrow>
          if n - sh = 0
          then (Inr e, if e - min v e = 0 then mk_balance 0 0 (fx_div fx) c d
                       else mk_balance 0 0 (fx_div fx) 0 0)
          else (Inr (min v e), mk_balance (e - min v e) (n - sh) b c d))"
proof -
  have sub: "checked_sub e (min v e) = Some (e - min v e)" for v
    by (simp add: checked_sub_def)
  have sat: "sat_add (min v e) (e - min v e) = e" for v
    by (rule checked_add_sat, simp add: checked_add_Some_iff unat_sub word_le_nat_alt [symmetric])
  have zero: "e - min v e = 0 \<Longrightarrow> min v e = e" for v by simp
  show ?thesis
  proof (cases "n < sh \<or> sh = 0 \<or> n = 0")
    case True
    then show ?thesis by (auto simp: model_withdraw_def layout)
  next
    case False
    then have "sh \<le> n" by (simp only: not_less de_Morgan_disj)
    then have "checked_sub n sh = Some (n - sh)" by (simp add: checked_sub_def)
    with False sub sat show ?thesis
      by (auto simp: model_withdraw_def redeem_def thenO_eval layout Let_def dest: zero
            split: option.splits prod.splits if_splits)
  qed
qed

end
