(* ===== verification/ShareSolvency.thy ===== *)
theory ShareSolvency
  imports SharePool "HOL-Library.Multiset"
begin

text \<open>
  Solvency of the share balance. The stored price \<open>bias\<close> never promises more than the balance
  holds (\<open>solvent\<close>), a redemption never takes more than the receipt's part at that price, and
  both are kept by every operation, so the receipts in circulation are always backed. The machine
  \<open>pool_step\<close> runs the operations on one balance with its open receipts and counts the value that
  entered and left.
\<close>

section \<open>Prices\<close>

lemma unat_ucast_fits:
  "LENGTH('i) \<le> LENGTH('a) \<Longrightarrow> unat (ucast (x :: 'i::len word) :: 'a::len word) = unat x"
  using less_le_trans [OF unat_bound [of x] power_increasing [of "LENGTH('i)" "LENGTH('a)" 2]]
  by (simp add: unsigned_ucast_eq take_bit_nat_eq_self)

lemma floor_chain:
  fixes S :: nat
  assumes "0 < D" and "0 < rb" and "v = S * rb div D" and "ratio = b * D div rb"
    and "fin = v * ratio div D"
  shows "fin * D \<le> S * b"
proof -
  have "fin * D \<le> v * ratio" "v * D \<le> S * rb" "ratio * rb \<le> b * D"
    using assms by (simp_all add: div_times_less_eq_dividend)
  then have "(fin * D) * (D * rb) \<le> (v * ratio) * (D * rb)"
    by simp
  also have "\<dots> = (v * D) * (ratio * rb)" by (simp add: ac_simps)
  also have "\<dots> \<le> (S * rb) * (b * D)"
    using \<open>v * D \<le> S * rb\<close> \<open>ratio * rb \<le> b * D\<close> by (rule mult_le_mono)
  also have "\<dots> = (S * b) * (D * rb)" by (simp add: ac_simps)
  finally show ?thesis using assms(1,2) by simp
qed

context fixed_point
begin

lemma div_nonzero: "0 < unat (fx_div fx)"
  using div_pos by (simp add: unat_gt_0)

lemma from_integer_le: "unat (fx_from_integer fx n) \<le> unat n * unat (fx_div fx)"
  by (simp add: from_integer)

lemma from_integer_exact:
  "unat n * unat (fx_div fx) < 2 ^ LENGTH('i) \<Longrightarrow>
     unat (fx_from_integer fx n) = unat n * unat (fx_div fx)"
  by (simp add: from_integer)

lemma scale_down: "checked_div x (fx_div fx) = Some (x div fx_div fx)"
  using div_pos by (simp add: checked_div_def)

lemma derive_shares_value:
  assumes "derive_shares fx a b n = Inr s" and "n \<noteq> 0"
  shows "b \<noteq> 0" and "unat s = unat (fx_from_integer fx a) div unat b"
proof -
  from assms obtain q where q: "fx_checked_div fx (fx_from_integer fx a) b = Some q"
    and s: "s = ucast (q div fx_div fx)"
    by (auto simp: derive_shares_def bindE_Inr_iff ok_orE_Inr_iff scale_down)
  show "b \<noteq> 0" using q by (simp add: fixed_div)
  have "unat s = unat q div unat (fx_div fx)"
    unfolding s by (simp add: unat_ucast_fits inner_fits unat_div)
  also have "\<dots> = unat (fx_from_integer fx a) * unat (fx_div fx) div (unat b * unat (fx_div fx))"
    using q by (simp add: fixed_div div_mult2_eq)
  also have "\<dots> = unat (fx_from_integer fx a) div unat b"
    using div_nonzero by simp
  finally show "unat s = unat (fx_from_integer fx a) div unat b" .
qed

lemma derive_shares_backed:
  assumes "derive_shares fx a b n = Inr s" and "n = 0 \<longrightarrow> b = fx_div fx"
  shows "unat s * unat b \<le> unat a * unat (fx_div fx)"
proof (cases "n = 0")
  case True
  then show ?thesis using assms by (simp add: derive_shares_def)
next
  case False
  then have "unat s * unat b \<le> unat (fx_from_integer fx a)"
    using derive_shares_value [OF assms(1)] by (simp add: div_times_less_eq_dividend)
  then show ?thesis using from_integer_le [of a] by (rule le_trans)
qed

lemma redeem_parts:
  assumes "redeem fx sh rb drained b = Inr w"
  obtains r :: "'i word" and v ratio fin :: nat where
    "r = (if drained then fx_div fx else rb)" "0 < unat r"
    "ratio = unat b * unat (fx_div fx) div unat r"
    "v = unat (fx_from_integer fx sh) * unat r div unat (fx_div fx)"
    "fin = v * ratio div unat (fx_div fx)" "unat w = fin div unat (fx_div fx)"
proof -
  define r where "r = (if drained then fx_div fx else rb)"
  from assms obtain vf0 ratio fin where run:
    "fx_checked_mul fx (fx_from_integer fx sh) rb = Some vf0"
    "fx_checked_div fx b r = Some ratio"
    "fx_checked_mul fx (if drained then fx_from_integer fx sh else vf0) ratio = Some fin"
    "w = ucast (fin div fx_div fx)"
    by (cases drained) (auto simp: redeem_def bindE_Inr_iff ok_orE_Inr_iff scale_down r_def)
  show thesis
  proof (rule that)
    show "r = (if drained then fx_div fx else rb)" by (rule r_def)
    show "0 < unat r" using run(2) by (simp add: fixed_div unat_gt_0)
    show "unat ratio = unat b * unat (fx_div fx) div unat r" using run(2) by (simp add: fixed_div)
    show "unat (if drained then fx_from_integer fx sh else vf0) =
        unat (fx_from_integer fx sh) * unat r div unat (fx_div fx)"
      using run(1) div_nonzero by (simp add: fixed_mul r_def)
    show "unat fin = unat (if drained then fx_from_integer fx sh else vf0) * unat ratio
        div unat (fx_div fx)"
      using run(3) by (simp only: fixed_mul)
    show "unat w = unat fin div unat (fx_div fx)"
      by (simp add: run(4) unat_ucast_fits inner_fits unat_div)
  qed
qed

lemma redeem_backed:
  assumes "redeem fx sh rb drained b = Inr w"
  shows "unat w * unat (fx_div fx) \<le> unat sh * unat b"
proof -
  from assms obtain r :: "'i word" and v ratio fin :: nat where parts: "0 < unat r"
    "ratio = unat b * unat (fx_div fx) div unat r"
    "v = unat (fx_from_integer fx sh) * unat r div unat (fx_div fx)"
    "fin = v * ratio div unat (fx_div fx)" "unat w = fin div unat (fx_div fx)"
    by (rule redeem_parts)
  have "fin * unat (fx_div fx) \<le> unat (fx_from_integer fx sh) * unat b"
    by (rule floor_chain [OF div_nonzero parts(1,3,2,4)])
  also have "\<dots> \<le> unat sh * unat (fx_div fx) * unat b"
    using from_integer_le by (rule mult_le_mono1)
  finally have "fin \<le> unat sh * unat b" using div_nonzero by (simp add: ac_simps)
  then show ?thesis
    using parts(5) div_times_less_eq_dividend le_trans by metis
qed

text \<open>At an unchanged price, and after a drain, the roundings collapse into one.\<close>

lemma redeem_exact:
  assumes "redeem fx sh rb drained b = Inr w" and "drained \<or> rb = b"
  shows "unat w = unat (fx_from_integer fx sh) * unat b div (unat (fx_div fx) * unat (fx_div fx))"
proof -
  from assms(1) obtain r :: "'i word" and v ratio fin :: nat where parts:
    "r = (if drained then fx_div fx else rb)" "0 < unat r"
    "ratio = unat b * unat (fx_div fx) div unat r"
    "v = unat (fx_from_integer fx sh) * unat r div unat (fx_div fx)"
    "fin = v * ratio div unat (fx_div fx)" "unat w = fin div unat (fx_div fx)"
    by (rule redeem_parts)
  have "fin = unat (fx_from_integer fx sh) * unat b div unat (fx_div fx)"
    using assms(2) parts div_nonzero by (cases drained) auto
  with parts(6) show ?thesis by (simp add: div_mult2_eq)
qed

end

section \<open>The machine\<close>

definition solvent :: "('a::len word, 'i::len word) fixed_ops \<Rightarrow> 'a word \<Rightarrow> 'a word \<Rightarrow> 'i word \<Rightarrow> bool" where
  "solvent fx e n b \<longleftrightarrow>
     unat n * unat b \<le> unat e * unat (fx_div fx) \<and> (n = 0 \<longrightarrow> e = 0 \<and> b = fx_div fx)"

record 'v pool_state =
  p_bal :: 'v
  p_open :: "'v multiset"
  p_in :: nat
  p_out :: nat
  p_lost :: nat

type_synonym ('a, 'i, 't) pool = "('a, 'i, 't) lazy_virtual pool_state"

definition fresh_pool :: "('a::len, 'i::len, 't::len) pool" where
  "fresh_pool = \<lparr>p_bal = product_default, p_open = {#}, p_in = 0, p_out = 0, p_lost = 0\<rparr>"

definition effective_nat :: "('a::len, 'i::len, 't::len) lazy_virtual \<Rightarrow> nat" where
  "effective_nat bal = (case effective bal of None \<Rightarrow> 0 | Some e \<Rightarrow> unat e)"

text \<open>A refused operation keeps whatever it has written; what a refused reap or drain took off the
  effective value is counted as lost, since nobody got it.\<close>

inductive pool_step ::
  "('a::len word, 'i::len word) fixed_ops \<Rightarrow> ('a, 'i, 't::len) pool \<Rightarrow> ('a, 'i, 't) pool \<Rightarrow> bool"
  for fx where
  deposit: "model_deposit fx a (p_bal s) = (Inr (x, r), b') \<Longrightarrow>
     pool_step fx s (s\<lparr>p_bal := b', p_open := add_mset r (p_open s), p_in := p_in s + unat x\<rparr>)"
| mint: "model_mint fx a (p_bal s) = (Inr x, b') \<Longrightarrow>
     pool_step fx s (s\<lparr>p_bal := b', p_in := p_in s + unat x\<rparr>)"
| reap: "model_reap fx a (p_bal s) = (Inr x, b') \<Longrightarrow>
     pool_step fx s (s\<lparr>p_bal := b', p_out := p_out s + unat x\<rparr>)"
| drain: "model_drain fx (p_bal s) = (Inr x, b') \<Longrightarrow>
     pool_step fx s (s\<lparr>p_bal := b', p_out := p_out s + unat x\<rparr>)"
| withdraw: "r \<in># p_open s \<Longrightarrow> model_withdraw fx r (p_bal s) = (Inr x, b') \<Longrightarrow>
     pool_step fx s (s\<lparr>p_bal := b', p_open := p_open s - {#r#}, p_out := p_out s + unat x\<rparr>)"
| refused_deposit: "model_deposit fx a (p_bal s) = (Inl er, b') \<Longrightarrow> pool_step fx s (s\<lparr>p_bal := b'\<rparr>)"
| refused_mint: "model_mint fx a (p_bal s) = (Inl er, b') \<Longrightarrow> pool_step fx s (s\<lparr>p_bal := b'\<rparr>)"
| refused_withdraw: "model_withdraw fx r (p_bal s) = (Inl er, b') \<Longrightarrow> r \<in># p_open s \<Longrightarrow>
     pool_step fx s (s\<lparr>p_bal := b'\<rparr>)"
| refused_reap: "model_reap fx a (p_bal s) = (Inl er, b') \<Longrightarrow>
     pool_step fx s (s\<lparr>p_bal := b', p_lost := p_lost s + (effective_nat (p_bal s) - effective_nat b')\<rparr>)"
| refused_drain: "model_drain fx (p_bal s) = (Inl er, b') \<Longrightarrow>
     pool_step fx s (s\<lparr>p_bal := b', p_lost := p_lost s + (effective_nat (p_bal s) - effective_nat b')\<rparr>)"

abbreviation pool_reachable :: "('a::len word, 'i::len word) fixed_ops \<Rightarrow> ('a, 'i, 't::len) pool \<Rightarrow> bool" where
  "pool_reachable fx s \<equiv> (pool_step fx)\<^sup>*\<^sup>* fresh_pool s"

definition receipt_ok :: "'t::len word \<Rightarrow> ('a::len, 'i::len, 't) lazy_virtual \<Rightarrow> bool" where
  "receipt_ok c r \<longleftrightarrow> (\<exists>p s rb rc. r = mk_receipt p s rb rc \<and> s \<noteq> 0 \<and> rb \<noteq> 0 \<and> rc \<le> c)"

definition share_of :: "('a::len, 'i::len, 't::len) lazy_virtual \<Rightarrow> nat" where
  "share_of r = (case shares r of None \<Rightarrow> 0 | Some s \<Rightarrow> unat s)"

definition pool_inv :: "('a::len word, 'i::len word) fixed_ops \<Rightarrow> ('a, 'i, 't::len) pool \<Rightarrow> bool" where
  "pool_inv fx s \<longleftrightarrow>
     (\<exists>e n b c d. p_bal s = mk_balance e n b c d \<and> solvent fx e n b \<and> d \<le> c \<and>
        (\<forall>r \<in># p_open s. receipt_ok c r) \<and> (\<Sum>r\<in>#p_open s. share_of r) = unat n \<and>
        p_in s = p_out s + p_lost s + unat e) \<or>
     p_bal s = product_default \<and> p_open s = {#} \<and> p_in s = p_out s + p_lost s"

lemma share_of_receipt [simp]: "share_of (mk_receipt p s rb rc) = unat s"
  by (simp add: share_of_def layout)

lemma receipt_ok_mono: "receipt_ok c r \<Longrightarrow> c \<le> c' \<Longrightarrow> receipt_ok c' r"
  unfolding receipt_ok_def by (blast intro: order_trans)

lemma receipt_share_pos: "receipt_ok c r \<Longrightarrow> 0 < share_of r"
  by (auto simp: receipt_ok_def unat_gt_0)

lemma tick_le: "c \<le> sat_add c (1 :: 't::len word)"
proof -
  have "unat c \<le> 2 ^ LENGTH('t) - 1" using unat_bound [of c] by linarith
  then show ?thesis by (simp add: word_le_nat_alt arith_iffs)
qed

lemma no_open_shares:
  assumes "\<forall>r \<in># R. receipt_ok c r" and "(\<Sum>r\<in>#R. share_of r) = (0 :: nat)"
  shows "R = {#}"
proof (rule ccontr)
  assume "R \<noteq> {#}"
  then obtain r where "r \<in># R" by blast
  with assms have "receipt_ok c r" "share_of r = 0" by auto
  then show False using receipt_share_pos [of c r] by simp
qed


section \<open>What each operation does to a solvent balance\<close>

lemma solvent_deposit:
  assumes fx: "fixed_point fx" and sol: "solvent fx e n b"
    and run: "model_deposit fx a (mk_balance e n b c d) = (Inr (x, r), bal')"
  obtains e' n' s where "bal' = mk_balance e' n' b c d" "x = a" "r = mk_receipt a s b c"
    "unat e' = unat e + unat a" "unat n' = unat n + unat s" "s \<noteq> 0" "b \<noteq> 0" "solvent fx e' n' b"
    "derive_shares fx a b n = Inr s"
proof -
  from run obtain e' n' s where res: "derive_shares fx a b n = Inr s" "s \<noteq> 0" "b \<noteq> 0"
      "checked_add e a = Some e'" "checked_add n s = Some n'" "bal' = mk_balance e' n' b c d"
      "x = a" "r = mk_receipt a s b c"
    by (auto simp: deposit_eval split: if_splits sum.splits option.splits)
  have sums: "unat e' = unat e + unat a" "unat n' = unat n + unat s"
    using res(4,5) by (simp_all add: checked_add_Some_iff)
  have "unat s * unat b \<le> unat a * unat (fx_div fx)"
    using fixed_point.derive_shares_backed [OF fx res(1)] sol by (simp add: solvent_def)
  moreover have "n' \<noteq> 0" using sums(2) res(2) by (auto simp: unat_is_zero)
  ultimately have "solvent fx e' n' b"
    using sol by (simp add: solvent_def sums algebra_simps)
  with res sums show thesis by (rule_tac that) auto
qed

lemma price_backed:
  assumes fx: "fixed_point fx" and price: "fx_from_rational fx e n = Some b"
  shows "solvent fx e n b"
proof -
  have "n \<noteq> 0" "unat n * unat b \<le> unat e * unat (fx_div fx)"
    using price by (auto simp: fixed_point.from_rational [OF fx] ac_simps times_div_less_eq_dividend)
  then show ?thesis by (simp add: solvent_def)
qed

lemma solvent_mint:
  assumes fx: "fixed_point fx" and sol: "solvent fx e n b"
    and run: "model_mint fx a (mk_balance e n b c d) = (Inr x, bal')"
  obtains e' b' c' d' where "bal' = mk_balance e' n b' c' d'" "x = a" "unat e' = unat e + unat a"
    "solvent fx e' n b'" "c \<le> c'" "d' = d \<or> d' = c'"
  using run sol price_backed [OF fx] tick_le [of c]
  by (fastforce simp: mint_eval checked_add_Some_iff split: if_splits option.splits intro: that)

lemma solvent_reap:
  assumes fx: "fixed_point fx" and sol: "solvent fx e n b"
    and run: "model_reap fx a (mk_balance e n b c d) = (Inr x, bal')"
  obtains e' b' c' d' where "bal' = mk_balance e' n b' c' d'" "x = a" "unat e = unat e' + unat a"
    "solvent fx e' n b'" "c \<le> c'" "d' = d \<or> d' = c'"
proof (cases "a = 0")
  case True
  with run sol show thesis by (intro that [of e b c d]) (auto simp: reap_eval)
next
  case False
  with run obtain e' where e': "checked_sub e a = Some e'" and n: "n \<noteq> 0"
    by (auto simp: reap_eval split: if_splits option.splits)
  have sub: "unat e = unat e' + unat a" using e' by (simp add: checked_sub_Some_iff)
  show thesis
  proof (cases "e' = 0")
    case True
    with run False n e' sub show thesis
      by (intro that [of 0 0 "sat_add c 1" "sat_add c 1"]) (auto simp: reap_eval solvent_def tick_le)
  next
    case nz: False
    with run False n e' obtain b' where b': "fx_from_rational fx e' n = Some b'" "x = a"
      "bal' = mk_balance e' n b' (sat_add c 1) (if b' = 0 then sat_add c 1 else d)"
      by (auto simp: reap_eval split: option.splits)
    with sub price_backed [OF fx b'(1)] show thesis
      by (intro that [of e' b' "sat_add c 1" "if b' = 0 then sat_add c 1 else d"]) (auto simp: tick_le)
  qed
qed

text \<open>A redemption takes no more than the receipt's part, and the last one empties the balance.\<close>

lemma solvent_withdraw:
  assumes fx: "fixed_point fx" and sol: "solvent fx e n b"
    and run: "model_withdraw fx (mk_receipt p sh rb rc) (mk_balance e n b c d) = (Inr x, bal')"
  obtains (last) c' d' where "sh = n" "x = e" "bal' = mk_balance 0 0 (fx_div fx) c' d'"
      "c' = c \<and> d' = d \<or> c' = 0 \<and> d' = 0"
  | (part) e' n' where "bal' = mk_balance e' n' b c d" "n' \<noteq> 0" "unat n = unat n' + unat sh"
      "unat e = unat e' + unat x" "solvent fx e' n' b"
      "redeem fx sh rb (rc < d) b = Inr x" "unat x * unat (fx_div fx) \<le> unat sh * unat b"
proof -
  from run obtain v where v: "redeem fx sh rb (rc < d) b = Inr v"
    and sh: "\<not> (n < sh \<or> sh = 0 \<or> n = 0)"
    by (auto simp: withdraw_eval split: if_splits sum.splits)
  then have le: "sh \<le> n" by (simp only: not_less de_Morgan_disj)
  show thesis
  proof (cases "n - sh = 0")
    case True
    then have "sh = n" using le by simp
    with run sh v have "x = e" and b': "bal' = mk_balance 0 0 (fx_div fx) c d \<or>
        bal' = mk_balance 0 0 (fx_div fx) 0 0"
      by (auto simp: withdraw_eval split: if_splits)
    from b' show thesis
    proof
      assume "bal' = mk_balance 0 0 (fx_div fx) c d"
      with \<open>sh = n\<close> \<open>x = e\<close> show thesis by (intro last [of c d]) simp_all
    next
      assume "bal' = mk_balance 0 0 (fx_div fx) 0 0"
      with \<open>sh = n\<close> \<open>x = e\<close> show thesis by (intro last [of 0 0]) simp_all
    qed
  next
    case False
    have D: "0 < unat (fx_div fx)" using fixed_point.div_nonzero [OF fx] .
    have held: "unat v * unat (fx_div fx) \<le> unat sh * unat b"
      using fixed_point.redeem_backed [OF fx v] .
    have n: "unat n = unat (n - sh) + unat sh"
      using le by (simp add: unat_sub word_le_nat_alt)
    have "unat sh * unat b \<le> unat n * unat b" using n by simp
    with held sol have "unat v * unat (fx_div fx) \<le> unat e * unat (fx_div fx)"
      unfolding solvent_def by linarith
    with D have ve: "v \<le> e" by (simp add: word_le_nat_alt)
    then have e: "unat e = unat (e - v) + unat v" by (simp add: unat_sub word_le_nat_alt)
    have res: "x = v" "bal' = mk_balance (e - v) (n - sh) b c d"
      using run sh v False ve by (auto simp: withdraw_eval min_def)
    have "(unat (n - sh) + unat sh) * unat b \<le> (unat (e - v) + unat v) * unat (fx_div fx)"
      using sol by (simp add: solvent_def n [symmetric] e [symmetric])
    then have "unat (n - sh) * unat b \<le> unat (e - v) * unat (fx_div fx) + unat v * unat (fx_div fx) - unat sh * unat b"
      by (simp add: algebra_simps)
    then have "solvent fx (e - v) (n - sh) b"
      using held False unfolding solvent_def by simp
    with res n e v held False show thesis by (intro part [of "e - v" "n - sh"]) auto
  qed
qed

lemma refused_frame:
  "model_deposit fx a (mk_balance e n b c d) = (Inl er, bal') \<Longrightarrow> bal' = mk_balance e n b c d"
  "model_mint fx a (mk_balance e n b c d) = (Inl er, bal') \<Longrightarrow> bal' = mk_balance e n b c d"
  "model_withdraw fx (mk_receipt p sh rb rc) (mk_balance e n b c d) = (Inl er, bal') \<Longrightarrow>
     bal' = mk_balance e n b c d"
  by (auto simp: deposit_eval mint_eval withdraw_eval split: if_splits sum.splits option.splits)

lemma solvent_init: "solvent fx 0 0 (fx_div fx)"
  by (simp add: solvent_def)

section \<open>The invariant\<close>

lemma pool_inv_fresh: "pool_inv fx fresh_pool"
  by (simp add: pool_inv_def fresh_pool_def)

lemma pool_invI:
  assumes "p_bal s = mk_balance e n b c d" "solvent fx e n b" "d \<le> c"
    and "\<And>r. r \<in># p_open s \<Longrightarrow> receipt_ok c r" "(\<Sum>r\<in>#p_open s. share_of r) = unat n"
    and "p_in s = p_out s + p_lost s + unat e"
  shows "pool_inv fx s"
  using assms by (auto simp: pool_inv_def)

lemma pool_inv_cases:
  assumes "pool_inv fx s"
  obtains (fresh) "p_bal s = product_default" "p_open s = {#}" "p_in s = p_out s + p_lost s"
  | (live) e n b c d where "p_bal s = mk_balance e n b c d" "solvent fx e n b" "d \<le> c"
      "\<And>r. r \<in># p_open s \<Longrightarrow> receipt_ok c r" "(\<Sum>r\<in>#p_open s. share_of r) = unat n"
      "p_in s = p_out s + p_lost s + unat e"
  using assms by (auto simp: pool_inv_def)

text \<open>A fresh balance behaves as the initialised empty one wherever it is written.\<close>

lemma pool_inv_init:
  "pool_inv fx (s\<lparr>p_bal := mk_balance 0 0 (fx_div fx) 0 0\<rparr>)" if "p_open s = {#}" "p_in s = p_out s + p_lost s"
  by (rule pool_invI [of _ 0 0 "fx_div fx" 0 0]) (simp_all add: that solvent_init)

lemma inv_deposit:
  assumes fx: "fixed_point fx" and inv: "pool_inv fx s"
    and run: "model_deposit fx a (p_bal s) = (Inr (x, r), b')"
  shows "pool_inv fx (s\<lparr>p_bal := b', p_open := add_mset r (p_open s), p_in := p_in s + unat x\<rparr>)"
proof -
  have step: ?thesis
    if st: "solvent fx e n b" "d \<le> c" "\<And>r. r \<in># p_open s \<Longrightarrow> receipt_ok c r"
      "(\<Sum>r\<in>#p_open s. share_of r) = unat n" "p_in s = p_out s + p_lost s + unat e"
      and run: "model_deposit fx a (mk_balance e n b c d) = (Inr (x, r), b')" for e n b c d
  proof -
    from solvent_deposit [OF fx st(1) run] obtain e' n' sh where
      res: "b' = mk_balance e' n' b c d" "x = a" "r = mk_receipt a sh b c"
      "unat e' = unat e + unat a" "unat n' = unat n + unat sh" "sh \<noteq> 0" "b \<noteq> 0"
      "solvent fx e' n' b" .
    then have "receipt_ok c r" by (auto simp: receipt_ok_def)
    with st res show ?thesis by (intro pool_invI [of _ e' n' b c d]) auto
  qed
  from inv show ?thesis
  proof (cases rule: pool_inv_cases)
    case fresh
    then have "model_deposit fx a (mk_balance 0 0 (fx_div fx) 0 0) = (Inr (x, r), b')"
      using run by (simp add: deposit_fresh split: if_splits)
    with fresh show ?thesis by (intro step [of 0 0 "fx_div fx" 0 0]) (simp_all add: solvent_init)
  next
    case (live e n b c d)
    with run show ?thesis by (intro step [of e n b d c]) auto
  qed
qed

lemma inv_mint:
  assumes fx: "fixed_point fx" and inv: "pool_inv fx s"
    and run: "model_mint fx a (p_bal s) = (Inr x, b')"
  shows "pool_inv fx (s\<lparr>p_bal := b', p_in := p_in s + unat x\<rparr>)"
  using inv
proof (cases rule: pool_inv_cases)
  case fresh
  with run inv show ?thesis by (auto simp: adjust_fresh pool_inv_def split: if_splits)
next
  case (live e n b c d)
  with run obtain e' b'' c' d' where res: "b' = mk_balance e' n b'' c' d'" "x = a"
    "unat e' = unat e + unat a" "solvent fx e' n b''" "c \<le> c'" "d' = d \<or> d' = c'"
    by (auto elim: solvent_mint [OF fx live(2)])
  with live show ?thesis
    by (intro pool_invI [of _ e' n b'' c' d']) (auto intro: receipt_ok_mono order_trans)
qed

lemma inv_reap:
  assumes fx: "fixed_point fx" and inv: "pool_inv fx s"
    and run: "model_reap fx a (p_bal s) = (Inr x, b')"
  shows "pool_inv fx (s\<lparr>p_bal := b', p_out := p_out s + unat x\<rparr>)"
  using inv
proof (cases rule: pool_inv_cases)
  case fresh
  with run inv show ?thesis by (auto simp: adjust_fresh pool_inv_def split: if_splits)
next
  case (live e n b c d)
  with run obtain e' b'' c' d' where res: "b' = mk_balance e' n b'' c' d'" "x = a"
    "unat e = unat e' + unat a" "solvent fx e' n b''" "c \<le> c'" "d' = d \<or> d' = c'"
    by (auto elim: solvent_reap [OF fx live(2)])
  with live show ?thesis
    by (intro pool_invI [of _ e' n b'' c' d']) (auto intro: receipt_ok_mono order_trans)
qed

text \<open>A reap is refused after it has written only when the price does not fit, and then the shares
  still promise less than the value that is left.\<close>

lemma refused_reap_live:
  assumes fx: "fixed_point fx" and sol: "solvent fx e n b"
    and run: "model_reap fx a (mk_balance e n b c d) = (Inl er, bal')"
  obtains e' where "bal' = mk_balance e' n b c d" "solvent fx e' n b" "unat e' \<le> unat e"
proof (cases "a \<noteq> 0 \<and> n \<noteq> 0 \<and> a < e \<and> fx_from_rational fx (e - a) n = None")
  case True
  then have sub: "checked_sub e a = Some (e - a)" "e - a \<noteq> 0"
    by (auto simp: checked_sub_def)
  then have bal: "bal' = mk_balance (e - a) n b c d" using run True by (simp add: reap_eval)
  have "unat b < unat (e - a) * unat (fx_div fx) div unat n"
  proof (rule ccontr)
    assume "\<not> ?thesis"
    then have "unat (e - a) * unat (fx_div fx) div unat n < 2 ^ LENGTH('b)"
      using unat_bound [of b] by linarith
    then have "unat (of_nat (unat (e - a) * unat (fx_div fx) div unat n) :: 'b word)
        = unat (e - a) * unat (fx_div fx) div unat n" by (rule unat_of_nat_small)
    then have "fx_from_rational fx (e - a) n = Some (of_nat (unat (e - a) * unat (fx_div fx) div unat n))"
      using fixed_point.from_rational [OF fx] True by blast
    with True show False by simp
  qed
  then have "unat n * unat b \<le> unat (e - a) * unat (fx_div fx)"
    by (meson less_imp_le mult_le_mono2 order_trans times_div_less_eq_dividend)
  then have "solvent fx (e - a) n b" using True by (simp add: solvent_def)
  moreover have "unat (e - a) \<le> unat e" using sub(1) by (simp add: checked_sub_Some_iff)
  ultimately show thesis using bal that by blast
next
  case False
  then have "bal' = mk_balance e n b c d"
    using run by (auto simp: reap_eval checked_sub_def split: if_splits option.splits)
  with sol that show thesis by blast
qed

lemma inv_refused_reap:
  assumes fx: "fixed_point fx" and inv: "pool_inv fx s"
    and run: "model_reap fx a (p_bal s) = (Inl er, b')"
  shows "pool_inv fx (s\<lparr>p_bal := b', p_lost := p_lost s + (effective_nat (p_bal s) - effective_nat b')\<rparr>)"
  using inv
proof (cases rule: pool_inv_cases)
  case fresh
  then have "b' = p_bal s" using run by (auto simp: adjust_fresh split: if_splits)
  with fresh show ?thesis by (simp add: pool_inv_def)
next
  case (live e n b c d)
  from refused_reap_live [OF fx live(2) run [unfolded live(1)]] obtain e' where
    e': "b' = mk_balance e' n b c d" "solvent fx e' n b" "unat e' \<le> unat e" .
  have "effective_nat (p_bal s) = unat e" "effective_nat b' = unat e'" by (simp_all add: effective_nat_def live(1) e'(1) layout)
  with e' live show ?thesis by (intro pool_invI [of _ e' n b c d]) auto
qed

lemma inv_refused_drain:
  assumes fx: "fixed_point fx" and inv: "pool_inv fx s"
    and run: "model_drain fx (p_bal s) = (Inl er, b')"
  shows "pool_inv fx (s\<lparr>p_bal := b', p_lost := p_lost s + (effective_nat (p_bal s) - effective_nat b')\<rparr>)"
  using inv
proof (cases rule: pool_inv_cases)
  case fresh
  then show ?thesis using run by (simp add: adjust_fresh)
next
  case (live e n b c d)
  then have "model_reap fx e (p_bal s) = (Inl er, b')" using run by (simp add: drain_eval)
  then show ?thesis by (rule inv_refused_reap [OF fx inv])
qed

lemma inv_drain:
  assumes fx: "fixed_point fx" and inv: "pool_inv fx s"
    and run: "model_drain fx (p_bal s) = (Inr x, b')"
  shows "pool_inv fx (s\<lparr>p_bal := b', p_out := p_out s + unat x\<rparr>)"
proof -
  have "\<exists>a. model_reap fx a (p_bal s) = (Inr x, b')"
    using inv
  proof (cases rule: pool_inv_cases)
    case fresh
    with run have "model_reap fx 0 (p_bal s) = (Inr x, b')" by (simp add: adjust_fresh)
    then show ?thesis ..
  next
    case (live e n b c d)
    with run have "model_reap fx e (p_bal s) = (Inr x, b')" by (simp add: drain_eval)
    then show ?thesis ..
  qed
  then show ?thesis using inv_reap [OF fx inv] by blast
qed

lemma inv_withdraw:
  assumes fx: "fixed_point fx" and inv: "pool_inv fx s" and r: "r \<in># p_open s"
    and run: "model_withdraw fx r (p_bal s) = (Inr x, b')"
  shows "pool_inv fx (s\<lparr>p_bal := b', p_open := p_open s - {#r#}, p_out := p_out s + unat x\<rparr>)"
  using inv
proof (cases rule: pool_inv_cases)
  case fresh
  with r show ?thesis by simp
next
  case (live e n b c d)
  obtain p sh rb rc where rec: "r = mk_receipt p sh rb rc" "sh \<noteq> 0" "rc \<le> c"
    using live(4) [OF r] by (auto simp: receipt_ok_def)
  obtain R where R: "p_open s = add_mset r R" using r by (auto dest: multi_member_split)
  have ok: "\<And>q. q \<in># R \<Longrightarrow> receipt_ok c q" and sum: "unat n = (\<Sum>q\<in>#R. share_of q) + unat sh"
    using live(4,5) by (auto simp: R rec(1))
  from run live(1) rec(1) have
    "model_withdraw fx (mk_receipt p sh rb rc) (mk_balance e n b c d) = (Inr x, b')" by simp
  then show ?thesis
  proof (cases rule: solvent_withdraw [OF fx live(2), consumes 1, case_names last part])
    case (last c' d')
    then have "R = {#}" using no_open_shares [of R c] ok sum by auto
    with last live show ?thesis
      by (intro pool_invI [of _ 0 0 "fx_div fx" c' d']) (auto simp: R solvent_init)
  next
    case (part e' n')
    with live ok sum show ?thesis by (intro pool_invI [of _ e' n' b c d]) (auto simp: R)
  qed
qed

end
