(* ===== verification/ShareProperties.thy ===== *)
theory ShareProperties
  imports ShareSolvency
begin

text \<open>
  The properties of the share balance: solvency over every run, what a deposit is worth, what a
  redemption pays, and where the pre-checks and the operations part.
\<close>

section \<open>Every run is solvent\<close>

lemma pool_step_inv:
  assumes fx: "fixed_point fx" and step: "pool_step fx s t" and inv: "pool_inv fx s"
  shows "pool_inv fx t"
  using step inv
proof (cases rule: pool_step.cases)
  case (refused_deposit a er b')
  from inv show ?thesis
  proof (cases rule: pool_inv_cases)
    case fresh
    with refused_deposit have "b' = product_default \<or> b' = mk_balance 0 0 (fx_div fx) 0 0"
      using refused_frame(1) by (fastforce simp: deposit_fresh split: if_splits)
    then show ?thesis
    proof
      assume "b' = product_default"
      with fresh refused_deposit(1) show ?thesis by (simp add: pool_inv_def)
    next
      assume "b' = mk_balance 0 0 (fx_div fx) 0 0"
      with pool_inv_init [OF fresh(2,3)] refused_deposit(1) show ?thesis by simp
    qed
  next
    case (live e n b c d)
    with refused_deposit have "b' = p_bal s" by (auto dest: refused_frame)
    with inv refused_deposit(1) show ?thesis by simp
  qed
next
  case (refused_mint a er b')
  have "b' = p_bal s"
    using inv refused_mint(2)
    by (cases rule: pool_inv_cases) (auto simp: adjust_fresh dest: refused_frame)
  with inv refused_mint(1) show ?thesis by simp
next
  case (refused_withdraw r er b')
  have "b' = p_bal s"
    using inv
  proof (cases rule: pool_inv_cases)
    case fresh
    with refused_withdraw show ?thesis by simp
  next
    case (live e n b c d)
    with live(4) [OF refused_withdraw(3)] refused_withdraw(2) show ?thesis
      by (auto simp: receipt_ok_def dest: refused_frame)
  qed
  with inv refused_withdraw(1) show ?thesis by simp
qed (auto intro: inv_deposit inv_mint inv_reap inv_drain inv_withdraw inv_refused_reap inv_refused_drain fx)

lemma pool_reachable_inv:
  assumes "fixed_point fx" and "pool_reachable fx s"
  shows "pool_inv fx s"
  using assms(2) by (induction rule: rtranclp_induct) (auto intro: pool_inv_fresh pool_step_inv assms(1))

text \<open>C2: In every state the share balance reaches by deposits, mints, reaps, drains and
  withdrawals, refused ones included, the issued shares are exactly the shares of the open
  receipts, the stored price never promises more than the effective value, and the value that
  entered equals the value that left plus the effective value plus what refused reaps and drains
  took off it.\<close>
theorem pool_solvent:
  assumes "fixed_point fx" and "pool_reachable fx s"
    and "effective (p_bal s) = Some e" and "issued (p_bal s) = Some n" and "bias (p_bal s) = Some b"
  shows "(\<Sum>r\<in>#p_open s. share_of r) = unat n
    \<and> unat n * unat b \<le> unat e * unat (fx_div fx)
    \<and> p_in s = p_out s + p_lost s + unat e"
  using pool_reachable_inv [OF assms(1,2)] assms(3-5)
  by (cases rule: pool_inv_cases) (auto simp: layout solvent_def)

text \<open>C5: An open receipt is always accepted by the withdrawal check, and its withdrawal fails
  only when the fixed-point type overflows; a withdrawal that is not the last pays at most the
  receipt's part of the effective value at the current price.\<close>
theorem open_receipt_withdraws:
  assumes fx: "fixed_point fx" and reach: "pool_reachable fx s" and r: "r \<in># p_open s"
  shows "model_can_withdraw r (p_bal s) = Inr ()
    \<and> (case fst (model_withdraw fx r (p_bal s)) of
         Inl er \<Rightarrow> er = InadequatePrecision \<and> snd (model_withdraw fx r (p_bal s)) = p_bal s
       | Inr x \<Rightarrow>
           (\<exists>e n b. effective (p_bal s) = Some e \<and> issued (p_bal s) = Some n \<and> bias (p_bal s) = Some b \<and>
             (if share_of r = unat n then x = e
              else unat x * unat (fx_div fx) \<le> share_of r * unat b)))"
  using pool_reachable_inv [OF fx reach]
proof (cases rule: pool_inv_cases)
  case fresh
  with r show ?thesis by simp
next
  case (live e n b c d)
  obtain p sh rb rc where rec: "r = mk_receipt p sh rb rc" "sh \<noteq> 0"
    using live(4) [OF r] by (auto simp: receipt_ok_def)
  have "share_of r \<le> (\<Sum>q\<in>#p_open s. share_of q)"
    using r by (auto dest: multi_member_split)
  then have "sh \<le> n" using live(5) rec by (simp add: word_le_nat_alt)
  moreover have "n \<noteq> 0" using \<open>sh \<le> n\<close> rec(2) by auto
  ultimately have can: "\<not> (n < sh \<or> sh = 0 \<or> n = 0)" using rec(2) by (simp add: not_less)
  then have check: "model_can_withdraw r (p_bal s) = Inr ()"
    by (simp add: model_can_withdraw_def live(1) rec(1) layout)
  show ?thesis
  proof (cases "model_withdraw fx r (p_bal s)")
    case (Pair res bal')
    show ?thesis
    proof (cases res)
      case (Inl er)
      have "er = InadequatePrecision"
        using Pair Inl can fixed_point.scale_down [OF fx]
        by (auto simp: live(1) rec(1) withdraw_eval redeem_def bindE_Inl_iff ok_orE_def Let_def
              split: if_splits sum.splits option.splits)
      moreover have "bal' = p_bal s"
        using Pair Inl by (auto simp: live(1) rec(1) dest: refused_frame)
      ultimately show ?thesis using check Pair Inl by simp
    next
      case (Inr x)
      with Pair have "model_withdraw fx (mk_receipt p sh rb rc) (mk_balance e n b c d) = (Inr x, bal')"
        by (simp add: live(1) rec(1))
      then have "if share_of r = unat n then x = e else unat x * unat (fx_div fx) \<le> share_of r * unat b"
        by (cases rule: solvent_withdraw [OF fx live(2), consumes 1, case_names last part])
           (auto simp: rec(1) unat_is_zero)
      then show ?thesis using check Pair Inr by (simp add: live(1) layout)
    qed
  qed
qed

section \<open>What a deposit is worth\<close>

text \<open>A deposit is credited in full, at one share per unit for the first one and otherwise at
  the integer part of the asset over the stored price, where the asset enters the fixed-point type
  with saturation; it never changes the price, and the receipt records principal, shares, price
  and checkpoint.\<close>
theorem deposit_worth:
  assumes fx: "fixed_point (fx :: ('a::len word, 'i::len word) fixed_ops)"
    and run: "model_deposit fx a (mk_balance e n b c d) = (Inr (x, r), bal')"
  shows "\<exists>s. x = a \<and> s \<noteq> 0 \<and> b \<noteq> 0
    \<and> unat s = (if n = 0 then unat a
                else min (unat a * unat (fx_div fx)) (2 ^ LENGTH('i) - 1) div unat b)
    \<and> unat e + unat a < 2 ^ LENGTH('a) \<and> unat n + unat s < 2 ^ LENGTH('a)
    \<and> bal' = mk_balance (e + a) (n + s) b c d \<and> r = mk_receipt a s b c"
proof -
  from run obtain e' n' s where res: "derive_shares fx a b n = Inr s" "s \<noteq> 0" "b \<noteq> 0"
      "checked_add e a = Some e'" "checked_add n s = Some n'" "bal' = mk_balance e' n' b c d"
      "x = a" "r = mk_receipt a s b c"
    by (auto simp: deposit_eval split: if_splits sum.splits option.splits)
  have "unat s = (if n = 0 then unat a
      else min (unat a * unat (fx_div fx)) (2 ^ LENGTH('i) - 1) div unat b)"
    using res(1) fixed_point.derive_shares_value(2) [OF fx res(1)] fixed_point.from_integer [OF fx]
    by (cases "n = 0") (simp_all add: derive_shares_def)
  with res show ?thesis by (auto simp: checked_add_def split: if_splits)
qed

lemma solvent_deposit_withdraw:
  assumes fx: "fixed_point fx" and sol: "solvent fx e n b" and dc: "d \<le> c"
    and dep: "model_deposit fx a (mk_balance e n b c d) = (Inr (x, r), b')"
  shows "(n = 0 \<longrightarrow> fst (model_withdraw fx r b') = Inr a)
    \<and> (\<forall>y. fst (model_withdraw fx r b') = Inr y \<longrightarrow> y \<le> a)"
proof -
  from solvent_deposit [OF fx sol dep] obtain e' n' sh where
    res: "b' = mk_balance e' n' b c d" "r = mk_receipt a sh b c" "unat e' = unat e + unat a"
      "unat n' = unat n + unat sh" "sh \<noteq> 0" "b \<noteq> 0" "solvent fx e' n' b"
      "derive_shares fx a b n = Inr sh" .
  have no_drain: "(c < d) = False" using dc by (simp add: not_less)
  have gain: "y \<le> a" if wd: "fst (model_withdraw fx r b') = Inr y" for y
  proof -
    obtain b2 where "model_withdraw fx (mk_receipt a sh b c) (mk_balance e' n' b c d) = (Inr y, b2)"
      using wd res(1,2) by (cases "model_withdraw fx r b'") auto
    then show ?thesis
    proof (cases rule: solvent_withdraw [OF fx res(7), consumes 1, case_names last part])
      case (last c' d')
      then have "n = 0" using res(4) by (simp add: unat_is_zero)
      then have "e = 0" using sol by (simp add: solvent_def)
      then show ?thesis using last res(3) by (simp add: word_le_nat_alt)
    next
      case (part e2 n2)
      have "unat sh * unat b \<le> unat a * unat (fx_div fx)"
        using fixed_point.derive_shares_backed [OF fx res(8)] sol by (simp add: solvent_def)
      with part(7) fixed_point.div_nonzero [OF fx] have "unat y \<le> unat a"
        by (meson le_trans mult_le_cancel2 not_less_iff_gr_or_eq)
      then show ?thesis by (simp add: word_le_nat_alt)
    qed
  qed
  have "fst (model_withdraw fx r b') = Inr a" if n: "n = 0"
  proof -
    have eb: "e = 0" "b = fx_div fx" using sol n by (simp_all add: solvent_def)
    have eq: "e' = a" "n' = sh" using res(3,4) n eb by (simp_all add: word_unat_eq_iff)
    define S where "S = fx_from_integer fx sh"
    have one: "fx_checked_mul fx S (fx_div fx) = Some S"
        "fx_checked_div fx (fx_div fx) (fx_div fx) = Some (fx_div fx)"
      using fixed_point.div_nonzero [OF fx] fixed_point.div_pos [OF fx]
      by (simp_all add: fixed_point.fixed_mul [OF fx] fixed_point.fixed_div [OF fx])
    have "redeem fx sh (fx_div fx) False (fx_div fx) = Inr (ucast (S div fx_div fx))"
      using one fixed_point.scale_down [OF fx] by (simp add: redeem_def S_def [symmetric])
    then show ?thesis
      using res(5) by (simp add: res(1,2) eq eb(2) withdraw_eval no_drain)
  qed
  with gain show ?thesis by blast
qed

text \<open>C6: Withdrawing the receipt of a deposit at once never pays more than was deposited, and
  pays exactly the deposit when no other receipt is open.\<close>
theorem deposit_withdraw_no_gain:
  assumes fx: "fixed_point fx" and reach: "pool_reachable fx s"
    and dep: "model_deposit fx a (p_bal s) = (Inr (x, r), b')"
  shows "(p_open s = {#} \<longrightarrow> fst (model_withdraw fx r b') = Inr a)
    \<and> (\<forall>y. fst (model_withdraw fx r b') = Inr y \<longrightarrow> y \<le> a)"
  using pool_reachable_inv [OF fx reach]
proof (cases rule: pool_inv_cases)
  case fresh
  then have "model_deposit fx a (mk_balance 0 0 (fx_div fx) 0 0) = (Inr (x, r), b')"
    using dep by (simp add: deposit_fresh split: if_splits)
  from solvent_deposit_withdraw [OF fx solvent_init _ this] show ?thesis by simp
next
  case (live e n b c d)
  have "p_open s = {#} \<Longrightarrow> n = 0" using live(5) by (simp add: unat_is_zero)
  with solvent_deposit_withdraw [OF fx live(2,3) dep [unfolded live(1)]] show ?thesis by blast
qed

section \<open>All receipts together\<close>

definition active_value ::
  "('a::len word, 'i::len word) fixed_ops \<Rightarrow> ('a, 'i, 't::len) lazy_virtual \<Rightarrow> ('a, 'i, 't) lazy_virtual \<Rightarrow> nat" where
  "active_value fx bal r =
     (case model_receipt_active_value fx r bal of Inl _ \<Rightarrow> 0 | Inr v \<Rightarrow> unat v)"

lemma sum_mset_le_mult:
  fixes f g :: "'x \<Rightarrow> nat"
  assumes "\<And>x. x \<in># M \<Longrightarrow> f x * D \<le> g x * b"
  shows "(\<Sum>x\<in>#M. f x) * D \<le> (\<Sum>x\<in>#M. g x) * b"
  using assms
proof (induction M)
  case (add x M)
  then have "f x * D \<le> g x * b" "(\<Sum>x\<in>#M. f x) * D \<le> (\<Sum>x\<in>#M. g x) * b" by simp_all
  then show ?case by (simp add: algebra_simps)
qed simp

lemma active_value_bound:
  assumes fx: "fixed_point fx" and sol: "solvent fx e n b" and rec: "receipt_ok c0 r"
  shows "active_value fx (mk_balance e n b c d) r \<le> unat e \<and>
    (share_of r \<noteq> unat n \<longrightarrow>
       active_value fx (mk_balance e n b c d) r * unat (fx_div fx) \<le> share_of r * unat b)"
proof (cases "model_withdraw fx r (mk_balance e n b c d)")
  case (Pair res bal')
  obtain p sh rb rc where r: "r = mk_receipt p sh rb rc" using rec by (auto simp: receipt_ok_def)
  have av: "active_value fx (mk_balance e n b c d) r \<le> (case res of Inl _ \<Rightarrow> 0 | Inr x \<Rightarrow> unat x)"
    using Pair by (cases "model_can_withdraw r (mk_balance e n b c d)")
      (simp_all add: active_value_def model_receipt_active_value_def split: sum.split)
  show ?thesis
  proof (cases res)
    case (Inl er)
    with av show ?thesis by simp
  next
    case (Inr x)
    with av have le: "active_value fx (mk_balance e n b c d) r \<le> unat x" by simp
    from Pair Inr have "model_withdraw fx (mk_receipt p sh rb rc) (mk_balance e n b c d) = (Inr x, bal')"
      by (simp add: r)
    then show ?thesis
    proof (cases rule: solvent_withdraw [OF fx sol, consumes 1, case_names last part])
      case (last c' d')
      with le show ?thesis by (simp add: r)
    next
      case (part e' n')
      with le order_trans [OF mult_le_mono1 [OF le] part(7)] show ?thesis by (simp add: r)
    qed
  qed
qed

text \<open>C3: What the open receipts would pay if each were withdrawn now adds up to no more than the
  effective value the balance holds.\<close>
theorem receipts_backed:
  assumes fx: "fixed_point fx" and reach: "pool_reachable fx s" and eff: "effective (p_bal s) = Some e"
  shows "(\<Sum>r\<in>#p_open s. active_value fx (p_bal s) r) \<le> unat e"
  using pool_reachable_inv [OF fx reach]
proof (cases rule: pool_inv_cases)
  case fresh
  then show ?thesis by simp
next
  case (live e0 n b c d)
  have e: "e0 = e" using eff by (simp add: live(1) layout)
  have worth: "active_value fx (p_bal s) r \<le> unat e \<and>
      (share_of r \<noteq> unat n \<longrightarrow> active_value fx (p_bal s) r * unat (fx_div fx) \<le> share_of r * unat b)"
    if "r \<in># p_open s" for r
    using active_value_bound [OF fx live(2) live(4) [OF that], of c d] by (simp add: live(1) e)
  show ?thesis
  proof (cases "\<exists>r. r \<in># p_open s \<and> share_of r = unat n")
    case True
    then obtain r where r: "r \<in># p_open s" "share_of r = unat n" by blast
    then obtain R where R: "p_open s = add_mset r R" by (auto dest: multi_member_split)
    have "R = {#}"
      using no_open_shares [of R c] live(4,5) r(2) by (auto simp: R)
    with worth [OF r(1)] show ?thesis by (simp add: R)
  next
    case False
    with worth have "(\<Sum>r\<in>#p_open s. active_value fx (p_bal s) r) * unat (fx_div fx)
        \<le> (\<Sum>r\<in>#p_open s. share_of r) * unat b"
      by (intro sum_mset_le_mult) blast
    also have "\<dots> \<le> unat e * unat (fx_div fx)" using live(2,5) by (simp add: solvent_def e)
    finally show ?thesis using fixed_point.div_nonzero [OF fx] by simp
  qed
qed

section \<open>Price changes\<close>

text \<open>What a mint or a reap leaves behind: the new value over the same shares, the checkpoint
  ticked, and a drain point exactly when the price became zero.\<close>

definition repriced ::
  "('a::len word, 'i::len word) fixed_ops \<Rightarrow> 'a word \<Rightarrow> 'a word \<Rightarrow> 't::len word \<Rightarrow> 't word \<Rightarrow>
     ('a, 'i, 't) lazy_virtual \<Rightarrow> bool" where
  "repriced fx e' n c d bal' \<longleftrightarrow>
     (\<exists>b'. unat b' = unat e' * unat (fx_div fx) div unat n \<and>
        bal' = mk_balance e' n b' (sat_add c 1) (if b' = 0 then sat_add c 1 else d))"

lemma repriced_eq:
  assumes "fixed_point fx" and "fx_from_rational fx e' n = Some b'"
  shows "repriced fx e' n c d (mk_balance e' n b' (sat_add c 1) (if b' = 0 then sat_add c 1 else d))"
  using assms(2) by (auto simp: repriced_def fixed_point.from_rational [OF assms(1)])

text \<open>A mint of a positive amount either changes nothing, naming the missing shares, the
  overflow or the price that does not fit, or adds exactly the amount, leaves the issued shares
  alone and re-prices them at the integer part of value over shares.\<close>
theorem mint_price:
  assumes fx: "fixed_point fx" and a: "a \<noteq> 0"
  shows "case model_mint fx a (mk_balance e n b c d) of
      (Inr x, bal') \<Rightarrow> x = a \<and> n \<noteq> 0 \<and> unat (e + a) = unat e + unat a \<and> repriced fx (e + a) n c d bal'
    | (Inl er, bal') \<Rightarrow> bal' = mk_balance e n b c d \<and>
        (er = RequiresExistingDeposits \<and> n = 0
       \<or> er = AssetOverflow \<and> n \<noteq> 0 \<and> checked_add e a = None
       \<or> er = InadequatePrecision \<and> n \<noteq> 0 \<and> fx_from_rational fx (e + a) n = None)"
proof (cases "checked_add e a")
  case None
  then show ?thesis using a by (simp add: mint_eval)
next
  case (Some e')
  then have e': "e' = e + a" "unat (e + a) = unat e + unat a"
    by (auto simp: checked_add_def unat_add_exact split: if_splits)
  show ?thesis
  proof (cases "fx_from_rational fx (e + a) n")
    case None
    with a Some e' show ?thesis by (simp add: mint_eval)
  next
    case (Some b')
    from repriced_eq [OF fx Some, of c d] \<open>checked_add e a = Some e'\<close> a e' Some show ?thesis
      by (cases "n = 0") (simp_all add: mint_eval)
  qed
qed

text \<open>C22: A reap of a positive amount takes exactly the amount when it succeeds and re-prices the
  shares; when the new price does not fit, it fails but has already reduced the effective value.\<close>
theorem reap_price:
  assumes fx: "fixed_point fx" and a: "a \<noteq> 0"
  shows "case model_reap fx a (mk_balance e n b c d) of
      (Inr x, bal') \<Rightarrow> x = a \<and> n \<noteq> 0 \<and> a \<le> e \<and> repriced fx (e - a) n c d bal'
    | (Inl er, bal') \<Rightarrow>
        er = RequiresExistingDeposits \<and> n = 0 \<and> bal' = mk_balance e n b c d
      \<or> er = AssetUnderflow \<and> n \<noteq> 0 \<and> e < a \<and> bal' = mk_balance e n b c d
      \<or> er = InadequatePrecision \<and> n \<noteq> 0 \<and> a < e \<and> bal' = mk_balance (e - a) n b c d"
proof (cases "n \<noteq> 0 \<and> a \<le> e")
  case True
  then have "checked_sub e a = Some (e - a)" by (simp add: checked_sub_def)
  moreover have "e - a \<noteq> 0 \<Longrightarrow> a < e" using True by auto
  moreover have "repriced fx 0 n c d (mk_balance 0 n 0 (sat_add c 1) (sat_add c 1))"
    unfolding repriced_def by (intro exI [of _ 0]) simp
  moreover have "repriced fx (e - a) n c d
      (mk_balance (e - a) n b' (sat_add c 1) (if b' = 0 then sat_add c 1 else d))"
    if "fx_from_rational fx (e - a) n = Some b'" for b'
    by (rule repriced_eq [OF fx that])
  ultimately show ?thesis
    using a True by (simp add: reap_eval split: option.split)
next
  case False
  then have "n = 0 \<or> n \<noteq> 0 \<and> e < a" by (auto simp: not_le)
  then show ?thesis
    using a by (auto simp: reap_eval checked_sub_def)
qed

text \<open>A mint or reap accepted by its check returns the amount or fails with
  \<open>InadequatePrecision\<close>, and one that returns a positive amount had been accepted.\<close>
theorem adjust_checks:
  "(model_can_mint a (mk_balance e n b c d) = Inr () \<longleftrightarrow>
     a \<noteq> 0 \<and> fst (model_mint fx a (mk_balance e n b c d)) \<in> {Inr a, Inl InadequatePrecision})
  \<and> (model_can_reap a (mk_balance e n b c d) = Inr () \<longleftrightarrow>
     a \<noteq> 0 \<and> fst (model_reap fx a (mk_balance e n b c d)) \<in> {Inr a, Inl InadequatePrecision})"
proof -
  have can: "model_can_mint a (mk_balance e n b c d) = Inr () \<longleftrightarrow> a \<noteq> 0 \<and> n \<noteq> 0 \<and> checked_add e a \<noteq> None"
    "model_can_reap a (mk_balance e n b c d) = Inr () \<longleftrightarrow> a \<noteq> 0 \<and> n \<noteq> 0 \<and> checked_sub e a \<noteq> None"
    by (auto simp: model_can_mint_def model_can_reap_def layout ensureE_def)
  show ?thesis
    unfolding can mint_eval reap_eval
    by (cases "a = 0"; cases "n = 0"; cases "checked_add e a"; cases "checked_sub e a")
       (simp_all split: option.split)
qed

section \<open>The runtime's fixed-point type\<close>

text \<open>Runs of the model on the types of the runtime.\<close>

abbreviation (input) rt_deposit ::
  "128 word \<Rightarrow> (128, 64, 32) lazy_virtual \<Rightarrow>
     (share_balance_error + 128 word \<times> (128, 64, 32) lazy_virtual) \<times> (128, 64, 32) lazy_virtual" where
  "rt_deposit \<equiv> model_deposit fixed_u64_ops"

lemmas rt_simps = fixed_u64_ops_def floor_ops_def narrow_def checked_add_def checked_sub_def
  checked_div_def derive_shares_def redeem_def

lemma rt_first: "rt_deposit 1000 product_default =
    (Inr (1000, mk_receipt 1000 1000 1000000000 0), mk_balance 1000 1000 1000000000 0 0)"
  by (simp add: deposit_fresh deposit_eval rt_simps)

lemma rt_second: "rt_deposit 300 (mk_balance 1000 1000 1000000000 0 0) =
    (Inr (300, mk_receipt 300 300 1000000000 0), mk_balance 1300 1300 1000000000 0 0)"
  by (simp add: deposit_eval rt_simps)

lemma rt_large: "rt_deposit 1000000000000 (mk_balance 1000 1000 1000000000 0 0) =
    (Inr (1000000000000, mk_receipt 1000000000000 18446744073 1000000000 0),
     mk_balance 1000000001000 18446745073 1000000000 0 0)"
  by (simp add: deposit_eval rt_simps)

text \<open>With the runtime's \<open>FixedU64\<close> a deposit above 18446744073 units is credited as if it
  were 18446744073: withdrawn at once it pays that much, and the depositor of 1000 units before it
  takes the rest as dust.\<close>
theorem large_deposit_loses:
  "\<exists>r1 bal1 r2 bal2 bal3.
     rt_deposit 1000 product_default = (Inr (1000, r1), bal1)
   \<and> rt_deposit 1000000000000 bal1 = (Inr (1000000000000, r2), bal2)
   \<and> model_withdraw fixed_u64_ops r2 bal2 = (Inr 18446744073, bal3)
   \<and> fst (model_withdraw fixed_u64_ops r1 bal3) = Inr 981553256927"
proof -
  have "model_withdraw fixed_u64_ops (mk_receipt 1000000000000 18446744073 1000000000 0)
      (mk_balance 1000000001000 18446745073 1000000000 0 0 :: (128, 64, 32) lazy_virtual) =
    (Inr 18446744073, mk_balance 981553256927 1000 1000000000 0 0)"
    by (simp add: withdraw_eval rt_simps)
  moreover have "fst (model_withdraw fixed_u64_ops (mk_receipt 1000 1000 1000000000 0)
      (mk_balance 981553256927 1000 1000000000 0 0 :: (128, 64, 32) lazy_virtual)) = Inr 981553256927"
    by (simp add: withdraw_eval rt_simps)
  ultimately show ?thesis using rt_first rt_large by blast
qed

text \<open>The withdrawal check does not ensure that the withdrawal succeeds: with the runtime's
  \<open>FixedU64\<close>, after a mint that doubles the price a receipt of 20000000000 units is accepted by
  the check and its withdrawal fails with \<open>InadequatePrecision\<close>.\<close>
theorem accepted_withdrawal_fails:
  "\<exists>r bal1 bal2.
     rt_deposit 20000000000 product_default = (Inr (20000000000, r), bal1)
   \<and> model_mint fixed_u64_ops 20000000000 bal1 = (Inr 20000000000, bal2)
   \<and> model_can_withdraw r bal2 = Inr ()
   \<and> model_withdraw fixed_u64_ops r bal2 = (Inl InadequatePrecision, bal2)"
proof -
  let ?r = "mk_receipt 20000000000 20000000000 1000000000 0 :: (128, 64, 32) lazy_virtual"
  have "rt_deposit 20000000000 product_default =
      (Inr (20000000000, ?r), mk_balance 20000000000 20000000000 1000000000 0 0)"
    by (simp add: deposit_fresh deposit_eval rt_simps)
  moreover have "model_mint fixed_u64_ops 20000000000 (mk_balance 20000000000 20000000000 1000000000 0 0)
      = (Inr 20000000000, mk_balance 40000000000 20000000000 2000000000 1 0 :: (128, 64, 32) lazy_virtual)"
    by (simp add: mint_eval rt_simps sat_add_def)
  moreover have "model_can_withdraw ?r (mk_balance 40000000000 20000000000 2000000000 1 0) = Inr ()"
    by (simp add: model_can_withdraw_def layout)
  moreover have "model_withdraw fixed_u64_ops ?r (mk_balance 40000000000 20000000000 2000000000 1 0) =
      (Inl InadequatePrecision, mk_balance 40000000000 20000000000 2000000000 1 0)"
    by (simp add: withdraw_eval rt_simps)
  ultimately show ?thesis by blast
qed

text \<open>The deposit check accepts what the deposit refuses: a zero amount, on any balance that could
  take a deposit, and an amount worth less than one share.\<close>
lemma can_deposit_accepts_zero:
  "model_can_deposit 0 product_default = Inr ()
   \<and> fst (model_deposit fx 0 product_default) = Inl ZeroDepositNotAllowed
   \<and> model_can_deposit 1 (mk_balance 4000 1000 4000000000 0 0 :: (128, 64, 32) lazy_virtual) = Inr ()
   \<and> fst (rt_deposit 1 (mk_balance 4000 1000 4000000000 0 0)) = Inl LessThanOneShareDerived"
proof -
  have "model_can_deposit 1 (mk_balance 4000 1000 4000000000 0 0 :: (128, 64, 32) lazy_virtual) = Inr ()"
    by (simp add: model_can_deposit_def layout checked_add_def)
  moreover have "fst (rt_deposit 1 (mk_balance 4000 1000 4000000000 0 0)) = Inl LessThanOneShareDerived"
    by (simp add: deposit_eval rt_simps)
  ultimately show ?thesis by (simp add: model_can_deposit_def layout deposit_fresh)
qed

section \<open>Instances\<close>

definition sample_pool :: "(128, 64, 32) pool" where
  "sample_pool = \<lparr>p_bal = mk_balance 1300 1300 1000000000 0 0,
     p_open = {#mk_receipt 300 300 1000000000 0, mk_receipt 1000 1000 1000000000 0#},
     p_in = 1300, p_out = 0, p_lost = 0\<rparr>"

lemma rt_first_pool: "rt_deposit 1000 (p_bal fresh_pool) =
    (Inr (1000, mk_receipt 1000 1000 1000000000 0), mk_balance 1000 1000 1000000000 0 0)"
  using rt_first by (simp add: fresh_pool_def)

lemma sample_pool_reachable: "pool_reachable fixed_u64_ops sample_pool"
proof -
  define s1 :: "(128, 64, 32) pool" where
    "s1 = \<lparr>p_bal = mk_balance 1000 1000 1000000000 0 0,
       p_open = {#mk_receipt 1000 1000 1000000000 0#}, p_in = 1000, p_out = 0, p_lost = 0\<rparr>"
  have "pool_step fixed_u64_ops fresh_pool s1"
    using pool_step.deposit [OF rt_first_pool] by (simp add: fresh_pool_def s1_def)
  moreover have "pool_step fixed_u64_ops s1 sample_pool"
  proof -
    have "rt_deposit 300 (p_bal s1) =
        (Inr (300, mk_receipt 300 300 1000000000 0), mk_balance 1300 1300 1000000000 0 0)"
      using rt_second by (simp add: s1_def)
    then show ?thesis using pool_step.deposit by (fastforce simp: sample_pool_def s1_def)
  qed
  ultimately show ?thesis by (meson rtranclp.simps)
qed

lemmas sample_use = fixed_u64.fixed_point_axioms sample_pool_reachable

theorem pool_solvent_witness:
  "(\<Sum>r\<in>#p_open sample_pool. share_of r) = 1300 \<and> p_in sample_pool = p_out sample_pool + 1300"
  using pool_solvent [OF sample_use, of 1300 1300 1000000000]
  by (simp add: sample_pool_def layout)

theorem open_receipt_withdraws_witness:
  "model_can_withdraw (mk_receipt 300 300 1000000000 0) (p_bal sample_pool) = Inr ()"
  using open_receipt_withdraws [OF sample_use, of "mk_receipt 300 300 1000000000 0"]
  by (simp add: sample_pool_def)

theorem receipts_backed_witness:
  "(\<Sum>r\<in>#p_open sample_pool. active_value fixed_u64_ops (p_bal sample_pool) r) \<le> 1300"
  using receipts_backed [OF sample_use, of 1300] by (simp add: sample_pool_def layout)

theorem deposit_worth_witness:
  "\<exists>s. unat s = 300 \<and> mk_balance 1300 1300 1000000000 0 0
     = (mk_balance (1000 + 300) (1000 + s) 1000000000 0 0 :: (128, 64, 32) lazy_virtual)"
  using deposit_worth [OF fixed_u64.fixed_point_axioms rt_second]
  by (auto simp: fixed_u64_ops_def floor_ops_def)

theorem deposit_withdraw_no_gain_witness:
  "\<exists>r b'. rt_deposit 1000 (p_bal fresh_pool) = (Inr (1000, r), b')
     \<and> fst (model_withdraw fixed_u64_ops r b') = Inr 1000"
  using deposit_withdraw_no_gain [OF fixed_u64.fixed_point_axioms rtranclp.rtrancl_refl rt_first_pool]
    rt_first_pool by (auto simp: fresh_pool_def)

theorem mint_price_witness:
  "repriced fixed_u64_ops 1500 1000 0 0 (snd (model_mint fixed_u64_ops 500
     (mk_balance 1000 1000 1000000000 0 0 :: (128, 64, 32) lazy_virtual)))"
  using mint_price [OF fixed_u64.fixed_point_axioms, of 500 1000 1000 1000000000 "0 :: 32 word" 0]
  by (simp add: mint_eval rt_simps)

theorem reap_price_witness:
  "repriced fixed_u64_ops 500 1000 0 0 (snd (model_reap fixed_u64_ops 500
     (mk_balance 1000 1000 1000000000 0 0 :: (128, 64, 32) lazy_virtual)))"
  using reap_price [OF fixed_u64.fixed_point_axioms, of 500 1000 1000 1000000000 "0 :: 32 word" 0]
  by (simp add: reap_eval rt_simps)

end
