(* ===== verification/Elections.thy ===== *)
theory Elections
  imports Prelude "HOL-Library.Multiset"
begin

text \<open>
  The ranking models of \<open>frame/plugins/src/elections.rs\<close> that score each candidate on its own:
  \<open>TopDownFlatModel\<close>, \<open>ThresholdFlatModel\<close>, \<open>TopDownFairModel\<close>, \<open>BalancedModel\<close> and
  \<open>ThresholdFairModel\<close>. As in the code they are generic in the candidate and in the weight, whose
  Rust bounds (\<open>Ord\<close>, \<open>Zero\<close>, \<open>Add\<close>) are the type classes here; \<open>saturating_add\<close> and the
  division by a \<open>usize\<close> have no class and are arguments.

  \<open>slice::sort_by\<close> is a stable sort; \<open>sort_desc\<close> is one, and \<open>stable_desc_unique\<close> shows that
  there is no other, so the choice of the algorithm does not matter.
\<close>

section \<open>The stable descending sort\<close>

fun insort_desc :: "('x \<Rightarrow> 'k::linorder) \<Rightarrow> 'x \<Rightarrow> 'x list \<Rightarrow> 'x list" where
  "insort_desc key x [] = [x]"
| "insort_desc key x (y # ys) =
     (if key y \<le> key x then x # y # ys else y # insort_desc key x ys)"

definition sort_desc :: "('x \<Rightarrow> 'k::linorder) \<Rightarrow> 'x list \<Rightarrow> 'x list" where
  "sort_desc key xs = foldr (insort_desc key) xs []"

definition descending :: "('x \<Rightarrow> 'k::linorder) \<Rightarrow> 'x list \<Rightarrow> bool" where
  "descending key xs = sorted_wrt (\<lambda>x y. key y \<le> key x) xs"

definition same_order :: "('x \<Rightarrow> 'k) \<Rightarrow> 'x list \<Rightarrow> 'x list \<Rightarrow> bool" where
  "same_order key xs ys \<longleftrightarrow> (\<forall>k. filter (\<lambda>x. key x = k) xs = filter (\<lambda>x. key x = k) ys)"

lemma mset_insort_desc: "mset (insort_desc key x xs) = add_mset x (mset xs)"
  by (induction xs) auto

lemma set_insort_desc: "set (insort_desc key x xs) = insert x (set xs)"
  by (induction xs) auto

lemma descending_insort: "descending key xs \<Longrightarrow> descending key (insort_desc key x xs)"
  by (induction xs) (auto simp: descending_def set_insort_desc intro: order_trans)

lemma filter_insort_desc:
  "descending key xs \<Longrightarrow> filter (\<lambda>y. key y = k) (insort_desc key x xs) =
     (if key x = k then x # filter (\<lambda>y. key y = k) xs else filter (\<lambda>y. key y = k) xs)"
  by (induction xs) (auto simp: descending_def)

lemma sort_desc_Cons [simp]: "sort_desc key (x # xs) = insort_desc key x (sort_desc key xs)"
  by (simp add: sort_desc_def)

lemma sort_desc_Nil [simp]: "sort_desc key [] = []"
  by (simp add: sort_desc_def)

lemma mset_sort_desc [simp]: "mset (sort_desc key xs) = mset xs"
  by (induction xs) (simp_all add: mset_insort_desc)

lemma descending_sort_desc: "descending key (sort_desc key xs)"
  by (induction xs) (simp_all add: descending_insort, simp add: descending_def)

lemma same_order_sort_desc: "same_order key (sort_desc key xs) xs"
  by (induction xs) (simp_all add: same_order_def filter_insort_desc descending_sort_desc)

lemma set_sort_desc [simp]: "set (sort_desc key xs) = set xs"
  using mset_sort_desc by (rule mset_eq_setD)

lemma length_sort_desc [simp]: "length (sort_desc key xs) = length xs"
  using mset_sort_desc by (rule mset_eq_length)

lemma same_order_via: "same_order key xs zs \<Longrightarrow> same_order key ys zs \<Longrightarrow> same_order key xs ys"
  by (simp add: same_order_def)

lemma stable_desc_unique:
  "descending key xs \<Longrightarrow> descending key ys \<Longrightarrow> same_order key xs ys \<Longrightarrow> xs = ys"
proof (induction xs arbitrary: ys)
  case Nil
  show ?case
  proof (cases ys)
    case (Cons y ys')
    from Nil(3) have "filter (\<lambda>x. key x = key y) [] = filter (\<lambda>x. key x = key y) (y # ys')"
      unfolding same_order_def Cons by (rule spec)
    then show ?thesis by simp
  qed simp
next
  case (Cons x xs)
  have fx: "filter (\<lambda>z. key z = k) (x # xs) = filter (\<lambda>z. key z = k) ys" for k
    using Cons.prems(3) by (simp add: same_order_def)
  have mem: "set (x # xs) = set ys"
  proof -
    have "z \<in> set (x # xs) \<longleftrightarrow> z \<in> set ys" for z
    proof -
      have "z \<in> set zs \<longleftrightarrow> z \<in> set (filter (\<lambda>y. key y = key z) zs)" for zs by simp
      then show ?thesis using fx [of "key z"] by metis
    qed
    then show ?thesis by blast
  qed
  then have "x \<in> set ys" by auto
  then obtain y ys' where ys: "ys = y # ys'" by (cases ys) auto
  have "y \<in> set (x # xs)" using mem by (simp add: ys)
  then have "key y \<le> key x" using Cons.prems(1) by (auto simp: descending_def)
  moreover have "key x \<le> key y" using \<open>x \<in> set ys\<close> Cons.prems(2) by (auto simp: descending_def ys)
  ultimately have key: "key x = key y" by simp
  then have "x = y" using fx [of "key x"] by (simp add: ys)
  moreover have "same_order key xs ys'"
    unfolding same_order_def
  proof
    fix k
    show "filter (\<lambda>z. key z = k) xs = filter (\<lambda>z. key z = k) ys'"
      using fx [of k] ys key \<open>x = y\<close> by (cases "key x = k") simp_all
  qed
  then have "xs = ys'" using Cons.IH Cons.prems(1,2) by (simp add: ys descending_def)
  ultimately show ?case by (simp add: ys)
qed

section \<open>The models\<close>

definition top_down_flat :: "('c \<times> 'w::linorder) list \<Rightarrow> 'c list" where
  "top_down_flat input = map fst (sort_desc snd input)"

fun threshold_flat_loop :: "'w::linorder \<Rightarrow> ('c \<times> 'w) list \<Rightarrow> 'c list \<Rightarrow> 'c list" where
  "threshold_flat_loop threshold [] output = output"
| "threshold_flat_loop threshold ((candidate, weight) # items) output =
     threshold_flat_loop threshold items
       (if weight \<ge> threshold then output @ [candidate] else output)"

definition threshold_flat :: "'w::linorder \<Rightarrow> ('c \<times> 'w) list \<Rightarrow> 'c list" where
  "threshold_flat threshold input = threshold_flat_loop threshold input []"

definition backing_total :: "('w::zero \<Rightarrow> 'w \<Rightarrow> 'w) \<Rightarrow> ('b \<times> 'w) list \<Rightarrow> 'w" where
  "backing_total saturating_add fairweight =
     foldl (\<lambda>total (_, backed). saturating_add total backed) 0 fairweight"

definition top_down_fair ::
  "('w::{zero, linorder} \<Rightarrow> 'w \<Rightarrow> 'w) \<Rightarrow> ('c \<times> ('b \<times> 'w) list) list \<Rightarrow> 'c list" where
  "top_down_fair saturating_add input =
     map fst (sort_desc snd
       (map (\<lambda>(candidate, fairweight). (candidate, backing_total saturating_add fairweight)) input))"

definition balanced_score ::
  "('w::zero \<Rightarrow> 'w \<Rightarrow> 'w) \<Rightarrow> ('w \<Rightarrow> nat \<Rightarrow> 'w) \<Rightarrow> ('b \<times> 'w) list \<Rightarrow> 'w" where
  "balanced_score saturating_add div_usize entries =
     (let count = (if entries = [] then 1 else length entries);
          total = backing_total saturating_add entries;
          average = div_usize total count
      in saturating_add total average)"

definition balanced_model ::
  "('w::{zero, linorder} \<Rightarrow> 'w \<Rightarrow> 'w) \<Rightarrow> ('w \<Rightarrow> nat \<Rightarrow> 'w) \<Rightarrow> ('c \<times> ('b \<times> 'w) list) list \<Rightarrow> 'c list" where
  "balanced_model saturating_add div_usize input =
     map fst (sort_desc snd
       (map (\<lambda>(candidate, fairweight). (candidate, balanced_score saturating_add div_usize fairweight)) input))"

fun threshold_fair_loop ::
  "'w::{zero, plus, linorder} \<Rightarrow> ('c \<times> ('b \<times> 'w) list) list \<Rightarrow> 'c list \<Rightarrow> 'c list" where
  "threshold_fair_loop threshold [] output = output"
| "threshold_fair_loop threshold ((candidate, fairweight) # rest) output =
     (let total = foldl (+) 0 (map snd fairweight)
      in threshold_fair_loop threshold rest
           (if total \<ge> threshold then output @ [candidate] else output))"

definition threshold_fair ::
  "'w::{zero, plus, linorder} \<Rightarrow> ('c \<times> ('b \<times> 'w) list) list \<Rightarrow> 'c list" where
  "threshold_fair threshold input = threshold_fair_loop threshold input []"

section \<open>The contract of a ranking\<close>

text \<open>
  A ranking lists every entry once, best score first, equal scores in the order of the input.
\<close>

locale score_ranking =
  fixes elect :: "('c \<times> 'p) list \<Rightarrow> 'c list"
    and score :: "'p \<Rightarrow> 's::linorder"
  assumes ranks: "\<exists>es. elect xs = map fst es \<and> mset es = mset xs
            \<and> descending (score \<circ> snd) es \<and> same_order (score \<circ> snd) es xs"
begin

lemma all_ranked: "mset (elect xs) = mset (map fst xs)"
proof -
  obtain es where "elect xs = map fst es" "mset es = mset xs" using ranks by blast
  then show ?thesis by (simp add: mset_map)
qed

text \<open>A seat is never given to an entry with a lower score than one left out.\<close>

lemma top_seats:
  obtains won lost where "mset xs = mset won + mset lost" "take k (elect xs) = map fst won"
    "drop k (elect xs) = map fst lost" "\<And>w l. w \<in> set won \<Longrightarrow> l \<in> set lost \<Longrightarrow> score (snd l) \<le> score (snd w)"
proof -
  obtain es where es: "elect xs = map fst es" "mset es = mset xs" "descending (score \<circ> snd) es"
    using ranks by blast
  show thesis
  proof
    show "mset xs = mset (take k es) + mset (drop k es)"
      using es(2) by (metis append_take_drop_id mset_append)
    show "take k (elect xs) = map fst (take k es)" "drop k (elect xs) = map fst (drop k es)"
      by (simp_all add: es(1) take_map drop_map)
    have "sorted_wrt (\<lambda>x y. score (snd y) \<le> score (snd x)) (take k es @ drop k es)"
      using es(3) by (simp add: descending_def)
    then show "score (snd l) \<le> score (snd w)" if "w \<in> set (take k es)" "l \<in> set (drop k es)" for w l
      using that unfolding sorted_wrt_append by blast
  qed
qed

lemma ranking_unique:
  assumes "mset es = mset xs" "descending (score \<circ> snd) es" "same_order (score \<circ> snd) es xs"
  shows "elect xs = map fst es"
proof -
  obtain es' where es': "elect xs = map fst es'" "descending (score \<circ> snd) es'"
      "same_order (score \<circ> snd) es' xs"
    using ranks by blast
  have "es' = es"
    by (rule stable_desc_unique [OF es'(2) assms(2) same_order_via [OF es'(3) assms(3)]])
  with es'(1) show ?thesis by simp
qed

end

lemma sort_by_score:
  "map fst (sort_desc snd (map (\<lambda>(c, p). (c, f p)) xs)) = map fst (sort_desc (f \<circ> snd) xs)"
proof -
  have ins: "insort_desc snd (c, f p) (map (\<lambda>(c, p). (c, f p)) ys) =
      map (\<lambda>(c, p). (c, f p)) (insort_desc (f \<circ> snd) (c, p) ys)" for c p ys
    by (induction ys) (auto split: prod.splits)
  have "sort_desc snd (map (\<lambda>(c, p). (c, f p)) xs) = map (\<lambda>(c, p). (c, f p)) (sort_desc (f \<circ> snd) xs)"
  proof (induction xs)
    case (Cons x xs)
    then show ?case using ins [of "fst x" "snd x"] by (cases x) (simp only: list.map sort_desc_Cons prod.case fst_conv snd_conv)
  qed simp
  then show ?thesis by (simp add: case_prod_beta comp_def)
qed

lemma sort_desc_ranks: "\<exists>es. map fst (sort_desc (f \<circ> snd) xs) = map fst es \<and> mset es = mset xs
    \<and> descending (f \<circ> snd) es \<and> same_order (f \<circ> snd) es xs"
  using descending_sort_desc same_order_sort_desc mset_sort_desc by blast

interpretation flat: score_ranking top_down_flat "\<lambda>w :: 'w::linorder. w"
proof unfold_locales
  show "\<exists>es. top_down_flat xs = map fst es \<and> mset es = mset xs
      \<and> descending ((\<lambda>w :: 'w. w) \<circ> snd) es \<and> same_order ((\<lambda>w. w) \<circ> snd) es xs" for xs :: "('c \<times> 'w) list"
    using sort_desc_ranks [of "\<lambda>w. w" xs] by (simp add: top_down_flat_def comp_def)
qed

interpretation fair: score_ranking "top_down_fair sadd" "backing_total sadd"
  for sadd :: "'w::{zero, linorder} \<Rightarrow> 'w \<Rightarrow> 'w"
  by unfold_locales (simp only: top_down_fair_def sort_by_score sort_desc_ranks)

interpretation balanced: score_ranking "balanced_model sadd divn" "balanced_score sadd divn"
  for sadd :: "'w::{zero, linorder} \<Rightarrow> 'w \<Rightarrow> 'w" and divn
  by unfold_locales (simp only: balanced_model_def sort_by_score sort_desc_ranks)

section \<open>Properties\<close>

lemma threshold_flat_loop_filter:
  "threshold_flat_loop t items out = out @ map fst (filter (\<lambda>(_, w). t \<le> w) items)"
  by (induction t items out rule: threshold_flat_loop.induct) auto

lemma threshold_fair_loop_filter:
  "threshold_fair_loop t items out =
     out @ map fst (filter (\<lambda>(_, fw). t \<le> foldl (+) 0 (map snd fw)) items)"
  by (induction t items out rule: threshold_fair_loop.induct) (auto simp: Let_def)

text \<open>The fair ranking is the only one that lists every candidate once, by decreasing total
  backing, and keeps the input order among equal totals.\<close>
theorem top_down_fair_unique:
  "top_down_fair sadd input = map fst es \<and> mset es = mset input
     \<and> descending (backing_total sadd \<circ> snd) es \<and> same_order (backing_total sadd \<circ> snd) es input
   \<longleftrightarrow> es = sort_desc (backing_total sadd \<circ> snd) input"
proof
  assume l: "top_down_fair sadd input = map fst es \<and> mset es = mset input
     \<and> descending (backing_total sadd \<circ> snd) es \<and> same_order (backing_total sadd \<circ> snd) es input"
  show "es = sort_desc (backing_total sadd \<circ> snd) input"
    using l by (intro stable_desc_unique [of "backing_total sadd \<circ> snd"] descending_sort_desc
      same_order_via [OF _ same_order_sort_desc]) simp_all
next
  assume "es = sort_desc (backing_total sadd \<circ> snd) input"
  then show "top_down_fair sadd input = map fst es \<and> mset es = mset input
     \<and> descending (backing_total sadd \<circ> snd) es \<and> same_order (backing_total sadd \<circ> snd) es input"
    by (simp add: top_down_fair_def sort_by_score descending_sort_desc same_order_sort_desc)
qed

text \<open>However many seats are filled from the top of the balanced ranking, no candidate left
  out scores more than one that was seated, and nobody is lost or invented.\<close>
theorem balanced_seats:
  "\<exists>won lost. mset input = mset won + mset lost
     \<and> take k (balanced_model sadd divn input) = map fst won
     \<and> drop k (balanced_model sadd divn input) = map fst lost
     \<and> (\<forall>w l. w \<in> set won \<and> l \<in> set lost \<longrightarrow>
          balanced_score sadd divn (snd l) \<le> balanced_score sadd divn (snd w))"
  by (rule balanced.top_seats [of input k sadd divn]) blast

theorem balanced_seats_witness:
  "\<exists>w l :: string \<times> (nat \<times> nat) list. {#(''a'', [(1, 2)]), (''b'', [(1, 5), (2, 1)])#} = {#w, l#}
     \<and> fst w = ''b'' \<and> balanced_score (+) (div) (snd l) \<le> balanced_score (+) (div) (snd w)"
proof -
  let ?input = "[(''a'', [(1 :: nat, 2 :: nat)]), (''b'', [(1, 5), (2, 1)])]"
  have rank: "balanced_model (+) (div) ?input = [''b'', ''a'']"
    by (simp add: balanced_model_def balanced_score_def backing_total_def)
  obtain won lost where seats: "mset ?input = mset won + mset lost"
    "take 1 (balanced_model (+) (div) ?input) = map fst won"
    "drop 1 (balanced_model (+) (div) ?input) = map fst lost"
    "\<forall>w l. w \<in> set won \<and> l \<in> set lost \<longrightarrow>
       balanced_score (+) (div) (snd l) \<le> balanced_score (+) (div) (snd w)"
    using balanced_seats [of ?input 1 "(+)" "(div)"] by blast
  from seats(2,3) rank obtain w l where "won = [w]" "lost = [l]" "fst w = ''b''"
    by (auto simp: Cons_eq_map_conv)
  with seats(1,4) show ?thesis by (intro exI [of _ w] exI [of _ l]) simp
qed

text \<open>The threshold models keep exactly the candidates whose weight (total backing) reaches
  the threshold, in the order of the input.\<close>
theorem threshold_models_filter:
  "threshold_flat t flat_input = map fst (filter (\<lambda>(_, w). t \<le> w) flat_input)
   \<and> threshold_fair u fair_input = map fst (filter (\<lambda>(_, fw). u \<le> foldl (+) 0 (map snd fw)) fair_input)"
  by (simp add: threshold_flat_def threshold_fair_def threshold_flat_loop_filter threshold_fair_loop_filter)

end
