(* ===== verification/LoadElections.thy ===== *)
theory LoadElections
  imports Elections
begin

text \<open>
  The load-balancing elections of \<open>frame/plugins/src/elections.rs\<close>: \<open>PhragmenModel\<close> and
  \<open>MaxMinLoadModel\<close>. Both repeat a selection until no candidate remains; a \<open>BTreeMap\<close> of loads
  is a partial map, and an \<open>unwrap\<close> of a missing entry is a panic, the value \<open>None\<close>. That neither
  model panics, and that both rank every candidate, is proved; so is that each selection is
  greedy for the loads left by the earlier ones.
\<close>

section \<open>The Phragmen model\<close>

record 'w phragmen_config =
  ph_weighted :: bool
  ph_scale :: "'w option"

type_synonym ('b, 'w) loads = "'b \<Rightarrow> 'w option"

definition contribution :: "'w::times phragmen_config \<Rightarrow> 'w \<Rightarrow> 'w" where
  "contribution cfg backed =
     (if ph_weighted cfg
      then (case ph_scale cfg of None \<Rightarrow> backed | Some scale \<Rightarrow> backed * scale)
      else backed)"

fun init_loads_of :: "('b \<times> 'w::zero) list \<Rightarrow> ('b, 'w) loads \<Rightarrow> ('b, 'w) loads" where
  "init_loads_of [] load = load"
| "init_loads_of ((backer, _) # fw) load =
     init_loads_of fw (if load backer = None then load(backer \<mapsto> 0) else load)"

fun init_loads :: "('c \<times> ('b \<times> 'w::zero) list) list \<Rightarrow> ('b, 'w) loads \<Rightarrow> ('b, 'w) loads" where
  "init_loads [] load = load"
| "init_loads ((_, fw) # rest) load = init_loads rest (init_loads_of fw load)"

fun max_load_loop ::
  "'w::{plus, times, linorder} phragmen_config \<Rightarrow> ('b, 'w) loads \<Rightarrow> ('b \<times> 'w) list \<Rightarrow> 'w \<Rightarrow> 'w option" where
  "max_load_loop cfg load [] max_load = Some max_load"
| "max_load_loop cfg load ((backer, backed) # fw) max_load =
     (case load backer of
        None \<Rightarrow> None
      | Some l \<Rightarrow>
          let new_load = l + contribution cfg backed
          in max_load_loop cfg load fw (if new_load > max_load then new_load else max_load))"

fun best_loop ::
  "'w::{zero, plus, times, linorder} phragmen_config \<Rightarrow> ('b, 'w) loads \<Rightarrow>
     ('c \<times> ('b \<times> 'w) list) list \<Rightarrow> ('c \<times> 'w) option \<Rightarrow> ('c \<times> 'w) option option" where
  "best_loop cfg load [] best = Some best"
| "best_loop cfg load ((candidate, fw) # rest) best =
     (case max_load_loop cfg load fw 0 of
        None \<Rightarrow> None
      | Some max_load \<Rightarrow>
          best_loop cfg load rest
            (case best of
               None \<Rightarrow> Some (candidate, max_load)
             | Some (_, best_max_load) \<Rightarrow>
                 if max_load < best_max_load then Some (candidate, max_load) else best))"

fun remove_first :: "'c \<Rightarrow> ('c \<times> 'f) list \<Rightarrow> ('f \<times> ('c \<times> 'f) list) option" where
  "remove_first c [] = None"
| "remove_first c ((d, fw) # rest) =
     (if d = c then Some (fw, rest)
      else map_option (\<lambda>(fw', rest'). (fw', (d, fw) # rest')) (remove_first c rest))"

fun update_loads ::
  "'w::{zero, plus, times} phragmen_config \<Rightarrow> ('b \<times> 'w) list \<Rightarrow> ('b, 'w) loads \<Rightarrow> ('b, 'w) loads" where
  "update_loads cfg [] load = load"
| "update_loads cfg ((backer, backed) # fw) load =
     (let entry = (case load backer of None \<Rightarrow> 0 | Some l \<Rightarrow> l)
      in update_loads cfg fw (load(backer \<mapsto> entry + contribution cfg backed)))"

lemma remove_first_length: "remove_first c rem = Some (fw, rem') \<Longrightarrow> length rem' < length rem"
  by (induction rem arbitrary: fw rem') (auto split: if_splits)

function phragmen_loop ::
  "'w::{zero, plus, times, linorder} phragmen_config \<Rightarrow> ('c \<times> ('b \<times> 'w) list) list \<Rightarrow>
     ('b, 'w) loads \<Rightarrow> 'c list \<Rightarrow> 'c list option" where
  "phragmen_loop cfg remaining load ranking =
     (if remaining = [] then Some ranking
      else case best_loop cfg load remaining None of
        None \<Rightarrow> None
      | Some None \<Rightarrow> None
      | Some (Some (best_candidate, _)) \<Rightarrow>
          (case remove_first best_candidate remaining of
             None \<Rightarrow> None
           | Some (fw, remaining') \<Rightarrow>
               phragmen_loop cfg remaining' (update_loads cfg fw load) (ranking @ [best_candidate])))"
  by pat_completeness auto
termination
  by (relation "measure (\<lambda>(_, remaining, _, _). length remaining)") (auto dest: remove_first_length)

definition phragmen_model ::
  "'w::{zero, plus, times, linorder} phragmen_config \<Rightarrow> ('c \<times> ('b \<times> 'w) list) list \<Rightarrow> 'c list option" where
  "phragmen_model cfg input = phragmen_loop cfg input (init_loads input Map.empty) []"

declare phragmen_loop.simps [simp del]

section \<open>The max-min load model\<close>

fun mm_max_load :: "('b, 'w::{plus, linorder}) loads \<Rightarrow> ('b \<times> 'w) list \<Rightarrow> 'w \<Rightarrow> 'w option" where
  "mm_max_load load [] max_load = Some max_load"
| "mm_max_load load ((backer, backed) # fw) max_load =
     (case load backer of
        None \<Rightarrow> None
      | Some l \<Rightarrow>
          let new_load = l + backed
          in mm_max_load load fw (if new_load > max_load then new_load else max_load))"

fun mm_best ::
  "('b, 'w::{zero, plus, linorder}) loads \<Rightarrow> ('c \<times> ('b \<times> 'w) list) list \<Rightarrow> ('c \<times> 'w) option \<Rightarrow>
     ('c \<times> 'w) option option" where
  "mm_best load [] best = Some best"
| "mm_best load ((candidate, fw) # rest) best =
     (case mm_max_load load fw 0 of
        None \<Rightarrow> None
      | Some max_load \<Rightarrow>
          mm_best load rest
            (case best of
               None \<Rightarrow> Some (candidate, max_load)
             | Some (_, min_max_load) \<Rightarrow>
                 if max_load < min_max_load then Some (candidate, max_load) else best))"

fun mm_update :: "('b \<times> 'w::{zero, plus}) list \<Rightarrow> ('b, 'w) loads \<Rightarrow> ('b, 'w) loads" where
  "mm_update [] load = load"
| "mm_update ((backer, backed) # fw) load =
     (let entry = (case load backer of None \<Rightarrow> 0 | Some l \<Rightarrow> l)
      in mm_update fw (load(backer \<mapsto> entry + backed)))"

function max_min_loop ::
  "('c \<times> ('b \<times> 'w::{zero, plus, linorder}) list) list \<Rightarrow> ('b, 'w) loads \<Rightarrow> 'c list \<Rightarrow> 'c list option" where
  "max_min_loop remaining load ranking =
     (if remaining = [] then Some ranking
      else case mm_best load remaining None of
        None \<Rightarrow> None
      | Some None \<Rightarrow> None
      | Some (Some (best_candidate, _)) \<Rightarrow>
          (case remove_first best_candidate remaining of
             None \<Rightarrow> None
           | Some (fw, remaining') \<Rightarrow>
               max_min_loop remaining' (mm_update fw load) (ranking @ [best_candidate])))"
  by pat_completeness auto
termination
  by (relation "measure (\<lambda>(remaining, _, _). length remaining)") (auto dest: remove_first_length)

definition max_min_load_model :: "('c \<times> ('b \<times> 'w::{zero, plus, linorder}) list) list \<Rightarrow> 'c list option" where
  "max_min_load_model input = max_min_loop input (init_loads input Map.empty) []"

declare max_min_loop.simps [simp del]

section \<open>The greedy specification\<close>

text \<open>Loads as a total function, and the selections spelt out.\<close>

definition total_loads :: "('b, 'w::zero) loads \<Rightarrow> 'b \<Rightarrow> 'w" where
  "total_loads load = (\<lambda>b. case load b of None \<Rightarrow> 0 | Some l \<Rightarrow> l)"

fun peak :: "'w::{plus, times, linorder} phragmen_config \<Rightarrow> ('b \<Rightarrow> 'w) \<Rightarrow> ('b \<times> 'w) list \<Rightarrow> 'w \<Rightarrow> 'w" where
  "peak cfg L [] m = m"
| "peak cfg L ((b, x) # fw) m = peak cfg L fw (max m (L b + contribution cfg x))"

fun add_loads :: "'w::{plus, times} phragmen_config \<Rightarrow> ('b \<times> 'w) list \<Rightarrow> ('b \<Rightarrow> 'w) \<Rightarrow> 'b \<Rightarrow> 'w" where
  "add_loads cfg [] L = L"
| "add_loads cfg ((b, x) # fw) L = add_loads cfg fw (L(b := L b + contribution cfg x))"

fun greedy ::
  "'w::{zero, plus, times, linorder} phragmen_config \<Rightarrow> ('b \<Rightarrow> 'w) \<Rightarrow> ('c \<times> ('b \<times> 'w) list) list \<Rightarrow> bool" where
  "greedy cfg L [] = True"
| "greedy cfg L ((c, fw) # es) =
     ((\<forall>(_, fw') \<in> set es. peak cfg L fw 0 \<le> peak cfg L fw' 0) \<and> greedy cfg (add_loads cfg fw L) es)"

definition covers :: "('b, 'w) loads \<Rightarrow> ('c \<times> ('b \<times> 'w) list) list \<Rightarrow> bool" where
  "covers load rem \<longleftrightarrow> (\<forall>(c, fw) \<in> set rem. fst ` set fw \<subseteq> dom load)"

lemma coversI:
  "(\<And>c fw b. (c, fw) \<in> set rem \<Longrightarrow> b \<in> fst ` set fw \<Longrightarrow> b \<in> dom load) \<Longrightarrow> covers load rem"
  unfolding covers_def by blast

lemma coversD: "covers load rem \<Longrightarrow> (c, fw) \<in> set rem \<Longrightarrow> fst ` set fw \<subseteq> dom load"
  unfolding covers_def by blast

lemma init_loads_of_dom: "dom (init_loads_of fw load) = dom load \<union> fst ` set fw"
  by (induction fw load rule: init_loads_of.induct) auto

lemma init_loads_dom: "dom (init_loads rem load) = dom load \<union> (\<Union>(c, fw) \<in> set rem. fst ` set fw)"
  by (induction rem load rule: init_loads.induct) (auto simp: init_loads_of_dom)

lemma init_loads_of_zero: "(\<And>b. total_loads load b = 0) \<Longrightarrow> total_loads (init_loads_of fw load) b = 0"
  by (induction fw load rule: init_loads_of.induct) (auto simp: total_loads_def)

lemma init_loads_zero: "(\<And>b. total_loads load b = 0) \<Longrightarrow> total_loads (init_loads rem load) b = 0"
  by (induction rem load rule: init_loads.induct) (auto simp: init_loads_of_zero)

lemma total_loads_init: "total_loads (init_loads rem Map.empty) = (\<lambda>_. 0)"
  by (rule ext, rule init_loads_zero) (simp add: total_loads_def)

lemma covers_init: "covers (init_loads rem load) rem"
  by (auto simp: covers_def init_loads_dom)

lemma max_load_total:
  "fst ` set fw \<subseteq> dom load \<Longrightarrow> max_load_loop cfg load fw m = Some (peak cfg (total_loads load) fw m)"
proof (induction fw arbitrary: m)
  case (Cons p fw)
  obtain b x where p: "p = (b, x)" by (cases p)
  from Cons.prems p obtain l where l: "load b = Some l" by auto
  then have "total_loads load b = l" by (simp add: total_loads_def)
  moreover have "(if n > m then n else m) = max m n" for n by (auto simp: max_def)
  ultimately show ?case using Cons p l by (simp add: Let_def)
qed simp

lemma update_total: "total_loads (update_loads cfg fw load) = add_loads cfg fw (total_loads load)"
proof (induction fw arbitrary: load)
  case (Cons p fw)
  obtain b x where p: "p = (b, x)" by (cases p)
  have "total_loads (load(b \<mapsto> v)) = (total_loads load)(b := v)" for v
    by (auto simp: total_loads_def)
  moreover have "(case load b of None \<Rightarrow> 0 | Some l \<Rightarrow> l) = total_loads load b"
    by (simp add: total_loads_def)
  ultimately show ?case using Cons by (simp add: p Let_def del: fun_upd_apply)
qed simp

lemma update_dom: "dom load \<subseteq> dom (update_loads cfg fw load)"
proof (induction fw arbitrary: load)
  case (Cons p fw)
  obtain b x where p: "p = (b, x)" by (cases p)
  have "dom load \<subseteq> dom (update_loads cfg fw (load(b \<mapsto> v)))" for v
    by (rule subset_trans [OF _ Cons.IH]) auto
  then show ?case by (simp add: p Let_def del: fun_upd_apply)
qed simp

lemma best_loop_spec:
  assumes "covers load rem"
  shows "\<exists>c m. best_loop cfg load rem (Some (c0, m0)) = Some (Some (c, m)) \<and> m \<le> m0
    \<and> (\<forall>(d, fw) \<in> set rem. m \<le> peak cfg (total_loads load) fw 0)
    \<and> ((c, m) = (c0, m0) \<or> (\<exists>fw. (c, fw) \<in> set rem \<and> m = peak cfg (total_loads load) fw 0))"
  using assms
proof (induction rem arbitrary: c0 m0)
  case (Cons p rem)
  obtain d fw where p: "p = (d, fw)" by (cases p)
  let ?n = "peak cfg (total_loads load) fw 0"
  have max: "max_load_loop cfg load fw 0 = Some ?n"
    using Cons.prems by (intro max_load_total) (auto simp: covers_def p)
  have cov: "covers load rem" using Cons.prems by (auto simp: covers_def)
  show ?case
  proof (cases "?n < m0")
    case True
    with Cons.IH [OF cov, of d ?n] max show ?thesis by (fastforce simp: p)
  next
    case False
    with Cons.IH [OF cov, of c0 m0] max show ?thesis by (fastforce simp: p)
  qed
qed simp

lemma best_loop_first:
  assumes "covers load rem" and "rem \<noteq> []"
  obtains c m fw where "best_loop cfg load rem None = Some (Some (c, m))" "(c, fw) \<in> set rem"
    "m = peak cfg (total_loads load) fw 0" "\<And>d fw'. (d, fw') \<in> set rem \<Longrightarrow> m \<le> peak cfg (total_loads load) fw' 0"
proof -
  obtain d fw rest where rem: "rem = (d, fw) # rest" using assms(2) by (cases rem) auto
  let ?n = "peak cfg (total_loads load) fw 0"
  have max: "max_load_loop cfg load fw 0 = Some ?n"
    using assms(1) by (intro max_load_total) (auto simp: covers_def rem)
  have cov: "covers load rest" using assms(1) by (auto simp: covers_def rem)
  from best_loop_spec [OF cov, of cfg d ?n] obtain c m where b:
    "best_loop cfg load rest (Some (d, ?n)) = Some (Some (c, m))" "m \<le> ?n"
    "\<forall>(e, fw') \<in> set rest. m \<le> peak cfg (total_loads load) fw' 0"
    "(c, m) = (d, ?n) \<or> (\<exists>fw'. (c, fw') \<in> set rest \<and> m = peak cfg (total_loads load) fw' 0)"
    by blast
  then obtain fw' where "(c, fw') \<in> set rem" "m = peak cfg (total_loads load) fw' 0"
    by (auto simp: rem)
  with b max show thesis by (intro that [of c m fw']) (auto simp: rem)
qed

lemma remove_first_mset:
  "remove_first c rem = Some (fw, rem') \<Longrightarrow> mset rem = add_mset (c, fw) (mset rem')"
  by (induction rem arbitrary: fw rem') (auto split: if_splits)

lemma remove_first_set: "remove_first c rem = Some (fw, rem') \<Longrightarrow> set rem = insert (c, fw) (set rem')"
  by (drule remove_first_mset) (metis set_mset_add_mset_insert set_mset_mset)

lemma remove_first_member: "(c, fw) \<in> set rem \<Longrightarrow> \<exists>fw' rem'. remove_first c rem = Some (fw', rem')"
  by (induction rem) auto

lemma remove_first_distinct:
  "(c, fw) \<in> set rem \<Longrightarrow> distinct (map fst rem) \<Longrightarrow> \<exists>rem'. remove_first c rem = Some (fw, rem')"
proof -
  assume mem: "(c, fw) \<in> set rem" and dist: "distinct (map fst rem)"
  obtain fw' rem' where rm: "remove_first c rem = Some (fw', rem')"
    using remove_first_member [OF mem] by blast
  then have "(c, fw') \<in># mset rem" by (simp add: remove_first_mset)
  then have "fw' = fw" using mem dist by (auto dest: eq_key_imp_eq_value)
  with rm show ?thesis by blast
qed

text \<open>One selection.\<close>

lemma phragmen_select:
  assumes "covers load rem" and "rem \<noteq> []"
  obtains c fw rem' where
    "phragmen_loop cfg rem load rk = phragmen_loop cfg rem' (update_loads cfg fw load) (rk @ [c])"
    "mset rem = add_mset (c, fw) (mset rem')" "covers (update_loads cfg fw load) rem'"
    "distinct (map fst rem) \<Longrightarrow> \<forall>(d, fw') \<in> set rem. peak cfg (total_loads load) fw 0 \<le> peak cfg (total_loads load) fw' 0"
proof -
  obtain c m fw where best: "best_loop cfg load rem None = Some (Some (c, m))" "(c, fw) \<in> set rem"
    "m = peak cfg (total_loads load) fw 0" "\<And>d fw'. (d, fw') \<in> set rem \<Longrightarrow> m \<le> peak cfg (total_loads load) fw' 0"
    using best_loop_first [OF assms, where cfg = cfg] by metis
  obtain fw2 rem' where rm: "remove_first c rem = Some (fw2, rem')"
    using remove_first_member [OF best(2)] by blast
  have ms: "mset rem = add_mset (c, fw2) (mset rem')" by (rule remove_first_mset [OF rm])
  have sub: "set rem' \<subseteq> set rem" using remove_first_set [OF rm] by auto
  have cov: "covers (update_loads cfg fw2 load) rem'"
  proof (rule coversI)
    fix d fw' b
    assume "(d, fw') \<in> set rem'" and b: "b \<in> fst ` set fw'"
    then have "(d, fw') \<in> set rem" using sub by auto
    from coversD [OF assms(1) this] b have "b \<in> dom load" by (rule subsetD)
    then show "b \<in> dom (update_loads cfg fw2 load)" using update_dom by (rule rev_subsetD)
  qed
  have "fw2 = fw" if "distinct (map fst rem)"
    using remove_first_distinct [OF best(2) that] rm by auto
  with best rm ms cov assms(2) show thesis
    by (intro that [of rem' fw2 c]) (auto simp: phragmen_loop.simps [of cfg rem])
qed

lemma phragmen_loop_ranks:
  "covers load rem \<Longrightarrow> \<exists>r. phragmen_loop cfg rem load rk = Some (rk @ r) \<and> mset r = mset (map fst rem)"
proof (induction "length rem" arbitrary: rem load rk)
  case 0
  then show ?case by (simp add: phragmen_loop.simps)
next
  case (Suc n)
  then have "rem \<noteq> []" by auto
  then obtain c fw rem' where sel:
    "phragmen_loop cfg rem load rk = phragmen_loop cfg rem' (update_loads cfg fw load) (rk @ [c])"
    "mset rem = add_mset (c, fw) (mset rem')" "covers (update_loads cfg fw load) rem'"
    using phragmen_select [OF Suc.prems] by metis
  have "n = length rem'" using Suc.hyps(2) sel(2) by (metis size_mset size_add_mset nat.inject)
  from Suc.hyps(1) [OF this sel(3), of "rk @ [c]"] obtain r where
    "phragmen_loop cfg rem load rk = Some (rk @ c # r)" "mset r = mset (map fst rem')"
    by (auto simp: sel(1))
  then show ?case using sel(2) by (intro exI [of _ "c # r"]) (simp add: mset_map)
qed

lemma phragmen_loop_greedy:
  "covers load rem \<Longrightarrow> distinct (map fst rem) \<Longrightarrow>
     \<exists>es. phragmen_loop cfg rem load rk = Some (rk @ map fst es) \<and> mset es = mset rem
        \<and> greedy cfg (total_loads load) es"
proof (induction "length rem" arbitrary: rem load rk)
  case 0
  then show ?case by (simp add: phragmen_loop.simps)
next
  case (Suc n)
  then have "rem \<noteq> []" by auto
  then obtain c fw rem' where sel:
    "phragmen_loop cfg rem load rk = phragmen_loop cfg rem' (update_loads cfg fw load) (rk @ [c])"
    "mset rem = add_mset (c, fw) (mset rem')" "covers (update_loads cfg fw load) rem'"
    "\<forall>(d, fw') \<in> set rem. peak cfg (total_loads load) fw 0 \<le> peak cfg (total_loads load) fw' 0"
    using phragmen_select [OF Suc.prems(1)] Suc.prems(2) by metis
  have len: "n = length rem'" using Suc.hyps(2) sel(2) by (metis size_mset size_add_mset nat.inject)
  have "mset (map fst rem) = mset (c # map fst rem')" using sel(2) by (simp add: mset_map)
  then have "distinct (map fst rem')" using Suc.prems(2) by (metis distinct.simps(2) mset_eq_imp_distinct_iff)
  from Suc.hyps(1) [OF len sel(3) this, of "rk @ [c]"] obtain es where es:
    "phragmen_loop cfg rem load rk = Some (rk @ c # map fst es)" "mset es = mset rem'"
    "greedy cfg (add_loads cfg fw (total_loads load)) es"
    by (auto simp: sel(1) update_total)
  have "set es \<subseteq> set rem" using es(2) sel(2) by (metis mset_eq_setD set_mset_add_mset_insert set_mset_mset subset_insertI)
  then have "greedy cfg (total_loads load) ((c, fw) # es)" using sel(4) es(3) by auto
  then show ?case using es(1,2) sel(2) by (intro exI [of _ "(c, fw) # es"]) simp
qed

section \<open>The max-min model is unweighted Phragmen\<close>

lemma unweighted_contribution [simp]: "contribution \<lparr>ph_weighted = False, ph_scale = scale\<rparr> x = x"
  by (simp add: contribution_def)

lemma mm_max_load_eq: "mm_max_load load fw m = max_load_loop \<lparr>ph_weighted = False, ph_scale = scale\<rparr> load fw m"
  by (induction load fw m rule: mm_max_load.induct) (auto simp: Let_def split: option.split)

lemma mm_best_eq: "mm_best load rem best = best_loop \<lparr>ph_weighted = False, ph_scale = scale\<rparr> load rem best"
  by (induction load rem best rule: mm_best.induct) (auto simp: mm_max_load_eq [where scale = scale] split: option.split)

lemma mm_update_eq: "mm_update fw load = update_loads \<lparr>ph_weighted = False, ph_scale = scale\<rparr> fw load"
  by (induction fw load rule: mm_update.induct) (simp_all add: Let_def del: fun_upd_apply)

lemma max_min_loop_eq: "max_min_loop rem load rk = phragmen_loop \<lparr>ph_weighted = False, ph_scale = scale\<rparr> rem load rk"
proof (induction "length rem" arbitrary: rem load rk rule: less_induct)
  case less
  then show ?case
    by (subst max_min_loop.simps, subst phragmen_loop.simps)
       (auto simp: mm_best_eq [where scale = scale] mm_update_eq [where scale = scale] dest!: remove_first_length split: option.split)
qed

section \<open>Properties\<close>

text \<open>C20: The Phragmen model always ends without a panic and ranks every candidate of the input
  exactly as often as it occurs.\<close>
theorem phragmen_ranks_all:
  "\<exists>ranking. phragmen_model cfg input = Some ranking \<and> mset ranking = mset (map fst input)"
  using phragmen_loop_ranks [OF covers_init, of cfg input Map.empty "[]"]
  by (auto simp: phragmen_model_def)

text \<open>C19: With distinct candidates the Phragmen ranking is greedy: every selected candidate
  imposes the smallest maximal load among those not yet ranked, for the loads that the candidates
  ranked before it have left.\<close>
theorem phragmen_greedy:
  assumes "distinct (map fst input)"
  shows "\<exists>es. phragmen_model cfg input = Some (map fst es) \<and> mset es = mset input
    \<and> greedy cfg (\<lambda>_. 0) es"
  using phragmen_loop_greedy [OF covers_init assms, of cfg Map.empty "[]"]
  by (simp add: phragmen_model_def total_loads_init)

text \<open>The max-min load model and the unweighted Phragmen model rank alike.\<close>
theorem max_min_is_unweighted_phragmen:
  "max_min_load_model input =
     phragmen_model \<lparr>ph_weighted = False, ph_scale = scale\<rparr> input"
  by (simp add: max_min_load_model_def phragmen_model_def max_min_loop_eq [where scale = scale])

theorem phragmen_greedy_witness:
  "let cfg = \<lparr>ph_weighted = True, ph_scale = Some (2 :: nat)\<rparr>;
       input = [(''a'', [(1 :: nat, 5 :: nat), (2, 1)]), (''b'', [(2, 3)])]
   in \<exists>es. phragmen_model cfg input = Some (map fst es) \<and> mset es = mset input \<and> greedy cfg (\<lambda>_. 0) es"
  unfolding Let_def by (rule phragmen_greedy) simp

end
