(* ===== verification/PluginModels.thy ===== *)
theory PluginModels
  imports Prelude
begin

text \<open>
  The value transformations of \<open>frame/plugins/src/penalty.rs\<close> and the order-only models of
  \<open>frame/plugins/src/influence.rs\<close>. A \<open>PenaltyList\<close> is the list its iterator yields; the Rust
  bound \<open>PartialOrd\<close> is the class \<open>ord\<close>, and the properties are stated for total orders. The
  influence models on fixed-point functions are in \<open>FixedModels\<close>.
\<close>

section \<open>Penalties\<close>

record 'w threshold_penalty_config =
  tp_threshold :: 'w

record 'w capped_penalty_config =
  cp_floor :: 'w
  cp_cap :: 'w

fun threshold_penalty_loop ::
  "'w::{zero, ord} threshold_penalty_config \<Rightarrow> ('id \<times> 'w) list \<Rightarrow> ('id \<times> 'w) list \<Rightarrow> ('id \<times> 'w) list" where
  "threshold_penalty_loop cfg [] result = result"
| "threshold_penalty_loop cfg ((i, penalty) # rest) result =
     (if penalty = 0 then threshold_penalty_loop cfg rest result
      else let actual = penalty > tp_threshold cfg;
               new_penalty = (if actual then tp_threshold cfg else penalty)
           in threshold_penalty_loop cfg rest (result @ [(i, new_penalty)]))"

definition threshold_penalty ::
  "'w::{zero, ord} threshold_penalty_config \<Rightarrow> ('id \<times> 'w) list \<Rightarrow> ('id \<times> 'w) list" where
  "threshold_penalty cfg input = threshold_penalty_loop cfg input []"

fun capped_penalty_loop ::
  "'w::{zero, ord} capped_penalty_config \<Rightarrow> ('id \<times> 'w) list \<Rightarrow> ('id \<times> 'w) list \<Rightarrow> ('id \<times> 'w) list" where
  "capped_penalty_loop cfg [] result = result"
| "capped_penalty_loop cfg ((i, penalty) # rest) result =
     (if penalty = 0 then capped_penalty_loop cfg rest result
      else let adjusted = (if penalty > cp_cap cfg then cp_cap cfg
                           else if penalty < cp_floor cfg then cp_floor cfg
                           else penalty)
           in capped_penalty_loop cfg rest (result @ [(i, adjusted)]))"

definition capped_penalty ::
  "'w::{zero, ord} capped_penalty_config \<Rightarrow> ('id \<times> 'w) list \<Rightarrow> ('id \<times> 'w) list" where
  "capped_penalty cfg input = capped_penalty_loop cfg input []"

section \<open>Influence\<close>

record 'w binary_config =
  bin_pass_threshold :: 'w
  bin_pass_value :: 'w
  bin_fail_value :: 'w

definition linear_model :: "'w \<Rightarrow> 'w" where
  "linear_model input = input"

definition threshold_model :: "'w::{zero, ord} \<Rightarrow> 'w \<Rightarrow> 'w" where
  "threshold_model threshold input = (if input \<ge> threshold then input else 0)"

definition binary_model :: "'w::ord binary_config \<Rightarrow> 'w \<Rightarrow> 'w" where
  "binary_model cfg input =
     (let outcome = input \<ge> bin_pass_threshold cfg
      in if outcome then bin_pass_value cfg else bin_fail_value cfg)"

definition capped_linear_model :: "'w::ord \<Rightarrow> 'w \<Rightarrow> 'w" where
  "capped_linear_model max_influence input =
     (let result = input > max_influence in if result then max_influence else input)"

section \<open>Properties\<close>

lemma threshold_penalty_loop_map:
  fixes cfg :: "'w::{zero, linorder} threshold_penalty_config"
  shows "threshold_penalty_loop cfg input result =
     result @ map (\<lambda>(i, p). (i, min p (tp_threshold cfg))) (filter (\<lambda>(_, p). p \<noteq> 0) input)"
  by (induction cfg input result rule: threshold_penalty_loop.induct) (auto simp: Let_def min_def)

lemma capped_penalty_loop_map:
  fixes cfg :: "'w::{zero, linorder} capped_penalty_config"
  shows "capped_penalty_loop cfg input result =
     result @ map (\<lambda>(i, p). (i, if cp_cap cfg < p then cp_cap cfg else max (cp_floor cfg) p))
       (filter (\<lambda>(_, p). p \<noteq> 0) input)"
  by (induction cfg input result rule: capped_penalty_loop.induct) (auto simp: Let_def max_def)

text \<open>The threshold model drops the zero penalties and caps every other one at the threshold;
  the capped model drops the zero penalties and, when the floor is not above the cap, brings every
  other one into the range from floor to cap; both keep order and identities.\<close>
theorem penalties_clamped:
  fixes t :: "'w::{zero, linorder}" and input :: "('id \<times> 'w) list"
  assumes "lo \<le> hi"
  shows "threshold_penalty \<lparr>tp_threshold = t\<rparr> input =
      map (\<lambda>(i, p). (i, min p t)) (filter (\<lambda>(_, p). p \<noteq> 0) input)
    \<and> capped_penalty \<lparr>cp_floor = lo, cp_cap = hi\<rparr> input =
      map (\<lambda>(i, p). (i, max lo (min p hi))) (filter (\<lambda>(_, p). p \<noteq> 0) input)"
proof -
  have "(if hi < p then hi else max lo p) = max lo (min p hi)" for p
    using assms by (auto simp: max_def min_def)
  then show ?thesis
    unfolding threshold_penalty_def capped_penalty_def threshold_penalty_loop_map
      capped_penalty_loop_map append_Nil threshold_penalty_config.simps capped_penalty_config.simps
    by (simp only: simp_thms)
qed

theorem penalties_clamped_witness:
  "threshold_penalty \<lparr>tp_threshold = 50\<rparr> [(''a'', 10), (''b'', 80 :: nat)] = [(''a'', 10), (''b'', 50)]
   \<and> capped_penalty \<lparr>cp_floor = 10, cp_cap = 50\<rparr> [(''a'', 5), (''b'', 100 :: nat)] = [(''a'', 10), (''b'', 50)]"
  using penalties_clamped [of "10 :: nat" 50 50 "[(''a'', 10), (''b'', 80 :: nat)]"]
    penalties_clamped [of "10 :: nat" 50 50 "[(''a'', 5), (''b'', 100 :: nat)]"]
  by simp

text \<open>The documented formula \<open>max(floor, min(p, cap))\<close> is not the code's when the floor is above
  the cap: a penalty above the cap becomes the cap, not the floor.\<close>
lemma capped_penalty_inverted:
  "capped_penalty \<lparr>cp_floor = 50, cp_cap = 10\<rparr> [(''a'', 30 :: nat)] = [(''a'', 10)]
   \<and> max 50 (min 30 10) = (50 :: nat)"
  by (simp add: capped_penalty_def)

text \<open>The order-only influence models are monotone in their input, the linear and the capped
  model never exceed it, and the capped model never exceeds its cap.\<close>
theorem influence_monotone:
  fixes x y :: "'w::{zero, linorder}"
  assumes "x \<le> y" and "0 \<le> x" and "bin_fail_value bin \<le> bin_pass_value bin"
  shows "linear_model x \<le> linear_model y
    \<and> threshold_model t x \<le> threshold_model t y
    \<and> binary_model bin x \<le> binary_model bin y
    \<and> capped_linear_model c x \<le> capped_linear_model c y
    \<and> capped_linear_model c x = min x c"
  using assms
  by (auto simp: linear_model_def threshold_model_def binary_model_def capped_linear_model_def Let_def
        min_def)

theorem influence_monotone_witness:
  "capped_linear_model 5 (3 :: nat) \<le> capped_linear_model 5 9"
  using influence_monotone [of "3 :: nat" 9 "\<lparr>bin_pass_threshold = 4, bin_pass_value = 1, bin_fail_value = 0\<rparr>" 0 5]
  by simp

end
