(* ===== verification/CommitTypes.thy ===== *)
theory CommitTypes
  imports XpFungible SharePool
begin

text \<open>
  Data of the commitment pallet (\<open>pallets/commitment/src/types.rs\<close>): the variant balances of a
  digest, the instances of a commitment, indexes with their entries, pools with their slots, and
  the inherent operations of each. The pallet's errors are those of \<open>lib.rs\<close>.

  The widths are the runtime's (\<open>runtime/src/configs/mod.rs\<close>): assets are the 128-bit points of
  the XP pallet, shares are \<open>u64\<close>, the bias is \<open>FixedU64\<close>, time is \<open>u32\<close>, the position is
  \<open>Disposition\<close>. Digests are of an abstract type \<open>'d\<close>. A bounded vector is a list whose bound
  is an argument of the operations that check it. An operation on a mutable structure is an \<open>op\<close>
  on that structure, so what it wrote before an error is kept.
\<close>

section \<open>Errors\<close>

datatype (plugins only:) commit_error =
    DigestNotFoundToDetermine | InsufficientFunds | CommitAlreadyExists | CannotGenerateDigest
  | MarkerCommitNotAllowed | CommitNotFound | DigestNotFound | IndexNotFound
  | EntryOfIndexNotFound | IndexDigestTaken | DigestHasFunds | IndexHasFunds | PoolNotFound
  | SlotOfPoolNotFound | PoolManagerNotFound | PoolDigestTaken | PoolHasFunds
  | DigestVariantBalanceNotFound | MaxAssetIssued | MaxAssetReaped | ShareCannotBeZero
  | CapitalCannotBeZero | ShareGreaterThanCapital | MintingMoreThanIssued
  | BurningMoreThanReapable | ExpectsHoldWithdrawal | ReserveLiquidOverflow
  | ExpectsFreezeAndHoldWithdrawal | InvalidDigestModel | VariantsExhausted | TooSmallShareValue
  | DepositDeriveOverflowed | FactorGreaterThanOne | MaxIndexCapacityReached
  | CommitNotFoundForEntry | CommitNotFoundForSlot | CommitNotFoundForPool
  | DepositAccumulationExhausted | EntryDigestNotFound | WithdrawAccumulationExhausted
  | CommitsAccumulationExhausted | ReleasePoolToRecover | EmptySlotsNotAllowed
  | CapitalUnderflowed | CapitalOverflowed | MaxSlotsReached | SlotDigestNotFound
  | MaxCommitsReached | MaxEntriesReached | CommitsNotFoundForReason | IndexBalanceUnderflow
  | InvalidCommitVariantIndex | ZeroMaxCommits | TriedCreatingHaltedIndexes
  | EmptyEntriesNotAllowed | EmptyCommitsNotAllowed | DuplicateEntry | DuplicateSlot
  | CommitConstructionFailed | EntryCommitNotFound | CorruptedPlugin | DerivedLessThanZeroValue
  | WithdrawalOverflow | CommissionOverflow | PoolUnsupported | MintingOffLimits
  | ReapingOffLimits | PlacingOffLimits | RaisingOffLimits | EntryDigestNotInitiated
  | SlotDigestNotInitiated

instantiation commit_error :: equal
begin

definition equal_commit_error :: "commit_error \<Rightarrow> commit_error \<Rightarrow> bool" where
  "equal_commit_error x y \<longleftrightarrow> x = y"

instance
  by standard (simp add: equal_commit_error_def)

end

text \<open>\<open>DispatchError\<close> as the pallet produces it: its own module error, an error of the balance
  plugin (converted to \<open>Other\<close> of its name), the arithmetic errors of the default methods, and an
  error of the asset, which it passes on.\<close>

datatype commit_failure =
    CommitModule commit_error | Other string | ArithmeticOverflow | ArithmeticUnderflow
  | AssetFailed dispatch_error

section \<open>Scalars, policies and positions\<close>

type_synonym asset = u128
type_synonym commit_shares = u64
type_synonym commission = u32
type_synonym lazy_balance = "(128, 64, 32) lazy_virtual"
type_synonym commit_instance = "(128, 64, 32) lazy_virtual"

datatype disposition = Affirmative | Contrary | Awaiting

definition variant_count :: nat where
  "variant_count = 3"

fun position_index :: "disposition \<Rightarrow> nat" where
  "position_index Affirmative = 0"
| "position_index Contrary = 1"
| "position_index Awaiting = 2"

definition position_of :: "nat \<Rightarrow> disposition option" where
  "position_of i =
     (if i = 0 then Some Affirmative else if i = 1 then Some Contrary
      else if i = 2 then Some Awaiting else None)"

definition position_default :: disposition where
  "position_default = Affirmative"

record dispatch_policy =
  dp_precise :: bool
  dp_force :: bool

definition policy_precision :: "dispatch_policy \<Rightarrow> precision" where
  "policy_precision q = (if dp_precise q then Exact else BestEffort)"

definition policy_fortitude :: "dispatch_policy \<Rightarrow> fortitude" where
  "policy_fortitude q = (if dp_force q then Force else Polite)"

definition policy_new :: "precision \<Rightarrow> fortitude \<Rightarrow> dispatch_policy" where
  "policy_new p f = \<lparr>dp_precise = (p = Exact), dp_force = (f = Force)\<rparr>"

datatype precision_wrapper = WrapExact | WrapBestEffort

fun wrapped_precision :: "precision_wrapper \<Rightarrow> precision" where
  "wrapped_precision WrapExact = Exact"
| "wrapped_precision WrapBestEffort = BestEffort"

section \<open>Limits of a balance operation\<close>

type_synonym limits_product = "asset sum_dyn"

definition limits_default :: limits_product where
  "limits_default = sum_dyn_default"

definition limits_minimum :: "limits_product \<Rightarrow> asset option" where
  "limits_minimum = index_get (\<lambda>x. x) 0"

definition limits_maximum :: "limits_product \<Rightarrow> asset option" where
  "limits_maximum = index_get (\<lambda>x. x) 1"

definition limits_optimal :: "limits_product \<Rightarrow> asset option" where
  "limits_optimal = index_get (\<lambda>x. x) 3"

definition limits_contains :: "limits_product \<Rightarrow> asset \<Rightarrow> bool" where
  "limits_contains l v =
     (if (case limits_minimum l of Some lo \<Rightarrow> v < lo | None \<Rightarrow> False) then False
      else if (case limits_maximum l of Some hi \<Rightarrow> v > hi | None \<Rightarrow> False) then False
      else True)"

section \<open>Bounded vectors\<close>

definition try_push :: "nat \<Rightarrow> 'e \<Rightarrow> 'a \<Rightarrow> ('a list, 'e, unit) op" where
  "try_push bound e x = (\<lambda>v. if length v < bound then (Inr (), v @ [x]) else (Inl e, v))"

definition try_bounded :: "nat \<Rightarrow> 'e \<Rightarrow> 'a list \<Rightarrow> 'e + 'a list" where
  "try_bounded bound e v = (if length v \<le> bound then Inr v else Inl e)"

text \<open>\<open>seen.insert\<close> over the digests of a vector: the first repetition is an error.\<close>

fun insert_all :: "'e \<Rightarrow> 'd set \<Rightarrow> 'd list \<Rightarrow> 'e + unit" where
  "insert_all e seen [] = Inr ()"
| "insert_all e seen (d # ds) =
     bindE (ensureE (d \<notin> seen) e) (\<lambda>_. insert_all e (insert d seen) ds)"

fun first_position :: "('a \<Rightarrow> bool) \<Rightarrow> 'a list \<Rightarrow> nat option" where
  "first_position p [] = None"
| "first_position p (x # xs) = (if p x then Some 0 else map_option Suc (first_position p xs))"

fun last_position :: "('a \<Rightarrow> bool) \<Rightarrow> 'a list \<Rightarrow> nat option" where
  "last_position p [] = None"
| "last_position p (x # xs) =
     (case last_position p xs of Some i \<Rightarrow> Some (Suc i) | None \<Rightarrow> if p x then Some 0 else None)"

definition remove_at :: "nat \<Rightarrow> 'a list \<Rightarrow> 'a list" where
  "remove_at i xs = take i xs @ drop (Suc i) xs"

fun checked_sum :: "'e \<Rightarrow> 'w::len word \<Rightarrow> 'w word list \<Rightarrow> 'e + 'w word" where
  "checked_sum e acc [] = Inr acc"
| "checked_sum e acc (x # xs) =
     bindE (ok_orE e (checked_add acc x)) (\<lambda>acc'. checked_sum e acc' xs)"

lemma insert_all_iff: "insert_all e seen ds = Inr u \<longleftrightarrow> distinct ds \<and> set ds \<inter> seen = {}"
  by (induction ds arbitrary: seen) (auto simp: resultE_iffs)

lemma insert_all_error: "insert_all e seen ds = (if distinct ds \<and> set ds \<inter> seen = {} then Inr () else Inl e)"
  by (induction ds arbitrary: seen) (auto simp: ensureE_def)

lemma checked_sum_iff:
  "checked_sum e acc xs = Inr t \<longleftrightarrow> unat t = unat acc + sum_list (map unat xs)"
  by (induction xs arbitrary: acc) (auto simp: resultE_iffs arith_iffs word_unat_eq_iff, metis unat_of_nat_le add.assoc le_add1)

lemma first_position_Some:
  "first_position p xs = Some i \<Longrightarrow> i < length xs \<and> p (xs ! i) \<and> (\<forall>j<i. \<not> p (xs ! j))"
  by (induction xs arbitrary: i) (auto split: if_splits simp: less_Suc_eq_0_disj nth_Cons')

lemma first_position_None: "first_position p xs = None \<longleftrightarrow> (\<forall>x \<in> set xs. \<not> p x)"
  by (induction xs) auto

lemma last_position_None: "last_position p xs = None \<longleftrightarrow> (\<forall>x \<in> set xs. \<not> p x)"
  by (induction xs) (auto split: option.splits)

lemma last_position_Some: "last_position p xs = Some i \<Longrightarrow> i < length xs \<and> p (xs ! i)"
  by (induction xs arbitrary: i) (auto split: option.splits if_splits)

lemma remove_at_first:
  "first_position (\<lambda>x. f x = d) xs = Some i \<Longrightarrow> distinct (map f xs) \<Longrightarrow>
     remove_at i xs = filter (\<lambda>x. f x \<noteq> d) xs"
proof (induction xs arbitrary: i)
  case (Cons x xs)
  show ?case
  proof (cases "f x = d")
    case True
    from Cons.prems have "f x \<notin> f ` set xs" by simp
    with True have "\<forall>y \<in> set xs. f y \<noteq> d" by (metis imageI)
    then have "filter (\<lambda>x. f x \<noteq> d) xs = xs" by simp
    with True Cons.prems show ?thesis by (simp add: remove_at_def)
  next
    case False
    with Cons.prems obtain j where "i = Suc j" "first_position (\<lambda>x. f x = d) xs = Some j"
      by (auto split: if_splits)
    with False Cons show ?thesis by (simp add: remove_at_def)
  qed
qed simp

end
