(* ===== verification/CommitData.thy ===== *)
theory CommitData
  imports CommitTypes
begin

text \<open>
  The structures of the commitment pallet and their inherent operations, in the order of
  \<open>pallets/commitment/src/types.rs\<close>: the balances of a digest, the instances of a commitment,
  the entries of an index, the slots of a pool. The lemmas show the type invariants the code
  relies on (no empty collection, no repeated digest, no zero share, capital equal to the sum of
  the shares) and that every operation that succeeds keeps them.
\<close>

section \<open>The balances of a digest\<close>

type_synonym digest_info = "lazy_balance list"
type_synonym 'r digest_op = "(digest_info, commit_failure, 'r) op"

definition digest_info_default :: digest_info where
  "digest_info_default = []"

fun collect_balances ::
  "nat \<Rightarrow> digest_info \<Rightarrow> commit_failure + (disposition \<times> lazy_balance) list" where
  "collect_balances i [] = Inr []"
| "collect_balances i (b # bs) =
     (if b = product_default then collect_balances (Suc i) bs
      else bindE (ok_orE (CommitModule InvalidCommitVariantIndex) (position_of i)) (\<lambda>p.
           bindE (collect_balances (Suc i) bs) (\<lambda>rest. Inr ((p, b) # rest))))"

definition digest_balances ::
  "digest_info \<Rightarrow> commit_failure + (disposition \<times> lazy_balance) list" where
  "digest_balances info = collect_balances 0 info"

definition get_balance :: "disposition \<Rightarrow> digest_info \<Rightarrow> lazy_balance option" where
  "get_balance variant info =
     (let i = position_index variant in if i < length info then Some (info ! i) else None)"

text \<open>\<open>mut_balance\<close> hands out a reference; \<open>f\<close> is what the caller does through it.\<close>

definition mut_balance ::
  "disposition \<Rightarrow> (lazy_balance, commit_failure, 'r) op \<Rightarrow> 'r digest_op" where
  "mut_balance variant f =
     (\<lambda>info. let i = position_index variant in
        if i < length info
        then (case f (info ! i) of (r, b) \<Rightarrow> (r, info[i := b]))
        else (Inl (CommitModule DigestVariantBalanceNotFound), info))"

fun init_until :: "nat list \<Rightarrow> unit digest_op" where
  "init_until [] = ret ()"
| "init_until (i # is) =
     thenO (\<lambda>v. if i < length v then (Inr (), v)
            else try_push variant_count (CommitModule VariantsExhausted) product_default v)
           (init_until is)"

definition init_variant_balance :: "disposition \<Rightarrow> unit digest_op" where
  "init_variant_balance variant = init_until [0 ..< Suc (position_index variant)]"

section \<open>The instances of a commitment\<close>

definition commits_new :: "nat \<Rightarrow> commit_instance \<Rightarrow> commit_failure + commit_instance list" where
  "commits_new max_commits c =
     bindE (ensureE (max_commits \<noteq> 0) (CommitModule ZeroMaxCommits)) (\<lambda>_.
     try_bounded max_commits (CommitModule CommitConstructionFailed) [c])"

definition commits_add :: "nat \<Rightarrow> commit_instance \<Rightarrow> (commit_instance list, commit_failure, unit) op" where
  "commits_add max_commits c =
     (\<lambda>v. thenO (ensureO (v \<noteq> []) (CommitModule EmptyCommitsNotAllowed))
               (try_push max_commits (CommitModule MaxCommitsReached) c) v)"

record 'd commit_info =
  ci_digest :: 'd
  ci_commits :: "commit_instance list"
  ci_variant :: disposition

definition check_variant :: "disposition \<Rightarrow> commit_failure + unit" where
  "check_variant variant =
     bindE (ok_orE (CommitModule InvalidCommitVariantIndex) (position_of (position_index variant))) (\<lambda>p.
     ensureE (p = variant) (CommitModule InvalidCommitVariantIndex))"

definition commit_info_new ::
  "nat \<Rightarrow> 'd \<Rightarrow> commit_instance \<Rightarrow> disposition \<Rightarrow> commit_failure + 'd commit_info" where
  "commit_info_new max_commits digest c variant =
     bindE (commits_new max_commits c) (\<lambda>cs.
     bindE (check_variant variant) (\<lambda>_.
     Inr \<lparr>ci_digest = digest, ci_commits = cs, ci_variant = variant\<rparr>))"

definition commit_info_add :: "nat \<Rightarrow> commit_instance \<Rightarrow> ('d commit_info, commit_failure, unit) op" where
  "commit_info_add max_commits c =
     (\<lambda>ci. case commits_add max_commits c (ci_commits ci) of (r, cs) \<Rightarrow> (r, ci\<lparr>ci_commits := cs\<rparr>))"

section \<open>The entries of an index\<close>

record 'd entry_info =
  en_digest :: 'd
  en_shares :: commit_shares
  en_variant :: disposition

type_synonym 'd entries = "'d entry_info list"

definition entry_info_new ::
  "'d \<Rightarrow> commit_shares \<Rightarrow> disposition \<Rightarrow> commit_failure + 'd entry_info" where
  "entry_info_new digest sh variant =
     bindE (ensureE (sh \<noteq> 0) (CommitModule ShareCannotBeZero)) (\<lambda>_.
     bindE (check_variant variant) (\<lambda>_.
     Inr \<lparr>en_digest = digest, en_shares = sh, en_variant = variant\<rparr>))"

definition entries_new :: "nat \<Rightarrow> 'd entry_info list \<Rightarrow> commit_failure + 'd entries" where
  "entries_new max_entries es =
     bindE (ensureE (max_entries \<noteq> 0) (CommitModule TriedCreatingHaltedIndexes)) (\<lambda>_.
     bindE (ensureE (es \<noteq> []) (CommitModule EmptyEntriesNotAllowed)) (\<lambda>_.
     bindE (insert_all (CommitModule DuplicateEntry) {} (map en_digest es)) (\<lambda>_.
     try_bounded max_entries (CommitModule MaxEntriesReached) es)))"

definition add_entry :: "nat \<Rightarrow> 'd entry_info \<Rightarrow> ('d entries, commit_failure, unit) op" where
  "add_entry max_entries e =
     (\<lambda>v. thenO (ensureO (v \<noteq> []) (CommitModule EmptyEntriesNotAllowed))
         (thenO (try_push max_entries (CommitModule MaxEntriesReached) e)
                (readE (\<lambda>v'. insert_all (CommitModule DuplicateEntry) {} (map en_digest v')))) v)"

definition remove_entry :: "'d \<Rightarrow> ('d entries, commit_failure, unit) op" where
  "remove_entry d =
     (\<lambda>v. thenO (ensureO (v \<noteq> [] \<and> length v > 1) (CommitModule EmptyEntriesNotAllowed))
         (bindO (ok_orO (CommitModule EntryOfIndexNotFound)
                   (first_position (\<lambda>e. en_digest e = d) v)) (\<lambda>i.
          modify (remove_at i))) v)"

record 'd index_info =
  ix_principal :: asset
  ix_capital :: commit_shares
  ix_entries :: "'d entries"

fun entries_capital :: "commit_shares \<Rightarrow> 'd entries \<Rightarrow> commit_failure + commit_shares" where
  "entries_capital acc [] = Inr acc"
| "entries_capital acc (e # es) =
     bindE (ensureE (en_shares e \<noteq> 0) (CommitModule ShareCannotBeZero)) (\<lambda>_.
     bindE (ok_orE (CommitModule CapitalOverflowed) (checked_add acc (en_shares e))) (\<lambda>acc'.
     entries_capital acc' es))"

definition index_info_new :: "'d entries \<Rightarrow> commit_failure + 'd index_info" where
  "index_info_new es =
     bindE (ensureE (es \<noteq> []) (CommitModule EmptyEntriesNotAllowed)) (\<lambda>_.
     bindE (entries_capital 0 es) (\<lambda>total.
     bindE (ensureE (total \<noteq> 0) (CommitModule CapitalCannotBeZero)) (\<lambda>_.
     Inr \<lparr>ix_principal = 0, ix_capital = total, ix_entries = es\<rparr>)))"

definition index_entry_exists :: "'d \<Rightarrow> 'd index_info \<Rightarrow> commit_failure + unit" where
  "index_entry_exists d ix =
     bindE (ensureE (ix_entries ix \<noteq> []) (CommitModule EmptyEntriesNotAllowed)) (\<lambda>_.
     ensureE (last_position (\<lambda>e. en_digest e = d) (ix_entries ix) \<noteq> None)
       (CommitModule EntryOfIndexNotFound))"

section \<open>The slots of a pool\<close>

record 'd slot_info =
  sl_digest :: 'd
  sl_shares :: commit_shares
  sl_commit :: commit_instance
  sl_variant :: disposition

type_synonym 'd slots = "'d slot_info list"

definition slot_of_entry :: "'d entry_info \<Rightarrow> 'd slot_info" where
  "slot_of_entry e =
     \<lparr>sl_digest = en_digest e, sl_shares = en_shares e, sl_commit = product_default,
      sl_variant = en_variant e\<rparr>"

definition slots_add :: "nat \<Rightarrow> 'd entry_info \<Rightarrow> ('d slots, commit_failure, unit) op" where
  "slots_add max_entries e =
     (\<lambda>v. thenO (ensureO (v \<noteq> []) (CommitModule EmptySlotsNotAllowed))
         (thenO (try_push max_entries (CommitModule MaxSlotsReached) (slot_of_entry e))
                (readE (\<lambda>v'. insert_all (CommitModule DuplicateSlot) {} (map sl_digest v')))) v)"

definition slots_remove :: "'d \<Rightarrow> ('d slots, commit_failure, unit) op" where
  "slots_remove d =
     (\<lambda>v. thenO (ensureO (v \<noteq> [] \<and> length v > 1) (CommitModule EmptySlotsNotAllowed))
         (bindO (ok_orO (CommitModule SlotOfPoolNotFound)
                   (first_position (\<lambda>s. sl_digest s = d) v)) (\<lambda>i.
          modify (remove_at i))) v)"

definition slots_set_commit :: "'d \<Rightarrow> commit_instance \<Rightarrow> ('d slots, commit_failure, unit) op" where
  "slots_set_commit d c =
     (\<lambda>v. bindO (ok_orO (CommitModule SlotOfPoolNotFound)
                  (first_position (\<lambda>s. sl_digest s = d) v)) (\<lambda>i.
          thenO (ensureO (i < length v) (CommitModule SlotOfPoolNotFound))
                (modify (\<lambda>v. v[i := (v ! i)\<lparr>sl_commit := c\<rparr>]))) v)"

definition slots_of_entries :: "nat \<Rightarrow> 'd entries \<Rightarrow> commit_failure + 'd slots" where
  "slots_of_entries max_entries es =
     try_bounded max_entries (CommitModule MaxSlotsReached) (map slot_of_entry es)"

record 'd pool_info =
  po_balance :: lazy_balance
  po_capital :: commit_shares
  po_commission :: commission
  po_slots :: "'d slots"

type_synonym ('d, 'r) pool_op = "('d pool_info, commit_failure, 'r) op"

definition pool_info_new :: "nat \<Rightarrow> 'd entries \<Rightarrow> commission \<Rightarrow> commit_failure + 'd pool_info" where
  "pool_info_new max_entries es com =
     bindE (checked_sum (CommitModule CapitalOverflowed) 0 (map en_shares es)) (\<lambda>total.
     bindE (slots_of_entries max_entries es) (\<lambda>sls.
     Inr \<lparr>po_balance = product_default, po_capital = total, po_commission = com, po_slots = sls\<rparr>))"

definition balance_reset :: "'d pool_info \<Rightarrow> 'd pool_info" where
  "balance_reset p =
     p\<lparr>po_balance := product_default,
       po_slots := map (\<lambda>s. s\<lparr>sl_commit := product_default\<rparr>) (po_slots p)\<rparr>"

definition on_slots :: "('d slots, commit_failure, 'r) op \<Rightarrow> ('d, 'r) pool_op" where
  "on_slots f = (\<lambda>p. case f (po_slots p) of (r, v) \<Rightarrow> (r, p\<lparr>po_slots := v\<rparr>))"

definition pool_set_slot_commit :: "'d \<Rightarrow> commit_instance \<Rightarrow> ('d, unit) pool_op" where
  "pool_set_slot_commit d c = on_slots (slots_set_commit d c)"

definition recompute_capital :: "('d, unit) pool_op" where
  "recompute_capital =
     bindO (readE (\<lambda>p. checked_sum (CommitModule CapitalOverflowed) 0 (map sl_shares (po_slots p))))
       (\<lambda>total. modify (\<lambda>p. p\<lparr>po_capital := total\<rparr>))"

definition pool_add_slot :: "nat \<Rightarrow> 'd entry_info \<Rightarrow> ('d, unit) pool_op" where
  "pool_add_slot max_entries e = thenO (on_slots (slots_add max_entries e)) recompute_capital"

definition pool_remove_slot :: "'d \<Rightarrow> ('d, unit) pool_op" where
  "pool_remove_slot d =
     thenO (on_slots (slots_remove d))
    (thenO (readE (\<lambda>p. ensureE (po_slots p \<noteq> []) (CommitModule EmptySlotsNotAllowed)))
           recompute_capital)"

definition pool_slot_exists :: "'d \<Rightarrow> 'd pool_info \<Rightarrow> commit_failure + unit" where
  "pool_slot_exists d p =
     ensureE (last_position (\<lambda>s. sl_digest s = d) (po_slots p) \<noteq> None)
       (CommitModule SlotOfPoolNotFound)"

section \<open>Digest models\<close>

datatype choose_digest = ChooseDirect | ChooseIndex | ChoosePool

datatype 'd digest_variant = Direct 'd | Index 'd | Pool 'd

fun digest_model :: "choose_digest \<Rightarrow> 'd \<Rightarrow> 'd digest_variant" where
  "digest_model ChooseDirect d = Direct d"
| "digest_model ChooseIndex d = Index d"
| "digest_model ChoosePool d = Pool d"

record asset_delta =
  ad_deposit :: asset
  ad_withdraw :: asset

section \<open>The contract of a labelled vector\<close>

text \<open>Entries and slots are vectors without repeated labels that never become empty.\<close>

definition labels_ok :: "('a \<Rightarrow> 'd) \<Rightarrow> nat \<Rightarrow> 'a list \<Rightarrow> bool" where
  "labels_ok label bound v = (v \<noteq> [] \<and> distinct (map label v) \<and> length v \<le> bound)"

locale labelled_vector =
  fixes label :: "'a \<Rightarrow> 'd"
    and make :: "'e \<Rightarrow> 'a"
    and add :: "nat \<Rightarrow> 'e \<Rightarrow> ('a list, 'x, unit) op"
    and remove :: "'d \<Rightarrow> ('a list, 'x, unit) op"
  assumes add_iff: "add bound e v = (Inr u, w) \<longleftrightarrow>
        v \<noteq> [] \<and> length v < bound \<and> distinct (map label (v @ [make e])) \<and> w = v @ [make e]"
    and remove_iff: "distinct (map label v) \<Longrightarrow> remove d v = (Inr u, w) \<longleftrightarrow>
        1 < length v \<and> d \<in> label ` set v \<and> w = filter (\<lambda>x. label x \<noteq> d) v"
begin

lemma add_keeps: "add bound e v = (Inr u, w) \<Longrightarrow> labels_ok label bound w"
  by (auto simp: add_iff labels_ok_def)

lemma remove_keeps:
  assumes ok: "labels_ok label bound v" and run: "remove d v = (Inr u, w)"
  shows "labels_ok label bound w" and "length w + 1 = length v"
proof -
  from ok run have w: "w = filter (\<lambda>x. label x \<noteq> d) v" and len: "1 < length v"
    and d: "d \<in> label ` set v" and dist: "distinct (map label v)"
    by (auto simp: labels_ok_def remove_iff)
  from d obtain x where x: "x \<in> set v" "label x = d" by auto
  have "filter (\<lambda>y. label y = d) v = [x]"
    using x dist
  proof (induction v)
    case (Cons y ys)
    have "label y = d \<Longrightarrow> filter (\<lambda>z. label z = d) ys = []"
      using Cons.prems(3) by (auto simp: filter_empty_conv) (metis imageI)
    moreover have "label y = d \<Longrightarrow> x = y"
      using Cons.prems by (auto) (metis imageI)
    ultimately show ?case using Cons by auto
  qed simp
  then show len': "length w + 1 = length v"
    using sum_length_filter_compl [of "\<lambda>y. label y = d" v] w by simp
  with len have "w \<noteq> []" by auto
  with w dist ok len' show "labels_ok label bound w"
    by (auto simp: labels_ok_def distinct_map_filter)
qed

lemma replace_run:
  assumes "labels_ok label bound v" and "remove d v = (Inr u, w)" and "add bound e w = (Inr u', z)"
  shows "z = filter (\<lambda>x. label x \<noteq> d) v @ [make e]" and "labels_ok label bound z"
  using assms by (auto simp: labels_ok_def remove_iff add_iff)

lemma replace_succeeds:
  assumes "labels_ok label bound v" and "1 < length v" and "d \<in> label ` set v" and "label (make e) = d"
  obtains w z where "remove d v = (Inr (), w)" and "add bound e w = (Inr (), z)"
proof -
  have run: "remove d v = (Inr (), filter (\<lambda>x. label x \<noteq> d) v)"
    using assms by (auto simp: labels_ok_def remove_iff)
  note kept = remove_keeps [OF assms(1) run]
  have "add bound e (filter (\<lambda>x. label x \<noteq> d) v) = (Inr (), filter (\<lambda>x. label x \<noteq> d) v @ [make e])"
    using kept assms(1,4) by (auto simp: add_iff labels_ok_def)
  with run show ?thesis by (rule that)
qed

end

lemma first_position_ex: "(\<exists>i. first_position p xs = Some i) \<longleftrightarrow> (\<exists>x \<in> set xs. p x)"
  using first_position_None [of p xs] by (cases "first_position p xs") auto

interpretation entry_vector: labelled_vector en_digest "\<lambda>e. e" add_entry remove_entry
proof unfold_locales
  fix bound and e :: "'d entry_info" and v w u
  show "add_entry bound e v = (Inr u, w) \<longleftrightarrow>
      v \<noteq> [] \<and> length v < bound \<and> distinct (map en_digest (v @ [e])) \<and> w = v @ [e]"
    by (auto simp: add_entry_def thenO_Inr_iff try_push_def insert_all_iff split: if_splits)
next
  fix v :: "'d entries" and d u w
  assume "distinct (map en_digest v)"
  then show "remove_entry d v = (Inr u, w) \<longleftrightarrow>
      1 < length v \<and> d \<in> en_digest ` set v \<and> w = filter (\<lambda>e. en_digest e \<noteq> d) v"
    using first_position_ex [of "\<lambda>e. en_digest e = d" v]
    by (auto simp: remove_entry_def remove_at_first split: option.splits)
qed

interpretation slot_vector: labelled_vector sl_digest slot_of_entry slots_add slots_remove
proof unfold_locales
  fix bound and e :: "'d entry_info" and v w u
  show "slots_add bound e v = (Inr u, w) \<longleftrightarrow>
      v \<noteq> [] \<and> length v < bound \<and> distinct (map sl_digest (v @ [slot_of_entry e])) \<and>
      w = v @ [slot_of_entry e]"
    by (auto simp: slots_add_def thenO_Inr_iff try_push_def insert_all_iff split: if_splits)
next
  fix v :: "'d slots" and d u w
  assume "distinct (map sl_digest v)"
  then show "slots_remove d v = (Inr u, w) \<longleftrightarrow>
      1 < length v \<and> d \<in> sl_digest ` set v \<and> w = filter (\<lambda>s. sl_digest s \<noteq> d) v"
    using first_position_ex [of "\<lambda>s. sl_digest s = d" v]
    by (auto simp: slots_remove_def remove_at_first split: option.splits)
qed

section \<open>Well-formed indexes and pools\<close>

definition index_ok :: "nat \<Rightarrow> 'd index_info \<Rightarrow> bool" where
  "index_ok bound ix =
     (labels_ok en_digest bound (ix_entries ix) \<and> (\<forall>e \<in> set (ix_entries ix). en_shares e \<noteq> 0) \<and>
      unat (ix_capital ix) = sum_list (map (\<lambda>e. unat (en_shares e)) (ix_entries ix)))"

definition pool_ok :: "nat \<Rightarrow> 'd pool_info \<Rightarrow> bool" where
  "pool_ok bound p =
     (labels_ok sl_digest bound (po_slots p) \<and> (\<forall>s \<in> set (po_slots p). sl_shares s \<noteq> 0) \<and>
      unat (po_capital p) = sum_list (map (\<lambda>s. unat (sl_shares s)) (po_slots p)))"

lemma check_variant_ok [simp]: "check_variant v = Inr ()"
  by (cases v) (simp_all add: check_variant_def position_of_def)

lemma entry_info_new_iff:
  "entry_info_new d sh v = Inr e \<longleftrightarrow> sh \<noteq> 0 \<and> e = \<lparr>en_digest = d, en_shares = sh, en_variant = v\<rparr>"
  by (auto simp: entry_info_new_def resultE_iffs)

lemma entries_new_iff:
  "entries_new bound es = Inr v \<longleftrightarrow> bound \<noteq> 0 \<and> labels_ok en_digest bound es \<and> v = es"
  by (auto simp: entries_new_def resultE_iffs insert_all_iff try_bounded_def labels_ok_def)

lemma entries_capital_iff:
  "entries_capital acc es = Inr t \<longleftrightarrow> (\<forall>e \<in> set es. en_shares e \<noteq> 0) \<and>
     unat t = unat acc + sum_list (map (\<lambda>e. unat (en_shares e)) es)"
proof (induction es arbitrary: acc)
  case (Cons e es)
  have fits: "\<exists>a :: u64. unat a = unat acc + unat (en_shares e)"
    if "unat t = unat acc + (unat (en_shares e) + sum_list (map (\<lambda>e. unat (en_shares e)) es))"
    by (rule exI [of _ "of_nat (unat acc + unat (en_shares e)) :: u64"], rule unat_of_nat_le [of _ t])
       (simp add: that)
  show ?case
    using fits by (auto simp: resultE_iffs arith_iffs Cons.IH) metis
qed (auto simp: word_unat_eq_iff)

lemma index_info_new_iff:
  "index_info_new es = Inr ix \<longleftrightarrow>
     es \<noteq> [] \<and> (\<forall>e \<in> set es. en_shares e \<noteq> 0) \<and> ix_principal ix = 0 \<and> ix_entries ix = es \<and>
     unat (ix_capital ix) = sum_list (map (\<lambda>e. unat (en_shares e)) es)"
proof -
  have pos: "t \<noteq> 0"
    if "es \<noteq> []" "\<forall>e \<in> set es. en_shares e \<noteq> 0"
      "unat t = sum_list (map (\<lambda>e. unat (en_shares e)) es)" for t
    using that by (cases es) (auto simp: unat_is_zero)
  show ?thesis
    by (cases ix)
       (auto simp: index_info_new_def resultE_iffs entries_capital_iff
          simp del: sum_list_eq_0_iff dest: pos)
qed

text \<open>C29: An index built from a list of entries, which must not be empty, is well formed: its entries are the list, without a
  repeated digest, none of them with a zero share and no more than the bound, its capital is the
  exact sum of their shares and its principal is zero; and building it fails only when the list
  breaks one of these conditions or the capital does not fit.\<close>
theorem index_construction:
  fixes es :: "'d entry_info list"
  shows "bindE (entries_new bound es) index_info_new = Inr ix \<longleftrightarrow>
      bound \<noteq> 0 \<and> index_ok bound ix \<and> ix_principal ix = 0 \<and> ix_entries ix = es"
  by (auto simp: resultE_iffs entries_new_iff index_info_new_iff index_ok_def labels_ok_def)

lemma checked_sum_exact:
  assumes "unat (t :: 'w::len word) = unat acc + sum_list (map unat xs)"
  shows "checked_sum e acc xs = Inr t"
  using assms by (simp add: checked_sum_iff)

lemma pool_info_new_ok:
  assumes "index_ok bound ix"
  shows "pool_info_new bound (ix_entries ix) com = Inr
      \<lparr>po_balance = product_default, po_capital = ix_capital ix, po_commission = com,
       po_slots = map slot_of_entry (ix_entries ix)\<rparr>"
proof -
  from assms have "checked_sum (CommitModule CapitalOverflowed) 0 (map en_shares (ix_entries ix)) =
      Inr (ix_capital ix)"
    by (intro checked_sum_exact) (simp add: index_ok_def comp_def)
  with assms show ?thesis
    by (simp add: pool_info_new_def slots_of_entries_def try_bounded_def index_ok_def labels_ok_def)
qed

lemma pool_info_new_pool_ok:
  assumes "index_ok bound ix" and "pool_info_new bound (ix_entries ix) com = Inr p"
  shows "pool_ok bound p"
proof -
  have "map sl_digest (map slot_of_entry es) = map en_digest es" for es :: "'d entry_info list"
    by (induction es) (simp_all add: slot_of_entry_def)
  moreover have "p = \<lparr>po_balance = product_default, po_capital = ix_capital ix, po_commission = com,
       po_slots = map slot_of_entry (ix_entries ix)\<rparr>"
    using pool_info_new_ok [OF assms(1), of com] assms(2) by simp
  ultimately show ?thesis
    using assms(1) by (auto simp: pool_ok_def index_ok_def labels_ok_def slot_of_entry_def comp_def)
qed

lemma on_slots_Inr_iff:
  "on_slots f p = (Inr x, q) \<longleftrightarrow> (\<exists>v. f (po_slots p) = (Inr x, v) \<and> q = p\<lparr>po_slots := v\<rparr>)"
  by (auto simp: on_slots_def split: prod.splits)

lemma recompute_capital_iff:
  "recompute_capital p = (Inr u, q) \<longleftrightarrow>
     (\<exists>c. unat c = sum_list (map (\<lambda>s. unat (sl_shares s)) (po_slots p)) \<and> q = p\<lparr>po_capital := c\<rparr>)"
proof -
  have "recompute_capital p = (Inr u, q) \<longleftrightarrow>
      (\<exists>c. checked_sum (CommitModule CapitalOverflowed) 0 (map sl_shares (po_slots p)) = Inr c \<and>
         q = p\<lparr>po_capital := c\<rparr>)"
    by (auto simp: recompute_capital_def split: sum.splits)
  then show ?thesis by (simp add: checked_sum_iff comp_def)
qed

lemma pool_add_slot_ok:
  assumes "pool_ok bound p" and "en_shares e \<noteq> 0" and "pool_add_slot bound e p = (Inr u, q)"
  shows "pool_ok bound q" and "po_slots q = po_slots p @ [slot_of_entry e]"
    and "po_balance q = po_balance p" and "po_commission q = po_commission p"
proof -
  from assms(3) obtain v c where v: "slots_add bound e (po_slots p) = (Inr (), v)"
    and c: "unat c = sum_list (map (\<lambda>s. unat (sl_shares s)) v)"
    and q: "q = p\<lparr>po_slots := v, po_capital := c\<rparr>"
    by (auto simp: pool_add_slot_def thenO_Inr_iff on_slots_Inr_iff recompute_capital_iff)
  from v have vs: "v = po_slots p @ [slot_of_entry e]" by (simp add: slot_vector.add_iff)
  have "\<forall>s \<in> set v. sl_shares s \<noteq> 0"
    using assms(1,2) vs by (simp add: pool_ok_def slot_of_entry_def)
  with slot_vector.add_keeps [OF v] c q show "pool_ok bound q" by (simp add: pool_ok_def)
  from q vs show "po_slots q = po_slots p @ [slot_of_entry e]"
    and "po_balance q = po_balance p" and "po_commission q = po_commission p" by simp_all
qed

lemma pool_remove_slot_ok:
  assumes ok: "pool_ok bound p" and run: "pool_remove_slot d p = (Inr u, q)"
  shows "pool_ok bound q" and "po_slots q = filter (\<lambda>s. sl_digest s \<noteq> d) (po_slots p)"
    and "po_balance q = po_balance p" and "po_commission q = po_commission p"
proof -
  from run obtain v c where v: "slots_remove d (po_slots p) = (Inr (), v)"
    and c: "unat c = sum_list (map (\<lambda>s. unat (sl_shares s)) v)"
    and q: "q = p\<lparr>po_slots := v, po_capital := c\<rparr>"
    by (auto simp: pool_remove_slot_def thenO_Inr_iff on_slots_Inr_iff recompute_capital_iff
          ensureE_def split: if_splits)
  from ok have lab: "labels_ok sl_digest bound (po_slots p)" by (simp add: pool_ok_def)
  from v lab have vs: "v = filter (\<lambda>s. sl_digest s \<noteq> d) (po_slots p)"
    by (simp add: slot_vector.remove_iff labels_ok_def)
  from ok q c slot_vector.remove_keeps [OF lab v] vs
  show "pool_ok bound q" and "po_slots q = filter (\<lambda>s. sl_digest s \<noteq> d) (po_slots p)"
    and "po_balance q = po_balance p" and "po_commission q = po_commission p"
    by (auto simp: pool_ok_def)
qed

end
