(* ===== verification/CommitStore.thy ===== *)
theory CommitStore
  imports CommitData
begin

text \<open>
  Storage, events and configuration of the commitment pallet (\<open>pallets/commitment/src/lib.rs\<close>),
  the wrappers around the balance plugin (\<open>balance.rs\<close>), and the balance helpers: totals per
  reason, deduction of a commitment's value and resolution of an imbalance
  (\<open>CommitBalance\<close> in \<open>helpers.rs\<close>).

  Proprietors are of type \<open>'w\<close>, reasons \<open>'r\<close>, digests \<open>'d\<close>. The asset (\<open>T::Asset\<close>) is the
  argument \<open>cc_asset\<close>: the operations of the \<open>fungible\<close> traits the pallet calls, on a state \<open>'x\<close>
  of their own. Key generation is the argument \<open>cc_index_digest\<close> and \<open>cc_pool_digest\<close>, taken at
  the nonce of the call. \<open>StorageMap::mutate\<close> writes its copy back whatever the closure returns,
  which is what \<open>on_digest\<close>, \<open>on_commit\<close> and \<open>on_pool\<close> do.
\<close>

section \<open>The asset and the configuration\<close>

record ('w, 'r, 'x) asset_ops =
  as_on_hold :: "'w \<Rightarrow> 'x \<Rightarrow> asset"
  as_total_on_hold :: "'w \<Rightarrow> 'x \<Rightarrow> asset"
  as_reducible :: "'w \<Rightarrow> preservation \<Rightarrow> fortitude \<Rightarrow> 'x \<Rightarrow> asset"
  as_total :: "'w \<Rightarrow> 'x \<Rightarrow> asset"
  as_increase :: "'w \<Rightarrow> asset \<Rightarrow> precision \<Rightarrow> ('x, dispatch_error, asset) op"
  as_decrease :: "'w \<Rightarrow> asset \<Rightarrow> precision \<Rightarrow> preservation \<Rightarrow> fortitude \<Rightarrow> ('x, dispatch_error, asset) op"
  as_increase_on_hold :: "'w \<Rightarrow> asset \<Rightarrow> precision \<Rightarrow> ('x, dispatch_error, asset) op"
  as_decrease_on_hold :: "'w \<Rightarrow> asset \<Rightarrow> precision \<Rightarrow> ('x, dispatch_error, asset) op"
  as_mint_into :: "'w \<Rightarrow> asset \<Rightarrow> ('x, dispatch_error, asset) op"
  as_burn_from :: "'w \<Rightarrow> asset \<Rightarrow> preservation \<Rightarrow> precision \<Rightarrow> fortitude \<Rightarrow> ('x, dispatch_error, asset) op"
  as_set_freeze :: "'r \<Rightarrow> 'w \<Rightarrow> asset \<Rightarrow> ('x, dispatch_error, unit) op"
  as_increase_frozen :: "'r \<Rightarrow> 'w \<Rightarrow> asset \<Rightarrow> ('x, dispatch_error, unit) op"
  as_thaw :: "'r \<Rightarrow> 'w \<Rightarrow> ('x, dispatch_error, unit) op"

record ('w, 'r, 'd, 'x) commit_config =
  cc_fx :: "(asset, u64) fixed_ops"
  cc_max_commits :: nat
  cc_max_entries :: nat
  cc_emit :: bool
  cc_asset :: "('w, 'r, 'x) asset_ops"
  cc_index_digest :: "'w \<Rightarrow> 'r \<Rightarrow> 'd index_info \<Rightarrow> 'd option"
  cc_pool_digest :: "'w \<Rightarrow> 'r \<Rightarrow> 'd pool_info \<Rightarrow> 'd option"
  cc_source_digest :: "'w \<Rightarrow> 'd option"

section \<open>Events and storage\<close>

datatype ('w, 'r, 'd) commit_event =
    EvCommitPlaced 'w 'r 'd asset disposition
  | EvCommitRaised 'w 'r 'd asset
  | EvCommitResolved 'w 'r 'd asset
  | EvDigestInfo 'd 'r asset disposition
  | EvDigestReaped 'd 'r asset
  | EvIndexInitialized 'd 'r
  | EvIndexReaped 'd 'r
  | EvPoolInitialized 'd 'r commission
  | EvPoolManager 'd 'r 'w
  | EvPoolSlot 'd 'r 'd disposition commit_shares
  | EvPoolSlotRemoved 'd 'r 'd disposition
  | EvPoolReaped 'd 'r
  | EvReserveDeposited asset asset
  | EvReserveWithdrawn asset asset

record ('w, 'r, 'd, 'x) commit_store =
  cs_reason_value :: "'r \<Rightarrow> asset option"
  cs_digests :: "'r \<times> 'd \<Rightarrow> digest_info option"
  cs_commits :: "'w \<times> 'r \<Rightarrow> 'd commit_info option"
  cs_indexes :: "'r \<times> 'd \<Rightarrow> 'd index_info option"
  cs_entry_commits :: "'r \<times> 'd \<times> 'd \<times> 'w \<Rightarrow> commit_instance list option"
  cs_pools :: "'r \<times> 'd \<Rightarrow> 'd pool_info option"
  cs_managers :: "'r \<times> 'd \<Rightarrow> 'w option"
  cs_to_issue :: asset
  cs_to_reap :: asset
  cs_asset :: 'x
  cs_events :: "('w, 'r, 'd) commit_event list"

type_synonym ('w, 'r, 'd, 'x, 'a) commit_op =
  "(('w, 'r, 'd, 'x) commit_store, commit_failure, 'a) op"
type_synonym ('w, 'r, 'd, 'x) config = "('w, 'r, 'd, 'x) commit_config"

definition commit_genesis_build :: "('w, 'r, 'd, 'x) commit_store \<Rightarrow> ('w, 'r, 'd, 'x) commit_store" where
  "commit_genesis_build s = s\<lparr>cs_to_issue := 0, cs_to_reap := 0\<rparr>"

definition emit ::
  "('w, 'r, 'd, 'x) config \<Rightarrow> ('w, 'r, 'd) commit_event \<Rightarrow> ('w, 'r, 'd, 'x, unit) commit_op" where
  "emit C e = (if cc_emit C then modify (\<lambda>s. s\<lparr>cs_events := cs_events s @ [e]\<rparr>) else ret ())"

definition on_digest ::
  "commit_error \<Rightarrow> 'r \<times> 'd \<Rightarrow> (digest_info, commit_failure, 'a) op \<Rightarrow> ('w, 'r, 'd, 'x, 'a) commit_op" where
  "on_digest e k f = (\<lambda>s. case cs_digests s k of
      None \<Rightarrow> (Inl (CommitModule e), s)
    | Some info \<Rightarrow> (case f info of (r, info') \<Rightarrow> (r, s\<lparr>cs_digests := (cs_digests s)(k \<mapsto> info')\<rparr>)))"

definition on_commit ::
  "'w \<times> 'r \<Rightarrow> ('d commit_info, commit_failure, 'a) op \<Rightarrow> ('w, 'r, 'd, 'x, 'a) commit_op" where
  "on_commit k f = (\<lambda>s. case cs_commits s k of
      None \<Rightarrow> (Inl (CommitModule CommitNotFound), s)
    | Some ci \<Rightarrow> (case f ci of (r, ci') \<Rightarrow> (r, s\<lparr>cs_commits := (cs_commits s)(k \<mapsto> ci')\<rparr>)))"

definition on_pool ::
  "'r \<times> 'd \<Rightarrow> ('d, 'a) pool_op \<Rightarrow> ('w, 'r, 'd, 'x, 'a) commit_op" where
  "on_pool k f = (\<lambda>s. case cs_pools s k of
      None \<Rightarrow> (Inl (CommitModule PoolNotFound), s)
    | Some p \<Rightarrow> (case f p of (r, p') \<Rightarrow> (r, s\<lparr>cs_pools := (cs_pools s)(k \<mapsto> p')\<rparr>)))"

definition on_asset :: "('x, dispatch_error, 'a) op \<Rightarrow> ('w, 'r, 'd, 'x, 'a) commit_op" where
  "on_asset f = (\<lambda>s. case f (cs_asset s) of
      (Inl e, x) \<Rightarrow> (Inl (AssetFailed e), s\<lparr>cs_asset := x\<rparr>)
    | (Inr a, x) \<Rightarrow> (Inr a, s\<lparr>cs_asset := x\<rparr>))"

section \<open>The balance plugin\<close>

definition plugin :: "('s, share_balance_error, 'a) op \<Rightarrow> ('s, commit_failure, 'a) op" where
  "plugin m = (\<lambda>b. case m b of
      (Inl e, b') \<Rightarrow> (Inl (Other (into_dispatch_error e)), b')
    | (Inr a, b') \<Rightarrow> (Inr a, b'))"

definition pluginE :: "share_balance_error + 'a \<Rightarrow> commit_failure + 'a" where
  "pluginE r = (case r of Inl e \<Rightarrow> Inl (Other (into_dispatch_error e)) | Inr a \<Rightarrow> Inr a)"

type_synonym 'a lazy_op = "(lazy_balance, commit_failure, 'a) op"

definition lazy_deposit ::
  "('w, 'r, 'd, 'x) config \<Rightarrow> asset \<Rightarrow> (asset \<times> commit_instance) lazy_op" where
  "lazy_deposit C v = plugin (model_deposit (cc_fx C) v)"

definition lazy_withdraw :: "('w, 'r, 'd, 'x) config \<Rightarrow> commit_instance \<Rightarrow> asset lazy_op" where
  "lazy_withdraw C c = plugin (model_withdraw (cc_fx C) c)"

definition lazy_mint :: "('w, 'r, 'd, 'x) config \<Rightarrow> asset \<Rightarrow> asset lazy_op" where
  "lazy_mint C v = plugin (model_mint (cc_fx C) v)"

definition lazy_reap :: "('w, 'r, 'd, 'x) config \<Rightarrow> asset \<Rightarrow> asset lazy_op" where
  "lazy_reap C v = plugin (model_reap (cc_fx C) v)"

definition lazy_drain :: "('w, 'r, 'd, 'x) config \<Rightarrow> unit lazy_op" where
  "lazy_drain C = thenO (plugin (model_drain (cc_fx C))) (ret ())"

definition lazy_can_deposit :: "lazy_balance \<Rightarrow> asset \<Rightarrow> commit_failure + unit" where
  "lazy_can_deposit b v = pluginE (model_can_deposit v b)"

definition lazy_can_withdraw :: "lazy_balance \<Rightarrow> commit_instance \<Rightarrow> commit_failure + unit" where
  "lazy_can_withdraw b c = pluginE (model_can_withdraw c b)"

definition lazy_can_mint :: "lazy_balance \<Rightarrow> asset \<Rightarrow> commit_failure + unit" where
  "lazy_can_mint b v = pluginE (model_can_mint v b)"

definition lazy_can_reap :: "lazy_balance \<Rightarrow> asset \<Rightarrow> commit_failure + unit" where
  "lazy_can_reap b v = pluginE (model_can_reap v b)"

definition balance_total :: "lazy_balance \<Rightarrow> commit_failure + asset" where
  "balance_total b = pluginE (model_total_value b)"

definition receipt_active_value ::
  "('w, 'r, 'd, 'x) config \<Rightarrow> lazy_balance \<Rightarrow> commit_instance \<Rightarrow> commit_failure + asset" where
  "receipt_active_value C b c = pluginE (model_receipt_active_value (cc_fx C) c b)"

definition receipt_deposit_value :: "commit_instance \<Rightarrow> commit_failure + asset" where
  "receipt_deposit_value c = pluginE (model_receipt_deposit_value c)"

definition has_deposits :: "lazy_balance \<Rightarrow> commit_failure + unit" where
  "has_deposits b = pluginE (model_has_deposits b)"

definition deposit_limits_of :: "lazy_balance \<Rightarrow> commit_failure + limits_product" where
  "deposit_limits_of b = pluginE (model_deposit_limits limits_default)"

definition mint_limits_of :: "lazy_balance \<Rightarrow> commit_failure + limits_product" where
  "mint_limits_of b = pluginE (model_mint_limits limits_default)"

definition reap_limits_of :: "lazy_balance \<Rightarrow> commit_failure + limits_product" where
  "reap_limits_of b = pluginE (model_reap_limits limits_default)"

section \<open>Totals of a reason\<close>

definition get_total_value :: "'r \<Rightarrow> ('w, 'r, 'd, 'x) commit_store \<Rightarrow> asset" where
  "get_total_value r s =
     (case ok_orE (CommitModule CommitsNotFoundForReason) (cs_reason_value s r) of
        Inl _ \<Rightarrow> 0 | Inr v \<Rightarrow> v)"

definition set_total_value :: "'r \<Rightarrow> asset \<Rightarrow> ('w, 'r, 'd, 'x, unit) commit_op" where
  "set_total_value r v = modify (\<lambda>s. s\<lparr>cs_reason_value := (cs_reason_value s)(r \<mapsto> v)\<rparr>)"

definition add_to_total_value :: "'r \<Rightarrow> asset \<Rightarrow> ('w, 'r, 'd, 'x, unit) commit_op" where
  "add_to_total_value r v =
     bindO (gets (get_total_value r)) (\<lambda>current.
     bindO (ok_orO ArithmeticOverflow (checked_add current v)) (set_total_value r))"

definition sub_from_total_value :: "'r \<Rightarrow> asset \<Rightarrow> ('w, 'r, 'd, 'x, unit) commit_op" where
  "sub_from_total_value r v =
     bindO (gets (get_total_value r)) (\<lambda>current.
     bindO (ok_orO ArithmeticUnderflow (checked_sub current v)) (set_total_value r))"

section \<open>Pending issuance and reaping\<close>

definition issue_less :: "asset \<Rightarrow> ('w, 'r, 'd, 'x, unit) commit_op" where
  "issue_less v =
     bindO (gets cs_to_issue) (\<lambda>t.
     bindO (ok_orO (CommitModule MintingMoreThanIssued) (checked_sub t v)) (\<lambda>t'.
     modify (\<lambda>s. s\<lparr>cs_to_issue := t'\<rparr>)))"

definition issue_more :: "asset \<Rightarrow> ('w, 'r, 'd, 'x, unit) commit_op" where
  "issue_more v =
     bindO (gets cs_to_issue) (\<lambda>t.
     bindO (ok_orO (CommitModule MaxAssetIssued) (checked_add t v)) (\<lambda>t'.
     modify (\<lambda>s. s\<lparr>cs_to_issue := t'\<rparr>)))"

definition reap_less :: "asset \<Rightarrow> ('w, 'r, 'd, 'x, unit) commit_op" where
  "reap_less v =
     bindO (gets cs_to_reap) (\<lambda>t.
     bindO (ok_orO (CommitModule BurningMoreThanReapable) (checked_sub t v)) (\<lambda>t'.
     modify (\<lambda>s. s\<lparr>cs_to_reap := t'\<rparr>)))"

definition reap_more :: "asset \<Rightarrow> ('w, 'r, 'd, 'x, unit) commit_op" where
  "reap_more v =
     bindO (gets cs_to_reap) (\<lambda>t.
     bindO (ok_orO (CommitModule MaxAssetReaped) (checked_add t v)) (\<lambda>t'.
     modify (\<lambda>s. s\<lparr>cs_to_reap := t'\<rparr>)))"

section \<open>Deducting and resolving\<close>

definition resolve_imbalance ::
  "('w, 'r, 'd, 'x) config \<Rightarrow> 'w \<Rightarrow> asset_delta \<Rightarrow> ('w, 'r, 'd, 'x, asset) commit_op" where
  "resolve_imbalance C who imb =
     (let A = cc_asset C; dep = ad_deposit imb; wd = ad_withdraw imb in
      if dep < wd then
        let reward = sat_sub wd dep in
        thenO (issue_less reward)
       (thenO (if dep \<noteq> 0 then thenO (on_asset (as_increase A who dep Exact)) (ret ()) else ret ())
       (thenO (on_asset (as_mint_into A who reward))
              (ret (sat_add dep reward))))
      else if dep = wd then
        thenO (on_asset (as_increase A who wd Exact)) (ret wd)
      else
        let penalty = sat_sub dep wd in
        thenO (reap_less penalty)
       (thenO (on_asset (as_increase A who dep Exact))
       (thenO (if penalty \<noteq> 0
               then thenO (on_asset (as_burn_from A who penalty Expendable Exact Force)) (ret ())
               else ret ())
              (ret (sat_sub dep penalty)))))"

definition deduct_balance ::
  "('w, 'r, 'd, 'x) config \<Rightarrow> 'w \<Rightarrow> asset \<Rightarrow> dispatch_policy \<Rightarrow> ('w, 'r, 'd, 'x, asset) commit_op" where
  "deduct_balance C who v q =
     (let A = cc_asset C; force = policy_fortitude q; prec = policy_precision q in
      bindO (gets (\<lambda>s. as_on_hold A who (cs_asset s))) (\<lambda>held.
      if held \<ge> v then
        thenO (on_asset (as_decrease_on_hold A who v Exact)) (ret v)
      else if force = Polite \<and> (prec = Exact \<or> held = 0) then
        bindO (gets (\<lambda>s. as_total_on_hold A who (cs_asset s))) (\<lambda>total_reserve.
        thenO (ensureO (total_reserve < v) (CommitModule ExpectsHoldWithdrawal))
              (throw (CommitModule InsufficientFunds)))
      else
        bindO (gets (\<lambda>s. as_reducible A who Preserve Force (cs_asset s))) (\<lambda>liquid.
        bindO (ok_orO (CommitModule ReserveLiquidOverflow) (checked_add held liquid)) (\<lambda>sum.
        if sum < v then
          if prec = Exact \<or> sum = 0 then
            bindO (gets (\<lambda>s. as_total A who (cs_asset s))) (\<lambda>total_balance.
            thenO (ensureO (\<not> total_balance > v) (CommitModule ExpectsFreezeAndHoldWithdrawal))
                  (throw (CommitModule InsufficientFunds)))
          else
            thenO (on_asset (as_decrease A who liquid Exact Preserve Force))
           (thenO (on_asset (as_decrease_on_hold A who held Exact))
                  (ret sum))
        else
          let excess = sat_sub sum v; free = sat_sub liquid excess in
          thenO (on_asset (as_decrease A who free Exact Preserve Force))
         (thenO (on_asset (as_decrease_on_hold A who held Exact))
                (ret v))))))"

text \<open>The imbalance is passed by a mutable reference: the result holds the changed imbalance and
  the one handed to the deducting party.\<close>

definition deduct_from_imbalance ::
  "asset_delta \<Rightarrow> asset \<Rightarrow> ('w, 'r, 'd, 'x, asset_delta \<times> asset_delta) commit_op" where
  "deduct_from_imbalance imb v =
     (let given = ad_deposit imb; taken = ad_withdraw imb;
          done = (\<lambda>t. ret (imb\<lparr>ad_withdraw := t\<rparr>, \<lparr>ad_deposit = v, ad_withdraw = v\<rparr>)) in
      if given < taken then
        let reward = sat_sub taken given in
        if v < reward then done (sat_add given (sat_sub reward v))
        else if v = reward then done given
        else let remaining = sat_sub v reward in
             thenO (reap_more remaining) (done (sat_sub given remaining))
      else thenO (reap_more v) (done (sat_sub taken v)))"

end
