(* ===== verification/CommitFlow.thy ===== *)
theory CommitFlow
  imports CommitStore
begin

text \<open>
  Deposits to and withdrawals from the three digest models (\<open>CommitDeposit\<close>, \<open>CommitWithdraw\<close>
  and \<open>PoolOps\<close> in \<open>pallets/commitment/src/helpers.rs\<close>). A digest's variant balance takes the
  deposit of a direct commitment; an index splits it over its entries by shares and refunds what
  rounding leaves; a pool is released from its slots, changed, and recovered into them again.

  The loops over entries, slots and commit instances carry the accumulators of the code as
  arguments. Inside \<open>IndexMap::mutate\<close> and \<open>PoolMap::mutate\<close> nothing else reads the entry that is
  being changed, so writing it where the closure assigns its copy gives the same storage.
\<close>

section \<open>Look-ups\<close>

definition get_commit_variant ::
  "'w \<Rightarrow> 'r \<Rightarrow> ('w, 'r, 'd, 'x) commit_store \<Rightarrow> commit_failure + disposition" where
  "get_commit_variant who r s =
     (case cs_commits s (who, r) of None \<Rightarrow> Inl (CommitModule CommitNotFound)
      | Some ci \<Rightarrow> Inr (ci_variant ci))"

definition get_index ::
  "'r \<Rightarrow> 'd \<Rightarrow> ('w, 'r, 'd, 'x) commit_store \<Rightarrow> commit_failure + 'd index_info" where
  "get_index r i s = ok_orE (CommitModule IndexNotFound) (cs_indexes s (r, i))"

definition get_pool ::
  "'r \<Rightarrow> 'd \<Rightarrow> ('w, 'r, 'd, 'x) commit_store \<Rightarrow> commit_failure + 'd pool_info" where
  "get_pool r p s = ok_orE (CommitModule PoolNotFound) (cs_pools s (r, p))"

definition pool_exists :: "'r \<Rightarrow> 'd \<Rightarrow> ('w, 'r, 'd, 'x) commit_store \<Rightarrow> commit_failure + unit" where
  "pool_exists r p s = ensureE (cs_pools s (r, p) \<noteq> None) (CommitModule PoolNotFound)"

definition get_manager ::
  "'r \<Rightarrow> 'd \<Rightarrow> ('w, 'r, 'd, 'x) commit_store \<Rightarrow> commit_failure + 'w" where
  "get_manager r p s =
     bindE (pool_exists r p s) (\<lambda>_. ok_orE (CommitModule PoolManagerNotFound) (cs_managers s (r, p)))"

text \<open>An operation on a value the caller holds itself.\<close>

definition on_local :: "'b \<Rightarrow> ('b, 'e, 'a) op \<Rightarrow> ('s, 'e, 'a \<times> 'b) op" where
  "on_local b f = (\<lambda>s. case f b of (Inl e, _) \<Rightarrow> (Inl e, s) | (Inr a, b') \<Rightarrow> (Inr (a, b'), s))"

section \<open>Direct digests\<close>

definition deposit_variant ::
  "('w, 'r, 'd, 'x) config \<Rightarrow> disposition \<Rightarrow> asset \<Rightarrow> (asset \<times> commit_instance) digest_op" where
  "deposit_variant C variant v = (\<lambda>info.
     if position_index variant < length info then mut_balance variant (lazy_deposit C v) info
     else thenO (init_variant_balance variant) (mut_balance variant (lazy_deposit C v)) info)"

definition deposit_to_digest ::
  "('w, 'r, 'd, 'x) config \<Rightarrow> 'r \<Rightarrow> 'd \<Rightarrow> asset \<Rightarrow> disposition \<Rightarrow>
     ('w, 'r, 'd, 'x, commit_instance \<times> asset) commit_op" where
  "deposit_to_digest C r d v variant =
     bindO (on_digest DigestNotFound (r, d) (deposit_variant C variant v))
       (\<lambda>(depositted, receipt). ret (receipt, depositted))"

fun withdraw_commits ::
  "('w, 'r, 'd, 'x) config \<Rightarrow> asset \<Rightarrow> asset \<Rightarrow> commit_instance list \<Rightarrow> (asset \<times> asset) lazy_op" where
  "withdraw_commits C given taken [] = ret (given, taken)"
| "withdraw_commits C given taken (c # cs) =
     bindO (readE (\<lambda>_. receipt_deposit_value c)) (\<lambda>v.
     bindO (ok_orO (CommitModule DepositAccumulationExhausted) (checked_add given v)) (\<lambda>given'.
     bindO (lazy_withdraw C c) (\<lambda>take.
     bindO (ok_orO (CommitModule WithdrawAccumulationExhausted) (checked_add taken take)) (\<lambda>taken'.
     withdraw_commits C given' taken' cs))))"

definition withdraw_from_digest ::
  "('w, 'r, 'd, 'x) config \<Rightarrow> 'w \<Rightarrow> 'r \<Rightarrow> 'd \<Rightarrow> ('w, 'r, 'd, 'x, asset_delta) commit_op" where
  "withdraw_from_digest C who r d =
     bindO (readE (get_commit_variant who r)) (\<lambda>variant.
     bindO (gets (\<lambda>s. cs_commits s (who, r))) (\<lambda>ci.
     bindO (on_digest DigestNotFound (r, d) (mut_balance variant
              (bindO (ok_orO (CommitModule CommitNotFound) ci) (\<lambda>info.
               withdraw_commits C 0 0 (ci_commits info))))) (\<lambda>(given, taken).
     ret \<lparr>ad_deposit = given, ad_withdraw = taken\<rparr>)))"

section \<open>Indexes\<close>

text \<open>What an entry gets of a deposit; \<open>None\<close> is an allocation below one unit, which is skipped.
  The operands of \<open>checked_from_rational\<close> are shares; widening them to the asset does not change
  the ratio.\<close>

definition entry_allocation ::
  "('w, 'r, 'd, 'x) config \<Rightarrow> asset \<Rightarrow> commit_shares \<Rightarrow> commit_shares \<Rightarrow> commit_failure + asset option" where
  "entry_allocation C v capital sh =
     (let fx = cc_fx C in
      bindE (ensureE (sh \<noteq> 0) (CommitModule ShareCannotBeZero)) (\<lambda>_.
      bindE (ensureE (capital \<ge> sh) (CommitModule ShareGreaterThanCapital)) (\<lambda>_.
      bindE (ok_orE (CommitModule TooSmallShareValue)
               (fx_from_rational fx (ucast sh) (ucast capital))) (\<lambda>factor.
      bindE (ok_orE (CommitModule DepositDeriveOverflowed)
               (fx_checked_mul fx (fx_from_integer fx v) factor)) (\<lambda>fixed.
      if fixed < fx_div fx then Inr None
      else bindE (ok_orE (CommitModule DerivedLessThanZeroValue) (checked_div fixed (fx_div fx)))
             (\<lambda>scaled. Inr (Some (ucast scaled))))))))"

definition record_entry_commit ::
  "('w, 'r, 'd, 'x) config \<Rightarrow> 'r \<times> 'd \<times> 'd \<times> 'w \<Rightarrow> commit_instance \<Rightarrow> ('w, 'r, 'd, 'x, unit) commit_op" where
  "record_entry_commit C k c = (\<lambda>s. case cs_entry_commits s k of
      Some cs \<Rightarrow> (case commits_add (cc_max_commits C) c cs of
         (r, cs') \<Rightarrow> (r, s\<lparr>cs_entry_commits := (cs_entry_commits s)(k \<mapsto> cs')\<rparr>))
    | None \<Rightarrow> bindO (readE (\<lambda>_. commits_new (cc_max_commits C) c))
         (\<lambda>cs. modify (\<lambda>s. s\<lparr>cs_entry_commits := (cs_entry_commits s)(k \<mapsto> cs)\<rparr>)) s)"

fun deposit_entries ::
  "('w, 'r, 'd, 'x) config \<Rightarrow> 'w \<Rightarrow> 'r \<Rightarrow> 'd \<Rightarrow> asset \<Rightarrow> commit_shares \<Rightarrow> asset \<Rightarrow> 'd entry_info list \<Rightarrow>
     ('w, 'r, 'd, 'x, asset) commit_op" where
  "deposit_entries C who r i v capital actual [] = ret actual"
| "deposit_entries C who r i v capital actual (e # es) =
     bindO (readE (\<lambda>_. entry_allocation C v capital (en_shares e))) (\<lambda>alloc.
     case alloc of
       None \<Rightarrow> deposit_entries C who r i v capital actual es
     | Some dv \<Rightarrow>
         bindO (deposit_to_digest C r (en_digest e) dv (en_variant e)) (\<lambda>(receipt, amount).
         thenO (record_entry_commit C (r, i, en_digest e, who) receipt)
        (bindO (ok_orO (CommitModule FactorGreaterThanOne) (checked_add actual amount)) (\<lambda>actual'.
         deposit_entries C who r i v capital actual' es))))"

definition deposit_to_index ::
  "('w, 'r, 'd, 'x) config \<Rightarrow> 'w \<Rightarrow> 'r \<Rightarrow> 'd \<Rightarrow> asset \<Rightarrow>
     ('w, 'r, 'd, 'x, commit_instance \<times> asset) commit_op" where
  "deposit_to_index C who r i v =
     bindO (readE (get_index r i)) (\<lambda>ix.
     thenO (ensureO (ix_capital ix \<noteq> 0) (CommitModule CapitalCannotBeZero))
    (bindO (deposit_entries C who r i v (ix_capital ix) 0 (ix_entries ix)) (\<lambda>actual.
     let refund = sat_sub v actual in
     thenO (if refund \<noteq> 0
            then thenO (on_asset (as_increase (cc_asset C) who refund Exact)) (ret ()) else ret ())
    (bindO (ok_orO (CommitModule MaxIndexCapacityReached) (checked_add (ix_principal ix) actual)) (\<lambda>p.
     thenO (modify (\<lambda>s. s\<lparr>cs_indexes := (cs_indexes s)((r, i) \<mapsto> ix\<lparr>ix_principal := p\<rparr>)\<rparr>))
           (ret (product_default, actual)))))))"

fun withdraw_entry_commits ::
  "('w, 'r, 'd, 'x) config \<Rightarrow> 'r \<times> 'd \<Rightarrow> disposition \<Rightarrow> asset \<Rightarrow> asset \<Rightarrow> commit_instance list \<Rightarrow>
     ('w, 'r, 'd, 'x, asset \<times> asset) commit_op" where
  "withdraw_entry_commits C k variant given taken [] = ret (given, taken)"
| "withdraw_entry_commits C k variant given taken (c # cs) =
     bindO (readE (\<lambda>_. receipt_deposit_value c)) (\<lambda>v.
     bindO (ok_orO (CommitModule DepositAccumulationExhausted) (checked_add given v)) (\<lambda>given'.
     bindO (on_digest EntryDigestNotFound k (mut_balance variant (lazy_withdraw C c))) (\<lambda>take.
     bindO (ok_orO (CommitModule WithdrawAccumulationExhausted) (checked_add taken take)) (\<lambda>taken'.
     withdraw_entry_commits C k variant given' taken' cs))))"

fun withdraw_entries ::
  "('w, 'r, 'd, 'x) config \<Rightarrow> 'w \<Rightarrow> 'r \<Rightarrow> 'd \<Rightarrow> asset \<Rightarrow> asset \<Rightarrow> 'd entry_info list \<Rightarrow>
     ('w, 'r, 'd, 'x, asset \<times> asset) commit_op" where
  "withdraw_entries C who r i given taken [] = ret (given, taken)"
| "withdraw_entries C who r i given taken (e # es) =
     bindO (readE (\<lambda>s. ok_orE (CommitModule CommitNotFoundForEntry)
                         (cs_entry_commits s (r, i, en_digest e, who)))) (\<lambda>cs.
     bindO (withdraw_entry_commits C (r, en_digest e) (en_variant e) given taken cs) (\<lambda>(given', taken').
     thenO (modify (\<lambda>s. s\<lparr>cs_entry_commits :=
              (cs_entry_commits s)((r, i, en_digest e, who) := None)\<rparr>))
           (withdraw_entries C who r i given' taken' es)))"

definition withdraw_from_index ::
  "('w, 'r, 'd, 'x) config \<Rightarrow> 'w \<Rightarrow> 'r \<Rightarrow> 'd \<Rightarrow> ('w, 'r, 'd, 'x, asset_delta) commit_op" where
  "withdraw_from_index C who r i =
     bindO (readE (get_index r i)) (\<lambda>ix.
     bindO (withdraw_entries C who r i 0 0 (ix_entries ix)) (\<lambda>(given, taken).
     bindO (ok_orO (CommitModule IndexBalanceUnderflow) (checked_sub (ix_principal ix) given)) (\<lambda>p.
     thenO (modify (\<lambda>s. s\<lparr>cs_indexes := (cs_indexes s)((r, i) \<mapsto> ix\<lparr>ix_principal := p\<rparr>)\<rparr>))
           (ret \<lparr>ad_deposit = given, ad_withdraw = taken\<rparr>))))"

section \<open>Pools\<close>

definition match_effective :: "('w, 'r, 'd, 'x) config \<Rightarrow> asset \<Rightarrow> unit lazy_op" where
  "match_effective C taken =
     bindO (readE balance_total) (\<lambda>eff.
     if eff < taken then
       (let lack = sat_sub taken eff in
        bindO (lazy_mint C lack) (\<lambda>minted. ensureO (minted = lack) (CommitModule PoolUnsupported)))
     else if eff > taken then
       (let excess = sat_sub eff taken in
        bindO (lazy_reap C excess) (\<lambda>reaped. ensureO (reaped = excess) (CommitModule PoolUnsupported)))
     else ret ())"

fun release_slots ::
  "('w, 'r, 'd, 'x) config \<Rightarrow> 'r \<Rightarrow> asset \<Rightarrow> 'd slot_info list \<Rightarrow> ('w, 'r, 'd, 'x, asset) commit_op" where
  "release_slots C r taken [] = ret taken"
| "release_slots C r taken (sl # sls) =
     thenO (ensureO (sl_shares sl \<noteq> 0) (CommitModule ShareCannotBeZero))
    (if sl_commit sl = product_default then release_slots C r taken sls
     else bindO (on_digest SlotOfPoolNotFound (r, sl_digest sl)
                  (mut_balance (sl_variant sl) (lazy_withdraw C (sl_commit sl)))) (\<lambda>take.
          bindO (ok_orO (CommitModule WithdrawAccumulationExhausted) (checked_add taken take)) (\<lambda>taken'.
          release_slots C r taken' sls)))"

definition release_pool ::
  "('w, 'r, 'd, 'x) config \<Rightarrow> 'r \<Rightarrow> 'd \<Rightarrow> ('w, 'r, 'd, 'x, lazy_balance) commit_op" where
  "release_pool C r p =
     bindO (readE (get_pool r p)) (\<lambda>pool.
     if po_balance pool = product_default then ret (po_balance pool)
     else
       thenO (ensureO (po_capital pool \<noteq> 0) (CommitModule CapitalCannotBeZero))
      (bindO (release_slots C r 0 (po_slots pool)) (\<lambda>taken.
       thenO (on_pool (r, p) (modify balance_reset))
      (bindO (on_local (po_balance pool) (match_effective C taken)) (\<lambda>(_, b). ret b)))))"

definition slot_allocation ::
  "('w, 'r, 'd, 'x) config \<Rightarrow> asset \<Rightarrow> commit_shares \<Rightarrow> commit_shares \<Rightarrow> commit_failure + asset" where
  "slot_allocation C effective_value capital sh =
     (let fx = cc_fx C;
          factor = (case fx_from_rational fx (ucast sh) (ucast capital) of Some f \<Rightarrow> f | None \<Rightarrow> - 1) in
      bindE (ok_orE (CommitModule DepositDeriveOverflowed)
               (fx_checked_mul fx (fx_from_integer fx effective_value) factor)) (\<lambda>fixed.
      bindE (ok_orE (CommitModule DerivedLessThanZeroValue) (checked_div fixed (fx_div fx))) (\<lambda>scaled.
      Inr (ucast scaled))))"

fun recover_slots ::
  "('w, 'r, 'd, 'x) config \<Rightarrow> 'r \<Rightarrow> 'd \<Rightarrow> asset \<Rightarrow> commit_shares \<Rightarrow> asset \<Rightarrow> 'd slot_info list \<Rightarrow>
     ('w, 'r, 'd, 'x, asset) commit_op" where
  "recover_slots C r p eff capital taken [] = ret taken"
| "recover_slots C r p eff capital taken (sl # sls) =
     thenO (ensureO (sl_shares sl \<noteq> 0) (CommitModule ShareCannotBeZero))
    (bindO (readE (\<lambda>_. slot_allocation C eff capital (sl_shares sl))) (\<lambda>dv.
     if dv = 0 then
       thenO (on_pool (r, p) (pool_set_slot_commit (sl_digest sl) product_default))
             (recover_slots C r p eff capital taken sls)
     else
       bindO (on_digest SlotOfPoolNotFound (r, sl_digest sl) (deposit_variant C (sl_variant sl) dv))
         (\<lambda>(depositted, receipt).
       thenO (ensureO (depositted = dv) (CommitModule PoolUnsupported))
      (bindO (ok_orO (CommitModule WithdrawAccumulationExhausted) (checked_add taken depositted)) (\<lambda>taken'.
       thenO (on_pool (r, p) (pool_set_slot_commit (sl_digest sl) receipt))
             (recover_slots C r p eff capital taken' sls))))))"

definition set_pool_balance :: "lazy_balance \<Rightarrow> ('d, unit) pool_op" where
  "set_pool_balance b = modify (\<lambda>pool. pool\<lparr>po_balance := b\<rparr>)"

definition recover_pool ::
  "('w, 'r, 'd, 'x) config \<Rightarrow> 'r \<Rightarrow> 'd \<Rightarrow> lazy_balance \<Rightarrow> ('w, 'r, 'd, 'x, unit) commit_op" where
  "recover_pool C r p b =
     bindO (readE (\<lambda>_. balance_total b)) (\<lambda>eff.
     bindO (readE (get_pool r p)) (\<lambda>pool.
     thenO (ensureO (po_balance pool = product_default) (CommitModule ReleasePoolToRecover))
    (thenO (ensureO (po_capital pool \<noteq> 0) (CommitModule CapitalCannotBeZero))
    (bindO (recover_slots C r p eff (po_capital pool) 0 (po_slots pool)) (\<lambda>taken.
     let dust = sat_sub eff taken in
     if dust = 0 then on_pool (r, p) (set_pool_balance b)
     else
       bindO (readE (get_manager r p)) (\<lambda>manager.
       bindO (resolve_imbalance C manager \<lparr>ad_deposit = dust, ad_withdraw = dust\<rparr>) (\<lambda>manager_withdraw.
       thenO (sub_from_total_value r manager_withdraw)
      (bindO (on_local b (lazy_reap C dust)) (\<lambda>(reaped, b').
       thenO (ensureO (reaped = dust) (CommitModule PoolUnsupported))
             (on_pool (r, p) (set_pool_balance b')))))))))))"

definition deposit_to_pool ::
  "('w, 'r, 'd, 'x) config \<Rightarrow> 'r \<Rightarrow> 'd \<Rightarrow> asset \<Rightarrow>
     ('w, 'r, 'd, 'x, commit_instance \<times> asset) commit_op" where
  "deposit_to_pool C r p v =
     bindO (release_pool C r p) (\<lambda>b.
     bindO (on_local b (lazy_deposit C v)) (\<lambda>((depositted, receipt), b').
     thenO (recover_pool C r p b') (ret (receipt, depositted))))"

definition withdraw_from_pool ::
  "('w, 'r, 'd, 'x) config \<Rightarrow> 'w \<Rightarrow> 'r \<Rightarrow> 'd \<Rightarrow> ('w, 'r, 'd, 'x, asset_delta) commit_op" where
  "withdraw_from_pool C who r p =
     bindO (readE (\<lambda>s. ok_orE (CommitModule CommitNotFound) (cs_commits s (who, r)))) (\<lambda>ci.
     bindO (release_pool C r p) (\<lambda>b.
     bindO (on_local b (withdraw_commits C 0 0 (ci_commits ci))) (\<lambda>((given, taken), b').
     thenO (recover_pool C r p b')
    (bindO (readE (get_pool r p)) (\<lambda>pool.
     let imb = \<lparr>ad_deposit = given, ad_withdraw = taken\<rparr> in
     if po_commission pool = 0 then ret imb
     else
       bindO (readE (get_manager r p)) (\<lambda>pay_to.
       bindO (ok_orO (CommitModule CommissionOverflow)
                (checked_mul taken (ucast (po_commission pool)))) (\<lambda>prod.
       bindO (ok_orO (CommitModule DerivedLessThanZeroValue) (checked_div prod 1000000000)) (\<lambda>to_pay.
       if to_pay = 0 then ret imb
       else
         bindO (deduct_from_imbalance imb to_pay) (\<lambda>(imb', manager_imbalance).
         bindO (resolve_imbalance C pay_to manager_imbalance) (\<lambda>manager_withdraw.
         thenO (sub_from_total_value r manager_withdraw) (ret imb')))))))))))"

definition remove_pool_slot ::
  "('w, 'r, 'd, 'x) config \<Rightarrow> 'r \<Rightarrow> 'd \<Rightarrow> 'd \<Rightarrow> ('w, 'r, 'd, 'x, unit) commit_op" where
  "remove_pool_slot C r p d =
     bindO (release_pool C r p) (\<lambda>b.
     thenO (on_pool (r, p)
       (thenO (pool_remove_slot d)
       (thenO (readE (\<lambda>pool. ensureE (po_slots pool \<noteq> []) (CommitModule EmptySlotsNotAllowed)))
              (readE (\<lambda>pool. ensureE (po_capital pool \<noteq> 0) (CommitModule CapitalCannotBeZero))))))
           (recover_pool C r p b))"

definition set_pool_slot ::
  "('w, 'r, 'd, 'x) config \<Rightarrow> 'r \<Rightarrow> 'd \<Rightarrow> 'd \<Rightarrow> commit_shares \<Rightarrow> disposition \<Rightarrow>
     ('w, 'r, 'd, 'x, unit) commit_op" where
  "set_pool_slot C r p d sh variant =
     thenO (ensureO (sh \<noteq> 0) (CommitModule ShareCannotBeZero))
    (bindO (release_pool C r p) (\<lambda>b.
     thenO (on_pool (r, p)
       (thenO (\<lambda>pool. if is_ok (pool_slot_exists d pool) then pool_remove_slot d pool else (Inr (), pool))
       (bindO (readE (\<lambda>_. entry_info_new d sh variant)) (pool_add_slot (cc_max_entries C)))))
           (recover_pool C r p b)))"

end
