(* ===== verification/CommitPallet.thy ===== *)
theory CommitPallet
  imports CommitFlow
begin

text \<open>
  The operations of the commitment pallet: placing, raising and resolving a commitment
  (\<open>CommitOps\<close> and the finalizing functions of \<open>pallets/commitment/src/helpers.rs\<close>), and the
  trait implementations of \<open>commitment.rs\<close> that change state: digests, indexes, pools and their
  variants, with the reserve calls of \<open>lib.rs\<close>. Hooks deposit the event of a build without the
  \<open>dev\<close> feature. A digest model is one of the three the code constructs; its marker variant, which
  the code answers with \<open>InvalidDigestModel\<close>, is ruled out by the type.
\<close>

section \<open>Finalizing\<close>

definition finalize_place_commit ::
  "('w, 'r, 'd, 'x) config \<Rightarrow> 'w \<Rightarrow> 'r \<Rightarrow> 'd \<Rightarrow> disposition \<Rightarrow> commit_instance \<Rightarrow> asset \<Rightarrow>
     ('w, 'r, 'd, 'x, unit) commit_op" where
  "finalize_place_commit C who r d variant receipt total_commit =
     thenO (on_asset (as_set_freeze (cc_asset C) r who total_commit))
    (bindO (readE (\<lambda>_. commit_info_new (cc_max_commits C) d receipt variant)) (\<lambda>ci.
     thenO (modify (\<lambda>s. s\<lparr>cs_commits := (cs_commits s)((who, r) \<mapsto> ci)\<rparr>))
           (add_to_total_value r total_commit)))"

definition finalize_raise_commit ::
  "('w, 'r, 'd, 'x) config \<Rightarrow> 'w \<Rightarrow> 'r \<Rightarrow> commit_instance \<Rightarrow> asset \<Rightarrow>
     ('w, 'r, 'd, 'x, unit) commit_op" where
  "finalize_raise_commit C who r receipt total_raise =
     thenO (on_asset (as_increase_frozen (cc_asset C) r who total_raise))
    (thenO (on_commit (who, r) (commit_info_add (cc_max_commits C) receipt))
           (add_to_total_value r total_raise))"

definition finalize_resolve_commit ::
  "('w, 'r, 'd, 'x) config \<Rightarrow> 'w \<Rightarrow> 'r \<Rightarrow> asset_delta \<Rightarrow> ('w, 'r, 'd, 'x, asset) commit_op" where
  "finalize_resolve_commit C who r imb =
     thenO (modify (\<lambda>s. s\<lparr>cs_commits := (cs_commits s)((who, r) := None)\<rparr>))
    (thenO (on_asset (as_thaw (cc_asset C) r who))
    (bindO (resolve_imbalance C who imb) (\<lambda>resolved.
     thenO (sub_from_total_value r resolved) (ret resolved))))"

section \<open>Placing, raising and resolving\<close>

definition digest_exists :: "'r \<Rightarrow> 'd \<Rightarrow> ('w, 'r, 'd, 'x) commit_store \<Rightarrow> commit_failure + unit" where
  "digest_exists r d s = ensureE (cs_digests s (r, d) \<noteq> None) (CommitModule DigestNotFound)"

definition init_digest :: "'r \<Rightarrow> 'd \<Rightarrow> ('w, 'r, 'd, 'x, unit) commit_op" where
  "init_digest r d =
     modify (\<lambda>s. if is_ok (digest_exists r d s) then s
                 else s\<lparr>cs_digests := (cs_digests s)((r, d) \<mapsto> digest_info_default)\<rparr>)"

definition place_digest_commit ::
  "('w, 'r, 'd, 'x) config \<Rightarrow> 'w \<Rightarrow> 'r \<Rightarrow> 'd \<Rightarrow> asset \<Rightarrow> disposition \<Rightarrow> dispatch_policy \<Rightarrow>
     ('w, 'r, 'd, 'x, asset) commit_op" where
  "place_digest_commit C who r d v variant q =
     thenO (init_digest r d)
    (bindO (deduct_balance C who v q) (\<lambda>try_actual.
     bindO (deposit_to_digest C r d try_actual variant) (\<lambda>(receipt, amount).
     thenO (finalize_place_commit C who r d variant receipt amount) (ret amount))))"

definition place_index_commit ::
  "('w, 'r, 'd, 'x) config \<Rightarrow> 'w \<Rightarrow> 'r \<Rightarrow> 'd \<Rightarrow> asset \<Rightarrow> disposition \<Rightarrow> dispatch_policy \<Rightarrow>
     ('w, 'r, 'd, 'x, asset) commit_op" where
  "place_index_commit C who r i v variant q =
     bindO (deduct_balance C who v q) (\<lambda>try_actual.
     bindO (deposit_to_index C who r i try_actual) (\<lambda>(receipt, amount).
     thenO (finalize_place_commit C who r i variant receipt amount) (ret amount)))"

definition place_pool_commit ::
  "('w, 'r, 'd, 'x) config \<Rightarrow> 'w \<Rightarrow> 'r \<Rightarrow> 'd \<Rightarrow> asset \<Rightarrow> disposition \<Rightarrow> dispatch_policy \<Rightarrow>
     ('w, 'r, 'd, 'x, asset) commit_op" where
  "place_pool_commit C who r p v variant q =
     bindO (deduct_balance C who v q) (\<lambda>try_actual.
     bindO (deposit_to_pool C r p try_actual) (\<lambda>(receipt, amount).
     thenO (finalize_place_commit C who r p variant receipt amount) (ret amount)))"

fun place_commit_of ::
  "('w, 'r, 'd, 'x) config \<Rightarrow> 'w \<Rightarrow> 'r \<Rightarrow> 'd digest_variant \<Rightarrow> asset \<Rightarrow> disposition \<Rightarrow> dispatch_policy \<Rightarrow>
     ('w, 'r, 'd, 'x, asset) commit_op" where
  "place_commit_of C who r (Direct d) v variant q = place_digest_commit C who r d v variant q"
| "place_commit_of C who r (Index d) v variant q = place_index_commit C who r d v variant q"
| "place_commit_of C who r (Pool d) v variant q = place_pool_commit C who r d v variant q"

definition raise_digest_commit ::
  "('w, 'r, 'd, 'x) config \<Rightarrow> 'w \<Rightarrow> 'r \<Rightarrow> 'd \<Rightarrow> asset \<Rightarrow> dispatch_policy \<Rightarrow>
     ('w, 'r, 'd, 'x, asset) commit_op" where
  "raise_digest_commit C who r d v q =
     bindO (readE (get_commit_variant who r)) (\<lambda>variant.
     bindO (deduct_balance C who v q) (\<lambda>try_actual.
     bindO (deposit_to_digest C r d try_actual variant) (\<lambda>(receipt, raised).
     thenO (finalize_raise_commit C who r receipt raised) (ret raised))))"

definition raise_index_commit ::
  "('w, 'r, 'd, 'x) config \<Rightarrow> 'w \<Rightarrow> 'r \<Rightarrow> 'd \<Rightarrow> asset \<Rightarrow> dispatch_policy \<Rightarrow>
     ('w, 'r, 'd, 'x, asset) commit_op" where
  "raise_index_commit C who r i v q =
     bindO (deduct_balance C who v q) (\<lambda>try_actual.
     bindO (deposit_to_index C who r i try_actual) (\<lambda>(receipt, raised).
     thenO (finalize_raise_commit C who r receipt raised) (ret raised)))"

definition raise_pool_commit ::
  "('w, 'r, 'd, 'x) config \<Rightarrow> 'w \<Rightarrow> 'r \<Rightarrow> 'd \<Rightarrow> asset \<Rightarrow> dispatch_policy \<Rightarrow>
     ('w, 'r, 'd, 'x, asset) commit_op" where
  "raise_pool_commit C who r p v q =
     bindO (deduct_balance C who v q) (\<lambda>try_actual.
     bindO (deposit_to_pool C r p try_actual) (\<lambda>(receipt, raised).
     thenO (finalize_raise_commit C who r receipt raised) (ret raised)))"

fun raise_commit_of ::
  "('w, 'r, 'd, 'x) config \<Rightarrow> 'w \<Rightarrow> 'r \<Rightarrow> 'd digest_variant \<Rightarrow> asset \<Rightarrow> dispatch_policy \<Rightarrow>
     ('w, 'r, 'd, 'x, asset) commit_op" where
  "raise_commit_of C who r (Direct d) v q = raise_digest_commit C who r d v q"
| "raise_commit_of C who r (Index d) v q = raise_index_commit C who r d v q"
| "raise_commit_of C who r (Pool d) v q = raise_pool_commit C who r d v q"

definition resolve_digest_commit ::
  "('w, 'r, 'd, 'x) config \<Rightarrow> 'w \<Rightarrow> 'r \<Rightarrow> 'd \<Rightarrow> ('w, 'r, 'd, 'x, asset) commit_op" where
  "resolve_digest_commit C who r d =
     thenO (readE (get_commit_variant who r))
    (bindO (withdraw_from_digest C who r d) (finalize_resolve_commit C who r))"

definition resolve_index_commit ::
  "('w, 'r, 'd, 'x) config \<Rightarrow> 'w \<Rightarrow> 'r \<Rightarrow> 'd \<Rightarrow> ('w, 'r, 'd, 'x, asset) commit_op" where
  "resolve_index_commit C who r i =
     thenO (readE (get_commit_variant who r))
    (bindO (withdraw_from_index C who r i) (finalize_resolve_commit C who r))"

definition resolve_pool_commit ::
  "('w, 'r, 'd, 'x) config \<Rightarrow> 'w \<Rightarrow> 'r \<Rightarrow> 'd \<Rightarrow> ('w, 'r, 'd, 'x, asset) commit_op" where
  "resolve_pool_commit C who r p =
     thenO (readE (get_commit_variant who r))
    (bindO (withdraw_from_pool C who r p) (finalize_resolve_commit C who r))"

fun resolve_commit_of ::
  "('w, 'r, 'd, 'x) config \<Rightarrow> 'w \<Rightarrow> 'r \<Rightarrow> 'd digest_variant \<Rightarrow> ('w, 'r, 'd, 'x, asset) commit_op" where
  "resolve_commit_of C who r (Direct d) = resolve_digest_commit C who r d"
| "resolve_commit_of C who r (Index d) = resolve_index_commit C who r d"
| "resolve_commit_of C who r (Pool d) = resolve_pool_commit C who r d"

section \<open>The commitment trait\<close>

definition commit_exists :: "'w \<Rightarrow> 'r \<Rightarrow> ('w, 'r, 'd, 'x) commit_store \<Rightarrow> commit_failure + unit" where
  "commit_exists who r s = ensureE (cs_commits s (who, r) \<noteq> None) (CommitModule CommitNotFound)"

definition index_exists :: "'r \<Rightarrow> 'd \<Rightarrow> ('w, 'r, 'd, 'x) commit_store \<Rightarrow> commit_failure + unit" where
  "index_exists r i s = ensureE (cs_indexes s (r, i) \<noteq> None) (CommitModule IndexNotFound)"

definition determine_digest ::
  "'d \<Rightarrow> 'r \<Rightarrow> ('w, 'r, 'd, 'x) commit_store \<Rightarrow> commit_failure + 'd digest_variant" where
  "determine_digest d r s =
     (if is_ok (digest_exists r d s) then Inr (Direct d)
      else if is_ok (index_exists r d s) then Inr (Index d)
      else if is_ok (pool_exists r d s) then Inr (Pool d)
      else Inl (CommitModule DigestNotFoundToDetermine))"

definition get_commit_digest ::
  "'w \<Rightarrow> 'r \<Rightarrow> ('w, 'r, 'd, 'x) commit_store \<Rightarrow> commit_failure + 'd" where
  "get_commit_digest who r s =
     bindE (ok_orE (CommitModule CommitNotFound) (cs_commits s (who, r))) (\<lambda>ci. Inr (ci_digest ci))"

definition place_commit_of_variant ::
  "('w, 'r, 'd, 'x) config \<Rightarrow> 'w \<Rightarrow> 'r \<Rightarrow> 'd \<Rightarrow> asset \<Rightarrow> disposition \<Rightarrow> dispatch_policy \<Rightarrow>
     ('w, 'r, 'd, 'x, asset) commit_op" where
  "place_commit_of_variant C who r d v variant q =
     thenO (readE (\<lambda>s. ensureE (\<not> is_ok (commit_exists who r s)) (CommitModule CommitAlreadyExists)))
    (thenO (ensureO (v \<noteq> 0) (CommitModule MarkerCommitNotAllowed))
    (bindO (gets (\<lambda>s. case determine_digest d r s of Inr m \<Rightarrow> m | Inl _ \<Rightarrow> Direct d)) (\<lambda>m.
     bindO (place_commit_of C who r m v variant q) (\<lambda>actual.
     thenO (emit C (EvCommitPlaced who r d actual variant)) (ret actual)))))"

definition place_commit ::
  "('w, 'r, 'd, 'x) config \<Rightarrow> 'w \<Rightarrow> 'r \<Rightarrow> 'd \<Rightarrow> asset \<Rightarrow> dispatch_policy \<Rightarrow>
     ('w, 'r, 'd, 'x, asset) commit_op" where
  "place_commit C who r d v q = place_commit_of_variant C who r d v position_default q"

definition resolve_commit ::
  "('w, 'r, 'd, 'x) config \<Rightarrow> 'w \<Rightarrow> 'r \<Rightarrow> ('w, 'r, 'd, 'x, asset) commit_op" where
  "resolve_commit C who r =
     bindO (readE (get_commit_digest who r)) (\<lambda>d.
     bindO (readE (determine_digest d r)) (\<lambda>m.
     bindO (resolve_commit_of C who r m) (\<lambda>resolved.
     thenO (emit C (EvCommitResolved who r d resolved)) (ret resolved))))"

definition raise_commit ::
  "('w, 'r, 'd, 'x) config \<Rightarrow> 'w \<Rightarrow> 'r \<Rightarrow> asset \<Rightarrow> dispatch_policy \<Rightarrow> ('w, 'r, 'd, 'x, asset) commit_op" where
  "raise_commit C who r v q =
     thenO (readE (commit_exists who r))
    (thenO (ensureO (v \<noteq> 0) (CommitModule MarkerCommitNotAllowed))
    (bindO (readE (get_commit_digest who r)) (\<lambda>d.
     bindO (readE (determine_digest d r)) (\<lambda>m.
     bindO (raise_commit_of C who r m v q) (\<lambda>raised.
     thenO (emit C (EvCommitRaised who r d raised)) (ret raised))))))"

definition set_commit_variant ::
  "('w, 'r, 'd, 'x) config \<Rightarrow> 'w \<Rightarrow> 'r \<Rightarrow> disposition \<Rightarrow> dispatch_policy \<Rightarrow> ('w, 'r, 'd, 'x, unit) commit_op" where
  "set_commit_variant C who r variant q =
     thenO (readE (commit_exists who r))
    (bindO (readE (get_commit_variant who r)) (\<lambda>current.
     if current = variant then ret ()
     else bindO (readE (get_commit_digest who r)) (\<lambda>d.
          bindO (resolve_commit C who r) (\<lambda>re_deposit.
          thenO (place_commit_of_variant C who r d re_deposit variant q) (ret ())))))"

text \<open>The closure of \<open>set_digest_variant_value\<close> changes one balance and, through other storage
  items, the pending issuance and the reason's total; the balance is written back with an error of
  any of them.\<close>

definition set_digest_variant_value ::
  "('w, 'r, 'd, 'x) config \<Rightarrow> 'r \<Rightarrow> 'd \<Rightarrow> asset \<Rightarrow> disposition \<Rightarrow> ('w, 'r, 'd, 'x, asset) commit_op" where
  "set_digest_variant_value C r d v variant =
     bindO (on_digest DigestNotFound (r, d) (mut_balance variant (readE balance_total))) (\<lambda>current.
     bindO (if current < v then
              bindO (on_digest DigestNotFound (r, d) (mut_balance variant (lazy_mint C (sat_sub v current)))) (\<lambda>actual.
              thenO (issue_more actual)
             (thenO (add_to_total_value r actual)
                    (ret (sat_add current actual))))
            else if current > v then
              bindO (on_digest DigestNotFound (r, d) (mut_balance variant (lazy_reap C (sat_sub current v)))) (\<lambda>actual.
              thenO (reap_more actual)
             (thenO (sub_from_total_value r actual)
                    (ret (sat_sub current actual))))
            else ret current) (\<lambda>new.
     thenO (emit C (EvDigestInfo d r new variant)) (ret new)))"

definition set_digest_value ::
  "('w, 'r, 'd, 'x) config \<Rightarrow> 'r \<Rightarrow> 'd \<Rightarrow> asset \<Rightarrow> ('w, 'r, 'd, 'x, asset) commit_op" where
  "set_digest_value C r d v = set_digest_variant_value C r d v position_default"

fun residue_of ::
  "asset \<Rightarrow> (disposition \<times> lazy_balance) list \<Rightarrow> commit_failure + asset option" where
  "residue_of remaining [] = Inr (Some remaining)"
| "residue_of remaining ((p, b) # bs) =
     (if is_ok (has_deposits b) then Inr None
      else bindE (balance_total b) (\<lambda>remaining'. residue_of remaining' bs))"

definition reap_digest ::
  "('w, 'r, 'd, 'x) config \<Rightarrow> 'd \<Rightarrow> 'r \<Rightarrow> ('w, 'r, 'd, 'x, unit) commit_op" where
  "reap_digest C d r =
     bindO (readE (\<lambda>s. ok_orE (CommitModule DigestNotFound) (cs_digests s (r, d)))) (\<lambda>info.
     bindO (readE (\<lambda>_. digest_balances info)) (\<lambda>bs.
     bindO (readE (\<lambda>_. residue_of 0 bs)) (\<lambda>res.
     bindO (ok_orO (CommitModule DigestHasFunds) res) (\<lambda>remaining.
     thenO (if remaining \<noteq> 0
            then thenO (reap_more remaining) (sub_from_total_value r remaining) else ret ())
    (thenO (emit C (EvDigestReaped d r remaining))
           (modify (\<lambda>s. s\<lparr>cs_digests := (cs_digests s)((r, d) := None)\<rparr>)))))))"

section \<open>Indexes\<close>

definition entry_exists ::
  "'r \<Rightarrow> 'd \<Rightarrow> 'd \<Rightarrow> ('w, 'r, 'd, 'x) commit_store \<Rightarrow> commit_failure + unit" where
  "entry_exists r i d s =
     bindE (get_index r i s) (\<lambda>ix.
     ensureE (first_position (\<lambda>e. d = en_digest e) (ix_entries ix) \<noteq> None)
       (CommitModule EntryOfIndexNotFound))"

definition get_entries_shares ::
  "'r \<Rightarrow> 'd \<Rightarrow> ('w, 'r, 'd, 'x) commit_store \<Rightarrow> commit_failure + ('d \<times> commit_shares) list" where
  "get_entries_shares r i s =
     bindE (get_index r i s) (\<lambda>ix. Inr (map (\<lambda>e. (en_digest e, en_shares e)) (ix_entries ix)))"

definition get_entry_variant ::
  "'r \<Rightarrow> 'd \<Rightarrow> 'd \<Rightarrow> ('w, 'r, 'd, 'x) commit_store \<Rightarrow> commit_failure + disposition" where
  "get_entry_variant r i d s =
     bindE (get_index r i s) (\<lambda>ix.
     case last_position (\<lambda>e. en_digest e = d) (ix_entries ix) of
       None \<Rightarrow> Inl (CommitModule EntryOfIndexNotFound)
     | Some n \<Rightarrow> if n < length (ix_entries ix) then Inr (en_variant (ix_entries ix ! n))
                 else Inl (CommitModule EntryOfIndexNotFound))"

fun prepare_entries ::
  "'r \<Rightarrow> ('d \<times> commit_shares \<times> disposition) list \<Rightarrow> ('w, 'r, 'd, 'x) commit_store \<Rightarrow>
     commit_failure + 'd entry_info list" where
  "prepare_entries r [] s = Inr []"
| "prepare_entries r ((d, sh, variant) # es) s =
     (if sh = 0 then prepare_entries r es s
      else bindE (ensureE (cs_digests s (r, d) \<noteq> None) (CommitModule EntryDigestNotInitiated)) (\<lambda>_.
           bindE (entry_info_new d sh variant) (\<lambda>e.
           bindE (prepare_entries r es s) (\<lambda>rest. Inr (e # rest)))))"

definition prepare_index_of_variants ::
  "('w, 'r, 'd, 'x) config \<Rightarrow> 'r \<Rightarrow> ('d \<times> commit_shares \<times> disposition) list \<Rightarrow>
     ('w, 'r, 'd, 'x) commit_store \<Rightarrow> commit_failure + 'd index_info" where
  "prepare_index_of_variants C r es s =
     bindE (prepare_entries r es s) (\<lambda>entries_of.
     bindE (entries_new (cc_max_entries C) entries_of) index_info_new)"

definition prepare_index ::
  "('w, 'r, 'd, 'x) config \<Rightarrow> 'r \<Rightarrow> ('d \<times> commit_shares) list \<Rightarrow>
     ('w, 'r, 'd, 'x) commit_store \<Rightarrow> commit_failure + 'd index_info" where
  "prepare_index C r es s =
     bindE (prepare_entries r (map (\<lambda>(d, sh). (d, sh, position_default)) es) s) (\<lambda>entries_of.
     bindE (entries_new (cc_max_entries C) entries_of) index_info_new)"

definition gen_index_digest ::
  "('w, 'r, 'd, 'x) config \<Rightarrow> 'w \<Rightarrow> 'r \<Rightarrow> 'd index_info \<Rightarrow> commit_failure + 'd" where
  "gen_index_digest C who r ix = ok_orE (CommitModule CannotGenerateDigest) (cc_index_digest C who r ix)"

definition set_index ::
  "('w, 'r, 'd, 'x) config \<Rightarrow> 'r \<Rightarrow> 'd index_info \<Rightarrow> 'd \<Rightarrow> ('w, 'r, 'd, 'x, unit) commit_op" where
  "set_index C r ix d =
     thenO (readE (\<lambda>s. ensureE (\<not> is_ok (index_exists r d s)) (CommitModule IndexDigestTaken)))
    (thenO (modify (\<lambda>s. s\<lparr>cs_indexes := (cs_indexes s)((r, d) \<mapsto> ix)\<rparr>))
           (emit C (EvIndexInitialized d r)))"

definition remove_index_entry ::
  "('w, 'r, 'd, 'x) config \<Rightarrow> 'w \<Rightarrow> 'r \<Rightarrow> 'd \<Rightarrow> 'd \<Rightarrow> ('w, 'r, 'd, 'x, 'd) commit_op" where
  "remove_index_entry C who r i d =
     bindO (readE (get_index r i)) (\<lambda>ix.
     bindO (on_local (ix_entries ix) (remove_entry d)) (\<lambda>(_, es).
     bindO (readE (\<lambda>_. index_info_new es)) (\<lambda>new_index.
     bindO (readE (\<lambda>_. gen_index_digest C who r new_index)) (\<lambda>digest.
     thenO (set_index C r new_index digest) (ret digest)))))"

definition set_index_entry ::
  "('w, 'r, 'd, 'x) config \<Rightarrow> 'w \<Rightarrow> 'r \<Rightarrow> 'd \<Rightarrow> 'd \<Rightarrow> commit_shares \<Rightarrow> disposition \<Rightarrow>
     ('w, 'r, 'd, 'x, 'd) commit_op" where
  "set_index_entry C who r i d sh variant =
     thenO (ensureO (sh \<noteq> 0) (CommitModule ShareCannotBeZero))
    (bindO (readE (get_index r i)) (\<lambda>ix.
     bindO (on_local (ix_entries ix)
              (if is_ok (index_entry_exists d ix) then remove_entry d else ret ())) (\<lambda>(_, es).
     bindO (readE (\<lambda>_. entry_info_new d sh variant)) (\<lambda>e.
     bindO (on_local es (add_entry (cc_max_entries C) e)) (\<lambda>(_, es').
     bindO (readE (\<lambda>_. index_info_new es')) (\<lambda>new_index.
     bindO (readE (\<lambda>_. gen_index_digest C who r new_index)) (\<lambda>digest.
     thenO (set_index C r new_index digest) (ret digest))))))))"

definition set_entry_shares ::
  "('w, 'r, 'd, 'x) config \<Rightarrow> 'w \<Rightarrow> 'r \<Rightarrow> 'd \<Rightarrow> 'd \<Rightarrow> commit_shares \<Rightarrow> ('w, 'r, 'd, 'x, 'd) commit_op" where
  "set_entry_shares C who r i d sh =
     bindO (gets (entry_exists r i d)) (\<lambda>ex.
     if is_ok ex then
       (if sh = 0 then remove_index_entry C who r i d
        else bindO (readE (get_entry_variant r i d)) (set_index_entry C who r i d sh))
     else
       (if sh = 0 then ret i
        else thenO (readE (\<lambda>s. ensureE (cs_digests s (r, d) \<noteq> None) (CommitModule EntryDigestNotInitiated)))
                   (set_index_entry C who r i d sh position_default)))"

text \<open>A loop that keeps the last match of a list of digests and values.\<close>

definition last_value :: "'d \<Rightarrow> ('d \<times> 'v) list \<Rightarrow> 'v option" where
  "last_value d xs = fold (\<lambda>(e, v) found. if e = d then Some v else found) xs None"

definition set_entry_of_variant ::
  "('w, 'r, 'd, 'x) config \<Rightarrow> 'w \<Rightarrow> 'r \<Rightarrow> 'd \<Rightarrow> 'd \<Rightarrow> disposition \<Rightarrow> commit_shares option \<Rightarrow>
     ('w, 'r, 'd, 'x, 'd) commit_op" where
  "set_entry_of_variant C who r i d variant shs =
     bindO (gets (entry_exists r i d)) (\<lambda>ex.
     if is_ok ex then
       (case shs of
          Some sh \<Rightarrow> if sh = 0 then remove_index_entry C who r i d
                     else set_index_entry C who r i d sh variant
        | None \<Rightarrow>
            bindO (readE (get_entries_shares r i)) (\<lambda>es.
            bindO (ok_orO (CommitModule EntryOfIndexNotFound) (last_value d es)) (\<lambda>sh.
            set_index_entry C who r i d sh variant)))
     else
       (case shs of
          None \<Rightarrow> ret i
        | Some sh \<Rightarrow>
            if sh = 0 then ret i
            else thenO (readE (\<lambda>s. ensureE (cs_digests s (r, d) \<noteq> None) (CommitModule EntryDigestNotInitiated)))
                       (set_index_entry C who r i d sh variant)))"

text \<open>\<open>iter_prefix\<close> over the proprietors of an entry finds one exactly when some key of the prefix
  is present; the proprietors are those of a finite list the caller supplies.\<close>

definition reap_index ::
  "('w, 'r, 'd, 'x) config \<Rightarrow> 'w list \<Rightarrow> 'r \<Rightarrow> 'd \<Rightarrow> ('w, 'r, 'd, 'x, unit) commit_op" where
  "reap_index C holders r i =
     bindO (readE (get_index r i)) (\<lambda>ix.
     thenO (ensureO (ix_principal ix = 0) (CommitModule IndexHasFunds))
    (thenO (readE (\<lambda>s. ensureE
              (list_all (\<lambda>e. list_all (\<lambda>w. cs_entry_commits s (r, i, en_digest e, w) = None) holders)
                 (ix_entries ix)) (CommitModule IndexHasFunds)))
    (thenO (modify (\<lambda>s. s\<lparr>cs_indexes := (cs_indexes s)((r, i) := None)\<rparr>))
           (emit C (EvIndexReaped i r)))))"

section \<open>Pools\<close>

definition slot_exists ::
  "'r \<Rightarrow> 'd \<Rightarrow> 'd \<Rightarrow> ('w, 'r, 'd, 'x) commit_store \<Rightarrow> commit_failure + unit" where
  "slot_exists r p d s =
     bindE (get_pool r p s) (\<lambda>pool.
     ensureE (first_position (\<lambda>sl. sl_digest sl = d) (po_slots pool) \<noteq> None)
       (CommitModule SlotOfPoolNotFound))"

definition get_slots_shares ::
  "'r \<Rightarrow> 'd \<Rightarrow> ('w, 'r, 'd, 'x) commit_store \<Rightarrow> commit_failure + ('d \<times> commit_shares) list" where
  "get_slots_shares r p s =
     bindE (get_pool r p s) (\<lambda>pool. Inr (map (\<lambda>sl. (sl_digest sl, sl_shares sl)) (po_slots pool)))"

definition get_slot_variant ::
  "'r \<Rightarrow> 'd \<Rightarrow> 'd \<Rightarrow> ('w, 'r, 'd, 'x) commit_store \<Rightarrow> commit_failure + disposition" where
  "get_slot_variant r p d s =
     bindE (get_pool r p s) (\<lambda>pool.
     case last_position (\<lambda>sl. sl_digest sl = d) (po_slots pool) of
       None \<Rightarrow> Inl (CommitModule SlotOfPoolNotFound)
     | Some n \<Rightarrow> if n < length (po_slots pool) then Inr (sl_variant (po_slots pool ! n))
                 else Inl (CommitModule SlotOfPoolNotFound))"

definition get_commission ::
  "'r \<Rightarrow> 'd \<Rightarrow> ('w, 'r, 'd, 'x) commit_store \<Rightarrow> commit_failure + commission" where
  "get_commission r p s = bindE (get_pool r p s) (\<lambda>pool. Inr (po_commission pool))"

definition gen_pool_digest ::
  "('w, 'r, 'd, 'x) config \<Rightarrow> 'w \<Rightarrow> 'r \<Rightarrow> 'd \<Rightarrow> commission \<Rightarrow> ('w, 'r, 'd, 'x) commit_store \<Rightarrow>
     commit_failure + 'd" where
  "gen_pool_digest C who r i com s =
     bindE (get_index r i s) (\<lambda>ix.
     bindE (pool_info_new (cc_max_entries C) (ix_entries ix) com) (\<lambda>pool.
     ok_orE (CommitModule CannotGenerateDigest) (cc_pool_digest C who r pool)))"

definition set_pool_manager ::
  "('w, 'r, 'd, 'x) config \<Rightarrow> 'r \<Rightarrow> 'd \<Rightarrow> 'w \<Rightarrow> ('w, 'r, 'd, 'x, unit) commit_op" where
  "set_pool_manager C r p manager =
     thenO (readE (pool_exists r p))
    (thenO (modify (\<lambda>s. s\<lparr>cs_managers := (cs_managers s)((r, p) \<mapsto> manager)\<rparr>))
           (emit C (EvPoolManager p r manager)))"

definition set_pool ::
  "('w, 'r, 'd, 'x) config \<Rightarrow> 'w \<Rightarrow> 'r \<Rightarrow> 'd \<Rightarrow> 'd \<Rightarrow> commission \<Rightarrow> ('w, 'r, 'd, 'x, unit) commit_op" where
  "set_pool C who r p i com =
     thenO (readE (\<lambda>s. ensureE (\<not> is_ok (pool_exists r p s)) (CommitModule PoolDigestTaken)))
    (bindO (readE (get_index r i)) (\<lambda>ix.
     bindO (readE (\<lambda>_. pool_info_new (cc_max_entries C) (ix_entries ix) com)) (\<lambda>pool.
     thenO (modify (\<lambda>s. s\<lparr>cs_pools := (cs_pools s)((r, p) \<mapsto> pool)\<rparr>))
    (thenO (set_pool_manager C r p who)
           (emit C (EvPoolInitialized p r (po_commission pool)))))))"

definition set_commission ::
  "('w, 'r, 'd, 'x) config \<Rightarrow> 'w \<Rightarrow> 'r \<Rightarrow> 'd \<Rightarrow> commission \<Rightarrow> ('w, 'r, 'd, 'x, 'd) commit_op" where
  "set_commission C who r i com =
     bindO (readE (gen_pool_digest C who r i com)) (\<lambda>p.
     thenO (set_pool C who r p i com) (ret p))"

definition on_set_slot_of_variant ::
  "('w, 'r, 'd, 'x) config \<Rightarrow> 'd \<Rightarrow> 'r \<Rightarrow> 'd \<Rightarrow> commit_shares option \<Rightarrow> disposition \<Rightarrow>
     ('w, 'r, 'd, 'x, unit) commit_op" where
  "on_set_slot_of_variant C p r d shs variant =
     (if \<not> cc_emit C then ret ()
      else bindO (gets (\<lambda>s. case shs of
                    Some sh \<Rightarrow> Some sh
                  | None \<Rightarrow> (case get_slots_shares r p s of
                               Inl _ \<Rightarrow> None
                             | Inr sls \<Rightarrow> map_option snd (find (\<lambda>(e, _). e = d) sls)))) (\<lambda>found.
           case found of
             None \<Rightarrow> ret ()
           | Some sh \<Rightarrow> if sh = 0 then emit C (EvPoolSlotRemoved p r d variant)
                        else emit C (EvPoolSlot p r d variant sh)))"

definition set_slot_shares ::
  "('w, 'r, 'd, 'x) config \<Rightarrow> 'r \<Rightarrow> 'd \<Rightarrow> 'd \<Rightarrow> commit_shares \<Rightarrow> ('w, 'r, 'd, 'x, unit) commit_op" where
  "set_slot_shares C r p d sh =
     bindO (gets (slot_exists r p d)) (\<lambda>ex.
     if is_ok ex then
       bindO (readE (get_slot_variant r p d)) (\<lambda>variant.
       thenO (if sh = 0 then remove_pool_slot C r p d else set_pool_slot C r p d sh variant)
             (on_set_slot_of_variant C p r d (Some sh) position_default))
     else if sh = 0 then ret ()
     else
       thenO (readE (\<lambda>s. ensureE (cs_digests s (r, d) \<noteq> None) (CommitModule SlotDigestNotInitiated)))
      (thenO (set_pool_slot C r p d sh position_default)
             (on_set_slot_of_variant C p r d (Some sh) position_default)))"

definition set_slot_of_variant ::
  "('w, 'r, 'd, 'x) config \<Rightarrow> 'r \<Rightarrow> 'd \<Rightarrow> 'd \<Rightarrow> disposition \<Rightarrow> commit_shares option \<Rightarrow>
     ('w, 'r, 'd, 'x, unit) commit_op" where
  "set_slot_of_variant C r p d variant shs =
     bindO (gets (slot_exists r p d)) (\<lambda>ex.
     if is_ok ex then
       (case shs of
          Some sh \<Rightarrow> if sh = 0 then remove_pool_slot C r p d else set_pool_slot C r p d sh variant
        | None \<Rightarrow>
            bindO (readE (get_slots_shares r p)) (\<lambda>sls.
            bindO (ok_orO (CommitModule SlotOfPoolNotFound) (last_value d sls)) (\<lambda>sh.
            set_pool_slot C r p d sh variant)))
     else
       (case shs of
          None \<Rightarrow> throw (CommitModule SlotOfPoolNotFound)
        | Some sh \<Rightarrow>
            if sh = 0 then ret ()
            else thenO (readE (\<lambda>s. ensureE (cs_digests s (r, d) \<noteq> None) (CommitModule SlotDigestNotInitiated)))
                       (set_pool_slot C r p d sh variant)))"

definition reap_pool ::
  "('w, 'r, 'd, 'x) config \<Rightarrow> 'r \<Rightarrow> 'd \<Rightarrow> ('w, 'r, 'd, 'x, unit) commit_op" where
  "reap_pool C r p =
     bindO (readE (get_pool r p)) (\<lambda>pool.
     thenO (ensureO (\<not> is_ok (has_deposits (po_balance pool))) (CommitModule PoolHasFunds))
    (bindO (readE (\<lambda>_. balance_total (po_balance pool))) (\<lambda>eff.
     thenO (if eff \<noteq> 0 then
              bindO (readE (get_manager r p)) (\<lambda>manager.
              bindO (resolve_imbalance C manager \<lparr>ad_deposit = 0, ad_withdraw = eff\<rparr>) (\<lambda>dust_retn.
              sub_from_total_value r dust_retn))
            else ret ())
    (thenO (modify (\<lambda>s. s\<lparr>cs_pools := (cs_pools s)((r, p) := None),
                          cs_managers := (cs_managers s)((r, p) := None)\<rparr>))
           (emit C (EvPoolReaped p r))))))"

section \<open>The reserve calls\<close>

text \<open>The origin is the outcome of \<open>ensure_signed\<close>. A dispatched call that fails is rolled back
  (\<open>transactional\<close>).\<close>

definition deposit_reserve ::
  "('w, 'r, 'd, 'x) config \<Rightarrow> commit_failure + 'w \<Rightarrow> asset \<Rightarrow> precision_wrapper \<Rightarrow>
     ('w, 'r, 'd, 'x, unit) commit_op" where
  "deposit_reserve C origin amount prec =
     (let A = cc_asset C in
      bindO (readE (\<lambda>_. origin)) (\<lambda>caller.
      bindO (gets (\<lambda>s. as_reducible A caller Preserve Polite (cs_asset s))) (\<lambda>reducible.
      if reducible < amount then
        thenO (ensureO (prec \<noteq> WrapExact) (CommitModule InsufficientFunds))
       (thenO (on_asset (as_decrease A caller reducible Exact Preserve Polite))
       (thenO (on_asset (as_increase_on_hold A caller reducible Exact))
       (bindO (gets (\<lambda>s. as_on_hold A caller (cs_asset s))) (\<lambda>held.
        modify (\<lambda>s. s\<lparr>cs_events := cs_events s @ [EvReserveDeposited reducible held]\<rparr>)))))
      else
        thenO (on_asset (as_decrease A caller amount Exact Preserve Force))
       (thenO (on_asset (as_increase_on_hold A caller amount Exact))
       (bindO (gets (\<lambda>s. as_on_hold A caller (cs_asset s))) (\<lambda>held.
        modify (\<lambda>s. s\<lparr>cs_events := cs_events s @ [EvReserveDeposited amount held]\<rparr>)))))))"

definition withdraw_reserve ::
  "('w, 'r, 'd, 'x) config \<Rightarrow> commit_failure + 'w \<Rightarrow> asset option \<Rightarrow> ('w, 'r, 'd, 'x, unit) commit_op" where
  "withdraw_reserve C origin amount =
     (let A = cc_asset C in
      bindO (readE (\<lambda>_. origin)) (\<lambda>caller.
      bindO (gets (\<lambda>s. as_on_hold A caller (cs_asset s))) (\<lambda>held.
      bindO (case amount of
               None \<Rightarrow> ret held
             | Some a \<Rightarrow> thenO (ensureO (\<not> held < a) (CommitModule InsufficientFunds)) (ret a)) (\<lambda>a.
      thenO (on_asset (as_decrease_on_hold A caller a Exact))
     (thenO (on_asset (as_increase A caller a Exact))
     (bindO (gets (\<lambda>s. as_on_hold A caller (cs_asset s))) (\<lambda>left.
      modify (\<lambda>s. s\<lparr>cs_events := cs_events s @ [EvReserveWithdrawn a left]\<rparr>))))))))"

end
