(* ===== verification/CommitInspect.thy ===== *)
theory CommitInspect
  imports CommitPallet
begin

text \<open>
  The queries and checks of the commitment pallet: values of commitments, digests, indexes and
  pools (\<open>CommitInspect\<close> in \<open>helpers.rs\<close>, the getters of \<open>commitment.rs\<close>, the default methods of
  \<open>frame/suite/src/commitment.rs\<close>), the \<open>can_\<close> checks and the available funds. None of them
  changes storage. Where the code iterates over the proprietors of an entry or the indexes of a
  reason, the keys are those of a list the caller supplies, in the order of the iteration.
\<close>

section \<open>Values of a commitment\<close>

fun active_values ::
  "('w, 'r, 'd, 'x) config \<Rightarrow> commit_error \<Rightarrow> lazy_balance \<Rightarrow> asset \<Rightarrow> commit_instance list \<Rightarrow>
     commit_failure + asset" where
  "active_values C e b acc [] = Inr acc"
| "active_values C e b acc (c # cs) =
     bindE (receipt_active_value C b c) (\<lambda>take.
     bindE (ok_orE (CommitModule e) (checked_add acc take)) (\<lambda>acc'.
     active_values C e b acc' cs))"

definition digest_commit_value ::
  "('w, 'r, 'd, 'x) config \<Rightarrow> 'w \<Rightarrow> 'r \<Rightarrow> 'd \<Rightarrow> ('w, 'r, 'd, 'x) commit_store \<Rightarrow> commit_failure + asset" where
  "digest_commit_value C who r d s =
     bindE (ok_orE (CommitModule DigestNotFound) (cs_digests s (r, d))) (\<lambda>info.
     bindE (ok_orE (CommitModule CommitNotFound) (cs_commits s (who, r))) (\<lambda>ci.
     bindE (ok_orE (CommitModule DigestVariantBalanceNotFound) (get_balance (ci_variant ci) info)) (\<lambda>b.
     active_values C CommitsAccumulationExhausted b 0 (ci_commits ci))))"

fun index_values ::
  "('w, 'r, 'd, 'x) config \<Rightarrow> 'w \<Rightarrow> 'r \<Rightarrow> 'd \<Rightarrow> asset \<Rightarrow> 'd entry_info list \<Rightarrow>
     ('w, 'r, 'd, 'x) commit_store \<Rightarrow> commit_failure + asset" where
  "index_values C who r i acc [] s = Inr acc"
| "index_values C who r i acc (e # es) s =
     bindE (ok_orE (CommitModule CommitNotFoundForEntry) (cs_entry_commits s (r, i, en_digest e, who))) (\<lambda>cs.
     bindE (ok_orE (CommitModule EntryOfIndexNotFound) (cs_digests s (r, en_digest e))) (\<lambda>info.
     bindE (ok_orE (CommitModule DigestVariantBalanceNotFound) (get_balance (en_variant e) info)) (\<lambda>b.
     bindE (active_values C CommitsAccumulationExhausted b acc cs) (\<lambda>acc'.
     index_values C who r i acc' es s))))"

definition index_commit_value ::
  "('w, 'r, 'd, 'x) config \<Rightarrow> 'w \<Rightarrow> 'r \<Rightarrow> 'd \<Rightarrow> ('w, 'r, 'd, 'x) commit_store \<Rightarrow> commit_failure + asset" where
  "index_commit_value C who r i s =
     bindE (get_index r i s) (\<lambda>ix. index_values C who r i 0 (ix_entries ix) s)"

definition index_entry_commit_value ::
  "('w, 'r, 'd, 'x) config \<Rightarrow> 'w \<Rightarrow> 'r \<Rightarrow> 'd \<Rightarrow> 'd \<Rightarrow> ('w, 'r, 'd, 'x) commit_store \<Rightarrow>
     commit_failure + asset" where
  "index_entry_commit_value C who r i d s =
     bindE (get_index r i s) (\<lambda>ix.
     bindE (ok_orE (CommitModule EntryOfIndexNotFound)
              (last_position (\<lambda>e. en_digest e = d) (ix_entries ix))) (\<lambda>n.
     bindE (ok_orE (CommitModule EntryOfIndexNotFound)
              (if n < length (ix_entries ix) then Some (ix_entries ix ! n) else None)) (\<lambda>e.
     bindE (ok_orE (CommitModule CommitNotFoundForEntry) (cs_entry_commits s (r, i, d, who))) (\<lambda>cs.
     bindE (ok_orE (CommitModule EntryDigestNotFound) (cs_digests s (r, d))) (\<lambda>info.
     bindE (ok_orE (CommitModule DigestVariantBalanceNotFound) (get_balance (en_variant e) info)) (\<lambda>b.
     active_values C CommitsAccumulationExhausted b 0 cs))))))"

fun pool_slots_taken ::
  "('w, 'r, 'd, 'x) config \<Rightarrow> 'r \<Rightarrow> asset \<Rightarrow> 'd slot_info list \<Rightarrow>
     ('w, 'r, 'd, 'x) commit_store \<Rightarrow> commit_failure + asset" where
  "pool_slots_taken C r taken [] s = Inr taken"
| "pool_slots_taken C r taken (sl # sls) s =
     bindE (ensureE (sl_shares sl \<noteq> 0) (CommitModule ShareCannotBeZero)) (\<lambda>_.
     bindE (ok_orE (CommitModule SlotOfPoolNotFound) (cs_digests s (r, sl_digest sl))) (\<lambda>info.
     bindE (ok_orE (CommitModule DigestVariantBalanceNotFound) (get_balance (sl_variant sl) info)) (\<lambda>b.
     bindE (receipt_active_value C b (sl_commit sl)) (\<lambda>take.
     bindE (ok_orE (CommitModule WithdrawAccumulationExhausted) (checked_add taken take)) (\<lambda>taken'.
     pool_slots_taken C r taken' sls s)))))"

fun withdraw_values ::
  "('w, 'r, 'd, 'x) config \<Rightarrow> asset \<Rightarrow> commit_instance list \<Rightarrow> asset lazy_op" where
  "withdraw_values C acc [] = ret acc"
| "withdraw_values C acc (c # cs) =
     bindO (lazy_withdraw C c) (\<lambda>take.
     bindO (ok_orO (CommitModule CommitsAccumulationExhausted) (checked_add acc take)) (\<lambda>acc'.
     withdraw_values C acc' cs))"

definition pool_commit_value ::
  "('w, 'r, 'd, 'x) config \<Rightarrow> 'w \<Rightarrow> 'r \<Rightarrow> 'd \<Rightarrow> ('w, 'r, 'd, 'x) commit_store \<Rightarrow> commit_failure + asset" where
  "pool_commit_value C who r p s =
     bindE (get_pool r p s) (\<lambda>pool.
     bindE (ok_orE (CommitModule CommitNotFound) (cs_commits s (who, r))) (\<lambda>ci.
     bindE (ensureE (ci_digest ci = p) (CommitModule CommitNotFoundForPool)) (\<lambda>_.
     bindE (ensureE (po_capital pool \<noteq> 0) (CommitModule CapitalCannotBeZero)) (\<lambda>_.
     case po_slots pool of
       [] \<Rightarrow> Inl (CommitModule EmptySlotsNotAllowed)
     | first_slot # _ \<Rightarrow>
         if sl_commit first_slot = product_default then Inr 0
         else
           bindE (pool_slots_taken C r 0 (po_slots pool) s) (\<lambda>taken.
           fst (thenO (match_effective C taken) (withdraw_values C 0 (ci_commits ci)) (po_balance pool)))))))"

definition commit_value_of ::
  "('w, 'r, 'd, 'x) config \<Rightarrow> 'w \<Rightarrow> 'r \<Rightarrow> 'd digest_variant \<Rightarrow> ('w, 'r, 'd, 'x) commit_store \<Rightarrow>
     commit_failure + asset" where
  "commit_value_of C who r m s =
     (case m of Direct d \<Rightarrow> digest_commit_value C who r d s
      | Index i \<Rightarrow> index_commit_value C who r i s
      | Pool p \<Rightarrow> pool_commit_value C who r p s)"

definition get_commit_value ::
  "('w, 'r, 'd, 'x) config \<Rightarrow> 'w \<Rightarrow> 'r \<Rightarrow> ('w, 'r, 'd, 'x) commit_store \<Rightarrow> commit_failure + asset" where
  "get_commit_value C who r s =
     bindE (get_commit_digest who r s) (\<lambda>d.
     bindE (determine_digest d r s) (\<lambda>m. commit_value_of C who r m s))"

definition pool_slot_commit_value ::
  "('w, 'r, 'd, 'x) config \<Rightarrow> 'w \<Rightarrow> 'r \<Rightarrow> 'd \<Rightarrow> 'd \<Rightarrow> ('w, 'r, 'd, 'x) commit_store \<Rightarrow>
     commit_failure + asset" where
  "pool_slot_commit_value C who r p d s =
     (let fx = cc_fx C in
      bindE (pool_commit_value C who r p s) (\<lambda>pool_commit.
      bindE (get_pool r p s) (\<lambda>pool.
      bindE (ok_orE (CommitModule SlotOfPoolNotFound)
               (last_value d (map (\<lambda>sl. (sl_digest sl, sl_shares sl)) (po_slots pool)))) (\<lambda>sh.
      bindE (ensureE (sh \<noteq> 0) (CommitModule ShareCannotBeZero)) (\<lambda>_.
      bindE (ok_orE (CommitModule TooSmallShareValue)
               (fx_from_rational fx (ucast sh) (ucast (po_capital pool)))) (\<lambda>factor.
      bindE (ok_orE (CommitModule WithdrawalOverflow)
               (fx_checked_mul fx (fx_from_integer fx pool_commit) factor)) (\<lambda>fixed.
      if fixed < fx_div fx then Inr 0
      else bindE (ok_orE (CommitModule DerivedLessThanZeroValue) (checked_div fixed (fx_div fx)))
             (\<lambda>scaled. Inr (ucast scaled)))))))))"

section \<open>Values of digests, indexes and pools\<close>

definition get_digest_variant_value ::
  "'r \<Rightarrow> 'd \<Rightarrow> disposition \<Rightarrow> ('w, 'r, 'd, 'x) commit_store \<Rightarrow> commit_failure + asset" where
  "get_digest_variant_value r d variant s =
     bindE (ok_orE (CommitModule DigestNotFound) (cs_digests s (r, d))) (\<lambda>info.
     case get_balance variant info of
       None \<Rightarrow> balance_total product_default
     | Some b \<Rightarrow> balance_total b)"

definition get_digest_value ::
  "'r \<Rightarrow> 'd \<Rightarrow> ('w, 'r, 'd, 'x) commit_store \<Rightarrow> commit_failure + asset" where
  "get_digest_value r d s = get_digest_variant_value r d position_default s"

fun sum_results :: "asset \<Rightarrow> (commit_failure + asset) list \<Rightarrow> commit_failure + asset" where
  "sum_results acc [] = Inr acc"
| "sum_results acc (x # xs) = bindE x (\<lambda>v. sum_results (sat_add acc v) xs)"

definition get_entry_value ::
  "('w, 'r, 'd, 'x) config \<Rightarrow> 'w list \<Rightarrow> 'r \<Rightarrow> 'd \<Rightarrow> 'd \<Rightarrow> ('w, 'r, 'd, 'x) commit_store \<Rightarrow>
     commit_failure + asset" where
  "get_entry_value C holders r i d s =
     bindE (entry_exists r i d s) (\<lambda>_.
     sum_results 0 (map (\<lambda>w. index_entry_commit_value C w r i d s)
                      (filter (\<lambda>w. cs_entry_commits s (r, i, d, w) \<noteq> None) holders)))"

text \<open>A loop that pairs every key of a list with its value and stops at the first error.\<close>

fun collect_values ::
  "('d \<Rightarrow> commit_failure + asset) \<Rightarrow> ('d \<times> commit_shares) list \<Rightarrow> commit_failure + ('d \<times> asset) list" where
  "collect_values f [] = Inr []"
| "collect_values f ((d, _) # ds) =
     bindE (f d) (\<lambda>v. bindE (collect_values f ds) (\<lambda>rest. Inr ((d, v) # rest)))"

definition sat_sum :: "('d \<times> asset) list \<Rightarrow> asset" where
  "sat_sum xs = fold (\<lambda>(_, v) acc. sat_add acc v) xs 0"

definition get_entries_value ::
  "('w, 'r, 'd, 'x) config \<Rightarrow> 'w list \<Rightarrow> 'r \<Rightarrow> 'd \<Rightarrow> ('w, 'r, 'd, 'x) commit_store \<Rightarrow>
     commit_failure + ('d \<times> asset) list" where
  "get_entries_value C holders r i s =
     bindE (index_exists r i s) (\<lambda>_.
     bindE (get_entries_shares r i s) (collect_values (\<lambda>d. get_entry_value C holders r i d s)))"

definition get_index_value ::
  "('w, 'r, 'd, 'x) config \<Rightarrow> 'w list \<Rightarrow> 'r \<Rightarrow> 'd \<Rightarrow> ('w, 'r, 'd, 'x) commit_store \<Rightarrow>
     commit_failure + asset" where
  "get_index_value C holders r i s =
     bindE (index_exists r i s) (\<lambda>_.
     bindE (get_entries_value C holders r i s) (\<lambda>vs. Inr (sat_sum vs)))"

definition get_entry_value_for ::
  "('w, 'r, 'd, 'x) config \<Rightarrow> 'w \<Rightarrow> 'r \<Rightarrow> 'd \<Rightarrow> 'd \<Rightarrow> ('w, 'r, 'd, 'x) commit_store \<Rightarrow>
     commit_failure + asset" where
  "get_entry_value_for C who r i d s =
     bindE (get_commit_digest who r s) (\<lambda>digest.
     bindE (entry_exists r i d s) (\<lambda>_.
     bindE (ensureE (digest = i) (CommitModule CommitNotFoundForEntry)) (\<lambda>_.
     index_entry_commit_value C who r i d s)))"

definition get_entries_value_for ::
  "('w, 'r, 'd, 'x) config \<Rightarrow> 'w \<Rightarrow> 'r \<Rightarrow> 'd \<Rightarrow> ('w, 'r, 'd, 'x) commit_store \<Rightarrow>
     commit_failure + ('d \<times> asset) list" where
  "get_entries_value_for C who r i s =
     bindE (index_exists r i s) (\<lambda>_.
     bindE (get_entries_shares r i s) (collect_values (\<lambda>d. get_entry_value_for C who r i d s)))"

definition get_index_value_for ::
  "('w, 'r, 'd, 'x) config \<Rightarrow> 'w \<Rightarrow> 'r \<Rightarrow> 'd \<Rightarrow> ('w, 'r, 'd, 'x) commit_store \<Rightarrow> commit_failure + asset" where
  "get_index_value_for C who r i s =
     bindE (index_exists r i s) (\<lambda>_.
     bindE (get_entries_value_for C who r i s) (\<lambda>vs. Inr (sat_sum vs)))"

definition get_slot_value ::
  "('w, 'r, 'd, 'x) config \<Rightarrow> 'r \<Rightarrow> 'd \<Rightarrow> 'd \<Rightarrow> ('w, 'r, 'd, 'x) commit_store \<Rightarrow> commit_failure + asset" where
  "get_slot_value C r p d s =
     bindE (slot_exists r p d s) (\<lambda>_.
     bindE (get_pool r p s) (\<lambda>pool.
     bindE (ok_orE (CommitModule SlotOfPoolNotFound)
              (last_position (\<lambda>sl. sl_digest sl = d) (po_slots pool))) (\<lambda>n.
     bindE (ok_orE (CommitModule SlotOfPoolNotFound)
              (if n < length (po_slots pool) then Some (po_slots pool ! n) else None)) (\<lambda>sl.
     bindE (ok_orE (CommitModule SlotDigestNotFound) (cs_digests s (r, sl_digest sl))) (\<lambda>info.
     bindE (ok_orE (CommitModule DigestVariantBalanceNotFound) (get_balance (sl_variant sl) info)) (\<lambda>b.
     if sl_commit sl = product_default then Inr 0
     else receipt_active_value C b (sl_commit sl)))))))"

definition get_slots_value ::
  "('w, 'r, 'd, 'x) config \<Rightarrow> 'r \<Rightarrow> 'd \<Rightarrow> ('w, 'r, 'd, 'x) commit_store \<Rightarrow>
     commit_failure + ('d \<times> asset) list" where
  "get_slots_value C r p s =
     bindE (pool_exists r p s) (\<lambda>_.
     bindE (get_slots_shares r p s) (collect_values (\<lambda>d. get_slot_value C r p d s)))"

definition get_pool_value ::
  "('w, 'r, 'd, 'x) config \<Rightarrow> 'r \<Rightarrow> 'd \<Rightarrow> ('w, 'r, 'd, 'x) commit_store \<Rightarrow> commit_failure + asset" where
  "get_pool_value C r p s =
     bindE (pool_exists r p s) (\<lambda>_.
     bindE (get_slots_value C r p s) (\<lambda>vs. Inr (sat_sum vs)))"

definition get_slot_value_for ::
  "('w, 'r, 'd, 'x) config \<Rightarrow> 'w \<Rightarrow> 'r \<Rightarrow> 'd \<Rightarrow> 'd \<Rightarrow> ('w, 'r, 'd, 'x) commit_store \<Rightarrow>
     commit_failure + asset" where
  "get_slot_value_for C who r p d s =
     bindE (get_commit_digest who r s) (\<lambda>digest.
     bindE (slot_exists r p d s) (\<lambda>_.
     bindE (ensureE (digest = p) (CommitModule CommitNotFoundForSlot)) (\<lambda>_.
     pool_slot_commit_value C who r p d s)))"

definition get_slots_value_for ::
  "('w, 'r, 'd, 'x) config \<Rightarrow> 'w \<Rightarrow> 'r \<Rightarrow> 'd \<Rightarrow> ('w, 'r, 'd, 'x) commit_store \<Rightarrow>
     commit_failure + ('d \<times> asset) list" where
  "get_slots_value_for C who r p s =
     bindE (pool_exists r p s) (\<lambda>_.
     bindE (get_slots_shares r p s) (collect_values (\<lambda>d. get_slot_value_for C who r p d s)))"

definition get_pool_value_for ::
  "('w, 'r, 'd, 'x) config \<Rightarrow> 'w \<Rightarrow> 'r \<Rightarrow> 'd \<Rightarrow> ('w, 'r, 'd, 'x) commit_store \<Rightarrow> commit_failure + asset" where
  "get_pool_value_for C who r p s =
     bindE (get_commit_digest who r s) (\<lambda>digest.
     bindE (pool_exists r p s) (\<lambda>_.
     bindE (ensureE (digest = p) (CommitModule CommitNotFoundForSlot)) (\<lambda>_.
     pool_commit_value C who r p s)))"

fun direct_value ::
  "nat list \<Rightarrow> asset \<Rightarrow> 'r \<Rightarrow> 'd \<Rightarrow> ('w, 'r, 'd, 'x) commit_store \<Rightarrow> commit_failure + asset" where
  "direct_value [] acc r d s = Inr acc"
| "direct_value (i # is) acc r d s =
     bindE (ok_orE (CommitModule InvalidCommitVariantIndex) (position_of i)) (\<lambda>variant.
     bindE (get_digest_variant_value r d variant s) (\<lambda>curr.
     direct_value is (sat_add acc curr) r d s))"

definition value_of ::
  "('w, 'r, 'd, 'x) config \<Rightarrow> 'w list \<Rightarrow> 'd digest_variant option \<Rightarrow> 'r \<Rightarrow> ('w, 'r, 'd, 'x) commit_store \<Rightarrow>
     commit_failure + asset" where
  "value_of C holders m r s =
     (case m of
        Some (Direct d) \<Rightarrow> direct_value [0 ..< variant_count] 0 r d s
      | Some (Index i) \<Rightarrow> get_index_value C holders r i s
      | Some (Pool p) \<Rightarrow> get_pool_value C r p s
      | None \<Rightarrow> ok_orE (CommitModule CommitsNotFoundForReason) (cs_reason_value s r))"

section \<open>Checks and limits\<close>

definition available_funds :: "('w, 'r, 'd, 'x) config \<Rightarrow> 'w \<Rightarrow> ('w, 'r, 'd, 'x) commit_store \<Rightarrow> asset" where
  "available_funds C who s =
     sat_add (as_on_hold (cc_asset C) who (cs_asset s))
             (as_reducible (cc_asset C) who Preserve Polite (cs_asset s))"

definition balance_or_default ::
  "'r \<Rightarrow> 'd \<Rightarrow> disposition \<Rightarrow> ('w, 'r, 'd, 'x) commit_store \<Rightarrow> lazy_balance" where
  "balance_or_default r d variant s =
     (case Option.bind (cs_digests s (r, d)) (get_balance variant) of
        None \<Rightarrow> product_default | Some b \<Rightarrow> b)"

definition place_commit_limits_of_variant ::
  "'r \<Rightarrow> 'd \<Rightarrow> disposition \<Rightarrow> ('w, 'r, 'd, 'x) commit_store \<Rightarrow> commit_failure + limits_product" where
  "place_commit_limits_of_variant r d variant s = deposit_limits_of (balance_or_default r d variant s)"

definition digest_mint_limits_of_variant ::
  "'d \<Rightarrow> 'r \<Rightarrow> disposition \<Rightarrow> ('w, 'r, 'd, 'x) commit_store \<Rightarrow> commit_failure + limits_product" where
  "digest_mint_limits_of_variant d r variant s = mint_limits_of (balance_or_default r d variant s)"

definition digest_reap_limits_of_variant ::
  "'d \<Rightarrow> 'r \<Rightarrow> disposition \<Rightarrow> ('w, 'r, 'd, 'x) commit_store \<Rightarrow> commit_failure + limits_product" where
  "digest_reap_limits_of_variant d r variant s = reap_limits_of (balance_or_default r d variant s)"

definition raise_commit_limits ::
  "'w \<Rightarrow> 'r \<Rightarrow> ('w, 'r, 'd, 'x) commit_store \<Rightarrow> commit_failure + limits_product" where
  "raise_commit_limits who r s =
     bindE (get_commit_digest who r s) (\<lambda>d.
     bindE (get_commit_variant who r s) (\<lambda>variant. place_commit_limits_of_variant r d variant s))"

definition can_place_commit_of_variant ::
  "('w, 'r, 'd, 'x) config \<Rightarrow> 'w \<Rightarrow> 'r \<Rightarrow> 'd \<Rightarrow> disposition \<Rightarrow> asset \<Rightarrow> ('w, 'r, 'd, 'x) commit_store \<Rightarrow>
     commit_failure + unit" where
  "can_place_commit_of_variant C who r d variant v s =
     bindE (ensureE (\<not> is_ok (commit_exists who r s)) (CommitModule CommitAlreadyExists)) (\<lambda>_.
     bindE (ensureE (available_funds C who s \<ge> v) (CommitModule InsufficientFunds)) (\<lambda>_.
     let b = balance_or_default r d variant s in
     bindE (deposit_limits_of b) (\<lambda>limits.
     bindE (ensureE (limits_contains limits v) (CommitModule PlacingOffLimits)) (\<lambda>_.
     lazy_can_deposit b v))))"

definition can_place_commit ::
  "('w, 'r, 'd, 'x) config \<Rightarrow> 'w \<Rightarrow> 'r \<Rightarrow> 'd \<Rightarrow> asset \<Rightarrow> ('w, 'r, 'd, 'x) commit_store \<Rightarrow>
     commit_failure + unit" where
  "can_place_commit C who r d v s = can_place_commit_of_variant C who r d position_default v s"

definition can_raise_commit ::
  "('w, 'r, 'd, 'x) config \<Rightarrow> 'w \<Rightarrow> 'r \<Rightarrow> asset \<Rightarrow> ('w, 'r, 'd, 'x) commit_store \<Rightarrow>
     commit_failure + unit" where
  "can_raise_commit C who r v s =
     bindE (get_commit_digest who r s) (\<lambda>d.
     bindE (ensureE (available_funds C who s \<ge> v) (CommitModule InsufficientFunds)) (\<lambda>_.
     bindE (get_commit_variant who r s) (\<lambda>variant.
     let b = balance_or_default r d variant s in
     bindE (deposit_limits_of b) (\<lambda>limits.
     bindE (ensureE (limits_contains limits v) (CommitModule PlacingOffLimits)) (\<lambda>_.
     lazy_can_deposit b v)))))"

fun can_withdraw_all :: "lazy_balance \<Rightarrow> commit_instance list \<Rightarrow> commit_failure + unit" where
  "can_withdraw_all b [] = Inr ()"
| "can_withdraw_all b (c # cs) = bindE (lazy_can_withdraw b c) (\<lambda>_. can_withdraw_all b cs)"

fun can_withdraw_entries ::
  "'w \<Rightarrow> 'r \<Rightarrow> 'd \<Rightarrow> 'd entry_info list \<Rightarrow> ('w, 'r, 'd, 'x) commit_store \<Rightarrow> commit_failure + unit" where
  "can_withdraw_entries who r i [] s = Inr ()"
| "can_withdraw_entries who r i (e # es) s =
     (case cs_entry_commits s (r, i, en_digest e, who) of
        None \<Rightarrow> can_withdraw_entries who r i es s
      | Some cs \<Rightarrow>
          bindE (ok_orE (CommitModule EntryDigestNotFound) (cs_digests s (r, en_digest e))) (\<lambda>info.
          bindE (ok_orE (CommitModule DigestVariantBalanceNotFound) (get_balance (en_variant e) info)) (\<lambda>b.
          bindE (can_withdraw_all b cs) (\<lambda>_.
          can_withdraw_entries who r i es s))))"

definition can_resolve_commit ::
  "'w \<Rightarrow> 'r \<Rightarrow> ('w, 'r, 'd, 'x) commit_store \<Rightarrow> commit_failure + unit" where
  "can_resolve_commit who r s =
     bindE (get_commit_digest who r s) (\<lambda>d.
     bindE (determine_digest d r s) (\<lambda>m.
     case m of
       Direct direct \<Rightarrow>
         bindE (get_commit_variant who r s) (\<lambda>variant.
         bindE (ok_orE (CommitModule DigestNotFound) (cs_digests s (r, direct))) (\<lambda>info.
         bindE (ok_orE (CommitModule DigestVariantBalanceNotFound) (get_balance variant info)) (\<lambda>b.
         bindE (ok_orE (CommitModule CommitNotFound) (cs_commits s (who, r))) (\<lambda>ci.
         can_withdraw_all b (ci_commits ci)))))
     | Index i \<Rightarrow>
         bindE (get_index r i s) (\<lambda>ix. can_withdraw_entries who r i (ix_entries ix) s)
     | Pool p \<Rightarrow>
         bindE (get_pool r p s) (\<lambda>pool.
         bindE (ok_orE (CommitModule CommitNotFound) (cs_commits s (who, r))) (\<lambda>ci.
         can_withdraw_all (po_balance pool) (ci_commits ci)))))"

definition can_set_digest_variant_value ::
  "'r \<Rightarrow> 'd \<Rightarrow> asset \<Rightarrow> disposition \<Rightarrow> ('w, 'r, 'd, 'x) commit_store \<Rightarrow> commit_failure + unit" where
  "can_set_digest_variant_value r d v variant s =
     bindE (get_digest_variant_value r d variant s) (\<lambda>current.
     let b = balance_or_default r d variant s in
     if current < v then
       bindE (mint_limits_of b) (\<lambda>limits.
       let mintable = sat_sub v current in
       bindE (ensureE (limits_contains limits mintable) (CommitModule MintingOffLimits)) (\<lambda>_.
       lazy_can_mint b mintable))
     else if current > v then
       bindE (reap_limits_of b) (\<lambda>limits.
       let reapable = sat_sub current v in
       bindE (ensureE (limits_contains limits reapable) (CommitModule ReapingOffLimits)) (\<lambda>_.
       lazy_can_reap b reapable))
     else Inr ())"

definition can_set_digest_value ::
  "'r \<Rightarrow> 'd \<Rightarrow> asset \<Rightarrow> ('w, 'r, 'd, 'x) commit_store \<Rightarrow> commit_failure + unit" where
  "can_set_digest_value r d v s = can_set_digest_variant_value r d v position_default s"

section \<open>Keys and public queries\<close>

definition gen_digest :: "('w, 'r, 'd, 'x) config \<Rightarrow> 'w \<Rightarrow> commit_failure + 'd" where
  "gen_digest C source = ok_orE (CommitModule CannotGenerateDigest) (cc_source_digest C source)"

definition has_index :: "'d list \<Rightarrow> 'r \<Rightarrow> ('w, 'r, 'd, 'x) commit_store \<Rightarrow> commit_failure + unit" where
  "has_index keys r s =
     ensureE (list_ex (\<lambda>i. cs_indexes s (r, i) \<noteq> None) keys) (CommitModule IndexNotFound)"

definition has_pool :: "'d list \<Rightarrow> 'r \<Rightarrow> ('w, 'r, 'd, 'x) commit_store \<Rightarrow> commit_failure + unit" where
  "has_pool keys r s =
     ensureE (list_ex (\<lambda>p. cs_pools s (r, p) \<noteq> None) keys) (CommitModule PoolNotFound)"

definition resolve_digest_model_for ::
  "'w \<Rightarrow> 'r \<Rightarrow> ('w, 'r, 'd, 'x) commit_store \<Rightarrow> commit_failure + 'd digest_variant" where
  "resolve_digest_model_for caller r s =
     bindE (get_commit_digest caller r s) (\<lambda>d. determine_digest d r s)"

definition query_reason_value :: "'r \<Rightarrow> ('w, 'r, 'd, 'x) commit_store \<Rightarrow> asset" where
  "query_reason_value r s = (case cs_reason_value s r of None \<Rightarrow> 0 | Some v \<Rightarrow> v)"

end
