(* ===== verification/CommitInvariant.thy ===== *)
theory CommitInvariant
  imports CommitInspect
begin

text \<open>
  The structural invariant of the commitment pallet and its step relation. Indexes and pools are
  well formed, a pool has a manager, collections of commit instances are neither empty nor over
  their bound, and a digest has no more balances than there are positions. Every call keeps the
  invariant when it succeeds; a failing one is rolled back (\<open>transactional\<close>), which the invariant
  needs: changing the slots of a pool writes the slots before the capital is known to fit.
\<close>

section \<open>Operations that keep a predicate when they succeed\<close>

definition keeps_ok :: "('s \<Rightarrow> bool) \<Rightarrow> ('s, 'e, 'a) op \<Rightarrow> bool" where
  "keeps_ok P m = (\<forall>s x t. P s \<longrightarrow> m s = (Inr x, t) \<longrightarrow> P t)"

named_theorems keep_intros \<open>introduction rules for \<open>keeps_ok\<close>\<close>

lemma keeps_okI: "(\<And>s x t. P s \<Longrightarrow> m s = (Inr x, t) \<Longrightarrow> P t) \<Longrightarrow> keeps_ok P m"
  by (auto simp: keeps_ok_def)

lemma keeps_okD: "keeps_ok P m \<Longrightarrow> P s \<Longrightarrow> m s = (Inr x, t) \<Longrightarrow> P t"
  by (auto simp: keeps_ok_def)

lemma keeps_ok_transactional: "keeps_ok P m \<Longrightarrow> keeps P (transactional m)"
  by (auto simp: keeps_ok_def keeps_def transactional_def split: prod.splits sum.splits)

lemma keeps_ok_bindO [keep_intros]:
  "keeps_ok P m \<Longrightarrow> (\<And>x. keeps_ok P (f x)) \<Longrightarrow> keeps_ok P (bindO m f)"
  unfolding keeps_ok_def bindO_Inr_iff by blast

lemma keeps_ok_thenO [keep_intros]: "keeps_ok P m \<Longrightarrow> keeps_ok P n \<Longrightarrow> keeps_ok P (thenO m n)"
  unfolding thenO_def by (rule keeps_ok_bindO)

lemma keeps_ok_read:
  "(\<And>x s. P s \<Longrightarrow> q s = Inr x \<Longrightarrow> keeps_ok P (f x)) \<Longrightarrow> keeps_ok P (bindO (readE q) f)"
  by (rule keeps_okI) (auto split: sum.splits dest: keeps_okD)

lemma keeps_ok_basic [keep_intros]:
  "keeps_ok P (ret x)" "keeps_ok P (throw e)" "keeps_ok P (readE q)" "keeps_ok P (gets f)"
  "keeps_ok P (ensureO b e)" "keeps_ok P (ok_orO e y)"
  by (auto simp: keeps_ok_def ok_orO_def split: if_splits option.splits)

lemma keeps_ok_modify: "(\<And>s. P s \<Longrightarrow> P (h s)) \<Longrightarrow> keeps_ok P (modify h)"
  by (simp add: keeps_ok_def)

lemma keeps_ok_cases [keep_intros]:
  "(b \<Longrightarrow> keeps_ok P m) \<Longrightarrow> (\<not> b \<Longrightarrow> keeps_ok P n) \<Longrightarrow> keeps_ok P (if b then m else n)"
  "(\<And>a c. keeps_ok P (g a c)) \<Longrightarrow> keeps_ok P (case z of (a, c) \<Rightarrow> g a c)"
  "keeps_ok P m \<Longrightarrow> (\<And>v. keeps_ok P (k v)) \<Longrightarrow> keeps_ok P (case y of None \<Rightarrow> m | Some v \<Rightarrow> k v)"
  "(\<And>a c. keeps_ok P (h a c w)) \<Longrightarrow> keeps_ok P ((case z of (a, c) \<Rightarrow> h a c) w)"
  by (simp_all split: prod.split option.split)

lemma keeps_ok_on_local [keep_intros]: "keeps_ok P (on_local b f)"
  by (auto simp: keeps_ok_def on_local_def split: prod.splits sum.splits)

section \<open>The invariant\<close>

definition map_ok :: "('v \<Rightarrow> bool) \<Rightarrow> ('k \<Rightarrow> 'v option) \<Rightarrow> bool" where
  "map_ok P m = (\<forall>k v. m k = Some v \<longrightarrow> P v)"

lemma map_okD: "map_ok P m \<Longrightarrow> m k = Some v \<Longrightarrow> P v"
  by (simp add: map_ok_def)

lemma map_ok_put [simp]: "map_ok P m \<Longrightarrow> map_ok P (m(k \<mapsto> v)) \<longleftrightarrow> P v"
  by (auto simp: map_ok_def)

lemma map_ok_remove [simp]: "map_ok P m \<Longrightarrow> map_ok P (m(k := None))"
  by (simp add: map_ok_def)

definition instances_ok :: "('w, 'r, 'd, 'x) config \<Rightarrow> commit_instance list \<Rightarrow> bool" where
  "instances_ok C cs = (cs \<noteq> [] \<and> length cs \<le> cc_max_commits C)"

text \<open>A variant balance is untouched or has the layout of an initialised balance.\<close>

definition laid_out :: "lazy_balance \<Rightarrow> bool" where
  "laid_out b = (b = product_default \<or> (\<exists>e n i c d. b = mk_balance e n i c d))"

definition digest_ok :: "digest_info \<Rightarrow> bool" where
  "digest_ok info = (length info \<le> variant_count \<and> list_all laid_out info)"

definition commit_inv :: "('w, 'r, 'd, 'x) config \<Rightarrow> ('w, 'r, 'd, 'x) commit_store \<Rightarrow> bool" where
  "commit_inv C s =
     (map_ok (index_ok (cc_max_entries C)) (cs_indexes s) \<and>
      map_ok (pool_ok (cc_max_entries C)) (cs_pools s) \<and>
      dom (cs_pools s) = dom (cs_managers s) \<and>
      map_ok (\<lambda>ci. instances_ok C (ci_commits ci)) (cs_commits s) \<and>
      map_ok (instances_ok C) (cs_entry_commits s) \<and>
      map_ok digest_ok (cs_digests s))"

lemma commit_inv_other [simp]:
  "commit_inv C (s\<lparr>cs_asset := x\<rparr>) = commit_inv C s"
  "commit_inv C (s\<lparr>cs_events := es\<rparr>) = commit_inv C s"
  "commit_inv C (s\<lparr>cs_reason_value := rv\<rparr>) = commit_inv C s"
  "commit_inv C (s\<lparr>cs_to_issue := v\<rparr>) = commit_inv C s"
  "commit_inv C (s\<lparr>cs_to_reap := v\<rparr>) = commit_inv C s"
  by (simp_all add: commit_inv_def)

lemma inv_indexE: "commit_inv C s \<Longrightarrow> get_index r i s = Inr ix \<Longrightarrow> index_ok (cc_max_entries C) ix"
  by (auto simp: commit_inv_def get_index_def ok_orE_Inr_iff dest: map_okD)

lemma inv_poolE: "commit_inv C s \<Longrightarrow> get_pool r p s = Inr pool \<Longrightarrow> pool_ok (cc_max_entries C) pool"
  by (auto simp: commit_inv_def get_pool_def ok_orE_Inr_iff dest: map_okD)

lemma inv_put:
  assumes "commit_inv C s"
  shows "commit_inv C (s\<lparr>cs_indexes := (cs_indexes s)(i \<mapsto> ix)\<rparr>) \<longleftrightarrow> index_ok (cc_max_entries C) ix"
    and "commit_inv C (s\<lparr>cs_commits := (cs_commits s)(c \<mapsto> ci)\<rparr>) \<longleftrightarrow> instances_ok C (ci_commits ci)"
    and "commit_inv C (s\<lparr>cs_entry_commits := (cs_entry_commits s)(e \<mapsto> cs)\<rparr>) \<longleftrightarrow> instances_ok C cs"
    and "commit_inv C (s\<lparr>cs_digests := (cs_digests s)(d \<mapsto> info)\<rparr>) \<longleftrightarrow> digest_ok info"
    and "cs_pools s p = Some q \<Longrightarrow>
      commit_inv C (s\<lparr>cs_pools := (cs_pools s)(p \<mapsto> q')\<rparr>) \<longleftrightarrow> pool_ok (cc_max_entries C) q'"
  using assms by (auto simp: commit_inv_def)

lemma inv_remove:
  assumes "commit_inv C s"
  shows "commit_inv C (s\<lparr>cs_indexes := (cs_indexes s)(i := None)\<rparr>)"
    and "commit_inv C (s\<lparr>cs_commits := (cs_commits s)(c := None)\<rparr>)"
    and "commit_inv C (s\<lparr>cs_entry_commits := (cs_entry_commits s)(e := None)\<rparr>)"
    and "commit_inv C (s\<lparr>cs_digests := (cs_digests s)(d := None)\<rparr>)"
    and "commit_inv C (s\<lparr>cs_pools := (cs_pools s)(p := None), cs_managers := (cs_managers s)(p := None)\<rparr>)"
  using assms by (simp_all add: commit_inv_def)

lemma keeps_on_asset [keep_intros]: "keeps_ok (commit_inv C) (on_asset f)"
  by (auto simp: keeps_ok_def on_asset_def split: prod.splits sum.splits)

lemma keeps_on_digest:
  assumes "keeps_ok digest_ok f"
  shows "keeps_ok (commit_inv C) (on_digest e k f)"
proof (rule keeps_okI)
  fix s x t
  assume inv: "commit_inv C s" and "on_digest e k f s = (Inr x, t)"
  then obtain i i' where i: "cs_digests s k = Some i" and f: "f i = (Inr x, i')"
    and t: "t = s\<lparr>cs_digests := (cs_digests s)(k \<mapsto> i')\<rparr>"
    by (auto simp: on_digest_def split: option.splits prod.splits)
  from inv i have ok: "digest_ok i" by (auto simp: commit_inv_def dest: map_okD)
  have "digest_ok i'" by (rule keeps_okD [OF assms ok f])
  with inv show "commit_inv C t" by (simp add: t inv_put)
qed

lemma keeps_on_commit:
  assumes "keeps_ok (\<lambda>ci. instances_ok C (ci_commits ci)) f"
  shows "keeps_ok (commit_inv C) (on_commit k f)"
proof (rule keeps_okI)
  fix s x t
  assume inv: "commit_inv C s" and "on_commit k f s = (Inr x, t)"
  then obtain i i' where i: "cs_commits s k = Some i" and f: "f i = (Inr x, i')"
    and t: "t = s\<lparr>cs_commits := (cs_commits s)(k \<mapsto> i')\<rparr>"
    by (auto simp: on_commit_def split: option.splits prod.splits)
  from inv i have ok: "instances_ok C (ci_commits i)" by (auto simp: commit_inv_def dest: map_okD)
  have "instances_ok C (ci_commits i')" by (rule keeps_okD [OF assms ok f])
  with inv show "commit_inv C t" by (simp add: t inv_put)
qed

lemma keeps_on_pool:
  assumes "keeps_ok (pool_ok (cc_max_entries C)) f"
  shows "keeps_ok (commit_inv C) (on_pool k f)"
proof (rule keeps_okI)
  fix s x t
  assume inv: "commit_inv C s" and "on_pool k f s = (Inr x, t)"
  then obtain i i' where i: "cs_pools s k = Some i" and f: "f i = (Inr x, i')"
    and t: "t = s\<lparr>cs_pools := (cs_pools s)(k \<mapsto> i')\<rparr>"
    by (auto simp: on_pool_def split: option.splits prod.splits)
  from inv i have ok: "pool_ok (cc_max_entries C) i" by (auto simp: commit_inv_def dest: map_okD)
  have "pool_ok (cc_max_entries C) i'" by (rule keeps_okD [OF assms ok f])
  with inv i show "commit_inv C t" by (simp add: t inv_put)
qed

section \<open>The parts of the operations\<close>

lemma laid_out_basic [simp]: "laid_out product_default" "laid_out (mk_balance e n i c d)"
  by (auto simp: laid_out_def)

lemma laid_outE:
  assumes "laid_out b"
  obtains "b = product_default" | e n i c d where "b = mk_balance e n i c d"
  using assms by (auto simp: laid_out_def)

lemma laid_out_models:
  assumes "laid_out b"
  shows "laid_out (snd (model_deposit fx v b))" and "laid_out (snd (model_mint fx v b))"
    and "laid_out (snd (model_reap fx v b))"
  using assms
  by (auto elim!: laid_outE simp: deposit_fresh adjust_fresh deposit_eval mint_eval reap_eval
        split: sum.splits option.splits)

lemma laid_out_withdraw:
  assumes "laid_out b"
  shows "laid_out (snd (model_withdraw fx receipt b))"
  using assms
proof (cases rule: laid_outE)
  case (2 e n i c d)
  then show ?thesis
    by (auto simp: model_withdraw_def thenO_eval layout Let_def split: option.splits prod.splits)
qed (simp add: adjust_fresh)

lemma keeps_plugin: "(\<And>b. laid_out b \<Longrightarrow> laid_out (snd (m b))) \<Longrightarrow> keeps_ok laid_out (plugin m)"
  by (rule keeps_okI) (force simp: plugin_def split: prod.splits sum.splits)

lemma keeps_lazy [keep_intros]:
  "keeps_ok laid_out (lazy_deposit C v)" "keeps_ok laid_out (lazy_withdraw C c)"
  "keeps_ok laid_out (lazy_mint C v)" "keeps_ok laid_out (lazy_reap C v)"
  unfolding lazy_deposit_def lazy_withdraw_def lazy_mint_def lazy_reap_def
  by (intro keeps_plugin laid_out_models laid_out_withdraw; assumption)+

lemma keeps_withdraw_commits [keep_intros]: "keeps_ok laid_out (withdraw_commits C given taken cs)"
  by (induction cs arbitrary: given taken)
     (simp_all only: withdraw_commits.simps, (intro keep_intros | assumption)+)

lemma keeps_mut_balance [keep_intros]:
  assumes "keeps_ok laid_out f"
  shows "keeps_ok digest_ok (mut_balance variant f)"
proof (rule keeps_okI)
  fix info x info'
  assume ok: "digest_ok info" and "mut_balance variant f info = (Inr x, info')"
  then obtain b where i: "position_index variant < length info"
    and f: "f (info ! position_index variant) = (Inr x, b)" and info': "info' = info[position_index variant := b]"
    by (auto simp: mut_balance_def Let_def split: if_splits prod.splits)
  from ok i have "laid_out (info ! position_index variant)"
    by (simp add: digest_ok_def list_all_length)
  with assms have "laid_out b" using f by (rule keeps_okD)
  with ok i info' show "digest_ok info'"
    by (simp add: digest_ok_def list_all_length nth_list_update)
qed

lemma keeps_init_until: "keeps_ok digest_ok (init_until is)"
proof (induction "is")
  case (Cons i "is")
  have "keeps_ok digest_ok (\<lambda>v. if i < length v then (Inr (), v)
      else try_push variant_count (CommitModule VariantsExhausted) product_default v)"
    by (rule keeps_okI) (auto simp: try_push_def digest_ok_def split: if_splits)
  with Cons show ?case by (simp add: keeps_ok_thenO)
qed (simp only: init_until.simps keeps_ok_basic)

lemma keeps_deposit_variant [keep_intros]: "keeps_ok digest_ok (deposit_variant C variant v)"
proof (rule keeps_okI)
  fix info x info'
  assume ok: "digest_ok info" and run: "deposit_variant C variant v info = (Inr x, info')"
  note put = keeps_mut_balance [OF keeps_lazy(1) [of C v], of variant]
  show "digest_ok info'"
  proof (cases "position_index variant < length info")
    case True
    with run show ?thesis by (intro keeps_okD [OF put ok]) (simp add: deposit_variant_def)
  next
    case False
    with run show ?thesis
      by (intro keeps_okD [OF keeps_ok_thenO [OF keeps_init_until put] ok])
         (simp only: deposit_variant_def init_variant_balance_def if_False)
  qed
qed

lemma keeps_digest_parts [keep_intros]:
  "keeps_ok laid_out f \<Longrightarrow> keeps_ok (commit_inv C) (on_digest e k (mut_balance variant f))"
  "keeps_ok (commit_inv C) (on_digest e k (deposit_variant C' variant v))"
  by (intro keeps_on_digest keep_intros; assumption)+

lemma keeps_commit_emit [keep_intros]: "keeps_ok (commit_inv C) (emit C' e)"
  by (simp add: emit_def keeps_ok_def)

lemma keeps_totals [keep_intros]:
  "keeps_ok (commit_inv C) (add_to_total_value r v)"
  "keeps_ok (commit_inv C) (sub_from_total_value r v)"
  "keeps_ok (commit_inv C) (issue_less v)"
  "keeps_ok (commit_inv C) (issue_more v)"
  "keeps_ok (commit_inv C) (reap_less v)"
  "keeps_ok (commit_inv C) (reap_more v)"
  unfolding add_to_total_value_def sub_from_total_value_def set_total_value_def issue_less_def
    issue_more_def reap_less_def reap_more_def
  by (intro keep_intros keeps_ok_modify; simp)+

lemma keeps_resolve_imbalance [keep_intros]: "keeps_ok (commit_inv C) (resolve_imbalance C' who imb)"
  unfolding resolve_imbalance_def Let_def by (intro keep_intros)

lemma keeps_deduct_balance [keep_intros]: "keeps_ok (commit_inv C) (deduct_balance C' who v q)"
  unfolding deduct_balance_def Let_def by (intro keep_intros)

lemma keeps_deduct_from_imbalance [keep_intros]:
  "keeps_ok (commit_inv C) (deduct_from_imbalance imb v)"
  unfolding deduct_from_imbalance_def Let_def by (intro keep_intros)

lemma keeps_deposit_to_digest [keep_intros]:
  "keeps_ok (commit_inv C) (deposit_to_digest C' r d v variant)"
  unfolding deposit_to_digest_def by (intro keep_intros)

lemma keeps_withdraw_from_digest [keep_intros]:
  "keeps_ok (commit_inv C) (withdraw_from_digest C' who r d)"
  unfolding withdraw_from_digest_def by (intro keep_intros)

lemma commits_add_iff:
  "commits_add bound c cs = (Inr u, cs') \<longleftrightarrow> cs \<noteq> [] \<and> length cs < bound \<and> cs' = cs @ [c]"
  by (auto simp: commits_add_def try_push_def split: if_splits)

lemma commits_new_iff: "commits_new bound c = Inr cs \<longleftrightarrow> bound \<noteq> 0 \<and> cs = [c]"
  by (auto simp: commits_new_def try_bounded_def resultE_iffs)

lemma keeps_record_entry_commit [keep_intros]:
  "keeps_ok (commit_inv C) (record_entry_commit C k c)"
proof (rule keeps_okI)
  fix s x t
  assume inv: "commit_inv C s" and run: "record_entry_commit C k c s = (Inr x, t)"
  then obtain cs where t: "t = s\<lparr>cs_entry_commits := (cs_entry_commits s)(k \<mapsto> cs)\<rparr>" and "instances_ok C cs"
    by (auto simp: record_entry_commit_def commits_add_iff commits_new_iff instances_ok_def
          split: option.splits prod.splits sum.splits)
  with inv show "commit_inv C t" by (simp add: inv_put)
qed

lemma keeps_deposit_entries [keep_intros]:
  "keeps_ok (commit_inv C) (deposit_entries C who r i v cap acc es)"
  by (induction es arbitrary: acc) (simp_all only: deposit_entries.simps, (intro keep_intros | assumption)+)

lemma index_ok_principal [simp]: "index_ok bound (ix\<lparr>ix_principal := p\<rparr>) = index_ok bound ix"
  by (simp add: index_ok_def)

lemma keeps_deposit_to_index [keep_intros]:
  "keeps_ok (commit_inv C) (deposit_to_index C who r i v)"
  unfolding deposit_to_index_def Let_def
  by (rule keeps_ok_read, intro keep_intros keeps_ok_modify) (simp add: inv_put inv_indexE)

lemma keeps_withdraw_entry_commits [keep_intros]:
  "keeps_ok (commit_inv C) (withdraw_entry_commits C' k variant given taken cs)"
  by (induction cs arbitrary: given taken)
     (simp_all only: withdraw_entry_commits.simps, (intro keep_intros | assumption)+)

lemma keeps_withdraw_entries [keep_intros]:
  "keeps_ok (commit_inv C) (withdraw_entries C' who r i given taken es)"
proof (induction es arbitrary: given taken)
  case (Cons e es)
  show ?case
    unfolding withdraw_entries.simps
    by (intro keep_intros keeps_ok_modify Cons) (simp add: inv_remove)
qed (simp only: withdraw_entries.simps keeps_ok_basic)

lemma keeps_withdraw_from_index [keep_intros]:
  "keeps_ok (commit_inv C) (withdraw_from_index C who r i)"
  unfolding withdraw_from_index_def
  by (rule keeps_ok_read, intro keep_intros keeps_ok_modify) (simp add: inv_put inv_indexE)

lemma pool_ok_balance [simp]: "pool_ok bound (p\<lparr>po_balance := b\<rparr>) = pool_ok bound p"
  by (simp add: pool_ok_def)

lemma pool_ok_reset: "pool_ok bound p \<Longrightarrow> pool_ok bound (balance_reset p)"
  by (auto simp: pool_ok_def balance_reset_def labels_ok_def comp_def)

lemma slots_set_commit_iff:
  "slots_set_commit d c v = (Inr u, w) \<longleftrightarrow>
     (\<exists>i. first_position (\<lambda>s. sl_digest s = d) v = Some i \<and> w = v[i := (v ! i)\<lparr>sl_commit := c\<rparr>])"
  by (auto simp: slots_set_commit_def split: option.splits if_splits dest: first_position_Some)

lemma keeps_set_slot_commit: "keeps_ok (pool_ok bound) (pool_set_slot_commit d c)"
proof (rule keeps_okI)
  fix p x q
  assume ok: "pool_ok bound p" and "pool_set_slot_commit d c p = (Inr x, q)"
  then obtain i where i: "i < length (po_slots p)"
    and q: "q = p\<lparr>po_slots := (po_slots p)[i := (po_slots p ! i)\<lparr>sl_commit := c\<rparr>]\<rparr>"
    by (auto simp: pool_set_slot_commit_def on_slots_Inr_iff slots_set_commit_iff dest: first_position_Some)
  have same: "map f ((po_slots p)[i := (po_slots p ! i)\<lparr>sl_commit := c\<rparr>]) = map f (po_slots p)"
    if "\<And>s. f (s\<lparr>sl_commit := c\<rparr>) = f s" for f :: "_ \<Rightarrow> 'z"
    using i by (simp add: map_update that list_update_same_conv)
  have "sl_shares ` set (po_slots q) = sl_shares ` set (po_slots p)"
    using arg_cong [OF same [of sl_shares], of set] q by simp
  moreover have "0 \<notin> sl_shares ` set (po_slots p)"
    using ok by (auto simp: pool_ok_def)
  ultimately have "\<forall>s \<in> set (po_slots q). sl_shares s \<noteq> 0"
    by (metis imageI)
  with ok q same [of sl_digest] same [of "\<lambda>s. unat (sl_shares s)"] show "pool_ok bound q"
    by (simp add: pool_ok_def labels_ok_def)
qed

lemma keeps_pool_parts [keep_intros]:
  "keeps_ok (commit_inv C) (on_pool k (modify balance_reset))"
  "keeps_ok (commit_inv C) (on_pool k (pool_set_slot_commit d c))"
  "keeps_ok (commit_inv C) (on_pool k (set_pool_balance b))"
  unfolding set_pool_balance_def
  by (intro keeps_on_pool keeps_set_slot_commit keeps_ok_modify; simp add: pool_ok_reset)+

lemma keeps_release_slots [keep_intros]: "keeps_ok (commit_inv C) (release_slots C' r taken sls)"
  by (induction sls arbitrary: taken) (simp_all only: release_slots.simps, (intro keep_intros | assumption)+)

lemma keeps_release_pool [keep_intros]: "keeps_ok (commit_inv C) (release_pool C' r p)"
  unfolding release_pool_def by (intro keep_intros)

lemma keeps_recover_slots [keep_intros]:
  "keeps_ok (commit_inv C) (recover_slots C' r p eff cap taken sls)"
  by (induction sls arbitrary: taken) (simp_all only: recover_slots.simps, (intro keep_intros | assumption)+)

lemma keeps_recover_pool [keep_intros]: "keeps_ok (commit_inv C) (recover_pool C' r p b)"
  unfolding recover_pool_def Let_def by (intro keep_intros)

lemma keeps_pool_flow [keep_intros]:
  "keeps_ok (commit_inv C) (deposit_to_pool C' r p v)"
  "keeps_ok (commit_inv C) (withdraw_from_pool C' who r p)"
  unfolding deposit_to_pool_def withdraw_from_pool_def Let_def by (intro keep_intros)+

text \<open>The changes between release and recovery.\<close>

lemma keeps_slot_removal [keep_intros]:
  "keeps_ok (commit_inv C) (on_pool k (thenO (pool_remove_slot d) (thenO (readE g) (readE h))))"
  by (intro keep_intros keeps_on_pool) (rule keeps_okI, erule (1) pool_remove_slot_ok)

lemma keeps_slot_put [keep_intros]:
  "keeps_ok (commit_inv C) (on_pool k
     (thenO (\<lambda>pool. if is_ok (pool_slot_exists d pool) then pool_remove_slot d pool else (Inr (), pool))
            (bindO (readE (\<lambda>_. entry_info_new d sh variant)) (pool_add_slot (cc_max_entries C)))))"
proof -
  have drop: "keeps_ok (pool_ok bound)
      (\<lambda>pool. if is_ok (pool_slot_exists d pool) then pool_remove_slot d pool else (Inr (), pool))" for bound
    by (rule keeps_okI) (auto split: if_splits dest: pool_remove_slot_ok(1))
  have put: "keeps_ok (pool_ok bound)
      (bindO (readE (\<lambda>_. entry_info_new d sh variant)) (pool_add_slot bound))" for bound
    by (rule keeps_ok_read, rule keeps_okI, rule pool_add_slot_ok(1)) (auto simp: entry_info_new_iff)
  show ?thesis by (intro keeps_on_pool keeps_ok_thenO [OF drop put])
qed

lemma keeps_pool_slot [keep_intros]:
  "keeps_ok (commit_inv C) (remove_pool_slot C' r p d)"
  "keeps_ok (commit_inv C) (set_pool_slot C r p d sh variant)"
  unfolding remove_pool_slot_def set_pool_slot_def by (intro keep_intros)+

section \<open>The operations\<close>

lemma commit_info_new_iff:
  "commit_info_new bound d c variant = Inr ci \<longleftrightarrow>
     bound \<noteq> 0 \<and> ci = \<lparr>ci_digest = d, ci_commits = [c], ci_variant = variant\<rparr>"
  by (auto simp: commit_info_new_def resultE_iffs commits_new_iff)

lemma keeps_finalize [keep_intros]:
  "keeps_ok (commit_inv C) (finalize_place_commit C who r d variant c v)"
  "keeps_ok (commit_inv C) (finalize_raise_commit C who r c v)"
  "keeps_ok (commit_inv C) (finalize_resolve_commit C who r imb)"
proof -
  show "keeps_ok (commit_inv C) (finalize_place_commit C who r d variant c v)"
    unfolding finalize_place_commit_def
    by (rule keeps_ok_thenO [OF keeps_on_asset], rule keeps_ok_read, intro keep_intros keeps_ok_modify)
       (auto simp: inv_put commit_info_new_iff instances_ok_def)
  show "keeps_ok (commit_inv C) (finalize_raise_commit C who r c v)"
    unfolding finalize_raise_commit_def commit_info_add_def
    by (intro keep_intros keeps_on_commit, rule keeps_okI)
       (auto simp: commits_add_iff instances_ok_def split: prod.splits)
  show "keeps_ok (commit_inv C) (finalize_resolve_commit C who r imb)"
    unfolding finalize_resolve_commit_def
    by (intro keep_intros keeps_ok_modify) (simp add: inv_remove)
qed

lemma keeps_init_digest [keep_intros]: "keeps_ok (commit_inv C) (init_digest r d)"
  unfolding init_digest_def
  by (rule keeps_ok_modify) (simp add: inv_put digest_info_default_def digest_ok_def)

lemma keeps_commit_of [keep_intros]:
  "keeps_ok (commit_inv C) (place_commit_of C who r m v variant q)"
  "keeps_ok (commit_inv C) (raise_commit_of C who r m v q)"
  "keeps_ok (commit_inv C) (resolve_commit_of C who r m)"
  unfolding place_digest_commit_def place_index_commit_def place_pool_commit_def
    raise_digest_commit_def raise_index_commit_def raise_pool_commit_def
    resolve_digest_commit_def resolve_index_commit_def resolve_pool_commit_def
  by (cases m; simp only: place_commit_of.simps raise_commit_of.simps resolve_commit_of.simps
        place_digest_commit_def place_index_commit_def place_pool_commit_def
        raise_digest_commit_def raise_index_commit_def raise_pool_commit_def
        resolve_digest_commit_def resolve_index_commit_def resolve_pool_commit_def;
      intro keep_intros)+

lemma keeps_commitment [keep_intros]:
  "keeps_ok (commit_inv C) (place_commit_of_variant C who r d v variant q)"
  "keeps_ok (commit_inv C) (raise_commit C who r v q)"
  "keeps_ok (commit_inv C) (resolve_commit C who r)"
  "keeps_ok (commit_inv C) (set_digest_variant_value C r d v variant)"
  unfolding place_commit_of_variant_def raise_commit_def resolve_commit_def set_digest_variant_value_def
  by (intro keep_intros)+

lemma keeps_set_commit_variant [keep_intros]:
  "keeps_ok (commit_inv C) (set_commit_variant C who r variant q)"
  unfolding set_commit_variant_def by (intro keep_intros)

lemma keeps_reap_digest [keep_intros]: "keeps_ok (commit_inv C) (reap_digest C d r)"
  unfolding reap_digest_def by (intro keep_intros keeps_ok_modify) (simp add: inv_remove)

lemma keeps_set_index:
  "index_ok (cc_max_entries C) ix \<Longrightarrow> keeps_ok (commit_inv C) (set_index C r ix d)"
  unfolding set_index_def by (intro keep_intros keeps_ok_modify) (simp add: inv_put)

lemma on_local_Inr_iff: "on_local b f s = (Inr (x, c), t) \<longleftrightarrow> f b = (Inr x, c) \<and> t = s"
  by (auto simp: on_local_def split: prod.splits sum.splits)

lemma keeps_local:
  assumes "\<And>x c. f b = (Inr x, c) \<Longrightarrow> keeps_ok P (g x c)"
  shows "keeps_ok P (bindO (on_local b f) (\<lambda>(x, c). g x c))"
  by (rule keeps_okI) (auto simp: bindO_Inr_iff on_local_Inr_iff dest: assms keeps_okD)

lemma index_info_new_ok:
  "labels_ok en_digest bound es \<Longrightarrow> index_info_new es = Inr ix \<Longrightarrow> index_ok bound ix"
  by (auto simp: index_info_new_iff index_ok_def)

lemma keeps_remove_index_entry [keep_intros]:
  "keeps_ok (commit_inv C) (remove_index_entry C who r i d)"
  unfolding remove_index_entry_def
proof (rule keeps_ok_read, rule keeps_local)
  fix ix s x es
  assume "commit_inv C s" and "get_index r i s = Inr ix" and run: "remove_entry d (ix_entries ix) = (Inr x, es)"
  then have "labels_ok en_digest (cc_max_entries C) (ix_entries ix)"
    by (auto simp: index_ok_def dest: inv_indexE)
  with run have "labels_ok en_digest (cc_max_entries C) es"
    by (rule entry_vector.remove_keeps(1) [rotated])
  then show "keeps_ok (commit_inv C) (bindO (readE (\<lambda>_. index_info_new es)) (\<lambda>new_index.
      bindO (readE (\<lambda>_. gen_index_digest C who r new_index)) (\<lambda>digest.
      thenO (set_index C r new_index digest) (ret digest))))"
    by (intro keeps_ok_read keep_intros keeps_set_index) (rule index_info_new_ok)
qed

lemma keeps_set_index_entry [keep_intros]:
  "keeps_ok (commit_inv C) (set_index_entry C who r i d sh variant)"
proof -
  have put: "keeps_ok (commit_inv C) (bindO (on_local es (add_entry (cc_max_entries C) e)) (\<lambda>(_, es').
      bindO (readE (\<lambda>_. index_info_new es')) (\<lambda>new_index.
      bindO (readE (\<lambda>_. gen_index_digest C who r new_index)) (\<lambda>digest.
      thenO (set_index C r new_index digest) (ret digest)))))" for es e
    by (rule keeps_local, intro keeps_ok_read keep_intros keeps_set_index)
       (rule index_info_new_ok, erule entry_vector.add_keeps)
  show ?thesis
    unfolding set_index_entry_def
    by (rule keeps_ok_thenO, rule keeps_ok_basic, rule keeps_ok_bindO, rule keeps_ok_basic,
        rule keeps_ok_bindO, rule keeps_ok_on_local, rule keeps_ok_cases(2), rule keeps_ok_bindO,
        rule keeps_ok_basic, rule put)
qed

lemma keeps_index_calls [keep_intros]:
  "keeps_ok (commit_inv C) (set_entry_shares C who r i d sh)"
  "keeps_ok (commit_inv C) (set_entry_of_variant C who r i d variant shs)"
  "keeps_ok (commit_inv C) (reap_index C holders r i)"
  unfolding set_entry_shares_def set_entry_of_variant_def reap_index_def
  by ((intro keep_intros keeps_ok_modify)+; simp add: inv_remove)+

lemma set_pool_manager_iff:
  "set_pool_manager C r p w s = (Inr u, t) \<longleftrightarrow> cs_pools s (r, p) \<noteq> None \<and>
     emit C (EvPoolManager p r w) (s\<lparr>cs_managers := (cs_managers s)((r, p) \<mapsto> w)\<rparr>) = (Inr u, t)"
  by (auto simp: set_pool_manager_def pool_exists_def ensureE_def split: if_splits)

lemma keeps_set_pool_manager [keep_intros]: "keeps_ok (commit_inv C) (set_pool_manager C r p w)"
proof (rule keeps_okI)
  fix s x t
  assume inv: "commit_inv C s" and "set_pool_manager C r p w s = (Inr x, t)"
  then have "cs_pools s (r, p) \<noteq> None"
    and t: "emit C (EvPoolManager p r w) (s\<lparr>cs_managers := (cs_managers s)((r, p) \<mapsto> w)\<rparr>) = (Inr x, t)"
    by (auto simp: set_pool_manager_iff)
  with inv have "commit_inv C (s\<lparr>cs_managers := (cs_managers s)((r, p) \<mapsto> w)\<rparr>)"
    by (auto simp: commit_inv_def)
  then show "commit_inv C t" using t by (rule keeps_okD [OF keeps_commit_emit])
qed

lemma keeps_set_pool [keep_intros]: "keeps_ok (commit_inv C) (set_pool C who r p i com)"
proof (rule keeps_okI)
  fix s x t
  assume inv: "commit_inv C s" and "set_pool C who r p i com s = (Inr x, t)"
  then obtain ix pool s' where ix: "get_index r i s = Inr ix"
    and pool: "pool_info_new (cc_max_entries C) (ix_entries ix) com = Inr pool"
    and mgr: "set_pool_manager C r p who (s\<lparr>cs_pools := (cs_pools s)((r, p) \<mapsto> pool)\<rparr>) = (Inr (), s')"
    and t: "emit C (EvPoolInitialized p r (po_commission pool)) s' = (Inr x, t)"
    by (auto simp: set_pool_def ensureE_def thenO_Inr_iff split: if_splits sum.splits)
  from inv ix have "index_ok (cc_max_entries C) ix" by (rule inv_indexE)
  then have "pool_ok (cc_max_entries C) pool" using pool by (rule pool_info_new_pool_ok)
  then have both: "commit_inv C (s\<lparr>cs_pools := (cs_pools s)((r, p) \<mapsto> pool),
      cs_managers := (cs_managers s)((r, p) \<mapsto> who)\<rparr>)"
    using inv by (simp add: commit_inv_def)
  have "commit_inv C s'"
    by (rule keeps_okD [OF keeps_commit_emit both]) (use mgr in \<open>simp add: set_pool_manager_iff\<close>)
  then show "commit_inv C t" using t by (rule keeps_okD [OF keeps_commit_emit])
qed

lemma keeps_pool_calls [keep_intros]:
  "keeps_ok (commit_inv C) (set_commission C who r i com)"
  "keeps_ok (commit_inv C) (on_set_slot_of_variant C' p r d shs variant)"
  unfolding set_commission_def on_set_slot_of_variant_def by (intro keep_intros)+

lemma keeps_slot_calls [keep_intros]:
  "keeps_ok (commit_inv C) (set_slot_shares C r p d sh)"
  "keeps_ok (commit_inv C) (set_slot_of_variant C r p d variant shs)"
  unfolding set_slot_shares_def set_slot_of_variant_def by (intro keep_intros)+

lemma keeps_reap_pool [keep_intros]: "keeps_ok (commit_inv C) (reap_pool C r p)"
  unfolding reap_pool_def by (intro keep_intros keeps_ok_modify) (simp add: inv_remove)

lemma keeps_reserve_calls [keep_intros]:
  "keeps_ok (commit_inv C) (deposit_reserve C origin v prec)"
  "keeps_ok (commit_inv C) (withdraw_reserve C origin av)"
  unfolding deposit_reserve_def withdraw_reserve_def Let_def
  by ((intro keep_intros keeps_ok_modify)+; simp)+

section \<open>The step relation\<close>

text \<open>
  One step is one call from outside, rolled back when it fails. An index comes from
  \<open>prepare_index\<close>, from \<open>prepare_index_of_variants\<close> or from \<open>get_index\<close>, the only ways to obtain
  one outside the crate. Another pallet may change the state of the asset between two calls.
\<close>

definition obtainable_index ::
  "('w, 'r, 'd, 'x) config \<Rightarrow> ('w, 'r, 'd, 'x) commit_store \<Rightarrow> 'd index_info \<Rightarrow> bool" where
  "obtainable_index C s ix =
     ((\<exists>r es. prepare_index C r es s = Inr ix) \<or> (\<exists>r es. prepare_index_of_variants C r es s = Inr ix) \<or>
      (\<exists>r i. get_index r i s = Inr ix))"

inductive commit_step ::
  "('w, 'r, 'd, 'x) config \<Rightarrow> ('w, 'r, 'd, 'x) commit_store \<Rightarrow> ('w, 'r, 'd, 'x) commit_store \<Rightarrow> bool"
  for C where
  step_place: "transactional (place_commit_of_variant C who r d v variant q) s = (res, t) \<Longrightarrow> commit_step C s t"
| step_raise: "transactional (raise_commit C who r v q) s = (res, t) \<Longrightarrow> commit_step C s t"
| step_resolve: "transactional (resolve_commit C who r) s = (res, t) \<Longrightarrow> commit_step C s t"
| step_variant: "transactional (set_commit_variant C who r variant q) s = (res', t) \<Longrightarrow> commit_step C s t"
| step_value: "transactional (set_digest_variant_value C r d v variant) s = (res, t) \<Longrightarrow> commit_step C s t"
| step_reap_digest: "transactional (reap_digest C d r) s = (res', t) \<Longrightarrow> commit_step C s t"
| step_index: "obtainable_index C s ix \<Longrightarrow> transactional (set_index C r ix d) s = (res', t) \<Longrightarrow> commit_step C s t"
| step_entry: "transactional (set_entry_shares C who r i d sh) s = (key, t) \<Longrightarrow> commit_step C s t"
| step_entry_variant:
    "transactional (set_entry_of_variant C who r i d variant shs) s = (key, t) \<Longrightarrow> commit_step C s t"
| step_reap_index: "transactional (reap_index C holders r i) s = (res', t) \<Longrightarrow> commit_step C s t"
| step_pool: "transactional (set_pool C who r p i com) s = (res', t) \<Longrightarrow> commit_step C s t"
| step_commission: "transactional (set_commission C who r i com) s = (key, t) \<Longrightarrow> commit_step C s t"
| step_manager: "transactional (set_pool_manager C r p who) s = (res', t) \<Longrightarrow> commit_step C s t"
| step_slot: "transactional (set_slot_shares C r p d sh) s = (res', t) \<Longrightarrow> commit_step C s t"
| step_slot_variant: "transactional (set_slot_of_variant C r p d variant shs) s = (res', t) \<Longrightarrow> commit_step C s t"
| step_reap_pool: "transactional (reap_pool C r p) s = (res', t) \<Longrightarrow> commit_step C s t"
| step_deposit_reserve: "transactional (deposit_reserve C origin v prec) s = (res', t) \<Longrightarrow> commit_step C s t"
| step_withdraw_reserve: "transactional (withdraw_reserve C origin av) s = (res', t) \<Longrightarrow> commit_step C s t"
| step_asset: "commit_step C s (s\<lparr>cs_asset := x\<rparr>)"

definition empty_store :: "'x \<Rightarrow> ('w, 'r, 'd, 'x) commit_store" where
  "empty_store x = commit_genesis_build
     \<lparr>cs_reason_value = Map.empty, cs_digests = Map.empty, cs_commits = Map.empty,
      cs_indexes = Map.empty, cs_entry_commits = Map.empty, cs_pools = Map.empty,
      cs_managers = Map.empty, cs_to_issue = 0, cs_to_reap = 0, cs_asset = x, cs_events = []\<rparr>"

inductive commit_reachable ::
  "('w, 'r, 'd, 'x) config \<Rightarrow> ('w, 'r, 'd, 'x) commit_store \<Rightarrow> bool" for C where
  reach_genesis: "commit_reachable C (empty_store x)"
| reach_step: "commit_reachable C s \<Longrightarrow> commit_step C s t \<Longrightarrow> commit_reachable C t"

lemma obtainable_index_ok:
  assumes "commit_inv C s" and "obtainable_index C s ix"
  shows "index_ok (cc_max_entries C) ix"
  using assms
  by (auto simp: obtainable_index_def prepare_index_def prepare_index_of_variants_def resultE_iffs
        entries_new_iff dest: inv_indexE index_info_new_ok)

lemma keeps_transactional_run:
  "keeps_ok P m \<Longrightarrow> P s \<Longrightarrow> transactional m s = (res, t) \<Longrightarrow> P t"
  by (drule keeps_ok_transactional) (rule keepsE)

lemma commit_step_inv:
  assumes "commit_step C s t" and "commit_inv C s"
  shows "commit_inv C t"
  using assms
proof (cases rule: commit_step.cases)
  case (step_index ix r d res')
  then show ?thesis
    using assms(2) obtainable_index_ok keeps_set_index keeps_transactional_run by metis
qed (use assms(2) in \<open>auto intro: keeps_transactional_run keep_intros\<close>)

lemma empty_store_inv: "commit_inv C (empty_store x)"
  by (simp add: commit_inv_def empty_store_def commit_genesis_build_def map_ok_def)

lemma reachable_inv: "commit_reachable C s \<Longrightarrow> commit_inv C s"
  by (induction rule: commit_reachable.induct) (auto intro: empty_store_inv commit_step_inv)

end
