(* ===== verification/CommitAccounting.thy ===== *)
theory CommitAccounting
  imports CommitInvariant
begin

text \<open>
  What the commitment pallet's balance helpers account for: the deduction of a commitment's value,
  the resolution of an imbalance against the pending issuance and reaping, the commission taken
  from an imbalance, and the adjustment of a digest's value. \<open>net_pending\<close> is the pending issuance
  less the pending reaping: what the commitments are worth beyond what was deposited for them.
\<close>

section \<open>Frames of the helpers\<close>

lemma on_asset_Inr_iff:
  "on_asset f s = (Inr a, t) \<longleftrightarrow> (\<exists>x. f (cs_asset s) = (Inr a, x) \<and> t = s\<lparr>cs_asset := x\<rparr>)"
  by (auto simp: on_asset_def split: prod.splits sum.splits)

lemma need_Inr_iff:
  "bindO (ok_orO e y) f s = (Inr a, t) \<longleftrightarrow> (\<exists>v. y = Some v \<and> f v s = (Inr a, t))"
  by (cases y) simp_all

lemma pending_iffs:
  "issue_less v s = (Inr u, t) \<longleftrightarrow> (\<exists>n. checked_sub (cs_to_issue s) v = Some n \<and> t = s\<lparr>cs_to_issue := n\<rparr>)"
  "issue_more v s = (Inr u, t) \<longleftrightarrow> (\<exists>n. checked_add (cs_to_issue s) v = Some n \<and> t = s\<lparr>cs_to_issue := n\<rparr>)"
  "reap_less v s = (Inr u, t) \<longleftrightarrow> (\<exists>n. checked_sub (cs_to_reap s) v = Some n \<and> t = s\<lparr>cs_to_reap := n\<rparr>)"
  "reap_more v s = (Inr u, t) \<longleftrightarrow> (\<exists>n. checked_add (cs_to_reap s) v = Some n \<and> t = s\<lparr>cs_to_reap := n\<rparr>)"
  by (auto simp: issue_less_def issue_more_def reap_less_def reap_more_def need_Inr_iff
        simp del: bindO_ok_orO)

lemma total_iffs:
  "add_to_total_value r v s = (Inr u, t) \<longleftrightarrow>
     (\<exists>n. checked_add (get_total_value r s) v = Some n \<and>
        t = s\<lparr>cs_reason_value := (cs_reason_value s)(r \<mapsto> n)\<rparr>)"
  "sub_from_total_value r v s = (Inr u, t) \<longleftrightarrow>
     (\<exists>n. checked_sub (get_total_value r s) v = Some n \<and>
        t = s\<lparr>cs_reason_value := (cs_reason_value s)(r \<mapsto> n)\<rparr>)"
  by (auto simp: add_to_total_value_def sub_from_total_value_def set_total_value_def need_Inr_iff
        simp del: bindO_ok_orO)

lemma get_total_value_put [simp]:
  "get_total_value r (s\<lparr>cs_reason_value := m(r \<mapsto> n)\<rparr>) = n"
  by (simp add: get_total_value_def)

section \<open>Resolving an imbalance\<close>

definition net_pending :: "('w, 'r, 'd, 'x) commit_store \<Rightarrow> int" where
  "net_pending s = int (unat (cs_to_issue s)) - int (unat (cs_to_reap s))"

text \<open>The credits and debits of the asset that settle a deposit against a withdrawal.\<close>

definition settle :: "('w, 'r, 'x) asset_ops \<Rightarrow> 'w \<Rightarrow> asset \<Rightarrow> asset \<Rightarrow> ('x, dispatch_error, unit) op" where
  "settle A who dep wd =
     thenO (if dep = 0 \<and> wd \<noteq> 0 then ret () else thenO (as_increase A who dep Exact) (ret ()))
    (thenO (if dep < wd then thenO (as_mint_into A who (sat_sub wd dep)) (ret ()) else ret ())
           (if wd < dep then thenO (as_burn_from A who (sat_sub dep wd) Expendable Exact Force) (ret ())
            else ret ()))"

lemma sat_sub_less:
  fixes dep wd :: "'w::len word"
  assumes "dep < wd"
  shows "sat_sub dep wd = 0" and "sat_add dep (sat_sub wd dep) = wd"
    and "sat_sub wd (sat_sub wd dep) = dep" and "sat_sub wd dep \<noteq> 0"
  using assms checked_add_sat [of dep "sat_sub wd dep" wd]
  by (auto simp: word_unat_eq_iff arith_iffs word_less_nat_alt)

text \<open>The helpers as compositions: the monad laws and the pieces of the asset's state.\<close>

lemma op_laws:
  "thenO (ret x) m = m"
  "thenO (thenO k l) n = thenO k (thenO l n)"
  by (simp_all add: fun_eq_iff thenO_def bindO_def split: prod.split sum.split)

lemma on_asset_laws:
  "on_asset (thenO f g) = thenO (on_asset f) (on_asset g)"
  "on_asset (ret x) = ret x"
  by (auto simp: fun_eq_iff on_asset_def thenO_def bindO_def split: prod.split sum.split)

lemma pending_zero: "issue_less 0 = ret ()" "reap_less 0 = ret ()"
  by (simp_all add: fun_eq_iff issue_less_def reap_less_def)

lemma resolve_imbalance_alt:
  "resolve_imbalance C who \<lparr>ad_deposit = dep, ad_withdraw = wd\<rparr> =
     thenO (issue_less (sat_sub wd dep))
    (thenO (reap_less (sat_sub dep wd))
    (thenO (on_asset (settle (cc_asset C) who dep wd)) (ret wd)))"
proof (cases dep wd rule: linorder_cases)
  case less
  then have "wd \<noteq> 0" "\<not> wd < dep" by auto
  with less sat_sub_less [OF less] show ?thesis
    by (simp add: resolve_imbalance_def settle_def Let_def op_laws on_asset_laws pending_zero)
next
  case equal
  then show ?thesis
    by (simp add: resolve_imbalance_def settle_def Let_def op_laws on_asset_laws pending_zero)
next
  case greater
  then have "dep \<noteq> 0" "\<not> dep < wd" "dep \<noteq> wd" by auto
  with greater sat_sub_less [OF greater] show ?thesis
    by (simp add: resolve_imbalance_def settle_def Let_def op_laws on_asset_laws pending_zero)
qed

text \<open>Resolving succeeds exactly when the pending amounts cover the difference and the asset can be
  settled; then it pays out the withdrawal.\<close>

lemma resolve_imbalance_iff:
  "resolve_imbalance C who imb s = (Inr a, t) \<longleftrightarrow>
     a = ad_withdraw imb \<and>
     (\<exists>i p x. checked_sub (cs_to_issue s) (sat_sub (ad_withdraw imb) (ad_deposit imb)) = Some i \<and>
        checked_sub (cs_to_reap s) (sat_sub (ad_deposit imb) (ad_withdraw imb)) = Some p \<and>
        settle (cc_asset C) who (ad_deposit imb) (ad_withdraw imb) (cs_asset s) = (Inr (), x) \<and>
        t = s\<lparr>cs_to_issue := i, cs_to_reap := p, cs_asset := x\<rparr>)"
  by (cases imb) (auto simp: resolve_imbalance_alt thenO_Inr_iff on_asset_Inr_iff pending_iffs)

lemma resolve_imbalance_pending:
  assumes "resolve_imbalance C who imb s = (Inr a, t)"
  shows "net_pending t = net_pending s + int (unat (ad_deposit imb)) - int (unat (ad_withdraw imb))"
  using assms by (auto simp: resolve_imbalance_iff net_pending_def checked_sub_Some_iff unat_sat_sub
        simp del: of_nat_unat)

section \<open>Commission\<close>

lemma deduct_from_imbalance_cases:
  assumes run: "deduct_from_imbalance imb v s = (Inr (imb', m), t)" and le: "v \<le> ad_withdraw imb"
  shows "ad_deposit imb' = ad_deposit imb" and "m = \<lparr>ad_deposit = v, ad_withdraw = v\<rparr>"
    and "unat (ad_withdraw imb') + unat v = unat (ad_withdraw imb)"
    and "\<exists>n. checked_add (cs_to_reap s) (sat_sub v (sat_sub (ad_withdraw imb) (ad_deposit imb))) = Some n \<and>
           t = s\<lparr>cs_to_reap := n\<rparr>"
proof -
  obtain dep wd where imb: "imb = \<lparr>ad_deposit = dep, ad_withdraw = wd\<rparr>" by (cases imb)
  let ?rew = "sat_sub wd dep"
  have "imb' = imb\<lparr>ad_withdraw := wd - v\<rparr> \<and> m = \<lparr>ad_deposit = v, ad_withdraw = v\<rparr> \<and>
      (\<exists>n. checked_add (cs_to_reap s) (sat_sub v ?rew) = Some n \<and> t = s\<lparr>cs_to_reap := n\<rparr>)"
  proof (cases "dep < wd")
    case True
    then have rew: "unat ?rew + unat dep = unat wd"
      using sat_sub_less [OF True] by (simp add: unat_sat_sub word_less_nat_alt)
    consider "v < ?rew" | "v = ?rew" | "?rew < v" by (rule linorder_cases)
    then show ?thesis
    proof cases
      case 1
      have "sat_add dep (sat_sub ?rew v) = wd - v"
      proof (rule checked_add_sat)
        show "checked_add dep (sat_sub ?rew v) = Some (wd - v)"
          using 1 rew le imb
          by (simp add: checked_add_Some_iff unat_sat_sub unat_sub word_less_nat_alt word_le_nat_alt)
      qed
      with 1 True run imb show ?thesis
        by (auto simp: deduct_from_imbalance_def Let_def sat_sub_less(1) [OF 1])
    next
      case 2
      then have "wd - v = dep"
        using rew le imb by (simp add: word_unat_eq_iff unat_sub word_le_nat_alt)
      with 2 True run imb show ?thesis
        by (auto simp: deduct_from_imbalance_def Let_def)
    next
      case 3
      have "sat_sub dep (sat_sub v ?rew) = wd - v"
        using 3 rew le imb
        by (simp add: word_unat_eq_iff unat_sat_sub unat_sub word_less_nat_alt word_le_nat_alt)
      moreover have "\<not> v < ?rew" "v \<noteq> ?rew" using 3 by auto
      ultimately show ?thesis using True run imb
        by (auto simp: deduct_from_imbalance_def Let_def thenO_Inr_iff pending_iffs)
    qed
  next
    case False
    then have "?rew = 0" by (simp add: word_unat_eq_iff unat_sat_sub word_less_nat_alt)
    moreover have "sat_sub wd v = wd - v" using le imb by (simp add: sat_sub_exact)
    ultimately show ?thesis using False run imb
      by (auto simp: deduct_from_imbalance_def Let_def thenO_Inr_iff pending_iffs)
  qed
  with le imb show "ad_deposit imb' = ad_deposit imb" and "m = \<lparr>ad_deposit = v, ad_withdraw = v\<rparr>"
    and "unat (ad_withdraw imb') + unat v = unat (ad_withdraw imb)"
    and "\<exists>n. checked_add (cs_to_reap s) (sat_sub v (sat_sub (ad_withdraw imb) (ad_deposit imb))) = Some n \<and>
           t = s\<lparr>cs_to_reap := n\<rparr>"
    by (auto simp: unat_sub word_le_nat_alt)
qed

text \<open>C27: Paying a pool's commission out of an imbalance credits the manager and the proprietor with
  exactly the withdrawal together, but leaves the pending issuance too high: the part of the
  reward that went into the commission is credited without being taken from it. Without a
  commission resolving moves the net pending amount by deposit less withdrawal.\<close>
theorem commission_leaves_pending:
  assumes "deduct_from_imbalance imb v s = (Inr (imb', m), s1)" and "v \<le> ad_withdraw imb"
    and "resolve_imbalance C manager m s1 = (Inr paid, s2)"
    and "resolve_imbalance C who imb' s2 = (Inr resolved, t)"
  shows "unat paid + unat resolved = unat (ad_withdraw imb)
    \<and> net_pending t = net_pending s + int (unat (ad_deposit imb)) - int (unat (ad_withdraw imb))
           + int (min (unat v) (unat (ad_withdraw imb) - unat (ad_deposit imb)))"
proof
  note d = deduct_from_imbalance_cases [OF assms(1,2)]
  from d(4) obtain n where "checked_add (cs_to_reap s) (sat_sub v (sat_sub (ad_withdraw imb) (ad_deposit imb))) = Some n"
    and s1: "s1 = s\<lparr>cs_to_reap := n\<rparr>" by blast
  then have n: "unat n = unat (cs_to_reap s) + (unat v - (unat (ad_withdraw imb) - unat (ad_deposit imb)))"
    by (simp add: checked_add_Some_iff unat_sat_sub)
  have paid: "paid = v" and resolved: "resolved = ad_withdraw imb'"
    using assms(3,4) d(2) by (simp_all add: resolve_imbalance_iff)
  with d(3) show "unat paid + unat resolved = unat (ad_withdraw imb)" by simp
  have "net_pending s1 = net_pending s - int (unat v - (unat (ad_withdraw imb) - unat (ad_deposit imb)))"
    using s1 n by (simp add: net_pending_def del: of_nat_unat)
  moreover have split: "int (unat v - k) = int (unat v) - int (min (unat v) k)" for k by linarith
  moreover have total: "int (unat (ad_withdraw imb)) = int (unat (ad_withdraw imb')) + int (unat v)"
    using d(3) by (metis of_nat_add)
  moreover note resolve_imbalance_pending [OF assms(3)] resolve_imbalance_pending [OF assms(4)]
  ultimately show "net_pending t = net_pending s + int (unat (ad_deposit imb)) - int (unat (ad_withdraw imb))
           + int (min (unat v) (unat (ad_withdraw imb) - unat (ad_deposit imb)))"
    using d(1,2) split total by (simp del: of_nat_unat)
qed

section \<open>Adjusting a digest\<close>

lemma on_digest_Inr_iff:
  "on_digest e k f s = (Inr a, t) \<longleftrightarrow> (\<exists>i i'. cs_digests s k = Some i \<and> f i = (Inr a, i') \<and>
      t = s\<lparr>cs_digests := (cs_digests s)(k \<mapsto> i')\<rparr>)"
  by (auto simp: on_digest_def split: option.splits prod.splits)

lemma mut_balance_Inr_iff:
  "mut_balance variant f info = (Inr a, info') \<longleftrightarrow> (\<exists>b b'. get_balance variant info = Some b \<and>
      f b = (Inr a, b') \<and> info' = info[position_index variant := b'])"
  by (auto simp: mut_balance_def get_balance_def Let_def split: if_splits prod.splits)

lemma get_balance_put:
  "get_balance variant info = Some b \<Longrightarrow> get_balance variant (info[position_index variant := b']) = Some b'"
  by (auto simp: get_balance_def Let_def split: if_splits)

lemma get_balance_laid_out: "digest_ok info \<Longrightarrow> get_balance variant info = Some b \<Longrightarrow> laid_out b"
  by (auto simp: get_balance_def Let_def digest_ok_def list_all_length split: if_splits)

lemma balance_total_eval [simp]:
  "balance_total product_default = Inr 0" "balance_total (mk_balance e n i c d) = Inr e"
  by (simp_all add: balance_total_def pluginE_def model_total_value_def layout)

lemma plugin_Inr_iff: "plugin m b = (Inr a, b') \<longleftrightarrow> m b = (Inr a, b')"
  by (auto simp: plugin_def split: prod.splits sum.splits)

lemma lazy_mint_total:
  assumes "laid_out b" and "lazy_mint C a b = (Inr a', b')"
  shows "a' = a" and "\<exists>e e'. balance_total b = Inr e \<and> checked_add e a = Some e' \<and> balance_total b' = Inr e'"
  using assms
  by (auto elim!: laid_outE simp: lazy_mint_def plugin_Inr_iff adjust_fresh mint_eval
        split: if_splits option.splits)

lemma lazy_reap_total:
  assumes "laid_out b" and "lazy_reap C a b = (Inr a', b')"
  shows "a' = a" and "\<exists>e e'. balance_total b = Inr e \<and> checked_sub e a = Some e' \<and> balance_total b' = Inr e'"
  using assms
  by (auto elim!: laid_outE simp: lazy_reap_def plugin_Inr_iff adjust_fresh reap_eval
        split: if_splits option.splits)

lemma get_digest_variant_value_put:
  "cs_digests s (r, d) = Some info \<Longrightarrow> get_balance variant info = Some b \<Longrightarrow>
     get_digest_variant_value r d variant s = balance_total b"
  by (simp add: get_digest_variant_value_def)

lemma emit_frame:
  "emit C e s = (Inr u, t) \<Longrightarrow> \<exists>evs. t = s\<lparr>cs_events := evs\<rparr>"
  by (cases s) (auto simp: emit_def split: if_splits)

lemma total_value_frame [simp]:
  "get_total_value r (s\<lparr>cs_digests := m\<rparr>) = get_total_value r s"
  "get_total_value r (s\<lparr>cs_to_issue := v\<rparr>) = get_total_value r s"
  "get_total_value r (s\<lparr>cs_to_reap := v\<rparr>) = get_total_value r s"
  "get_total_value r (s\<lparr>cs_asset := x\<rparr>) = get_total_value r s"
  "get_total_value r (s\<lparr>cs_commits := cm\<rparr>) = get_total_value r s"
  "get_total_value r (s\<lparr>cs_events := es\<rparr>) = get_total_value r s"
  by (simp_all add: get_total_value_def)

definition total_int :: "'r \<Rightarrow> ('w, 'r, 'd, 'x) commit_store \<Rightarrow> int" where
  "total_int r s = int (unat (get_total_value r s))"

text \<open>The balance of a variant that is set, its value and the step that reads it.\<close>

lemma set_digest_reads:
  assumes reach: "commit_reachable C s"
    and run: "set_digest_variant_value C r d v variant s = (Inr new, t)"
  obtains info b e where "cs_digests s (r, d) = Some info" "get_balance variant info = Some b"
    "laid_out b" "balance_total b = Inr e"
    "\<And>f. bindO (on_digest DigestNotFound (r, d) (mut_balance variant (readE balance_total))) f s = f e s"
proof -
  from run obtain info b where info: "cs_digests s (r, d) = Some info"
    and b: "get_balance variant info = Some b"
    by (auto simp: set_digest_variant_value_def bindO_Inr_iff on_digest_Inr_iff mut_balance_Inr_iff)
  from reachable_inv [OF reach] info have "digest_ok info"
    by (auto simp: commit_inv_def dest: map_okD)
  then have laid: "laid_out b" using b by (rule get_balance_laid_out)
  then obtain e where e: "balance_total b = Inr e" by (auto elim: laid_outE)
  have same: "s\<lparr>cs_digests := (cs_digests s)((r, d) \<mapsto> info[position_index variant := b])\<rparr> = s"
    using info b by (auto simp: get_balance_def Let_def fun_upd_idem split: if_splits)
  have read: "on_digest DigestNotFound (r, d) (mut_balance variant (readE balance_total)) s = (Inr e, s)"
    using info b e same by (simp add: on_digest_Inr_iff mut_balance_Inr_iff)
  have "bindO (on_digest DigestNotFound (r, d) (mut_balance variant (readE balance_total))) f s = f e s" for f
    by (simp only: bindO_def read prod.case sum.case)
  with info b laid e show thesis by (rule that)
qed

text \<open>Raising the value mints the difference, lowering it reaps it.\<close>

definition value_set_to ::
  "'r \<Rightarrow> 'd \<Rightarrow> disposition \<Rightarrow> asset \<Rightarrow> asset \<Rightarrow> ('w, 'r, 'd, 'x) commit_store \<Rightarrow> ('w, 'r, 'd, 'x) commit_store \<Rightarrow> bool" where
  "value_set_to r d variant e v s t =
     (get_digest_variant_value r d variant t = Inr v \<and>
      net_pending t = net_pending s + int (unat v) - int (unat e) \<and>
      total_int r t = total_int r s + int (unat v) - int (unat e))"

lemma value_raised:
  assumes info: "cs_digests s (r, d) = Some info" and b: "get_balance variant info = Some b"
    and laid: "laid_out b" and e: "balance_total b = Inr e" and less: "e < v"
    and mint: "lazy_mint C (sat_sub v e) b = (Inr a, b')"
    and i: "checked_add (cs_to_issue s) a = Some i" and n: "checked_add (get_total_value r s) a = Some n"
  shows "sat_add e a = v" and "value_set_to r d variant e v s
     (s\<lparr>cs_digests := (cs_digests s)((r, d) \<mapsto> info[position_index variant := b']),
        cs_to_issue := i, cs_reason_value := (cs_reason_value s)(r \<mapsto> n), cs_events := evs\<rparr>)"
proof -
  note m = lazy_mint_total [OF laid mint]
  from less have "checked_add e (sat_sub v e) = Some v"
    by (simp add: checked_add_Some_iff unat_sat_sub word_less_nat_alt)
  with m e have v: "balance_total b' = Inr v" "sat_add e a = v"
    by (auto simp: checked_add_sat)
  then show "sat_add e a = v" by simp
  have "int (unat a) = int (unat v) - int (unat e)"
    using m(1) less by (simp add: unat_sat_sub word_less_nat_alt of_nat_diff del: of_nat_unat)
  with v i n show "value_set_to r d variant e v s
     (s\<lparr>cs_digests := (cs_digests s)((r, d) \<mapsto> info[position_index variant := b']),
        cs_to_issue := i, cs_reason_value := (cs_reason_value s)(r \<mapsto> n), cs_events := evs\<rparr>)"
    by (simp add: value_set_to_def get_digest_variant_value_put get_balance_put [OF b] net_pending_def
          total_int_def checked_add_Some_iff del: of_nat_unat)
qed

lemma value_lowered:
  assumes info: "cs_digests s (r, d) = Some info" and b: "get_balance variant info = Some b"
    and laid: "laid_out b" and e: "balance_total b = Inr e" and less: "v < e"
    and reap: "lazy_reap C (sat_sub e v) b = (Inr a, b')"
    and i: "checked_add (cs_to_reap s) a = Some i" and n: "checked_sub (get_total_value r s) a = Some n"
  shows "sat_sub e a = v" and "value_set_to r d variant e v s
     (s\<lparr>cs_digests := (cs_digests s)((r, d) \<mapsto> info[position_index variant := b']),
        cs_to_reap := i, cs_reason_value := (cs_reason_value s)(r \<mapsto> n), cs_events := evs\<rparr>)"
proof -
  note m = lazy_reap_total [OF laid reap]
  from less have "checked_sub e (sat_sub e v) = Some v"
    by (simp add: checked_sub_Some_iff unat_sat_sub word_less_nat_alt)
  with m e have v: "balance_total b' = Inr v" "sat_sub e a = v"
    by (auto simp: checked_sub_sat)
  then show "sat_sub e a = v" by simp
  have "int (unat a) = int (unat e) - int (unat v)"
    using m(1) less by (simp add: unat_sat_sub word_less_nat_alt of_nat_diff del: of_nat_unat)
  with v i n show "value_set_to r d variant e v s
     (s\<lparr>cs_digests := (cs_digests s)((r, d) \<mapsto> info[position_index variant := b']),
        cs_to_reap := i, cs_reason_value := (cs_reason_value s)(r \<mapsto> n), cs_events := evs\<rparr>)"
    by (simp add: value_set_to_def get_digest_variant_value_put get_balance_put [OF b] net_pending_def
          total_int_def checked_add_Some_iff checked_sub_Some_iff del: of_nat_unat)
qed

lemma set_digest_sets:
  assumes "commit_reachable C s"
    and run: "set_digest_variant_value C r d v variant s = (Inr new, t)"
  shows "new = v \<and> get_digest_variant_value r d variant t = Inr v \<and>
    (\<exists>old. get_digest_variant_value r d variant s = Inr old \<and>
           net_pending t = net_pending s + int (unat v) - int (unat old) \<and>
           total_int r t = total_int r s + int (unat v) - int (unat old))"
proof -
  obtain info b e where info: "cs_digests s (r, d) = Some info" and b: "get_balance variant info = Some b"
    and laid: "laid_out b" and e: "balance_total b = Inr e"
    and step: "\<And>f :: asset \<Rightarrow> ('a, 'b, 'c, 'd, asset) commit_op.
      bindO (on_digest DigestNotFound (r, d) (mut_balance variant (readE balance_total))) f s = f e s"
    using set_digest_reads [OF assms] by metis
  note eval = set_digest_variant_value_def step bindO_Inr_iff thenO_Inr_iff on_digest_Inr_iff
    mut_balance_Inr_iff info b pending_iffs total_iffs
  have "new = v \<and> value_set_to r d variant e v s t"
  proof (cases e v rule: linorder_cases)
    case less
    with run show ?thesis
      by (auto simp: eval value_raised [OF info b laid e] dest!: emit_frame)
  next
    case equal
    with run have "new = e" and em: "emit C (EvDigestInfo d r e variant) s = (Inr (), t)"
      by (auto simp: set_digest_variant_value_def step thenO_Inr_iff)
    with emit_frame [OF em] equal info b e show ?thesis
      by (auto simp: value_set_to_def get_digest_variant_value_put net_pending_def total_int_def)
  next
    case greater
    then have "\<not> e < v" by simp
    with run greater show ?thesis
      by (auto simp: eval value_lowered [OF info b laid e] dest!: emit_frame simp del: not_less)
  qed
  with info b e show ?thesis
    by (auto simp: value_set_to_def get_digest_variant_value_put)
qed

lemma keeps_digest_entry:
  "k \<noteq> k' \<Longrightarrow> keeps_ok (\<lambda>s. cs_digests s k = i) (on_digest e k' f)"
  "keeps_ok (\<lambda>s. cs_digests s k = i) (issue_more a)" "keeps_ok (\<lambda>s. cs_digests s k = i) (reap_more a)"
  "keeps_ok (\<lambda>s. cs_digests s k = i) (add_to_total_value r a)"
  "keeps_ok (\<lambda>s. cs_digests s k = i) (sub_from_total_value r a)" "keeps_ok (\<lambda>s. cs_digests s k = i) (emit C v)"
proof -
  show "k \<noteq> k' \<Longrightarrow> keeps_ok (\<lambda>s. cs_digests s k = i) (on_digest e k' f)"
    by (auto simp: keeps_ok_def on_digest_def split: option.splits prod.splits)
qed (unfold issue_more_def reap_more_def add_to_total_value_def sub_from_total_value_def
      set_total_value_def emit_def, (intro keep_intros keeps_ok_modify; simp)+)

lemma set_digest_other:
  assumes "set_digest_variant_value C r d v variant s = (Inr new, t)" and "k \<noteq> (r, d)"
  shows "cs_digests t k = cs_digests s k"
proof -
  have "keeps_ok (\<lambda>s'. cs_digests s' k = cs_digests s k) (set_digest_variant_value C r d v variant)"
    unfolding set_digest_variant_value_def by (intro keep_intros keeps_digest_entry assms(2))
  from keeps_okD [OF this refl assms(1)] show ?thesis .
qed

text \<open>C28: Setting the value of a digest variant sets it exactly: in every reachable state a call that
  succeeds returns the requested value and leaves the variant with it, and the net pending amount
  and the reason's total move by exactly the difference to the old value.\<close>
theorem set_digest_value_exact:
  assumes "commit_reachable C s"
    and run: "set_digest_variant_value C r d v variant s = (Inr new, t)"
  shows "new = v \<and> get_digest_variant_value r d variant t = Inr v \<and>
    (\<exists>old. get_digest_variant_value r d variant s = Inr old \<and>
           net_pending t = net_pending s + int (unat v) - int (unat old) \<and>
           total_int r t = total_int r s + int (unat v) - int (unat old))"
  by (rule set_digest_sets [OF assms])

end
