(* ===== verification/CommitPools.thy ===== *)
theory CommitPools
  imports CommitAccounting ShareProperties
begin

text \<open>
  What a pool's balance is backed by. Recovering a pool splits its effective value over the slots by
  their shares and deposits each part to the slot's digest; what rounding leaves goes to the
  manager, and the balance is reaped by it. So after a recovery the balance is worth exactly what
  the receipts of the slots were issued for.
\<close>

section \<open>The part of a slot\<close>

lemma deposit_receipt:
  assumes "laid_out bal" and "model_deposit fx a bal = (Inr (x, r), bal')"
  shows "x = a" and "model_receipt_deposit_value r = Inr a" and "r \<noteq> product_default"
proof -
  have "x = a \<and> (\<exists>sh b cp. r = mk_receipt a sh b cp)"
    using assms
    by (fastforce elim!: laid_outE simp: deposit_fresh deposit_eval split: if_splits sum.splits option.splits)
  moreover have "mk_receipt a sh b cp \<noteq> (product_default :: lazy_balance)" for sh b cp
    by (simp add: mk_receipt_def product_default_def sum_dyn_default_def)
  ultimately show "x = a" and "model_receipt_deposit_value r = Inr a" and "r \<noteq> product_default"
    by (auto simp: model_receipt_deposit_value_def layout)
qed

text \<open>What the receipt of a slot was issued for.\<close>

definition slot_value :: "'d slot_info \<Rightarrow> nat" where
  "slot_value sl =
     (if sl_commit sl = product_default then 0
      else case receipt_deposit_value (sl_commit sl) of Inr v \<Rightarrow> unat v | Inl _ \<Rightarrow> 0)"

lemma deposit_variant_receipt:
  assumes ok: "digest_ok info" and run: "deposit_variant C variant v info = (Inr (x, r), info')"
  shows "slot_value (sl\<lparr>sl_commit := r\<rparr>) = unat v"
proof -
  have "keeps_ok digest_ok (init_variant_balance variant)"
    by (simp add: init_variant_balance_def keeps_init_until)
  with run ok obtain info1 where "digest_ok info1" "mut_balance variant (lazy_deposit C v) info1 = (Inr (x, r), info')"
    by (auto simp: deposit_variant_def thenO_Inr_iff dest: keeps_okD split: if_splits)
  then obtain b b' where "laid_out b" "model_deposit (cc_fx C) v b = (Inr (x, r), b')"
    by (auto simp: mut_balance_Inr_iff lazy_deposit_def plugin_Inr_iff dest: get_balance_laid_out)
  from deposit_receipt [OF this] show ?thesis
    by (simp add: slot_value_def receipt_deposit_value_def pluginE_def)
qed

lemma slot_allocation_bound:
  assumes fx: "fixed_point (cc_fx C)" and run: "slot_allocation C eff cap sh = Inr dv"
    and le: "sh \<le> cap" and "cap \<noteq> 0"
  shows "unat dv * unat cap \<le> unat eff * unat sh"
proof -
  let ?D = "unat (fx_div (cc_fx C))"
  have D: "0 < ?D" using fixed_point.div_nonzero [OF fx] .
  let ?f = "unat sh * ?D div unat cap"
  have cap: "0 < unat cap" "(ucast cap :: asset) \<noteq> 0"
    using assms(4) unat_ucast_fits [of cap, where 'a = 128]
    by (auto simp: unat_gt_0) (metis unat_0 unat_is_zero)
  have "unat sh * ?D div unat cap \<le> unat cap * ?D div unat cap"
    using le by (intro div_le_mono mult_le_mono1) (simp add: word_le_nat_alt)
  then have "?f < 2 ^ 64"
    using cap unat_bound [of "fx_div (cc_fx C)"] by simp
  then have "fx_from_rational (cc_fx C) (ucast sh) (ucast cap) = Some (of_nat ?f)" (is "?lhs = Some ?r")
    using cap by (simp add: fixed_point.from_rational [OF fx] unat_ucast_fits unat_of_nat_small unat_gt_0)
  with run obtain fixed where mul: "fx_checked_mul (cc_fx C) (fx_from_integer (cc_fx C) eff) ?r = Some fixed"
    and dv: "dv = ucast (fixed div fx_div (cc_fx C))"
    by (auto simp: slot_allocation_def Let_def bindE_Inr_iff ok_orE_Inr_iff fixed_point.scale_down [OF fx])
  have "unat dv * ?D \<le> unat fixed"
    unfolding dv by (simp add: unat_ucast_fits unat_div div_times_less_eq_dividend)
  also have "\<dots> = unat (fx_from_integer (cc_fx C) eff) * ?f div ?D"
    using mul \<open>?f < 2 ^ 64\<close> by (simp add: fixed_point.fixed_mul [OF fx] unat_of_nat_small)
  also have "\<dots> \<le> unat eff * ?D * ?f div ?D"
    by (intro div_le_mono mult_le_mono1 fixed_point.from_integer_le [OF fx])
  also have "\<dots> = unat eff * ?f"
    using D by (simp add: ac_simps)
  finally have "unat dv * ?D * unat cap \<le> unat eff * ?f * unat cap"
    by (rule mult_le_mono1)
  also have "\<dots> \<le> unat eff * (unat sh * ?D)"
    by (simp add: ac_simps div_times_less_eq_dividend)
  finally show ?thesis using D by (simp add: ac_simps)
qed


section \<open>Recovering the slots\<close>

lemma ok_orO_Inr_iff: "ok_orO e y s = (Inr a, t) \<longleftrightarrow> y = Some a \<and> t = s"
  by (cases y) (auto simp: ok_orO_def)

lemma on_pool_Inr_iff:
  "on_pool k f s = (Inr a, t) \<longleftrightarrow> (\<exists>q q'. cs_pools s k = Some q \<and> f q = (Inr a, q') \<and>
      t = s\<lparr>cs_pools := (cs_pools s)(k \<mapsto> q')\<rparr>)"
  by (auto simp: on_pool_def split: option.splits prod.splits)

lemma first_position_append:
  "\<forall>x \<in> set xs. \<not> p x \<Longrightarrow> p y \<Longrightarrow> first_position p (xs @ y # ys) = Some (length xs)"
  by (induction xs) auto

lemma set_slot_commit_at:
  assumes "po_slots q = front @ sl # sls" and "sl_digest sl \<notin> sl_digest ` set front"
  shows "pool_set_slot_commit (sl_digest sl) c q = (Inr (), q\<lparr>po_slots := front @ sl\<lparr>sl_commit := c\<rparr> # sls\<rparr>)"
proof -
  have "first_position (\<lambda>s. sl_digest s = sl_digest sl) (front @ sl # sls) = Some (length front)"
    using assms(2) by (intro first_position_append ballI) (metis image_eqI, rule refl)
  with assms(1) show ?thesis
    by (simp add: pool_set_slot_commit_def on_slots_def slots_set_commit_def thenO_eval)
qed

text \<open>One step of the loop: the slot gets a receipt for its part, or none when its part is zero.\<close>

lemma recover_slot_step:
  assumes fx: "fixed_point (cc_fx C)" and cap: "cap \<noteq> 0"
    and run: "recover_slots C r p eff cap taken (sl # sls) s = (Inr taken', t)"
    and inv: "commit_inv C s" and pool: "cs_pools s (r, p) = Some q" and slots: "po_slots q = front @ sl # sls"
    and le: "sl_shares sl \<le> cap" and new: "sl_digest sl \<notin> sl_digest ` set front"
  shows "\<exists>c s1 taken1. recover_slots C r p eff cap taken1 sls s1 = (Inr taken', t) \<and> commit_inv C s1 \<and>
      cs_pools s1 (r, p) = Some (q\<lparr>po_slots := front @ sl\<lparr>sl_commit := c\<rparr> # sls\<rparr>) \<and>
      unat taken1 = unat taken + slot_value (sl\<lparr>sl_commit := c\<rparr>) \<and>
      slot_value (sl\<lparr>sl_commit := c\<rparr>) * unat cap \<le> unat eff * unat (sl_shares sl)"
proof -
  let ?put = "\<lambda>c. q\<lparr>po_slots := front @ sl\<lparr>sl_commit := c\<rparr> # sls\<rparr>"
  have set: "pool_set_slot_commit (sl_digest sl) c q = (Inr (), ?put c)" for c
    using slots new by (rule set_slot_commit_at)
  have "pool_ok (cc_max_entries C) q"
    using inv pool by (auto simp: commit_inv_def dest: map_okD)
  then have ok: "pool_ok (cc_max_entries C) (?put c)" for c
    by (simp add: pool_ok_def labels_ok_def slots)
  from run obtain dv where dv: "slot_allocation C eff cap (sl_shares sl) = Inr dv"
    by (auto split: sum.splits if_splits)
  show ?thesis
  proof (cases "dv = 0")
    case True
    let ?s1 = "s\<lparr>cs_pools := (cs_pools s)((r, p) \<mapsto> ?put product_default)\<rparr>"
    have "recover_slots C r p eff cap taken sls ?s1 = (Inr taken', t)"
      using run dv True pool set by (auto simp: thenO_Inr_iff on_pool_Inr_iff split: if_splits)
    moreover have "commit_inv C ?s1" using inv ok pool by (simp add: inv_put)
    ultimately show ?thesis
      by (intro exI [of _ product_default] exI [of _ ?s1] exI [of _ taken]) (simp add: slot_value_def)
  next
    case False
    from run dv False obtain receipt s0 taken1 s1 where
      dep: "on_digest SlotOfPoolNotFound (r, sl_digest sl) (deposit_variant C (sl_variant sl) dv) s = (Inr (dv, receipt), s0)"
      and add: "checked_add taken dv = Some taken1"
      and put: "on_pool (r, p) (pool_set_slot_commit (sl_digest sl) receipt) s0 = (Inr (), s1)"
      and rest: "recover_slots C r p eff cap taken1 sls s1 = (Inr taken', t)"
      by (auto simp: bindO_Inr_iff thenO_Inr_iff ok_orO_Inr_iff simp del: bindO_ok_orO split: if_splits)
    from dep obtain info info' where info: "cs_digests s (r, sl_digest sl) = Some info"
        "deposit_variant C (sl_variant sl) dv info = (Inr (dv, receipt), info')"
      and s0: "s0 = s\<lparr>cs_digests := (cs_digests s)((r, sl_digest sl) \<mapsto> info')\<rparr>"
      by (auto simp: on_digest_Inr_iff)
    have "digest_ok info" using inv info(1) by (auto simp: commit_inv_def dest: map_okD)
    then have val: "slot_value (sl\<lparr>sl_commit := receipt\<rparr>) = unat dv"
      using info(2) by (rule deposit_variant_receipt)
    have inv0: "commit_inv C s0" using keeps_digest_parts(2) inv dep by (rule keeps_okD)
    from put set have s1: "s1 = s0\<lparr>cs_pools := (cs_pools s)((r, p) \<mapsto> ?put receipt)\<rparr>"
      by (auto simp: on_pool_Inr_iff s0 pool)
    with inv0 ok have "commit_inv C s1" using inv_put(5) [OF inv0, of "(r, p)" q] pool by (simp add: s0)
    with rest val add slot_allocation_bound [OF fx dv le cap] show ?thesis
      by (intro exI [of _ receipt] exI [of _ s1] exI [of _ taken1]) (simp add: s1 checked_add_Some_iff)
  qed
qed

text \<open>The slots that are still to be recovered follow those that are done.\<close>

lemma recover_slots_result:
  assumes fx: "fixed_point (cc_fx C)" and cap: "cap \<noteq> 0"
    and run: "recover_slots C r p eff cap taken sls s = (Inr taken', t)"
    and inv: "commit_inv C s" and pool: "cs_pools s (r, p) = Some q" and slots: "po_slots q = front @ sls"
    and le: "\<forall>sl \<in> set sls. sl_shares sl \<le> cap" and dist: "distinct (map sl_digest (front @ sls))"
  shows "\<exists>sls'. cs_pools t (r, p) = Some (q\<lparr>po_slots := front @ sls'\<rparr>) \<and>
      unat taken' = unat taken + sum_list (map slot_value sls') \<and>
      sum_list (map slot_value sls') * unat cap \<le> unat eff * sum_list (map (\<lambda>sl. unat (sl_shares sl)) sls)"
  using run inv pool slots le dist
proof (induction sls arbitrary: taken s q front)
  case Nil
  then show ?case by (intro exI [of _ "[]"]) simp
next
  case (Cons sl sls)
  let ?put = "\<lambda>c. q\<lparr>po_slots := front @ sl\<lparr>sl_commit := c\<rparr> # sls\<rparr>"
  obtain c s1 taken1 where rest: "recover_slots C r p eff cap taken1 sls s1 = (Inr taken', t)"
    and step: "commit_inv C s1" "cs_pools s1 (r, p) = Some (?put c)"
      "unat taken1 = unat taken + slot_value (sl\<lparr>sl_commit := c\<rparr>)"
      "slot_value (sl\<lparr>sl_commit := c\<rparr>) * unat cap \<le> unat eff * unat (sl_shares sl)"
    using recover_slot_step [OF fx cap Cons.prems(1,2,3,4)] Cons.prems(5,6) by auto
  obtain sls' where "cs_pools t (r, p) = Some (?put c\<lparr>po_slots := (front @ [sl\<lparr>sl_commit := c\<rparr>]) @ sls'\<rparr>)"
    "unat taken' = unat taken1 + sum_list (map slot_value sls')"
    "sum_list (map slot_value sls') * unat cap \<le> unat eff * sum_list (map (\<lambda>sl. unat (sl_shares sl)) sls)"
    using Cons.IH [OF rest step(1,2), of "front @ [sl\<lparr>sl_commit := c\<rparr>]"] Cons.prems(5,6) by auto
  with step show ?case
    by (intro exI [of _ "sl\<lparr>sl_commit := c\<rparr> # sls'"]) (simp add: algebra_simps)
qed


section \<open>The balance after a recovery\<close>

definition pool_backed :: "'d pool_info \<Rightarrow> bool" where
  "pool_backed q =
     (case balance_total (po_balance q) of
        Inr e \<Rightarrow> unat e = sum_list (map slot_value (po_slots q)) | Inl _ \<Rightarrow> False)"

lemma share_le_capital:
  assumes "pool_ok bound q" and "sl \<in> set (po_slots q)"
  shows "sl_shares sl \<le> po_capital q"
  using assms member_le_sum_list [of "unat (sl_shares sl)" "map (\<lambda>s. unat (sl_shares s)) (po_slots q)"]
  by (auto simp: pool_ok_def word_le_nat_alt)

lemma recover_pool_backed:
  assumes fx: "fixed_point (cc_fx C)" and inv: "commit_inv C s" and b: "laid_out b"
    and run: "recover_pool C r p b s = (Inr u, t)"
  shows "\<exists>q. cs_pools t (r, p) = Some q \<and> pool_backed q"
proof -
  let ?dust = "\<lambda>eff taken. sat_sub eff taken"
  from run obtain eff q taken s1 where eff: "balance_total b = Inr eff" and q: "cs_pools s (r, p) = Some q"
    and cap: "po_capital q \<noteq> 0"
    and rec: "recover_slots C r p eff (po_capital q) 0 (po_slots q) s = (Inr taken, s1)"
    and rest: "(if ?dust eff taken = 0 then on_pool (r, p) (set_pool_balance b)
       else bindO (readE (get_manager r p)) (\<lambda>manager.
         bindO (resolve_imbalance C manager \<lparr>ad_deposit = ?dust eff taken, ad_withdraw = ?dust eff taken\<rparr>) (\<lambda>mw.
         thenO (sub_from_total_value r mw)
        (bindO (on_local b (lazy_reap C (?dust eff taken))) (\<lambda>(reaped, b').
         thenO (ensureO (reaped = ?dust eff taken) (CommitModule PoolUnsupported))
               (on_pool (r, p) (set_pool_balance b'))))))) s1 = (Inr u, t)"
    by (auto simp: recover_pool_def Let_def get_pool_def ok_orE_Inr_iff bindO_Inr_iff thenO_Inr_iff
          split: sum.splits if_splits)
  have ok: "pool_ok (cc_max_entries C) q"
    using inv q by (auto simp: commit_inv_def dest: map_okD)
  then obtain sls where s1: "cs_pools s1 (r, p) = Some (q\<lparr>po_slots := sls\<rparr>)"
    and taken: "unat taken = sum_list (map slot_value sls)" "unat taken * unat (po_capital q) \<le> unat eff * unat (po_capital q)"
    using recover_slots_result [OF fx cap rec inv q, of "[]"] share_le_capital [OF ok]
    by (auto simp: pool_ok_def labels_ok_def)
  from taken(2) cap have le: "unat taken \<le> unat eff" by (simp add: unat_gt_0)
  show ?thesis
  proof (cases "?dust eff taken = 0")
    case True
    with le have "eff = taken" by (simp add: word_unat_eq_iff unat_sat_sub)
    with True rest s1 taken(1) eff show ?thesis
      by (auto simp: on_pool_Inr_iff set_pool_balance_def pool_backed_def)
  next
    case False
    with rest obtain b' reaped where reap: "lazy_reap C (?dust eff taken) b = (Inr reaped, b')"
      and "\<exists>q'. cs_pools t (r, p) = Some q' \<and> po_balance q' = b' \<and> po_slots q' = sls"
      by (auto simp: bindO_Inr_iff thenO_Inr_iff resolve_imbalance_iff total_iffs on_local_Inr_iff on_pool_Inr_iff
            set_pool_balance_def s1 split: sum.splits if_splits)
    moreover obtain e' where "checked_sub eff (?dust eff taken) = Some e'" "balance_total b' = Inr e'"
      using lazy_reap_total [OF b reap] eff by auto
    moreover from this le have "e' = taken"
      by (simp add: word_unat_eq_iff unat_sat_sub checked_sub_Some_iff)
    ultimately show ?thesis using taken(1) by (auto simp: pool_backed_def)
  qed
qed


section \<open>Every operation on a pool\<close>

lemma keeps_match_effective: "keeps_ok laid_out (match_effective C taken)"
  unfolding match_effective_def Let_def by (intro keep_intros)

lemma release_pool_laid_out:
  assumes "release_pool C r p s = (Inr b, t)" and "cs_pools s (r, p) = Some q" and "laid_out (po_balance q)"
  shows "laid_out b"
  using assms keeps_okD [OF keeps_match_effective assms(3)]
  by (auto simp: release_pool_def get_pool_def ok_orE_Inr_iff bindO_Inr_iff thenO_Inr_iff on_local_Inr_iff
        split: sum.splits if_splits)

text \<open>The commission does not touch the pool.\<close>

lemma keeps_pools:
  "keeps_ok (\<lambda>s. cs_pools s = P) (deduct_from_imbalance imb v)"
  "keeps_ok (\<lambda>s. cs_pools s = P) (resolve_imbalance C who imb)"
  "keeps_ok (\<lambda>s. cs_pools s = P) (sub_from_total_value r v)"
  by (auto simp: keeps_ok_def deduct_from_imbalance_def resolve_imbalance_iff total_iffs Let_def
        thenO_Inr_iff pending_iffs split: if_splits)

lemma withdraw_from_pool_parts:
  "\<exists>tail. withdraw_from_pool C who r p =
     bindO (readE (\<lambda>s. ok_orE (CommitModule CommitNotFound) (cs_commits s (who, r)))) (\<lambda>ci.
     bindO (release_pool C r p) (\<lambda>b.
     bindO (on_local b (withdraw_commits C 0 0 (ci_commits ci))) (\<lambda>((given, taken), b').
     thenO (recover_pool C r p b') (tail given taken)))) \<and>
   (\<forall>given taken P. keeps_ok (\<lambda>s. cs_pools s = P) (tail given taken))"
  unfolding withdraw_from_pool_def Let_def
  by (rule exI, rule conjI, rule refl) (intro allI keeps_pools keep_intros)

text \<open>A run of an operation that releases the pool, changes it and recovers it.\<close>

lemma released_backed:
  assumes fx: "fixed_point (cc_fx C)" and inv: "commit_inv C s"
    and q: "cs_pools s (r, p) = Some q" "laid_out (po_balance q)"
    and rel: "release_pool C r p s = (Inr b, s1)"
    and mid: "laid_out b \<Longrightarrow> laid_out b'" "commit_inv C s1 \<Longrightarrow> commit_inv C s2"
    and rec: "recover_pool C r p b' s2 = (Inr u, t)"
  shows "\<exists>q'. cs_pools t (r, p) = Some q' \<and> pool_backed q'"
proof (rule recover_pool_backed [OF fx _ _ rec])
  show "commit_inv C s2" using keeps_okD [OF keeps_release_pool inv rel] by (rule mid(2))
  show "laid_out b'" using release_pool_laid_out [OF rel q] by (rule mid(1))
qed


text \<open>C24: Whatever changes a pool leaves its balance backed: after a deposit, a withdrawal, the
  setting or the removal of a slot, the balance is worth exactly what the receipts of the slots
  were issued for, the rounding of the slots' parts included.\<close>
theorem pool_stays_backed:
  assumes fx: "fixed_point (cc_fx C)" and inv: "commit_inv C s"
    and q: "cs_pools s (r, p) = Some q" "laid_out (po_balance q)"
    and run: "deposit_to_pool C r p v s = (Inr dep, t) \<or> withdraw_from_pool C who r p s = (Inr imb, t)
      \<or> set_pool_slot C r p d sh variant s = (Inr (), t) \<or> remove_pool_slot C r p d s = (Inr (), t)"
  shows "\<exists>q'. cs_pools t (r, p) = Some q' \<and> pool_backed q'"
  using run
proof (elim disjE)
  assume "deposit_to_pool C r p v s = (Inr dep, t)"
  then obtain b s1 x b' where rel: "release_pool C r p s = (Inr b, s1)"
    and mid: "lazy_deposit C v b = (Inr x, b')" and rec: "recover_pool C r p b' s1 = (Inr (), t)"
    by (auto simp: deposit_to_pool_def bindO_Inr_iff thenO_Inr_iff on_local_Inr_iff)
  show ?thesis
    by (rule released_backed [OF fx inv q rel _ _ rec]) (auto intro: keeps_okD [OF keeps_lazy(1) _ mid])
next
  assume "withdraw_from_pool C who r p s = (Inr imb, t)"
  moreover obtain tail where parts: "withdraw_from_pool C who r p =
     bindO (readE (\<lambda>s. ok_orE (CommitModule CommitNotFound) (cs_commits s (who, r)))) (\<lambda>ci.
     bindO (release_pool C r p) (\<lambda>b.
     bindO (on_local b (withdraw_commits C 0 0 (ci_commits ci))) (\<lambda>((given, taken), b').
     thenO (recover_pool C r p b') (tail given taken))))"
    and keeps: "\<And>given taken P. keeps_ok (\<lambda>s. cs_pools s = P) (tail given taken)"
    using withdraw_from_pool_parts [of C who r p] by metis
  ultimately obtain b s1 given taken b' cs t1 where rel: "release_pool C r p s = (Inr b, s1)"
    and mid: "withdraw_commits C 0 0 cs b = (Inr (given, taken), b')"
    and rec: "recover_pool C r p b' s1 = (Inr (), t1)" and tail: "tail given taken t1 = (Inr imb, t)"
    by (auto simp: bindO_Inr_iff thenO_Inr_iff on_local_Inr_iff split: sum.splits)
  from keeps_okD [OF keeps refl tail] have "cs_pools t = cs_pools t1" .
  moreover have "\<exists>q'. cs_pools t1 (r, p) = Some q' \<and> pool_backed q'"
    by (rule released_backed [OF fx inv q rel _ _ rec]) (auto intro: keeps_okD [OF keeps_withdraw_commits _ mid])
  ultimately show ?thesis by simp
next
  assume "set_pool_slot C r p d sh variant s = (Inr (), t)"
  then obtain b s1 s2 where rel: "release_pool C r p s = (Inr b, s1)"
    and mid: "on_pool (r, p)
       (thenO (\<lambda>pool. if is_ok (pool_slot_exists d pool) then pool_remove_slot d pool else (Inr (), pool))
         (bindO (readE (\<lambda>_. entry_info_new d sh variant)) (pool_add_slot (cc_max_entries C)))) s1 = (Inr (), s2)"
    and rec: "recover_pool C r p b s2 = (Inr (), t)"
    by (auto simp: set_pool_slot_def bindO_Inr_iff thenO_Inr_iff split: if_splits)
  show ?thesis
    by (rule released_backed [OF fx inv q rel _ _ rec]) (auto intro: keeps_okD [OF keeps_slot_put _ mid])
next
  assume "remove_pool_slot C r p d s = (Inr (), t)"
  then obtain b s1 s2 where rel: "release_pool C r p s = (Inr b, s1)"
    and mid: "on_pool (r, p) (thenO (pool_remove_slot d)
       (thenO (readE (\<lambda>pool. ensureE (po_slots pool \<noteq> []) (CommitModule EmptySlotsNotAllowed)))
              (readE (\<lambda>pool. ensureE (po_capital pool \<noteq> 0) (CommitModule CapitalCannotBeZero))))) s1 = (Inr (), s2)"
    and rec: "recover_pool C r p b s2 = (Inr (), t)"
    by (auto simp: remove_pool_slot_def bindO_Inr_iff thenO_Inr_iff)
  show ?thesis
    by (rule released_backed [OF fx inv q rel _ _ rec]) (auto intro: keeps_okD [OF keeps_slot_removal _ mid])
qed

end
