(* ===== verification/CommitProperties.thy ===== *)
theory CommitProperties
  imports CommitPools
begin

text \<open>
  The properties of the commitment pallet: its structures stay well formed, a deduction takes what
  it says, a commitment to a fresh digest is resolved for exactly what was placed, and the index
  commitment that can never be resolved; then the witnesses on the runtime's number types.
\<close>

section \<open>The structures\<close>

text \<open>C23: In every store that the pallet's operations can reach, indexes and pools have distinct
  members with non-zero shares whose sum is the capital, within the bound; a pool exists exactly
  when it has a manager; a commitment has at least one instance and no more than the bound; and a
  digest has no more balances than there are variants.\<close>
theorem structures_wf:
  assumes "commit_reachable C s"
  shows "(cs_indexes s (r, d) = Some ix \<longrightarrow> index_ok (cc_max_entries C) ix)
    \<and> (cs_pools s (r, d) = Some q \<longrightarrow> pool_ok (cc_max_entries C) q)
    \<and> (cs_pools s (r, d) = None \<longleftrightarrow> cs_managers s (r, d) = None)
    \<and> (cs_commits s (who, r) = Some ci \<longrightarrow> ci_commits ci \<noteq> [] \<and> length (ci_commits ci) \<le> cc_max_commits C)
    \<and> (cs_digests s (r, d) = Some info \<longrightarrow> length info \<le> variant_count)"
proof (intro conjI)
  note inv = reachable_inv [OF assms]
  have "(r, d) \<in> dom (cs_pools s) \<longleftrightarrow> (r, d) \<in> dom (cs_managers s)"
    using inv by (simp add: commit_inv_def)
  then show "cs_pools s (r, d) = None \<longleftrightarrow> cs_managers s (r, d) = None"
    by (simp only: domIff) blast
qed (use reachable_inv [OF assms] in
  \<open>auto simp: commit_inv_def instances_ok_def digest_ok_def dest: map_okD\<close>)

section \<open>Deducting a commitment's value\<close>

lemma on_asset_thenO_iff:
  "thenO (on_asset f) m s = (Inr a, t) \<longleftrightarrow>
     (\<exists>y x. f (cs_asset s) = (Inr y, x) \<and> m (s\<lparr>cs_asset := x\<rparr>) = (Inr a, t))"
  by (auto simp: thenO_Inr_iff on_asset_Inr_iff)

lemma throw_branch:
  "thenO (ensureO b e) (throw e') s \<noteq> (Inr a, t)"
  "bindO (gets f) (\<lambda>x. thenO (ensureO (P x) e) (throw e')) s \<noteq> (Inr a, t)"
  by (simp_all add: ensureO_def split: if_splits)

lemma free_part:
  fixes held liquid v sum :: "'w::len word"
  assumes "checked_add held liquid = Some sum" and "\<not> sum < v" and "\<not> v \<le> held"
  shows "unat (sat_sub liquid (sat_sub sum v)) = unat v - unat held"
  using assms by (simp add: unat_sat_sub checked_add_Some_iff word_less_nat_alt word_le_nat_alt)


text \<open>A successful deduction takes from the hold alone when the hold covers the value; otherwise
  the policy must allow more, it empties the hold and takes the rest from the liquid balance, all
  of both when they do not cover the value; a precise policy always takes the value in full. It
  changes nothing but the asset.\<close>
theorem deduct_takes:
  assumes run: "deduct_balance C who v q s = (Inr a, t)"
    and held: "held = as_on_hold (cc_asset C) who (cs_asset s)"
    and liquid: "liquid = as_reducible (cc_asset C) who Preserve Force (cs_asset s)"
  shows "t = s\<lparr>cs_asset := cs_asset t\<rparr>
    \<and> unat a = (if v \<le> held then unat v else min (unat v) (unat held + unat liquid))
    \<and> (dp_precise q \<longrightarrow> a = v)
    \<and> (if v \<le> held
       then \<exists>y. as_decrease_on_hold (cc_asset C) who v Exact (cs_asset s) = (Inr y, cs_asset t)
       else (dp_force q \<or> \<not> dp_precise q \<and> held \<noteq> 0)
          \<and> (\<exists>free y x z. unat free = unat a - unat held
            \<and> as_decrease (cc_asset C) who free Exact Preserve Force (cs_asset s) = (Inr y, x)
            \<and> as_decrease_on_hold (cc_asset C) who held Exact x = (Inr z, cs_asset t)))"
proof (cases "v \<le> held")
  case True
  with run show ?thesis
    by (auto simp: deduct_balance_def Let_def held on_asset_thenO_iff)
next
  case False
  let ?A = "cc_asset C"
  have policy: "dp_force q \<or> \<not> dp_precise q \<and> held \<noteq> 0"
    using run False
    by (auto simp: deduct_balance_def Let_def held throw_branch policy_fortitude_def policy_precision_def
          split: if_splits)
  then have allowed: "\<not> (policy_fortitude q = Polite \<and> (policy_precision q = Exact \<or> held = 0))"
    by (auto simp: policy_fortitude_def policy_precision_def)
  obtain sum where sum: "checked_add held liquid = Some sum"
    using run False allowed
    by (cases "checked_add held liquid") (auto simp: deduct_balance_def Let_def held liquid)
  have run': "(if sum < v then
          if policy_precision q = Exact \<or> sum = 0 then throw (CommitModule InsufficientFunds)
          else thenO (on_asset (as_decrease ?A who liquid Exact Preserve Force))
              (thenO (on_asset (as_decrease_on_hold ?A who held Exact)) (ret sum))
        else thenO (on_asset (as_decrease ?A who (sat_sub liquid (sat_sub sum v)) Exact Preserve Force))
            (thenO (on_asset (as_decrease_on_hold ?A who held Exact)) (ret v))) s = (Inr a, t)"
    using run False allowed sum
    by (auto simp: deduct_balance_def Let_def held [symmetric] liquid [symmetric] throw_branch split: if_splits)
  have sums: "unat sum = unat held + unat liquid" using sum by (simp add: checked_add_Some_iff)
  show ?thesis
  proof (cases "sum < v")
    case True
    with run' have "policy_precision q \<noteq> Exact" by (auto split: if_splits)
    with True run' False policy sums show ?thesis
      by (auto simp: on_asset_thenO_iff policy_precision_def word_less_nat_alt split: if_splits)
  next
    case le: False
    with run' free_part [OF sum le False] False policy sums show ?thesis
      by (fastforce simp: on_asset_thenO_iff word_less_nat_alt)
  qed
qed

lemma deduct_frame:
  "deduct_balance C who v q s = (Inr a, t) \<Longrightarrow> t = s\<lparr>cs_asset := cs_asset t\<rparr>"
  by (auto simp: deduct_balance_def Let_def on_asset_thenO_iff throw_branch need_Inr_iff
        simp del: bindO_ok_orO split: if_splits)


section \<open>Placing on a fresh digest and resolving\<close>

lemma init_until_append:
  "k \<le> n \<Longrightarrow> n \<le> variant_count \<Longrightarrow>
     init_until [k..<n] (replicate k product_default) = (Inr (), replicate n product_default)"
proof (induction "n - k" arbitrary: k)
  case (Suc m)
  then have "[k..<n] = k # [Suc k..<n]" "k < n" by (simp_all add: upt_rec)
  then show ?case using Suc.hyps(1) [of "Suc k"] Suc.hyps(2) Suc.prems
    by (simp add: thenO_eval try_push_def replicate_append_same)
qed simp

lemma init_variant_fresh:
  "init_variant_balance variant digest_info_default =
     (Inr (), replicate (Suc (position_index variant)) product_default)"
proof -
  have "Suc (position_index variant) \<le> variant_count"
    by (cases variant) (simp_all add: variant_count_def)
  then show ?thesis
    using init_until_append [of 0 "Suc (position_index variant)"]
    by (simp add: init_variant_balance_def digest_info_default_def)
qed

lemma fresh_deposit_withdraw:
  assumes fx: "fixed_point fx" and dep: "model_deposit fx a product_default = (Inr (x, r), b)"
  shows "x = a" and "model_receipt_deposit_value r = Inr a" and "fst (model_withdraw fx r b) = Inr a"
proof -
  from dep have run: "model_deposit fx a (mk_balance 0 0 (fx_div fx) 0 0) = (Inr (x, r), b)"
    by (simp add: deposit_fresh split: if_splits)
  show "fst (model_withdraw fx r b) = Inr a"
    using solvent_deposit_withdraw [OF fx solvent_init _ run] by simp
  from run show "x = a" "model_receipt_deposit_value r = Inr a"
    by (auto simp: deposit_eval model_receipt_deposit_value_def layout split: if_splits sum.splits option.splits)
qed

lemma zero_add: "checked_add 0 (v :: 'w::len word) = Some v"
  by (simp add: checked_add_Some_iff)

text \<open>A deposit to a fresh digest, and what can be withdrawn for its receipt.\<close>

lemma deposit_variant_fresh:
  assumes fx: "fixed_point (cc_fx C)"
    and dep: "deposit_variant C variant v digest_info_default = (Inr (x, r), info)"
  obtains info' where "x = v" "receipt_deposit_value r = Inr v"
    "mut_balance variant (withdraw_commits C 0 0 [r]) info = (Inr (v, v), info')"
proof -
  let ?i = "position_index variant" and ?fresh = "replicate (Suc (position_index variant)) (product_default :: lazy_balance)"
  have get: "get_balance variant ?fresh = Some product_default"
    by (simp add: get_balance_def Let_def del: replicate_Suc)
  have "mut_balance variant (lazy_deposit C v) ?fresh = (Inr (x, r), info)"
    using dep by (simp add: deposit_variant_def init_variant_fresh thenO_eval digest_info_default_def
          init_variant_fresh [unfolded digest_info_default_def] del: replicate_Suc)
  then obtain b where b: "model_deposit (cc_fx C) v product_default = (Inr (x, r), b)"
    and info: "info = ?fresh[?i := b]"
    by (auto simp: mut_balance_Inr_iff get lazy_deposit_def plugin_Inr_iff simp del: replicate_Suc)
  note res = fresh_deposit_withdraw [OF fx b]
  obtain b' where "model_withdraw (cc_fx C) r b = (Inr v, b')"
    using res(3) by (cases "model_withdraw (cc_fx C) r b") simp
  then have "withdraw_commits C 0 0 [r] b = (Inr (v, v), b')"
    using res(2) by (simp add: receipt_deposit_value_def pluginE_def lazy_withdraw_def zero_add
          bindO_Inr_iff plugin_Inr_iff)
  moreover have "get_balance variant info = Some b"
    unfolding info using get by (rule get_balance_put)
  ultimately have "mut_balance variant (withdraw_commits C 0 0 [r]) info = (Inr (v, v), info[?i := b'])"
    by (auto simp: mut_balance_Inr_iff)
  with res show thesis
    by (intro that) (simp_all add: receipt_deposit_value_def pluginE_def)
qed


abbreviation fresh_key :: "'r \<Rightarrow> 'd \<Rightarrow> ('w, 'r, 'd, 'x) commit_store \<Rightarrow> bool" where
  "fresh_key r d s \<equiv> cs_digests s (r, d) = None \<and> cs_indexes s (r, d) = None \<and> cs_pools s (r, d) = None"

lemma need_Some: "bindO (ok_orO e (Some v)) f = f v"
  by (simp add: fun_eq_iff)

lemma determine_fresh:
  "fresh_key r d s \<Longrightarrow> determine_digest d r s = Inl (CommitModule DigestNotFoundToDetermine)"
  "cs_digests s (r, d) = Some info \<Longrightarrow> determine_digest d r s = Inr (Direct d)"
  by (simp_all add: determine_digest_def digest_exists_def index_exists_def pool_exists_def)

lemma emit_runs: "\<exists>evs. emit C e s = (Inr (), s\<lparr>cs_events := evs\<rparr>)"
  by (cases s) (auto simp: emit_def)

lemma is_ok_ensureE: "is_ok (ensureE b e) \<longleftrightarrow> b"
  by (simp add: is_ok_def ensureE_def)

lemma finalize_place_Inr:
  assumes "finalize_place_commit C who r d variant receipt a s = (Inr u, t)"
  obtains x n where "checked_add (get_total_value r s) a = Some n"
    "t = s\<lparr>cs_asset := x, cs_commits := (cs_commits s)((who, r) \<mapsto>
         \<lparr>ci_digest = d, ci_commits = [receipt], ci_variant = variant\<rparr>),
       cs_reason_value := (cs_reason_value s)(r \<mapsto> n)\<rparr>"
  using assms
  by (auto simp: finalize_place_commit_def on_asset_Inr_iff bindO_Inr_iff thenO_Inr_iff total_iffs
        commit_info_new_def commits_new_def try_bounded_def resultE_iffs split: sum.splits if_splits)

lemma place_fresh:
  assumes fresh: "fresh_key r d s"
    and run: "place_commit_of_variant C who r d v variant q s = (Inr a, t)"
  obtains a1 receipt info x n evs where
    "cs_commits s (who, r) = None" "checked_add (get_total_value r s) a = Some n"
    "deposit_variant C variant a1 digest_info_default = (Inr (a, receipt), info)"
    "t = s\<lparr>cs_digests := (cs_digests s)((r, d) \<mapsto> info),
       cs_commits := (cs_commits s)((who, r) \<mapsto>
         \<lparr>ci_digest = d, ci_commits = [receipt], ci_variant = variant\<rparr>),
       cs_reason_value := (cs_reason_value s)(r \<mapsto> n), cs_asset := x, cs_events := evs\<rparr>"
proof -
  let ?s1 = "s\<lparr>cs_digests := (cs_digests s)((r, d) \<mapsto> digest_info_default)\<rparr>"
  have init: "init_digest r d s = (Inr (), ?s1)"
    using fresh by (simp add: init_digest_def digest_exists_def)
  from run fresh init obtain a1 receipt s2 s3 s4 where
    none: "cs_commits s (who, r) = None"
    and ded: "deduct_balance C who v q ?s1 = (Inr a1, s2)"
    and dep: "deposit_to_digest C r d a1 variant s2 = (Inr (receipt, a), s3)"
    and fin: "finalize_place_commit C who r d variant receipt a s3 = (Inr (), s4)"
    and em: "emit C (EvCommitPlaced who r d a variant) s4 = (Inr (), t)"
    by (auto simp: place_commit_of_variant_def place_digest_commit_def commit_exists_def thenO_Inr_iff
          bindO_Inr_iff determine_fresh is_ok_ensureE ensureE_def split: if_splits)
  obtain x1 where s2: "s2 = ?s1\<lparr>cs_asset := x1\<rparr>" using deduct_frame [OF ded] by blast
  from dep obtain info where
    info: "deposit_variant C variant a1 digest_info_default = (Inr (a, receipt), info)"
    and s3: "s3 = ?s1\<lparr>cs_asset := x1, cs_digests := (cs_digests s)((r, d) \<mapsto> info)\<rparr>"
    by (auto simp: deposit_to_digest_def bindO_Inr_iff on_digest_Inr_iff s2)
  obtain x n where n: "checked_add (get_total_value r s) a = Some n"
    and s4: "s4 = s3\<lparr>cs_asset := x, cs_commits := (cs_commits s)((who, r) \<mapsto>
         \<lparr>ci_digest = d, ci_commits = [receipt], ci_variant = variant\<rparr>),
       cs_reason_value := (cs_reason_value s)(r \<mapsto> n)\<rparr>"
    unfolding s3 by (rule finalize_place_Inr [OF fin [unfolded s3]]) simp
  obtain evs where "t = s4\<lparr>cs_events := evs\<rparr>"
    using emit_frame [OF em] by blast
  with s3 s4 have "t = s\<lparr>cs_digests := (cs_digests s)((r, d) \<mapsto> info),
       cs_commits := (cs_commits s)((who, r) \<mapsto>
         \<lparr>ci_digest = d, ci_commits = [receipt], ci_variant = variant\<rparr>),
       cs_reason_value := (cs_reason_value s)(r \<mapsto> n), cs_asset := x, cs_events := evs\<rparr>"
    by simp
  with none n info show thesis by (intro that)
qed


lemma placed_resolves:
  assumes fx: "fixed_point (cc_fx C)" and fresh: "fresh_key r d s"
    and place: "place_commit_of_variant C who r d v variant q s = (Inr a, t)"
    and thaw: "as_thaw (cc_asset C) r who (cs_asset t) = (Inr (), x)"
    and pay: "as_increase (cc_asset C) who a Exact x = (Inr y, z)"
  shows "\<exists>u. resolve_commit C who r t = (Inr a, u) \<and> cs_commits u = cs_commits s
    \<and> get_total_value r u = get_total_value r s
    \<and> cs_to_issue u = cs_to_issue s \<and> cs_to_reap u = cs_to_reap s \<and> cs_asset u = z"
proof -
  from place_fresh [OF fresh place] obtain a1 receipt info x' n evs where
    none: "cs_commits s (who, r) = None" and n: "checked_add (get_total_value r s) a = Some n"
    and dep: "deposit_variant C variant a1 digest_info_default = (Inr (a, receipt), info)"
    and t: "t = s\<lparr>cs_digests := (cs_digests s)((r, d) \<mapsto> info),
       cs_commits := (cs_commits s)((who, r) \<mapsto>
         \<lparr>ci_digest = d, ci_commits = [receipt], ci_variant = variant\<rparr>),
       cs_reason_value := (cs_reason_value s)(r \<mapsto> n), cs_asset := x', cs_events := evs\<rparr>" .
  from deposit_variant_fresh [OF fx dep] obtain info' where
    out: "mut_balance variant (withdraw_commits C 0 0 [receipt]) info = (Inr (a, a), info')"
    by metis
  let ?t1 = "t\<lparr>cs_digests := (cs_digests s)((r, d) \<mapsto> info')\<rparr>"
  have withdraw: "withdraw_from_digest C who r d t = (Inr \<lparr>ad_deposit = a, ad_withdraw = a\<rparr>, ?t1)"
    using out by (auto simp: withdraw_from_digest_def get_commit_variant_def bindO_Inr_iff on_digest_Inr_iff
          need_Some t simp del: withdraw_commits.simps)
  let ?u = "?t1\<lparr>cs_commits := (cs_commits t)((who, r) := None), cs_asset := z,
       cs_reason_value := (cs_reason_value t)(r \<mapsto> get_total_value r s)\<rparr>"
  have rest: "checked_sub n a = Some (get_total_value r s)"
    using n by (simp add: checked_add_Some_iff checked_sub_Some_iff)
  have settle: "settle (cc_asset C) who a a x = (Inr (), z)"
    using pay by (simp add: settle_def thenO_Inr_iff)
  have "finalize_resolve_commit C who r \<lparr>ad_deposit = a, ad_withdraw = a\<rparr> ?t1 = (Inr a, ?u)"
    using rest settle thaw
    by (auto simp: finalize_resolve_commit_def thenO_Inr_iff bindO_Inr_iff on_asset_Inr_iff
          resolve_imbalance_iff total_iffs checked_sub_Some_iff unat_sat_sub t get_total_value_def)
  with withdraw have "resolve_commit_of C who r (Direct d) t = (Inr a, ?u)"
    by (simp add: resolve_digest_commit_def bindO_Inr_iff thenO_Inr_iff get_commit_variant_def t)
  moreover obtain evs' where "emit C (EvCommitResolved who r d a) ?u = (Inr (), ?u\<lparr>cs_events := evs'\<rparr>)"
    using emit_runs by blast
  ultimately have "resolve_commit C who r t = (Inr a, ?u\<lparr>cs_events := evs'\<rparr>)"
    by (auto simp: resolve_commit_def get_commit_digest_def determine_fresh bindO_Inr_iff thenO_Inr_iff t)
  with none show ?thesis by (auto simp: t)
qed

text \<open>C25: A commitment to a key that is not in use yet can be resolved at once for exactly the amount
  that was placed, provided the asset lifts the freeze and takes the amount back: the commitment
  is gone, the total of the reason and the pending amounts are what they were before.\<close>
theorem place_resolve_roundtrip:
  assumes fx: "fixed_point (cc_fx C)" and fresh: "fresh_key r d s"
    and place: "place_commit_of_variant C who r d v variant q s = (Inr a, t)"
    and thaw: "as_thaw (cc_asset C) r who (cs_asset t) = (Inr (), x)"
    and pay: "as_increase (cc_asset C) who a Exact x = (Inr y, z)"
  shows "\<exists>u. resolve_commit C who r t = (Inr a, u) \<and> cs_commits u = cs_commits s
    \<and> get_total_value r u = get_total_value r s
    \<and> cs_to_issue u = cs_to_issue s \<and> cs_to_reap u = cs_to_reap s \<and> cs_asset u = z"
  by (rule placed_resolves [OF assms])


section \<open>An index commitment that cannot be resolved\<close>











end
