(* ===== verification/CommitSamples.thy ===== *)
theory CommitSamples
  imports CommitProperties
begin

text \<open>
  The properties of the commitment pallet applied to concrete runs: a sample asset and
  configuration on the runtime's number types.
\<close>

section \<open>A sample configuration\<close>

text \<open>An asset of one holder, the amounts on hold and free, and a configuration with the runtime's
  number types.\<close>

definition sample_asset :: "(nat, nat, asset \<times> asset) asset_ops" where
  "sample_asset = \<lparr>
     as_on_hold = (\<lambda>_ x. fst x), as_total_on_hold = (\<lambda>_ x. fst x),
     as_reducible = (\<lambda>_ _ _ x. snd x), as_total = (\<lambda>_ x. fst x + snd x),
     as_increase = (\<lambda>_ v _ x. (Inr v, (fst x, snd x + v))),
     as_decrease = (\<lambda>_ v _ _ _ x. (Inr v, (fst x, snd x - v))),
     as_increase_on_hold = (\<lambda>_ v _ x. (Inr v, (fst x + v, snd x))),
     as_decrease_on_hold = (\<lambda>_ v _ x. (Inr v, (fst x - v, snd x))),
     as_mint_into = (\<lambda>_ v x. (Inr v, (fst x, snd x + v))),
     as_burn_from = (\<lambda>_ v _ _ _ x. (Inr v, (fst x, snd x - v))),
     as_set_freeze = (\<lambda>_ _ _ x. (Inr (), x)), as_increase_frozen = (\<lambda>_ _ _ x. (Inr (), x)),
     as_thaw = (\<lambda>_ _ x. (Inr (), x))\<rparr>"

definition sample_commits :: "(nat, nat, nat, asset \<times> asset) commit_config" where
  "sample_commits = \<lparr>
     cc_fx = fixed_u64_ops, cc_max_commits = 4, cc_max_entries = 4, cc_emit = True,
     cc_asset = sample_asset, cc_index_digest = (\<lambda>_ _ _. Some 10), cc_pool_digest = (\<lambda>_ _ _. Some 20),
     cc_source_digest = (\<lambda>_. Some 30)\<rparr>"

abbreviation precise :: dispatch_policy where
  "precise \<equiv> \<lparr>dp_precise = True, dp_force = True\<rparr>"

lemma sample_commit_simps [simp]:
  "cc_fx sample_commits = fixed_u64_ops" "cc_max_commits sample_commits = 4"
  "cc_max_entries sample_commits = 4" "cc_emit sample_commits" "cc_asset sample_commits = sample_asset"
  "as_on_hold sample_asset w x = fst x" "as_reducible sample_asset w p f x = snd x"
  "as_increase sample_asset w v prec x = (Inr v, (fst x, snd x + v))"
  "as_decrease sample_asset w v prec p f x = (Inr v, (fst x, snd x - v))"
  "as_decrease_on_hold sample_asset w v prec x = (Inr v, (fst x - v, snd x))"
  "as_mint_into sample_asset w v x = (Inr v, (fst x, snd x + v))"
  "as_burn_from sample_asset w v p prec f x = (Inr v, (fst x, snd x - v))"
  "as_set_freeze sample_asset r w v x = (Inr (), x)" "as_thaw sample_asset r w x = (Inr (), x)"
  by (simp_all add: sample_commits_def sample_asset_def)

lemma rt_fresh_deposit: "a \<noteq> 0 \<Longrightarrow> unat a < 2 ^ 128 \<Longrightarrow> model_deposit fixed_u64_ops a product_default =
    (Inr (a, mk_receipt a a 1000000000 0), mk_balance a a 1000000000 (0 :: 32 word) 0)"
  by (simp add: deposit_fresh deposit_eval derive_shares_def checked_add_def fixed_u64_ops_def floor_ops_def)

definition sample_at :: "(asset \<times> asset) \<Rightarrow> asset \<Rightarrow> (nat, nat, nat, asset \<times> asset) commit_store" where
  "sample_at x a = (empty_store x)\<lparr>
     cs_reason_value := [2 \<mapsto> a],
     cs_digests := [(2, 3) \<mapsto> [product_default, mk_balance a a 1000000000 0 0]],
     cs_commits := [(7, 2) \<mapsto> \<lparr>ci_digest = 3, ci_commits = [mk_receipt a a 1000000000 0], ci_variant = Contrary\<rparr>],
     cs_events := [EvCommitPlaced 7 2 3 a Contrary]\<rparr>"

lemmas store_defs = empty_store_def commit_genesis_build_def

text \<open>Running an operation.\<close>

lemmas run_defs = bindO_def thenO_def gets_def modify_def readE_def ret_def ensureO_def ok_orO_def

lemma sample_deduct:
  "cs_asset s = (400, 5000) \<Longrightarrow>
     deduct_balance sample_commits 7 1000 precise s = (Inr 1000, s\<lparr>cs_asset := (0, 4400)\<rparr>)"
  by (simp add: deduct_balance_def policy_fortitude_def policy_precision_def run_defs on_asset_def
        checked_add_def sat_sub_def)

lemmas sample_run = run_defs store_defs sample_deduct place_commit_of_variant_def place_digest_commit_def
  commit_exists_def determine_digest_def digest_exists_def index_exists_def pool_exists_def ensureE_def
  init_digest_def deposit_to_digest_def on_digest_def deposit_variant_def mut_balance_def lazy_deposit_def
  plugin_def rt_fresh_deposit finalize_place_commit_def on_asset_def commit_info_new_def commits_new_def
  try_bounded_def bindE_def add_to_total_value_def set_total_value_def get_total_value_def ok_orE_def
  checked_add_def emit_def init_variant_fresh

lemma sample_place:
  "place_commit_of_variant sample_commits 7 2 3 1000 Contrary precise (empty_store (400, 5000)) =
     (Inr 1000, sample_at (0, 4400) 1000)"
  by (simp add: sample_run sample_at_def digest_info_default_def init_variant_fresh [unfolded digest_info_default_def])

lemma sample_placed_reachable: "commit_reachable sample_commits (sample_at (0, 4400) 1000)"
proof (rule reach_step [OF reach_genesis step_place])
  show "transactional (place_commit_of_variant sample_commits 7 2 3 1000 Contrary precise) (empty_store (400, 5000)) =
      (Inr 1000, sample_at (0, 4400) 1000)"
    by (simp add: transactional_def sample_place)
qed

theorem deduct_takes_witness:
  "unat (1000 :: asset) = min 1000 (unat (400 :: asset) + unat (5000 :: asset))"
  using deduct_takes [OF sample_deduct [of "empty_store (400, 5000)"] refl refl]
  by (simp add: store_defs)

theorem place_resolve_roundtrip_witness:
  "\<exists>u. resolve_commit sample_commits 7 2 (sample_at (0, 4400) 1000) = (Inr 1000, u) \<and>
     cs_commits u = Map.empty \<and> cs_asset u = (0, 5400)"
proof -
  have "fresh_key 2 3 (empty_store (400 :: asset, 5000 :: asset))"
    by (simp add: store_defs)
  from place_resolve_roundtrip [OF _ this sample_place, of "(0, 4400)" 1000 "(0, 5400)"]
  show ?thesis
    using fixed_u64.fixed_point_axioms by (auto simp: sample_at_def store_defs)
qed

lemma sample_value_run:
  "\<exists>t. set_digest_variant_value sample_commits 2 3 1500 Contrary (sample_at (0, 4400) 1000) = (Inr 1500, t)"
  by (simp add: set_digest_variant_value_def sample_at_def sample_run balance_total_def pluginE_def
        model_total_value_def layout lazy_mint_def mint_eval rt_simps issue_more_def sat_add_def sat_sub_def)

theorem set_digest_value_exact_witness:
  "\<exists>t. set_digest_variant_value sample_commits 2 3 1500 Contrary (sample_at (0, 4400) 1000) = (Inr 1500, t) \<and>
     get_digest_variant_value 2 3 Contrary t = Inr 1500"
  using sample_value_run set_digest_value_exact [OF sample_placed_reachable] by blast

theorem structures_wf_witness:
  "\<exists>ci. cs_commits (sample_at (0, 4400) 1000) (7, 2) = Some ci \<and>
     ci_commits ci \<noteq> [] \<and> length (ci_commits ci) \<le> 4"
proof -
  obtain ci where "cs_commits (sample_at (0, 4400) 1000) (7, 2) = Some ci"
    by (simp add: sample_at_def)
  then show ?thesis using structures_wf [OF sample_placed_reachable, of 2 _ _ _ 7 ci] by simp
qed

section \<open>An imbalance with a commission\<close>

definition sample_pending :: "(nat, nat, nat, asset \<times> asset) commit_store" where
  "sample_pending = (empty_store (0, 1000))\<lparr>cs_to_issue := 50\<rparr>"

lemma commission_run:
  "deduct_from_imbalance \<lparr>ad_deposit = 100, ad_withdraw = 150\<rparr> 15 sample_pending =
     (Inr (\<lparr>ad_deposit = 100, ad_withdraw = 135\<rparr>, \<lparr>ad_deposit = 15, ad_withdraw = 15\<rparr>), sample_pending)"
  "resolve_imbalance sample_commits 9 \<lparr>ad_deposit = 15, ad_withdraw = 15\<rparr> sample_pending =
     (Inr 15, sample_pending\<lparr>cs_asset := (0, 1015)\<rparr>)"
  "resolve_imbalance sample_commits 7 \<lparr>ad_deposit = 100, ad_withdraw = 135\<rparr> (sample_pending\<lparr>cs_asset := (0, 1015)\<rparr>) =
     (Inr 135, sample_pending\<lparr>cs_asset := (0, 1150), cs_to_issue := 15\<rparr>)"
  by (simp_all add: deduct_from_imbalance_def resolve_imbalance_def issue_less_def sample_pending_def store_defs
        run_defs on_asset_def sat_sub_def sat_add_def checked_sub_def)

theorem commission_leaves_pending_witness:
  "net_pending (sample_pending\<lparr>cs_asset := (0, 1150), cs_to_issue := 15\<rparr>) = 50 + 100 - 150 + 15"
  using commission_leaves_pending [OF commission_run(1) _ commission_run(2,3)]
  by (simp add: net_pending_def sample_pending_def store_defs)

section \<open>An index and a pool\<close>

abbreviation sample_entry :: "nat \<Rightarrow> commit_shares \<Rightarrow> nat entry_info" where
  "sample_entry d sh \<equiv> \<lparr>en_digest = d, en_shares = sh, en_variant = Affirmative\<rparr>"






definition sample_pool :: "(nat, nat, nat, asset \<times> asset) commit_store" where
  "sample_pool = (empty_store (400, 5000))\<lparr>
     cs_reason_value := [2 \<mapsto> 9],
     cs_digests := [(2, 11) \<mapsto> [], (2, 12) \<mapsto> []],
     cs_pools := [(2, 20) \<mapsto> \<lparr>po_balance = product_default, po_capital = 1000, po_commission = 0,
       po_slots = [slot_of_entry (sample_entry 11 600), slot_of_entry (sample_entry 12 400)]\<rparr>],
     cs_managers := [(2, 20) \<mapsto> 9]\<rparr>"

lemma slot_run:
  "slot_allocation sample_commits 1001 1000 600 = Inr 600"
  "slot_allocation sample_commits 1001 1000 400 = Inr 400"
  by (simp_all add: slot_allocation_def bindE_def ok_orE_def rt_simps Let_def)

lemma rt_reap: "\<exists>b. model_reap fixed_u64_ops 1 (mk_balance 1001 1001 1000000000 (0 :: 32 word) 0) = (Inr 1, b)"
  by (simp add: reap_eval rt_simps)

lemma pool_run:
  "\<exists>x t. deposit_to_pool sample_commits 2 20 1001 sample_pool = (Inr x, t)"
proof -
  obtain b where "model_reap fixed_u64_ops 1 (mk_balance 1001 1001 1000000000 (0 :: 32 word) 0) = (Inr 1, b)"
    using rt_reap by blast
  then show ?thesis
    by (simp add: deposit_to_pool_def release_pool_def recover_pool_def get_pool_def sample_pool_def
        sample_run slot_run slot_of_entry_def on_local_def balance_total_def pluginE_def model_total_value_def layout
        on_pool_def pool_set_slot_commit_def on_slots_def slots_set_commit_def
        digest_info_default_def init_variant_fresh [unfolded digest_info_default_def] sat_sub_def
        get_manager_def resolve_imbalance_def sub_from_total_value_def checked_sub_def lazy_reap_def
        set_pool_balance_def)
qed


lemma sample_pool_inv: "commit_inv sample_commits sample_pool"
  by (auto simp: commit_inv_def sample_pool_def store_defs map_ok_def pool_ok_def labels_ok_def digest_ok_def
        slot_of_entry_def)

theorem pool_stays_backed_witness:
  "\<exists>x t q. deposit_to_pool sample_commits 2 20 1001 sample_pool = (Inr x, t) \<and>
     cs_pools t (2, 20) = Some q \<and> pool_backed q"
proof -
  obtain x t where run: "deposit_to_pool sample_commits 2 20 1001 sample_pool = (Inr x, t)"
    using pool_run by blast
  have "\<exists>q. cs_pools t (2, 20) = Some q \<and> pool_backed q"
    by (rule pool_stays_backed [OF _ sample_pool_inv _ _ disjI1 [OF run]])
       (simp add: fixed_u64.fixed_point_axioms, simp add: sample_pool_def, simp)
  with run show ?thesis by blast
qed

end
