(* ===== verification/AuthorTypes.thy ===== *)
theory AuthorTypes
  imports CommitInvariant
begin

text \<open>
  Data, storage, errors and events of the authors pallet (\<open>pallets/authors/src/types.rs\<close> and
  \<open>lib.rs\<close>), with its genesis configuration.

  The widths are the runtime's (\<open>runtime/src/configs/mod.rs\<close>): block numbers are \<open>u32\<close>, assets
  the 128-bit points, and \<open>T::CommitmentAdapter\<close> is the commitment pallet, whose store is a field
  of this pallet's; \<open>on_commitment\<close> runs one of its operations there. A \<open>Perbill\<close> is a \<open>u32\<close> of
  parts; its arithmetic is the argument \<open>ac_perbill\<close>. The activity of an author
  (\<open>T::ActivityProvider\<close>) is the argument \<open>ac_is_idle\<close>. Storage keys are hashed, so an
  iteration over a prefix lists the accounts in an order of its own: \<open>ac_keys\<close> is that order.

  The scans of the schedule end only when a block is found or the bound is passed, and block
  numbers saturate; a call that never returns is the failure \<open>NeverReturns\<close>, which no caller
  handles as an error (\<open>is_okR\<close>).
\<close>

section \<open>Errors\<close>

datatype (plugins only: code) author_error =
    AuthorNotFound | InadequateCollateral | InadequateFunds | AlreadyEnrolled | AuthorIsActive
  | AuthorInProbation | AuthorResigned | AuthorHasPenalties | AuthorActivated
  | CannotGenerateCommitDigest | AuthorHasRewards | FundDoesNotExist | AuthorDigestNotFound
  | FundedToAnotherDigest | AuthorNotInIndex | AuthorNotInPool | BelowMinimumFund
  | AboveMaximumExposure | CannotFundOnCollateral | RewardNotFound | PenaltyNotFound
  | AuthorTotalHoldExhausted | ContainsNoRewards | ContainsNoPenalties | FinalizedObligations
  | AuthorNeedsMoreCollateral | ZeroPenaltyFound | AuthorIsUnsafe | RedundantResignation
  | InadequateCandidatesToElect | NoElectsFound | AuthorNotElected | MinElectedNotReached
  | RiskWithinThreshold | AuthorMismatch | InvalidPoolManager | MinCollateralZero
  | MinGreaterThanMax | NonZeroConfigRequired | FundingOffLimits

datatype author_failure =
    AuthorModule author_error
  | CommitFailed commit_failure
  | Activity string
  | BadOrigin
  | IndexPanic
  | NeverReturns

section \<open>Authors, funders and configuration values\<close>

type_synonym block = u32
type_synonym ratio = u32

datatype author_status = Active | Probation | Resigned

datatype ('w, 'd) funder =
    ByDirect 'w
  | ByIndex 'd 'w
  | ByPool 'd 'w

fun funder_backer :: "('w, 'd) funder \<Rightarrow> 'w" where
  "funder_backer (ByDirect b) = b"
| "funder_backer (ByIndex d b) = b"
| "funder_backer (ByPool d b) = b"

record 'd author_info =
  ai_digest :: 'd
  ai_since :: block
  ai_status :: author_status
  ai_status_since :: block
  ai_risk_until :: block
  ai_min_fund :: "asset option"
  ai_max_fund :: "asset option"

definition author_info_new :: "block \<Rightarrow> 'd \<Rightarrow> 'd author_info" where
  "author_info_new now d =
     \<lparr>ai_digest = d, ai_since = now, ai_status = Probation, ai_status_since = now,
      ai_risk_until = now, ai_min_fund = None, ai_max_fund = None\<rparr>"

definition author_info_re_enroll :: "block \<Rightarrow> 'd author_info \<Rightarrow> 'd author_info" where
  "author_info_re_enroll now info =
     \<lparr>ai_digest = ai_digest info, ai_since = now, ai_status = Probation, ai_status_since = now,
      ai_risk_until = now, ai_min_fund = None, ai_max_fund = None\<rparr>"

datatype ('w, 'd) funding_target =
    ToDirect 'w
  | ToIndex 'd
  | ToPool 'd

datatype (plugins only: code) genesis_field =
    ForceProbationPeriod block
  | ForceReduceProbationBy block
  | ForceIncreaseProbationBy block
  | ForceRewardsBuffer block
  | ForcePenaltiesBuffer block
  | ForceMaxElected u32
  | ForceMinElected u32
  | EnforceMaxElected bool
  | ForceMinFund asset
  | ForceMaxExposure asset
  | ForceMinCollateral asset

datatype fortitude_wrapper = WrapForce | WrapPolite

fun wrapped_fortitude :: "fortitude_wrapper \<Rightarrow> fortitude" where
  "wrapped_fortitude WrapForce = Force"
| "wrapped_fortitude WrapPolite = Polite"

section \<open>Events\<close>

datatype (plugins only: code) ('w, 'd) author_event =
    EvAuthorEnlisted 'w asset
  | EvAuthorResigned 'w asset
  | EvAuthorCollateralRaised 'w asset
  | EvAuthorTotalCollateral 'w asset
  | EvAuthorFunded 'w 'w asset
  | EvInspectAuthorFund 'w 'w asset
  | EvInspectFund 'w "('w, 'd) funder" asset
  | EvIndexFunded 'd 'w asset
  | EvInspectIndexFund 'd 'w asset
  | EvPoolFunded 'd 'w asset
  | EvInspectPoolFund 'd 'w asset
  | EvAuthorDrawn 'w 'w asset
  | EvIndexDrawn 'd 'w asset
  | EvPoolDrawn 'd 'w asset
  | EvScheduledRewards 'w "(block \<times> asset) list"
  | EvScheduledPenalties 'w "(block \<times> ratio) list"
  | EvAuthorRewardScheduled 'w asset block
  | EvAuthorPenaltyScheduled 'w ratio block
  | EvAuthorStatus 'w author_status
  | EvAuthorAtRisk 'w author_status block
  | EvAuthorPenaltyForgiven 'w ratio
  | EvAuthorRewardReclaimed 'w asset
  | EvAuthorTotalHold 'w asset
  | EvElectionPrepared "'w list"
  | EvElectionFailed author_failure
  | EvIndexCreated 'd
  | EvPoolCreated 'd commission 'w
  | EvAuthorPoolManager 'd 'w
  | EvPoolSlotShare 'd 'd commit_shares
  | EvGenesisConfigUpdated genesis_field

section \<open>Storage and configuration\<close>

record ('w, 'r, 'd, 'x) author_store =
  au_block :: block
  au_commit :: "('w, 'r, 'd, 'x) commit_store"
  au_authors :: "'w \<Rightarrow> 'd author_info option"
  au_digests :: "'d \<Rightarrow> 'w option"
  au_funders :: "'w \<times> 'w \<Rightarrow> ('w, 'd) funder option"
  au_rewards_until :: block
  au_penalties_until :: block
  au_rewards_buffer :: block
  au_penalties_buffer :: block
  au_rewards :: "block \<times> 'w \<Rightarrow> asset option"
  au_penalties :: "block \<times> 'w \<Rightarrow> ratio option"
  au_min_collateral :: asset
  au_max_exposure :: asset
  au_min_fund :: asset
  au_probation_period :: block
  au_reduce_probation_by :: block
  au_increase_probation_by :: block
  au_elected :: "block \<times> 'w \<Rightarrow> unit option"
  au_recent_elected_on :: block
  au_max_elected :: u32
  au_min_elected :: u32
  au_force_max_elected :: bool
  au_events :: "('w, 'd) author_event list"

record perbill_ops =
  pb_from_rational :: "asset \<Rightarrow> asset \<Rightarrow> ratio"
  pb_mul_ceil :: "ratio \<Rightarrow> asset \<Rightarrow> asset"
  pb_mul_floor :: "ratio \<Rightarrow> asset \<Rightarrow> asset"

record ('w, 'r, 'd, 'x) author_config =
  ac_commit :: "('w, 'r, 'd, 'x) config"
  ac_funding :: 'r
  ac_collateral :: 'r
  ac_emit :: bool
  ac_perbill :: perbill_ops
  ac_is_idle :: "'w \<Rightarrow> ('w, 'r, 'd, 'x) author_store \<Rightarrow> string + unit"
  ac_keys :: "'w list"

type_synonym ('w, 'r, 'd, 'x, 'a) author_op =
  "(('w, 'r, 'd, 'x) author_store, author_failure, 'a) op"
type_synonym ('w, 'r, 'd, 'x, 'a) author_query =
  "('w, 'r, 'd, 'x) author_store \<Rightarrow> author_failure + 'a"

definition deposit_author_event :: "('w, 'd) author_event \<Rightarrow> ('w, 'r, 'd, 'x, unit) author_op" where
  "deposit_author_event e = modify (\<lambda>s. s\<lparr>au_events := au_events s @ [e]\<rparr>)"

definition emit_event ::
  "('w, 'r, 'd, 'x) author_config \<Rightarrow> ('w, 'd) author_event \<Rightarrow> ('w, 'r, 'd, 'x, unit) author_op" where
  "emit_event C e = (if ac_emit C then deposit_author_event e else ret ())"

definition call_event ::
  "('w, 'r, 'd, 'x) author_config \<Rightarrow> ('w, 'd) author_event \<Rightarrow> ('w, 'r, 'd, 'x, unit) author_op" where
  "call_event C e = (if \<not> ac_emit C then deposit_author_event e else ret ())"

text \<open>An operation or a query of the commitment adapter.\<close>

definition on_commitment :: "('w, 'r, 'd, 'x, 'a) commit_op \<Rightarrow> ('w, 'r, 'd, 'x, 'a) author_op" where
  "on_commitment f = (\<lambda>s. case f (au_commit s) of
      (Inl e, c) \<Rightarrow> (Inl (CommitFailed e), s\<lparr>au_commit := c\<rparr>)
    | (Inr a, c) \<Rightarrow> (Inr a, s\<lparr>au_commit := c\<rparr>))"

definition commitmentE :: "commit_failure + 'a \<Rightarrow> author_failure + 'a" where
  "commitmentE r = (case r of Inl e \<Rightarrow> Inl (CommitFailed e) | Inr a \<Rightarrow> Inr a)"

definition ask :: "(('w, 'r, 'd, 'x) commit_store \<Rightarrow> commit_failure + 'a) \<Rightarrow> ('w, 'r, 'd, 'x, 'a) author_query" where
  "ask q s = commitmentE (q (au_commit s))"

definition is_okR :: "author_failure + 'a \<Rightarrow> author_failure + bool" where
  "is_okR r = (case r of Inr _ \<Rightarrow> Inr True | Inl e \<Rightarrow> if e = NeverReturns then Inl NeverReturns else Inr False)"

text \<open>\<open>Vec\<close> indexing at 0 panics on an empty vector.\<close>

fun head_or_panic :: "'a list \<Rightarrow> author_failure + 'a" where
  "head_or_panic [] = Inl IndexPanic"
| "head_or_panic (x # _) = Inr x"

section \<open>Genesis\<close>

record author_genesis =
  ag_min_collateral :: asset
  ag_max_exposure :: asset
  ag_min_fund :: asset
  ag_probation_period :: block
  ag_reduce_probation_by :: block
  ag_increase_probation_by :: block
  ag_rewards_buffer :: block
  ag_penalties_buffer :: block
  ag_max_elected :: u32
  ag_min_elected :: u32
  ag_force_max_elected :: bool

definition author_genesis_default :: author_genesis where
  "author_genesis_default =
     \<lparr>ag_min_collateral = 1, ag_max_exposure = - 1, ag_min_fund = 1, ag_probation_period = 10,
      ag_reduce_probation_by = 1, ag_increase_probation_by = 1, ag_rewards_buffer = 2,
      ag_penalties_buffer = 4, ag_max_elected = 100, ag_min_elected = 10,
      ag_force_max_elected = False\<rparr>"

text \<open>\<open>None\<close> is a failed \<open>assert!\<close>: the chain does not start.\<close>

definition author_genesis_build ::
  "author_genesis \<Rightarrow> ('w, 'r, 'd, 'x) author_store \<Rightarrow> ('w, 'r, 'd, 'x) author_store option" where
  "author_genesis_build g s =
     (if ag_min_collateral g \<noteq> 0 \<and> ag_min_fund g \<noteq> 0 \<and> ag_min_elected g \<noteq> 0 \<and> ag_max_elected g \<noteq> 0
         \<and> ag_min_elected g \<le> ag_max_elected g \<and> ag_min_fund g \<le> ag_max_exposure g
      then Some (s\<lparr>
        au_min_collateral := ag_min_collateral g,
        au_max_exposure := ag_max_exposure g,
        au_min_fund := max (ag_min_fund g) 1,
        au_probation_period := ag_probation_period g,
        au_reduce_probation_by := ag_reduce_probation_by g,
        au_increase_probation_by := ag_increase_probation_by g,
        au_rewards_buffer := ag_rewards_buffer g,
        au_penalties_buffer := ag_penalties_buffer g,
        au_rewards_until := 0,
        au_penalties_until := 0,
        au_max_elected := ag_max_elected g,
        au_min_elected := max (ag_min_elected g) 1,
        au_force_max_elected := ag_force_max_elected g,
        au_recent_elected_on := 0\<rparr>)
      else None)"

section \<open>Evaluation\<close>

lemma on_commitment_Inr_iff:
  "on_commitment f s = (Inr a, t) \<longleftrightarrow> (\<exists>c. f (au_commit s) = (Inr a, c) \<and> t = s\<lparr>au_commit := c\<rparr>)"
  by (auto simp: on_commitment_def split: prod.splits sum.splits)

lemma commitmentE_Inr_iff: "commitmentE r = Inr a \<longleftrightarrow> r = Inr a"
  by (cases r) (simp_all add: commitmentE_def)

lemma commitmentE_simps [simp]: "commitmentE (Inr a) = Inr a" "commitmentE (Inl e) = Inl (CommitFailed e)"
  by (simp_all add: commitmentE_def)

lemma ask_Inr_iff: "ask q s = Inr a \<longleftrightarrow> q (au_commit s) = Inr a"
  by (simp add: ask_def commitmentE_Inr_iff)

lemma is_okR_simps [simp]:
  "is_okR (Inr a) = Inr True" "e \<noteq> NeverReturns \<Longrightarrow> is_okR (Inl e) = Inr False"
  "is_okR (Inl NeverReturns) = Inl NeverReturns"
  by (simp_all add: is_okR_def)

lemma is_okR_iff:
  "is_okR r = Inr True \<longleftrightarrow> is_ok r"
  "is_okR r = Inr False \<longleftrightarrow> \<not> is_ok r \<and> r \<noteq> Inl NeverReturns"
  by (auto simp: is_okR_def is_ok_def split: sum.splits)

end
