(* ===== verification/AuthorRoles.thy ===== *)
theory AuthorRoles
  imports AuthorTypes
begin

text \<open>
  The life cycle of an author (\<open>RoleManager\<close> and \<open>RoleProbation\<close> in
  \<open>pallets/authors/src/roles.rs\<close>) and the queries of its schedule (\<open>has_reward\<close>,
  \<open>get_penalties_of\<close> and their siblings of \<open>CompensateRoles\<close>), which enrolling and resigning
  consult. The life cycle moves between \<open>Probation\<close>, \<open>Active\<close> and \<open>Resigned\<close>; collateral is a
  commitment of the author under the collateral reason.
\<close>

section \<open>Queries\<close>

definition role_exists :: "'w \<Rightarrow> ('w, 'r, 'd, 'x, unit) author_query" where
  "role_exists who s = ensureE (au_authors s who \<noteq> None) (AuthorModule AuthorNotFound)"

definition get_meta :: "'w \<Rightarrow> ('w, 'r, 'd, 'x, 'd author_info) author_query" where
  "get_meta who s = ok_orE (AuthorModule AuthorNotFound) (au_authors s who)"

definition get_collateral ::
  "('w, 'r, 'd, 'x) author_config \<Rightarrow> 'w \<Rightarrow> ('w, 'r, 'd, 'x, asset) author_query" where
  "get_collateral C who = ask (get_commit_value (ac_commit C) who (ac_collateral C))"

definition total_collateral ::
  "('w, 'r, 'd, 'x) author_config \<Rightarrow> ('w, 'r, 'd, 'x) author_store \<Rightarrow> asset" where
  "total_collateral C s = get_total_value (ac_collateral C) (au_commit s)"

definition enroll_since :: "'w \<Rightarrow> ('w, 'r, 'd, 'x, block) author_query" where
  "enroll_since who s = bindE (get_meta who s) (\<lambda>info. Inr (ai_since info))"

definition get_status :: "'w \<Rightarrow> ('w, 'r, 'd, 'x, author_status) author_query" where
  "get_status who s = bindE (get_meta who s) (\<lambda>info. Inr (ai_status info))"

definition status_since :: "'w \<Rightarrow> ('w, 'r, 'd, 'x, block) author_query" where
  "status_since who s = bindE (get_meta who s) (\<lambda>info. Inr (ai_status_since info))"

section \<open>The schedule of rewards and penalties\<close>

text \<open>The loops over block numbers. A block number saturates at its maximum, where a loop that
  has not ended never does.\<close>

partial_function (option) scan_blocks :: "(block \<Rightarrow> bool) \<Rightarrow> block \<Rightarrow> block \<Rightarrow> bool option" where
  "scan_blocks present start_block last_block =
     (if start_block \<le> last_block
      then if present start_block then Some True
           else scan_blocks present (sat_add start_block 1) last_block
      else Some False)"

partial_function (option) collect_blocks ::
  "(block \<Rightarrow> 'v option) \<Rightarrow> block \<Rightarrow> block \<Rightarrow> (block \<times> 'v) list \<Rightarrow> (block \<times> 'v) list option" where
  "collect_blocks item start_block last_block result =
     (if start_block \<le> last_block
      then collect_blocks item (sat_add start_block 1) last_block
             (case item start_block of Some v \<Rightarrow> result @ [(start_block, v)] | None \<Rightarrow> result)
      else Some result)"

partial_function (option) free_block :: "(block \<Rightarrow> bool) \<Rightarrow> block \<Rightarrow> block option" where
  "free_block taken b = (if \<not> taken b then Some b else free_block taken (sat_add b 1))"

definition has_reward :: "'w \<Rightarrow> ('w, 'r, 'd, 'x, unit) author_query" where
  "has_reward who s =
     bindE (role_exists who s) (\<lambda>_.
     bindE (ok_orE NeverReturns (scan_blocks (\<lambda>b. au_rewards s (b, who) \<noteq> None)
              (sat_add (au_block s) 1) (au_rewards_until s))) (\<lambda>found.
     ensureE found (AuthorModule RewardNotFound)))"

definition has_penalty :: "'w \<Rightarrow> ('w, 'r, 'd, 'x, unit) author_query" where
  "has_penalty who s =
     bindE (role_exists who s) (\<lambda>_.
     bindE (ok_orE NeverReturns (scan_blocks (\<lambda>b. au_penalties s (b, who) \<noteq> None)
              (sat_add (au_block s) 1) (au_penalties_until s))) (\<lambda>found.
     ensureE found (AuthorModule PenaltyNotFound)))"

definition get_rewards_of :: "'w \<Rightarrow> ('w, 'r, 'd, 'x, (block \<times> asset) list) author_query" where
  "get_rewards_of who s =
     bindE (role_exists who s) (\<lambda>_.
     ok_orE NeverReturns (collect_blocks (\<lambda>b. au_rewards s (b, who))
       (sat_add (au_block s) 1) (au_rewards_until s) []))"

definition get_penalties_of :: "'w \<Rightarrow> ('w, 'r, 'd, 'x, (block \<times> ratio) list) author_query" where
  "get_penalties_of who s =
     bindE (role_exists who s) (\<lambda>_.
     ok_orE NeverReturns (collect_blocks (\<lambda>b. au_penalties s (b, who))
       (sat_add (au_block s) 1) (au_penalties_until s) []))"

definition iter_prefix :: "'w list \<Rightarrow> ('w \<Rightarrow> 'v option) \<Rightarrow> ('w \<times> 'v) list" where
  "iter_prefix keys m = List.map_filter (\<lambda>w. map_option (Pair w) (m w)) keys"

definition get_rewards_on ::
  "('w, 'r, 'd, 'x) author_config \<Rightarrow> block \<Rightarrow> ('w, 'r, 'd, 'x, ('w \<times> asset) list) author_query" where
  "get_rewards_on C time_stamp s =
     bindE (ensureE (\<not> time_stamp \<le> au_block s) (AuthorModule FinalizedObligations)) (\<lambda>_.
     Inr (iter_prefix (ac_keys C) (\<lambda>w. au_rewards s (time_stamp, w))))"

definition get_penalties_on ::
  "('w, 'r, 'd, 'x) author_config \<Rightarrow> block \<Rightarrow> ('w, 'r, 'd, 'x, ('w \<times> ratio) list) author_query" where
  "get_penalties_on C time_stamp s =
     bindE (ensureE (\<not> time_stamp \<le> au_block s) (AuthorModule FinalizedObligations)) (\<lambda>_.
     Inr (iter_prefix (ac_keys C) (\<lambda>w. au_penalties s (time_stamp, w))))"

section \<open>Probation\<close>

text \<open>\<open>AuthorsMap::mutate\<close>: the closures decide on an error before they write.\<close>

definition on_author ::
  "'w \<Rightarrow> ('d author_info \<Rightarrow> author_failure + 'd author_info) \<Rightarrow> ('w, 'r, 'd, 'x, unit) author_op" where
  "on_author who f =
     bindO (readE (\<lambda>s. bindE (get_meta who s) f)) (\<lambda>info.
     modify (\<lambda>s. s\<lparr>au_authors := (au_authors s)(who \<mapsto> info)\<rparr>))"

definition is_on_probation :: "'w \<Rightarrow> ('w, 'r, 'd, 'x, unit) author_query" where
  "is_on_probation who s =
     bindE (get_status who s) (\<lambda>status. case status of
       Active \<Rightarrow> Inl (AuthorModule AuthorIsActive)
     | Probation \<Rightarrow> Inr ()
     | Resigned \<Rightarrow> Inl (AuthorModule AuthorResigned))"

definition is_permanent :: "'w \<Rightarrow> ('w, 'r, 'd, 'x, unit) author_query" where
  "is_permanent who s =
     bindE (get_status who s) (\<lambda>status. case status of
       Active \<Rightarrow> Inr ()
     | Probation \<Rightarrow> Inl (AuthorModule AuthorInProbation)
     | Resigned \<Rightarrow> Inl (AuthorModule AuthorResigned))"

definition can_be_permanent :: "'w \<Rightarrow> ('w, 'r, 'd, 'x, unit) author_query" where
  "can_be_permanent who s =
     bindE (get_meta who s) (\<lambda>info. case ai_status info of
       Active \<Rightarrow> Inl (AuthorModule AuthorIsActive)
     | Resigned \<Rightarrow> Inl (AuthorModule AuthorResigned)
     | Probation \<Rightarrow>
         if sat_add (ai_status_since info) (au_probation_period s) > au_block s
         then Inl (AuthorModule AuthorInProbation)
         else if ai_risk_until info > au_block s then Inl (AuthorModule AuthorIsUnsafe)
         else Inr ())"

definition set_permanence ::
  "('w, 'r, 'd, 'x) author_config \<Rightarrow> 'w \<Rightarrow> ('w, 'r, 'd, 'x, author_status) author_op" where
  "set_permanence C who =
     thenO (readE (can_be_permanent who))
    (thenO (on_author who (\<lambda>info. Inr (info\<lparr>ai_status := Active\<rparr>)))
    (thenO (emit_event C (EvAuthorStatus who Active))
           (ret Active)))"

definition can_revoke_permanence :: "'w \<Rightarrow> ('w, 'r, 'd, 'x, unit) author_query" where
  "can_revoke_permanence who s =
     bindE (get_meta who s) (\<lambda>info. case ai_status info of
       Probation \<Rightarrow> Inl (AuthorModule AuthorInProbation)
     | Resigned \<Rightarrow> Inl (AuthorModule AuthorResigned)
     | Active \<Rightarrow>
         if ai_risk_until info \<le> sat_add (au_block s) (au_probation_period s)
         then Inl (AuthorModule RiskWithinThreshold) else Inr ())"

definition revoke_permanence ::
  "('w, 'r, 'd, 'x) author_config \<Rightarrow> 'w \<Rightarrow> ('w, 'r, 'd, 'x, author_status) author_op" where
  "revoke_permanence C who =
     thenO (readE (can_revoke_permanence who))
    (bindO (gets au_block) (\<lambda>current_block.
     thenO (on_author who (\<lambda>info. Inr (info\<lparr>ai_status := Probation, ai_status_since := current_block\<rparr>)))
    (thenO (emit_event C (EvAuthorStatus who Probation))
           (ret Probation))))"

definition raise_risk :: "block \<Rightarrow> block \<Rightarrow> 'd author_info \<Rightarrow> 'd author_info" where
  "raise_risk current_block increase info =
     (if ai_risk_until info < current_block
      then info\<lparr>ai_risk_until := sat_add current_block increase\<rparr>
      else info\<lparr>ai_risk_until := sat_add (ai_risk_until info) increase\<rparr>)"

definition on_risk ::
  "('w, 'r, 'd, 'x) author_config \<Rightarrow> 'w \<Rightarrow> author_status \<Rightarrow> ('w, 'r, 'd, 'x, unit) author_op" where
  "on_risk C who status =
     (if ac_emit C
      then bindO (gets (get_meta who)) (\<lambda>meta. case meta of
             Inl _ \<Rightarrow> ret ()
           | Inr info \<Rightarrow> deposit_author_event (EvAuthorAtRisk who status (ai_risk_until info)))
      else ret ())"

definition risk_probation ::
  "('w, 'r, 'd, 'x) author_config \<Rightarrow> 'w \<Rightarrow> ('w, 'r, 'd, 'x, unit) author_op" where
  "risk_probation C who =
     bindO (gets (\<lambda>s. (au_block s, au_increase_probation_by s))) (\<lambda>(current_block, increase).
     thenO (on_author who (\<lambda>info. case ai_status info of
         Active \<Rightarrow> Inl (AuthorModule AuthorIsActive)
       | Resigned \<Rightarrow> Inl (AuthorModule AuthorResigned)
       | Probation \<Rightarrow> Inr (raise_risk current_block increase info)))
       (on_risk C who Probation))"

definition risk_permanence ::
  "('w, 'r, 'd, 'x) author_config \<Rightarrow> 'w \<Rightarrow> ('w, 'r, 'd, 'x, unit) author_op" where
  "risk_permanence C who =
     bindO (gets (\<lambda>s. (au_block s, au_increase_probation_by s))) (\<lambda>(current_block, increase).
     thenO (on_author who (\<lambda>info. case ai_status info of
         Active \<Rightarrow> Inr (raise_risk current_block increase info)
       | Resigned \<Rightarrow> Inl (AuthorModule AuthorResigned)
       | Probation \<Rightarrow> Inl (AuthorModule AuthorInProbation)))
       (on_risk C who Active))"

definition secure_permanence ::
  "('w, 'r, 'd, 'x) author_config \<Rightarrow> 'w \<Rightarrow> ('w, 'r, 'd, 'x, unit) author_op" where
  "secure_permanence C who =
     bindO (gets (\<lambda>s. (au_block s, au_reduce_probation_by s))) (\<lambda>(current_block, reduce).
     thenO (on_author who (\<lambda>info. if ai_status info = Resigned then Inl (AuthorModule AuthorResigned)
         else Inr (if ai_risk_until info > current_block
                   then info\<lparr>ai_risk_until := sat_sub (ai_risk_until info) reduce\<rparr> else info)))
       (on_risk C who Probation))"

section \<open>Enrolling and resigning\<close>

definition can_enroll ::
  "('w, 'r, 'd, 'x) author_config \<Rightarrow> 'w \<Rightarrow> asset \<Rightarrow> ('w, 'r, 'd, 'x, unit) author_query" where
  "can_enroll C who collateral s =
     bindE (if is_ok (role_exists who s)
            then bindE (get_status who s) (\<lambda>status.
                   if status = Resigned
                   then bindE (is_okR (has_reward who s)) (\<lambda>pending.
                          ensureE (\<not> pending) (AuthorModule AuthorHasRewards))
                   else Inl (AuthorModule AlreadyEnrolled))
            else Inr ()) (\<lambda>_.
     bindE (ensureE (\<not> available_funds (ac_commit C) who (au_commit s) < collateral)
              (AuthorModule InadequateFunds)) (\<lambda>_.
     ensureE (\<not> collateral < au_min_collateral s) (AuthorModule InadequateCollateral)))"

definition place_commit_limits :: "'r \<Rightarrow> 'd \<Rightarrow> ('w, 'r, 'd, 'x) commit_store \<Rightarrow> commit_failure + limits_product" where
  "place_commit_limits r d = place_commit_limits_of_variant r d position_default"

definition enroll ::
  "('w, 'r, 'd, 'x) author_config \<Rightarrow> 'w \<Rightarrow> asset \<Rightarrow> fortitude \<Rightarrow> ('w, 'r, 'd, 'x, asset) author_op" where
  "enroll C who collateral force =
     thenO (readE (can_enroll C who collateral))
    (bindO (readE (\<lambda>s.
       if is_ok (role_exists who s)
       then bindE (get_meta who s) (\<lambda>meta. Inr (author_info_re_enroll (au_block s) meta, ai_digest meta))
       else (case gen_digest (ac_commit C) who of
               Inl _ \<Rightarrow> Inl (AuthorModule CannotGenerateCommitDigest)
             | Inr d \<Rightarrow> Inr (author_info_new (au_block s) d, d)))) (\<lambda>(meta, digest).
     bindO (readE (ask (place_commit_limits (ac_collateral C) digest))) (\<lambda>limits.
     bindO (gets au_min_collateral) (\<lambda>minimum.
     bindO (on_commitment (place_commit (ac_commit C) who (ac_collateral C) digest
              (if limits_contains limits collateral then collateral else minimum)
              (policy_new Exact force))) (\<lambda>actual.
     thenO (modify (\<lambda>s. s\<lparr>au_authors := (au_authors s)(who \<mapsto> meta),
                          au_digests := (au_digests s)(digest \<mapsto> who)\<rparr>))
    (thenO (emit_event C (EvAuthorEnlisted who collateral))
           (ret actual)))))))"

definition can_resign ::
  "('w, 'r, 'd, 'x) author_config \<Rightarrow> 'w \<Rightarrow> ('w, 'r, 'd, 'x, unit) author_query" where
  "can_resign C who s =
     bindE (get_status who s) (\<lambda>status. case status of
       Probation \<Rightarrow> Inl (AuthorModule AuthorInProbation)
     | Resigned \<Rightarrow> Inl (AuthorModule RedundantResignation)
     | Active \<Rightarrow>
         bindE (is_okR (has_penalty who s)) (\<lambda>pending.
         bindE (ensureE (\<not> pending) (AuthorModule AuthorHasPenalties)) (\<lambda>_.
         case ac_is_idle C who s of Inl a \<Rightarrow> Inl (Activity a) | Inr _ \<Rightarrow> Inr ())))"

definition resign ::
  "('w, 'r, 'd, 'x) author_config \<Rightarrow> 'w \<Rightarrow> ('w, 'r, 'd, 'x, asset) author_op" where
  "resign C who =
     thenO (readE (can_resign C who))
    (thenO (on_author who (\<lambda>info. Inr (info\<lparr>ai_status := Resigned\<rparr>)))
    (bindO (on_commitment (resolve_commit (ac_commit C) who (ac_collateral C))) (\<lambda>refund.
     thenO (emit_event C (EvAuthorResigned who refund))
           (ret refund))))"

definition status_change ::
  "('w, 'r, 'd, 'x) author_config \<Rightarrow> 'w \<Rightarrow> author_status \<Rightarrow> author_status \<Rightarrow> ('w, 'r, 'd, 'x, unit) author_op" where
  "status_change C who current status =
     (case current of
         Active \<Rightarrow> (case status of
             Active \<Rightarrow> ret ()
           | Probation \<Rightarrow> thenO (revoke_permanence C who) (ret ())
           | Resigned \<Rightarrow> thenO (resign C who) (ret ()))
       | Probation \<Rightarrow> (case status of
             Probation \<Rightarrow> ret ()
           | Resigned \<Rightarrow> throw (AuthorModule AuthorInProbation)
           | Active \<Rightarrow> thenO (set_permanence C who) (ret ()))
       | Resigned \<Rightarrow> (case status of
             Resigned \<Rightarrow> ret ()
           | _ \<Rightarrow> throw (AuthorModule AuthorResigned)))"

definition set_status ::
  "('w, 'r, 'd, 'x) author_config \<Rightarrow> 'w \<Rightarrow> author_status \<Rightarrow> ('w, 'r, 'd, 'x, unit) author_op" where
  "set_status C who status =
     bindO (readE (get_meta who)) (\<lambda>info.
     thenO (status_change C who (ai_status info) status)
           (emit_event C (EvAuthorStatus who status)))"

definition add_collateral ::
  "('w, 'r, 'd, 'x) author_config \<Rightarrow> 'w \<Rightarrow> asset \<Rightarrow> fortitude \<Rightarrow> ('w, 'r, 'd, 'x, asset) author_op" where
  "add_collateral C who collateral force =
     bindO (readE (get_collateral C who)) (\<lambda>exist_collateral.
     bindO (gets au_min_collateral) (\<lambda>minimum.
     bindO (on_commitment (raise_commit (ac_commit C) who (ac_collateral C) collateral
              (policy_new (if exist_collateral < minimum then Exact else BestEffort) force))) (\<lambda>raised.
     thenO (emit_event C (EvAuthorCollateralRaised who raised))
           (ret raised))))"

definition is_available ::
  "('w, 'r, 'd, 'x) author_config \<Rightarrow> 'w \<Rightarrow> ('w, 'r, 'd, 'x, unit) author_query" where
  "is_available C who s =
     bindE (get_status who s) (\<lambda>status.
     bindE (ensureE (status \<noteq> Resigned) (AuthorModule AuthorResigned)) (\<lambda>_.
     bindE (get_collateral C who s) (\<lambda>collateral.
     ensureE (\<not> collateral < au_min_collateral s) (AuthorModule AuthorNeedsMoreCollateral))))"

end
