(* ===== verification/AuthorFunding.thy ===== *)
theory AuthorFunding
  imports AuthorRoles
begin

text \<open>
  Backing of authors (\<open>FundRoles\<close> in \<open>pallets/authors/src/roles.rs\<close>). A backer funds an author
  with a commitment under the funding reason, to the author's own digest, to an index or to a
  pool; the author's funders are recorded per backer. Funding through an index or a pool records
  the funder with every author of it, and drawing removes those of the index or pool as it is
  then.
\<close>

section \<open>Limits and checks\<close>

definition has_funds :: "('w, 'r, 'd, 'x) author_config \<Rightarrow> 'w \<Rightarrow> ('w, 'r, 'd, 'x, unit) author_query" where
  "has_funds C who s =
     ensureE (iter_prefix (ac_keys C) (\<lambda>b. au_funders s (who, b)) \<noteq> []) (AuthorModule FundDoesNotExist)"

text \<open>The limits of the commitment a direct backer would make to the author.\<close>

definition backing_limits ::
  "('w, 'r, 'd, 'x) author_config \<Rightarrow> 'w \<Rightarrow> 'd \<Rightarrow> ('w, 'r, 'd, 'x, limits_product) author_query" where
  "backing_limits C backer author_digest s =
     (let reason = ac_funding C in
      if is_ok (commit_exists backer reason (au_commit s))
      then bindE (ask (get_commit_digest backer reason) s) (\<lambda>exist_digest.
           bindE (ensureE (exist_digest = author_digest) (AuthorModule FundedToAnotherDigest)) (\<lambda>_.
           ask (raise_commit_limits backer reason) s))
      else ask (place_commit_limits reason author_digest) s)"

definition max_exposure ::
  "('w, 'r, 'd, 'x) author_config \<Rightarrow> ('w, 'd) funder \<Rightarrow> 'w \<Rightarrow> ('w, 'r, 'd, 'x, asset) author_query" where
  "max_exposure C byf to s =
     bindE (get_meta to s) (\<lambda>info.
     let global = au_max_exposure s;
         local = (case ai_max_fund info of Some m \<Rightarrow> m | None \<Rightarrow> global);
         base_max = min local global
     in case byf of
          ByDirect backer \<Rightarrow>
            bindE (backing_limits C backer (ai_digest info) s) (\<lambda>limits.
            Inr (min base_max (case limits_maximum limits of Some m \<Rightarrow> m | None \<Rightarrow> - 1)))
        | _ \<Rightarrow> Inr base_max)"

definition min_fund ::
  "('w, 'r, 'd, 'x) author_config \<Rightarrow> ('w, 'd) funder \<Rightarrow> 'w \<Rightarrow> ('w, 'r, 'd, 'x, asset) author_query" where
  "min_fund C byf to s =
     bindE (get_meta to s) (\<lambda>info.
     let global = au_min_fund s;
         local = (case ai_min_fund info of Some m \<Rightarrow> m | None \<Rightarrow> global);
         base_min = max local global
     in case byf of
          ByDirect backer \<Rightarrow>
            bindE (backing_limits C backer (ai_digest info) s) (\<lambda>limits.
            Inr (max base_min (case limits_minimum limits of Some m \<Rightarrow> m | None \<Rightarrow> 0)))
        | _ \<Rightarrow> Inr base_min)"

definition backed_value ::
  "('w, 'r, 'd, 'x) author_config \<Rightarrow> 'w \<Rightarrow> ('w, 'r, 'd, 'x, asset) author_query" where
  "backed_value C who s =
     bindE (get_meta who s) (\<lambda>info. ask (get_digest_value (ac_funding C) (ai_digest info)) s)"

definition total_backing ::
  "('w, 'r, 'd, 'x) author_config \<Rightarrow> ('w, 'r, 'd, 'x) author_store \<Rightarrow> asset" where
  "total_backing C s = get_total_value (ac_funding C) (au_commit s)"

definition fund_towards :: "('w, 'd) funder \<Rightarrow> 'd \<Rightarrow> 'd" where
  "fund_towards byf author_digest =
     (case byf of ByDirect _ \<Rightarrow> author_digest | ByIndex d _ \<Rightarrow> d | ByPool d _ \<Rightarrow> d)"

definition can_fund ::
  "('w, 'r, 'd, 'x) author_config \<Rightarrow> ('w, 'd) funder \<Rightarrow> 'w \<Rightarrow> asset \<Rightarrow> ('w, 'r, 'd, 'x, unit) author_query" where
  "can_fund C byf to value s =
     (let reason = ac_funding C in
      bindE (is_available C to s) (\<lambda>_.
      bindE (get_meta to s) (\<lambda>info.
      bindE (case byf of
          ByDirect _ \<Rightarrow>
            bindE (min_fund C byf to s) (\<lambda>lo.
            bindE (ensureE (value \<ge> lo) (AuthorModule BelowMinimumFund)) (\<lambda>_.
            bindE (max_exposure C byf to s) (\<lambda>hi.
            ensureE (value \<le> hi) (AuthorModule AboveMaximumExposure))))
        | ByIndex digest _ \<Rightarrow>
            bindE (ensureE (value \<ge> au_min_fund s) (AuthorModule BelowMinimumFund)) (\<lambda>_.
            bindE (ensureE (value \<le> au_max_exposure s) (AuthorModule AboveMaximumExposure)) (\<lambda>_.
            ask (entry_exists reason digest (ai_digest info)) s))
        | ByPool digest _ \<Rightarrow>
            bindE (ensureE (value \<ge> au_min_fund s) (AuthorModule BelowMinimumFund)) (\<lambda>_.
            bindE (ensureE (value \<le> au_max_exposure s) (AuthorModule AboveMaximumExposure)) (\<lambda>_.
            ask (slot_exists reason digest (ai_digest info)) s))) (\<lambda>_.
      if is_ok (commit_exists (funder_backer byf) reason (au_commit s))
      then bindE (ask (get_commit_digest (funder_backer byf) reason) s) (\<lambda>exist_digest.
           ensureE (exist_digest = fund_towards byf (ai_digest info)) (AuthorModule FundedToAnotherDigest))
      else Inr ()))))"

section \<open>Funding and drawing\<close>

definition set_funder ::
  "'w \<Rightarrow> 'w \<Rightarrow> ('w, 'd) funder option \<Rightarrow> ('w, 'r, 'd, 'x, unit) author_op" where
  "set_funder author backer f = modify (\<lambda>s. s\<lparr>au_funders := (au_funders s)((author, backer) := f)\<rparr>)"

fun set_funder_of_all ::
  "('d \<times> commit_shares) list \<Rightarrow> 'w \<Rightarrow> ('w, 'd) funder option \<Rightarrow> ('w, 'r, 'd, 'x, unit) author_op" where
  "set_funder_of_all [] backer f = ret ()"
| "set_funder_of_all ((entry, _) # entries) backer f =
     bindO (readE (\<lambda>s. ok_orE (AuthorModule AuthorDigestNotFound) (au_digests s entry))) (\<lambda>author.
     thenO (set_funder author backer f) (set_funder_of_all entries backer f))"

definition update_funders ::
  "('w, 'r, 'd, 'x) author_config \<Rightarrow> 'w \<Rightarrow> ('w, 'd) funder \<Rightarrow> ('w, 'd) funder option \<Rightarrow>
     ('w, 'r, 'd, 'x, unit) author_op" where
  "update_funders C to byf f =
     (case byf of
        ByDirect backer \<Rightarrow> set_funder to backer f
      | ByIndex digest backer \<Rightarrow>
          bindO (readE (ask (get_entries_shares (ac_funding C) digest))) (\<lambda>entries.
          set_funder_of_all entries backer f)
      | ByPool digest backer \<Rightarrow>
          bindO (readE (ask (get_slots_shares (ac_funding C) digest))) (\<lambda>slots.
          set_funder_of_all slots backer f))"

fun funded_event :: "'w \<Rightarrow> ('w, 'd) funder \<Rightarrow> asset \<Rightarrow> ('w, 'd) author_event" where
  "funded_event who (ByDirect backer) amount = EvAuthorFunded who backer amount"
| "funded_event who (ByIndex digest backer) amount = EvIndexFunded digest backer amount"
| "funded_event who (ByPool digest backer) amount = EvPoolFunded digest backer amount"

fun drawn_event :: "'w \<Rightarrow> ('w, 'd) funder \<Rightarrow> asset \<Rightarrow> ('w, 'd) author_event" where
  "drawn_event who (ByDirect backer) amount = EvAuthorDrawn who backer amount"
| "drawn_event who (ByIndex digest backer) amount = EvIndexDrawn digest backer amount"
| "drawn_event who (ByPool digest backer) amount = EvPoolDrawn digest backer amount"

definition fund ::
  "('w, 'r, 'd, 'x) author_config \<Rightarrow> 'w \<Rightarrow> ('w, 'd) funder \<Rightarrow> asset \<Rightarrow> precision \<Rightarrow> fortitude \<Rightarrow>
     ('w, 'r, 'd, 'x, asset) author_op" where
  "fund C to byf value precision force =
     (let reason = ac_funding C; backer = funder_backer byf; q = policy_new precision force in
      thenO (readE (can_fund C byf to value))
     (bindO (readE (get_meta to)) (\<lambda>info.
      bindO (gets (\<lambda>s. is_ok (commit_exists backer reason (au_commit s)))) (\<lambda>exists.
      bindO (on_commitment
               (if exists then raise_commit (ac_commit C) backer reason value q
                else place_commit (ac_commit C) backer reason (fund_towards byf (ai_digest info)) value q))
        (\<lambda>actual.
      thenO (update_funders C to byf (Some byf))
     (thenO (emit_event C (funded_event to byf actual))
            (ret actual)))))))"

definition can_draw ::
  "('w, 'r, 'd, 'x) author_config \<Rightarrow> ('w, 'd) funder \<Rightarrow> 'w \<Rightarrow> ('w, 'r, 'd, 'x, unit) author_query" where
  "can_draw C byf from s =
     (let reason = ac_funding C; backer = funder_backer byf in
      bindE (get_meta from s) (\<lambda>info.
      bindE (case byf of
          ByDirect _ \<Rightarrow> Inr ()
        | ByIndex digest _ \<Rightarrow> ask (entry_exists reason digest (ai_digest info)) s
        | ByPool digest _ \<Rightarrow> ask (slot_exists reason digest (ai_digest info)) s) (\<lambda>_.
      bindE (ask (commit_exists backer reason) s) (\<lambda>_.
      bindE (ask (get_commit_digest backer reason) s) (\<lambda>exist_digest.
      ensureE (exist_digest = fund_towards byf (ai_digest info)) (AuthorModule FundedToAnotherDigest))))))"

definition draw ::
  "('w, 'r, 'd, 'x) author_config \<Rightarrow> 'w \<Rightarrow> ('w, 'd) funder \<Rightarrow> ('w, 'r, 'd, 'x, asset) author_op" where
  "draw C from byf =
     thenO (readE (can_draw C byf from))
    (bindO (on_commitment (resolve_commit (ac_commit C) (funder_backer byf) (ac_funding C))) (\<lambda>actual.
     thenO (update_funders C from byf None)
    (thenO (emit_event C (drawn_event from byf actual))
           (ret actual))))"

section \<open>Queries\<close>

definition funder_value ::
  "('w, 'r, 'd, 'x) author_config \<Rightarrow> 'd \<Rightarrow> ('w, 'd) funder \<Rightarrow> ('w, 'r, 'd, 'x, asset) author_query" where
  "funder_value C author_digest f =
     (case f of
        ByDirect direct \<Rightarrow> ask (get_commit_value (ac_commit C) direct (ac_funding C))
      | ByIndex digest backer \<Rightarrow>
          ask (get_entry_value_for (ac_commit C) backer (ac_funding C) digest author_digest)
      | ByPool digest backer \<Rightarrow>
          ask (get_slot_value_for (ac_commit C) backer (ac_funding C) digest author_digest))"

fun funder_values ::
  "('w, 'r, 'd, 'x) author_config \<Rightarrow> 'd \<Rightarrow> ('w \<times> ('w, 'd) funder) list \<Rightarrow>
     ('w, 'r, 'd, 'x, (('w, 'd) funder \<times> asset) list) author_query" where
  "funder_values C author_digest [] s = Inr []"
| "funder_values C author_digest ((_, f) # fs) s =
     bindE (funder_value C author_digest f s) (\<lambda>value.
     bindE (funder_values C author_digest fs s) (\<lambda>rest. Inr ((f, value) # rest)))"

definition backers_of ::
  "('w, 'r, 'd, 'x) author_config \<Rightarrow> 'w \<Rightarrow>
     ('w, 'r, 'd, 'x, (('w, 'd) funder \<times> asset) list) author_query" where
  "backers_of C who s =
     bindE (get_meta who s) (\<lambda>info.
     funder_values C (ai_digest info) (iter_prefix (ac_keys C) (\<lambda>b. au_funders s (who, b))) s)"

fun authors_of_digests ::
  "('d \<times> asset) list \<Rightarrow> ('w, 'r, 'd, 'x, ('w \<times> asset) list) author_query" where
  "authors_of_digests [] s = Inr []"
| "authors_of_digests ((digest, value) # rest) s =
     bindE (ok_orE (AuthorModule AuthorDigestNotFound) (au_digests s digest)) (\<lambda>author.
     bindE (authors_of_digests rest s) (\<lambda>result. Inr ((author, value) # result)))"

definition backed_for ::
  "('w, 'r, 'd, 'x) author_config \<Rightarrow> ('w, 'd) funder \<Rightarrow>
     ('w, 'r, 'd, 'x, ('w \<times> asset) list) author_query" where
  "backed_for C byf s =
     (let reason = ac_funding C; CC = ac_commit C in
      bindE (case byf of
          ByDirect f \<Rightarrow>
            bindE (ask (get_commit_digest f reason) s) (\<lambda>to.
            bindE (ask (get_commit_value CC f reason) s) (\<lambda>value. Inr [(to, value)]))
        | ByIndex digest backer \<Rightarrow> ask (get_entries_value_for CC backer reason digest) s
        | ByPool digest backer \<Rightarrow> ask (get_slots_value_for CC backer reason digest) s) (\<lambda>pre_return.
      authors_of_digests pre_return s))"

definition get_fund ::
  "('w, 'r, 'd, 'x) author_config \<Rightarrow> 'w \<Rightarrow> ('w, 'd) funder \<Rightarrow> ('w, 'r, 'd, 'x, asset) author_query" where
  "get_fund C who byf s =
     bindE (get_meta who s) (\<lambda>info.
     case byf of
       ByDirect direct \<Rightarrow>
         bindE (ask (get_commit_digest direct (ac_funding C)) s) (\<lambda>digest.
         bindE (ok_orE (AuthorModule AuthorDigestNotFound) (au_digests s digest)) (\<lambda>is_author.
         bindE (ensureE (is_author = who) (AuthorModule FundedToAnotherDigest)) (\<lambda>_.
         ask (get_commit_value (ac_commit C) direct (ac_funding C)) s)))
     | ByIndex digest backer \<Rightarrow>
         ask (get_entry_value_for (ac_commit C) backer (ac_funding C) digest (ai_digest info)) s
     | ByPool digest backer \<Rightarrow>
         ask (get_slot_value_for (ac_commit C) backer (ac_funding C) digest (ai_digest info)) s)"

end
