(* ===== verification/AuthorCompensation.thy ===== *)
theory AuthorCompensation
  imports AuthorFunding
begin

text \<open>
  Compensation of authors (\<open>CompensateRoles\<close> in \<open>pallets/authors/src/roles.rs\<close>) and the hook that
  settles it (\<open>on_initialize\<close> in \<open>lib.rs\<close>). The hold of an author is the value of its digest under
  the funding reason plus that under the collateral reason. Rewards and penalties are scheduled
  at a later block, one of each per block and author, and settled when that block begins. The hook
  is not a dispatched call: what \<open>set_hold\<close> wrote before an error stays.
\<close>

section \<open>The hold\<close>

definition hold_parts ::
  "('w, 'r, 'd, 'x) author_config \<Rightarrow> 'd \<Rightarrow> ('w, 'r, 'd, 'x, asset \<times> asset) author_query" where
  "hold_parts C d s =
     bindE (ask (get_digest_value (ac_funding C) d) s) (\<lambda>funding.
     bindE (ask (get_digest_value (ac_collateral C) d) s) (\<lambda>collateral.
     bindE (ok_orE (AuthorModule AuthorTotalHoldExhausted) (checked_add funding collateral)) (\<lambda>hold.
     Inr (funding, hold))))"

definition get_hold :: "('w, 'r, 'd, 'x) author_config \<Rightarrow> 'w \<Rightarrow> ('w, 'r, 'd, 'x, asset) author_query" where
  "get_hold C who s =
     bindE (get_meta who s) (\<lambda>info.
     bindE (hold_parts C (ai_digest info) s) (\<lambda>(_, hold). Inr hold))"

definition on_set_hold ::
  "('w, 'r, 'd, 'x) author_config \<Rightarrow> 'w \<Rightarrow> asset \<Rightarrow> ('w, 'r, 'd, 'x, unit) author_op" where
  "on_set_hold C who value = emit_event C (EvAuthorTotalHold who value)"

definition hold_split :: "perbill_ops \<Rightarrow> asset \<Rightarrow> asset \<Rightarrow> asset \<Rightarrow> asset \<times> asset" where
  "hold_split P funding hold value =
     (let funding_value = pb_mul_ceil P (pb_from_rational P funding hold) value
      in (funding_value, sat_sub value funding_value))"

text \<open>The qualifier of the two calls has no effect on the value a digest is set to.\<close>

definition set_hold ::
  "('w, 'r, 'd, 'x) author_config \<Rightarrow> 'w \<Rightarrow> asset \<Rightarrow> ('w, 'r, 'd, 'x, unit) author_op" where
  "set_hold C who value =
     bindO (readE (get_meta who)) (\<lambda>info.
     bindO (readE (hold_parts C (ai_digest info))) (\<lambda>(funding, hold).
     case hold_split (ac_perbill C) funding hold value of (funding_value, collateral_value) \<Rightarrow>
       thenO (on_commitment (set_digest_value (ac_commit C) (ac_funding C) (ai_digest info) funding_value))
      (thenO (on_commitment (set_digest_value (ac_commit C) (ac_collateral C) (ai_digest info) collateral_value))
             (on_set_hold C who value))))"

section \<open>Scheduling\<close>

definition penalize_risk ::
  "('w, 'r, 'd, 'x) author_config \<Rightarrow> 'w \<Rightarrow> author_status \<Rightarrow> ('w, 'r, 'd, 'x, unit) author_op" where
  "penalize_risk C who status =
     (case status of
        Active \<Rightarrow>
          thenO (risk_permanence C who)
         (bindO (gets (\<lambda>s. is_ok (can_revoke_permanence who s))) (\<lambda>revocable.
          if revocable then thenO (revoke_permanence C who) (ret ()) else ret ()))
      | Probation \<Rightarrow> risk_probation C who
      | Resigned \<Rightarrow> throw (AuthorModule AuthorResigned))"

definition schedule_penalty :: "'w \<Rightarrow> ratio \<Rightarrow> ('w, 'r, 'd, 'x, block) author_op" where
  "schedule_penalty who factor =
     bindO (readE (\<lambda>s. ok_orE NeverReturns (free_block (\<lambda>b. au_penalties s (b, who) \<noteq> None)
              (sat_add (au_block s) (au_penalties_buffer s))))) (\<lambda>b.
     thenO (modify (\<lambda>s. s\<lparr>au_penalties := (au_penalties s)((b, who) \<mapsto> factor),
                          au_penalties_until := (if b > au_penalties_until s then b else au_penalties_until s)\<rparr>))
           (ret b))"

definition schedule_reward :: "'w \<Rightarrow> asset \<Rightarrow> ('w, 'r, 'd, 'x, block) author_op" where
  "schedule_reward who value =
     bindO (readE (\<lambda>s. ok_orE NeverReturns (free_block (\<lambda>b. au_rewards s (b, who) \<noteq> None)
              (sat_add (au_block s) (au_rewards_buffer s))))) (\<lambda>b.
     thenO (modify (\<lambda>s. s\<lparr>au_rewards := (au_rewards s)((b, who) \<mapsto> value),
                          au_rewards_until := (if b > au_rewards_until s then b else au_rewards_until s)\<rparr>))
           (ret b))"

definition penalize ::
  "('w, 'r, 'd, 'x) author_config \<Rightarrow> 'w \<Rightarrow> ratio \<Rightarrow> ('w, 'r, 'd, 'x, block) author_op" where
  "penalize C who factor =
     thenO (ensureO (factor \<noteq> 0) (AuthorModule ZeroPenaltyFound))
    (bindO (readE (get_status who)) (\<lambda>status.
     thenO (penalize_risk C who status)
    (bindO (schedule_penalty who factor) (\<lambda>b.
     thenO (emit_event C (EvAuthorPenaltyScheduled who factor b))
           (ret b)))))"

definition forgive ::
  "('w, 'r, 'd, 'x) author_config \<Rightarrow> 'w \<Rightarrow> block \<Rightarrow> ('w, 'r, 'd, 'x, ratio) author_op" where
  "forgive C who from =
     bindO (readE (get_status who)) (\<lambda>status.
     thenO (readE (\<lambda>s. ensureE (\<not> from \<le> au_block s) (AuthorModule FinalizedObligations)))
    (thenO (ensureO (status \<noteq> Resigned) (AuthorModule AuthorResigned))
    (bindO (readE (\<lambda>s. ok_orE (AuthorModule PenaltyNotFound) (au_penalties s (from, who)))) (\<lambda>factor.
     thenO (modify (\<lambda>s. s\<lparr>au_penalties := (au_penalties s)((from, who) := None)\<rparr>))
    (thenO (secure_permanence C who)
    (thenO (emit_event C (EvAuthorPenaltyForgiven who factor))
           (ret factor)))))))"

definition reward ::
  "('w, 'r, 'd, 'x) author_config \<Rightarrow> 'w \<Rightarrow> asset \<Rightarrow> ('w, 'r, 'd, 'x, block) author_op" where
  "reward C who value =
     bindO (readE (get_status who)) (\<lambda>status.
     thenO (if status = Resigned then throw (AuthorModule AuthorResigned) else secure_permanence C who)
    (bindO (schedule_reward who value) (\<lambda>b.
     thenO (emit_event C (EvAuthorRewardScheduled who value b))
           (ret b))))"

definition reclaim ::
  "('w, 'r, 'd, 'x) author_config \<Rightarrow> 'w \<Rightarrow> block \<Rightarrow> ('w, 'r, 'd, 'x, asset) author_op" where
  "reclaim C who from =
     thenO (readE (role_exists who))
    (thenO (readE (\<lambda>s. ensureE (\<not> from \<le> au_block s) (AuthorModule FinalizedObligations)))
    (bindO (readE (\<lambda>s. ok_orE (AuthorModule RewardNotFound) (au_rewards s (from, who)))) (\<lambda>value.
     thenO (modify (\<lambda>s. s\<lparr>au_rewards := (au_rewards s)((from, who) := None)\<rparr>))
    (thenO (emit_event C (EvAuthorRewardReclaimed who value))
           (ret value)))))"

section \<open>Settlement at the start of a block\<close>

text \<open>A value set by the hook: an error of \<open>get_hold\<close> or \<open>set_hold\<close> is dropped.\<close>

definition settle_hold ::
  "('w, 'r, 'd, 'x) author_config \<Rightarrow> 'w \<Rightarrow> (asset \<Rightarrow> asset) \<Rightarrow> ('w, 'r, 'd, 'x) author_store \<Rightarrow>
     ('w, 'r, 'd, 'x) author_store" where
  "settle_hold C who new s =
     (case get_hold C who s of
        Inl _ \<Rightarrow> s
      | Inr hold \<Rightarrow>
          (case set_hold C who (new hold) s of
             (Inl _, t) \<Rightarrow> t
           | (Inr _, t) \<Rightarrow> snd (on_set_hold C who (new hold) t)))"

fun settle_rewards ::
  "('w, 'r, 'd, 'x) author_config \<Rightarrow> block \<Rightarrow> ('w \<times> asset) list \<Rightarrow> ('w, 'r, 'd, 'x) author_store \<Rightarrow>
     ('w, 'r, 'd, 'x) author_store" where
  "settle_rewards C b [] s = s"
| "settle_rewards C b ((author, amount) # rest) s =
     (let t = settle_hold C author (\<lambda>hold. sat_add hold amount) s
      in settle_rewards C b rest (t\<lparr>au_rewards := (au_rewards t)((b, author) := None)\<rparr>))"

fun settle_penalties ::
  "('w, 'r, 'd, 'x) author_config \<Rightarrow> block \<Rightarrow> ('w \<times> ratio) list \<Rightarrow> ('w, 'r, 'd, 'x) author_store \<Rightarrow>
     ('w, 'r, 'd, 'x) author_store" where
  "settle_penalties C b [] s = s"
| "settle_penalties C b ((author, factor) # rest) s =
     (let t = settle_hold C author (\<lambda>hold. sat_sub hold (pb_mul_floor (ac_perbill C) factor hold)) s
      in settle_penalties C b rest (t\<lparr>au_penalties := (au_penalties t)((b, author) := None)\<rparr>))"

definition on_initialize ::
  "('w, 'r, 'd, 'x) author_config \<Rightarrow> block \<Rightarrow> ('w, 'r, 'd, 'x) author_store \<Rightarrow>
     ('w, 'r, 'd, 'x) author_store" where
  "on_initialize C b s =
     (let s = settle_rewards C b (iter_prefix (ac_keys C) (\<lambda>w. au_rewards s (b, w))) s
      in settle_penalties C b (iter_prefix (ac_keys C) (\<lambda>w. au_penalties s (b, w))) s)"

end
