(* ===== verification/AuthorElection.thy ===== *)
theory AuthorElection
  imports AuthorCompensation LoadElections
begin

text \<open>
  Elections of authors (\<open>FlatElection\<close> and \<open>FairElection\<close> in \<open>pallets/authors/src/election.rs\<close>,
  \<open>ElectionManager::prepare\<close> in \<open>frame/suite/src/elections.rs\<close>). The two differ in the weight of a
  candidate: the influence of its hold, or the list of its backers with their values. Storing,
  revealing and removing the elected are the same code in both, so one definition serves them.
  The election model and the influence model are arguments; the models of the runtime are those
  of the election plugins.
\<close>

section \<open>Weights\<close>

definition flat_weight_of ::
  "('w, 'r, 'd, 'x) author_config \<Rightarrow> (asset \<Rightarrow> 'i) \<Rightarrow> 'w \<Rightarrow> ('w, 'r, 'd, 'x, 'i list) author_query" where
  "flat_weight_of C influence who s = bindE (get_hold C who s) (\<lambda>hold. Inr [influence hold])"

definition fair_weight_of ::
  "('w, 'r, 'd, 'x) author_config \<Rightarrow> 'w \<Rightarrow>
     ('w, 'r, 'd, 'x, (('w, 'd) funder \<times> asset) list) author_query" where
  "fair_weight_of C who s = backers_of C who s"

section \<open>The elected\<close>

definition reveal_elected ::
  "('w, 'r, 'd, 'x) author_config \<Rightarrow> ('w, 'r, 'd, 'x) author_store \<Rightarrow> 'w list option" where
  "reveal_elected C s =
     (let elects = map fst (iter_prefix (ac_keys C) (\<lambda>w. au_elected s (au_recent_elected_on s, w)))
      in if elects = [] then None else Some elects)"

definition remove_elected :: "'w \<Rightarrow> ('w, 'r, 'd, 'x) author_store \<Rightarrow> ('w, 'r, 'd, 'x) author_store" where
  "remove_elected who s = s\<lparr>au_elected := (au_elected s)((au_recent_elected_on s, who) := None)\<rparr>"

definition is_candidate ::
  "('w, 'r, 'd, 'x) author_config \<Rightarrow> 'w \<Rightarrow> ('w, 'r, 'd, 'x, unit) author_query" where
  "is_candidate C who s =
     ensureE (case reveal_elected C s of Some elects \<Rightarrow> list_ex (\<lambda>elect. elect = who) elects | None \<Rightarrow> False)
       (AuthorModule AuthorNotElected)"

fun insert_elected :: "block \<Rightarrow> 'w list \<Rightarrow> (block \<times> 'w \<Rightarrow> unit option) \<Rightarrow> (block \<times> 'w \<Rightarrow> unit option)" where
  "insert_elected b [] m = m"
| "insert_elected b (author # rest) m = insert_elected b rest (m((b, author) \<mapsto> ()))"

definition store_elected :: "'w list \<Rightarrow> ('w, 'r, 'd, 'x, unit) author_op" where
  "store_elected elects =
     thenO (readE (\<lambda>s. ensureE (\<not> length elects < unat (au_min_elected s)) (AuthorModule MinElectedNotReached)))
           (modify (\<lambda>s.
              let final_result =
                    (if au_force_max_elected s then take (unat (au_max_elected s)) elects else elects)
              in s\<lparr>au_elected := insert_elected (au_block s) final_result (au_elected s),
                   au_recent_elected_on := au_block s\<rparr>))"

definition can_prepare :: "('w \<times> 'v) list \<Rightarrow> ('w, 'r, 'd, 'x, unit) author_query" where
  "can_prepare from s =
     ensureE (\<not> length from < unat (au_min_elected s)) (AuthorModule InadequateCandidatesToElect)"

definition prepare ::
  "('w, 'r, 'd, 'x) author_config \<Rightarrow> (('w \<times> 'v) list \<Rightarrow> 'w list) \<Rightarrow> ('w \<times> 'v) list \<Rightarrow>
     ('w, 'r, 'd, 'x, unit) author_op" where
  "prepare C run_model from =
     (\<lambda>s. let out = run_model from in
          case store_elected out s of
            (Inl e, t) \<Rightarrow> emit_event C (EvElectionFailed e) t
          | (Inr _, t) \<Rightarrow> emit_event C (EvElectionPrepared out) t)"

lemma insert_elected_iff: "insert_elected b ws m (c, w) = (if c = b \<and> w \<in> set ws then Some () else m (c, w))"
proof (induction ws arbitrary: m)
  case (Cons a ws)
  show ?case by (simp only: insert_elected.simps Cons) (auto simp: fun_upd_def)
qed simp

lemma map_fst_iter_prefix: "map fst (iter_prefix ks m) = filter (\<lambda>w. m w \<noteq> None) ks"
  by (induction ks) (auto simp: iter_prefix_def List.map_filter_simps split: option.splits)

lemma reveal_elected_filter:
  "reveal_elected C s = (let ws = filter (\<lambda>w. au_elected s (au_recent_elected_on s, w) \<noteq> None) (ac_keys C)
     in if ws = [] then None else Some ws)"
  by (simp only: reveal_elected_def map_fst_iter_prefix)

end
