(* ===== verification/AuthorPallet.thy ===== *)
theory AuthorPallet
  imports AuthorElection
begin

text \<open>
  The calls of the authors pallet and its public queries (\<open>pallets/authors/src/lib.rs\<close>). An origin
  is \<open>None\<close> for root and \<open>Some\<close> of the signer. Calls 12 to 16 exist in development builds only, and
  there \<open>IndexCreated\<close> and \<open>PoolCreated\<close> carry the entries too; the model has the fields of the
  production build.
\<close>

section \<open>Origins and funding targets\<close>

definition ensure_signed :: "'w option \<Rightarrow> ('w, 'r, 'd, 'x, 'w) author_op" where
  "ensure_signed origin = ok_orO BadOrigin origin"

definition ensure_root :: "'w option \<Rightarrow> ('w, 'r, 'd, 'x, unit) author_op" where
  "ensure_root origin = ensureO (origin = None) BadOrigin"

definition resolve_target ::
  "('w, 'r, 'd, 'x) author_config \<Rightarrow> 'w \<Rightarrow> ('w, 'd) funding_target \<Rightarrow>
     ('w, 'r, 'd, 'x, 'w \<times> ('w, 'd) funder) author_query" where
  "resolve_target C caller via s =
     (case via of
        ToDirect author \<Rightarrow> Inr (author, ByDirect caller)
      | ToIndex index_digest \<Rightarrow>
          bindE (ask (get_entries_shares (ac_funding C) index_digest) s) (\<lambda>entries.
          bindE (head_or_panic entries) (\<lambda>(entry_digest, _).
          bindE (ok_orE (AuthorModule AuthorDigestNotFound) (au_digests s entry_digest)) (\<lambda>to.
          Inr (to, ByIndex index_digest caller))))
      | ToPool pool_digest \<Rightarrow>
          bindE (ask (get_slots_shares (ac_funding C) pool_digest) s) (\<lambda>slots.
          bindE (head_or_panic slots) (\<lambda>(slot_digest, _).
          bindE (ok_orE (AuthorModule AuthorDigestNotFound) (au_digests s slot_digest)) (\<lambda>to.
          Inr (to, ByPool pool_digest caller)))))"

section \<open>Calls of authors and backers\<close>

definition enlist ::
  "('w, 'r, 'd, 'x) author_config \<Rightarrow> 'w option \<Rightarrow> asset \<Rightarrow> fortitude_wrapper \<Rightarrow> ('w, 'r, 'd, 'x, unit) author_op" where
  "enlist C origin collateral fw =
     bindO (ensure_signed origin) (\<lambda>caller.
     thenO (readE (\<lambda>s. ensureE (collateral \<ge> au_min_collateral s) (AuthorModule InadequateCollateral)))
    (bindO (enroll C caller collateral (wrapped_fortitude fw)) (\<lambda>actual.
     call_event C (EvAuthorEnlisted caller actual))))"

definition back_call ::
  "('w, 'r, 'd, 'x) author_config \<Rightarrow> 'w option \<Rightarrow> ('w, 'd) funding_target \<Rightarrow> asset \<Rightarrow> fortitude_wrapper \<Rightarrow>
     precision_wrapper \<Rightarrow> ('w, 'r, 'd, 'x, unit) author_op" where
  "back_call C origin via value fw pw =
     bindO (ensure_signed origin) (\<lambda>caller.
     bindO (readE (resolve_target C caller via)) (\<lambda>(to, funder).
     bindO (fund C to funder value (wrapped_precision pw) (wrapped_fortitude fw)) (\<lambda>actual.
     call_event C (funded_event to funder actual))))"

definition refill ::
  "('w, 'r, 'd, 'x) author_config \<Rightarrow> 'w option \<Rightarrow> asset \<Rightarrow> fortitude_wrapper \<Rightarrow> ('w, 'r, 'd, 'x, unit) author_op" where
  "refill C origin collateral fw =
     bindO (ensure_signed origin) (\<lambda>caller.
     bindO (add_collateral C caller collateral (wrapped_fortitude fw)) (\<lambda>raised.
     call_event C (EvAuthorCollateralRaised caller raised)))"

definition confirm ::
  "('w, 'r, 'd, 'x) author_config \<Rightarrow> 'w option \<Rightarrow> ('w, 'r, 'd, 'x, unit) author_op" where
  "confirm C origin =
     bindO (ensure_signed origin) (\<lambda>caller.
     thenO (set_status C caller Active)
           (call_event C (EvAuthorStatus caller Active)))"

definition exit_fund ::
  "('w, 'r, 'd, 'x) author_config \<Rightarrow> 'w option \<Rightarrow> ('w, 'd) funding_target \<Rightarrow> ('w, 'r, 'd, 'x, unit) author_op" where
  "exit_fund C origin from =
     bindO (ensure_signed origin) (\<lambda>caller.
     bindO (readE (resolve_target C caller from)) (\<lambda>(author, funder).
     bindO (draw C author funder) (\<lambda>draw_value.
     call_event C (drawn_event author funder draw_value))))"

definition demit ::
  "('w, 'r, 'd, 'x) author_config \<Rightarrow> 'w option \<Rightarrow> ('w, 'r, 'd, 'x, unit) author_op" where
  "demit C origin =
     bindO (ensure_signed origin) (\<lambda>caller.
     bindO (resign C caller) (\<lambda>released.
     call_event C (EvAuthorResigned caller released)))"

section \<open>Calls on indexes and pools\<close>

fun digests_of_authors ::
  "('w, 'r, 'd, 'x) author_config \<Rightarrow> ('w \<times> commit_shares) list \<Rightarrow>
     ('w, 'r, 'd, 'x, ('d \<times> commit_shares) list) author_query" where
  "digests_of_authors C [] s = Inr []"
| "digests_of_authors C ((author, sh) # entries) s =
     bindE (ask (get_commit_digest author (ac_collateral C)) s) (\<lambda>author_digest.
     bindE (digests_of_authors C entries s) (\<lambda>rest. Inr ((author_digest, sh) # rest)))"

definition create_index ::
  "('w, 'r, 'd, 'x) author_config \<Rightarrow> 'w option \<Rightarrow> ('w \<times> commit_shares) list \<Rightarrow>
     ('w, 'r, 'd, 'x, unit) author_op" where
  "create_index C origin entries =
     bindO (ensure_signed origin) (\<lambda>caller.
     bindO (readE (digests_of_authors C entries)) (\<lambda>digest_entries.
     bindO (readE (ask (prepare_index (ac_commit C) (ac_funding C) digest_entries))) (\<lambda>index_info.
     bindO (readE (ask (\<lambda>_. gen_index_digest (ac_commit C) caller (ac_funding C) index_info))) (\<lambda>index_digest.
     thenO (on_commitment (set_index (ac_commit C) (ac_funding C) index_info index_digest))
           (deposit_author_event (EvIndexCreated index_digest))))))"

definition create_pool ::
  "('w, 'r, 'd, 'x) author_config \<Rightarrow> 'w option \<Rightarrow> 'd \<Rightarrow> commission \<Rightarrow> ('w, 'r, 'd, 'x, unit) author_op" where
  "create_pool C origin index commission =
     bindO (ensure_signed origin) (\<lambda>caller.
     bindO (readE (ask (gen_pool_digest (ac_commit C) caller (ac_funding C) index commission))) (\<lambda>pool_digest.
     thenO (on_commitment (set_pool (ac_commit C) caller (ac_funding C) pool_digest index commission))
           (deposit_author_event (EvPoolCreated pool_digest commission caller))))"

definition transfer_pool ::
  "('w, 'r, 'd, 'x) author_config \<Rightarrow> 'w option \<Rightarrow> 'd \<Rightarrow> 'w \<Rightarrow> ('w, 'r, 'd, 'x, unit) author_op" where
  "transfer_pool C origin pool to =
     bindO (ensure_signed origin) (\<lambda>caller.
     bindO (readE (ask (get_manager (ac_funding C) pool))) (\<lambda>current_manager.
     thenO (ensureO (current_manager = caller) (AuthorModule InvalidPoolManager))
    (thenO (on_commitment (set_pool_manager (ac_commit C) (ac_funding C) pool to))
           (deposit_author_event (EvAuthorPoolManager pool to)))))"

definition update_commission ::
  "('w, 'r, 'd, 'x) author_config \<Rightarrow> 'w option \<Rightarrow> 'd \<Rightarrow> commission \<Rightarrow> ('w, 'r, 'd, 'x, unit) author_op" where
  "update_commission C origin index commission =
     bindO (ensure_signed origin) (\<lambda>caller.
     bindO (on_commitment (set_commission (ac_commit C) caller (ac_funding C) index commission)) (\<lambda>pool_digest.
     deposit_author_event (EvPoolCreated pool_digest commission caller)))"

definition update_entry_shares ::
  "('w, 'r, 'd, 'x) author_config \<Rightarrow> 'w option \<Rightarrow> 'd \<Rightarrow> 'd \<Rightarrow> commit_shares \<Rightarrow> ('w, 'r, 'd, 'x, unit) author_op" where
  "update_entry_shares C origin index entry sh =
     bindO (ensure_signed origin) (\<lambda>caller.
     bindO (on_commitment (set_entry_shares (ac_commit C) caller (ac_funding C) index entry sh)) (\<lambda>new_index.
     deposit_author_event (EvIndexCreated new_index)))"

definition update_slot_shares ::
  "('w, 'r, 'd, 'x) author_config \<Rightarrow> 'w option \<Rightarrow> 'd \<Rightarrow> 'd \<Rightarrow> commit_shares \<Rightarrow> ('w, 'r, 'd, 'x, unit) author_op" where
  "update_slot_shares C origin pool slot sh =
     bindO (ensure_signed origin) (\<lambda>caller.
     bindO (readE (ask (get_manager (ac_funding C) pool))) (\<lambda>current_manager.
     thenO (ensureO (current_manager = caller) (AuthorModule InvalidPoolManager))
    (thenO (on_commitment (set_slot_shares (ac_commit C) (ac_funding C) pool slot sh))
           (deposit_author_event (EvPoolSlotShare pool slot sh)))))"

section \<open>Inspection\<close>

definition fetch_collateral ::
  "('w, 'r, 'd, 'x) author_config \<Rightarrow> 'w \<Rightarrow> ('w, 'r, 'd, 'x, asset) author_query" where
  "fetch_collateral C who s = bindE (role_exists who s) (\<lambda>_. get_collateral C who s)"

definition committed_to ::
  "('w, 'r, 'd, 'x) author_config \<Rightarrow> ('d \<Rightarrow> ('w, 'r, 'd, 'x) commit_store \<Rightarrow> commit_failure + unit) \<Rightarrow> 'w \<Rightarrow> 'd \<Rightarrow>
     ('w, 'r, 'd, 'x, asset) author_query" where
  "committed_to C model_exists caller digest s =
     bindE (ask (get_commit_digest caller (ac_funding C)) s) (\<lambda>actual_digest.
     bindE (ask (model_exists actual_digest) s) (\<lambda>_.
     bindE (ensureE (digest = actual_digest) (AuthorModule FundedToAnotherDigest)) (\<lambda>_.
     ask (get_commit_value (ac_commit C) caller (ac_funding C)) s)))"

definition inspect_fund ::
  "('w, 'r, 'd, 'x) author_config \<Rightarrow> 'w \<Rightarrow> ('w, 'd) funding_target \<Rightarrow> ('w, 'r, 'd, 'x, asset) author_query" where
  "inspect_fund C caller from s =
     (case from of
        ToDirect author \<Rightarrow> get_fund C author (ByDirect caller) s
      | ToIndex index_digest \<Rightarrow> committed_to C (index_exists (ac_funding C)) caller index_digest s
      | ToPool pool_digest \<Rightarrow> committed_to C (pool_exists (ac_funding C)) caller pool_digest s)"

fun target_funder :: "'w \<Rightarrow> ('w, 'd) funding_target \<Rightarrow> ('w, 'd) funder" where
  "target_funder caller (ToDirect _) = ByDirect caller"
| "target_funder caller (ToIndex digest) = ByIndex digest caller"
| "target_funder caller (ToPool digest) = ByPool digest caller"

definition inspect_author_fund ::
  "('w, 'r, 'd, 'x) author_config \<Rightarrow> 'w \<Rightarrow> 'w \<Rightarrow> ('w, 'd) funding_target \<Rightarrow> ('w, 'r, 'd, 'x, asset) author_query" where
  "inspect_author_fund C caller author from s = get_fund C author (target_funder caller from) s"

definition my_collateral ::
  "('w, 'r, 'd, 'x) author_config \<Rightarrow> 'w option \<Rightarrow> ('w, 'r, 'd, 'x, unit) author_op" where
  "my_collateral C origin =
     bindO (ensure_signed origin) (\<lambda>caller.
     thenO (readE (role_exists caller))
    (bindO (readE (get_collateral C caller)) (\<lambda>collateral.
     deposit_author_event (EvAuthorTotalCollateral caller collateral))))"

definition my_fund ::
  "('w, 'r, 'd, 'x) author_config \<Rightarrow> 'w option \<Rightarrow> ('w, 'd) funding_target \<Rightarrow> ('w, 'r, 'd, 'x, unit) author_op" where
  "my_fund C origin from =
     bindO (ensure_signed origin) (\<lambda>caller.
     case from of
       ToDirect author \<Rightarrow>
         bindO (readE (get_fund C author (ByDirect caller))) (\<lambda>amount.
         deposit_author_event (EvInspectAuthorFund author caller amount))
     | ToIndex index_digest \<Rightarrow>
         bindO (readE (committed_to C (index_exists (ac_funding C)) caller index_digest)) (\<lambda>index_fund.
         deposit_author_event (EvInspectIndexFund index_digest caller index_fund))
     | ToPool pool_digest \<Rightarrow>
         bindO (readE (committed_to C (pool_exists (ac_funding C)) caller pool_digest)) (\<lambda>pool_fund.
         deposit_author_event (EvInspectPoolFund pool_digest caller pool_fund)))"

definition my_author_fund ::
  "('w, 'r, 'd, 'x) author_config \<Rightarrow> 'w option \<Rightarrow> 'w \<Rightarrow> ('w, 'd) funding_target \<Rightarrow> ('w, 'r, 'd, 'x, unit) author_op" where
  "my_author_fund C origin author from =
     bindO (ensure_signed origin) (\<lambda>caller.
     bindO (readE (get_fund C author (target_funder caller from))) (\<lambda>amount.
     deposit_author_event (EvInspectFund author (target_funder caller from) amount)))"

definition shed_rewards :: "'w option \<Rightarrow> ('w, 'r, 'd, 'x, unit) author_op" where
  "shed_rewards origin =
     bindO (ensure_signed origin) (\<lambda>caller.
     thenO (readE (has_reward caller))
    (bindO (readE (get_rewards_of caller)) (\<lambda>rewards.
     deposit_author_event (EvScheduledRewards caller rewards))))"

definition shed_penalties :: "'w option \<Rightarrow> ('w, 'r, 'd, 'x, unit) author_op" where
  "shed_penalties origin =
     bindO (ensure_signed origin) (\<lambda>caller.
     thenO (readE (has_penalty caller))
    (bindO (readE (get_penalties_of caller)) (\<lambda>penalties.
     deposit_author_event (EvScheduledPenalties caller penalties))))"

section \<open>Configuration\<close>

fun force_field :: "genesis_field \<Rightarrow> ('w, 'r, 'd, 'x, unit) author_op" where
  "force_field (ForceProbationPeriod b) = modify (\<lambda>s. s\<lparr>au_probation_period := b\<rparr>)"
| "force_field (ForceReduceProbationBy b) = modify (\<lambda>s. s\<lparr>au_reduce_probation_by := b\<rparr>)"
| "force_field (ForceIncreaseProbationBy b) = modify (\<lambda>s. s\<lparr>au_increase_probation_by := b\<rparr>)"
| "force_field (ForceRewardsBuffer b) = modify (\<lambda>s. s\<lparr>au_rewards_buffer := b\<rparr>)"
| "force_field (ForcePenaltiesBuffer b) = modify (\<lambda>s. s\<lparr>au_penalties_buffer := b\<rparr>)"
| "force_field (ForceMaxElected n) =
     thenO (ensureO (n \<noteq> 0) (AuthorModule NonZeroConfigRequired))
    (thenO (readE (\<lambda>s. ensureE (n \<ge> au_min_elected s) (AuthorModule MinGreaterThanMax)))
           (modify (\<lambda>s. s\<lparr>au_max_elected := n\<rparr>)))"
| "force_field (ForceMinElected n) =
     thenO (ensureO (n \<noteq> 0) (AuthorModule NonZeroConfigRequired))
    (thenO (readE (\<lambda>s. ensureE (n \<le> au_max_elected s) (AuthorModule MinGreaterThanMax)))
           (modify (\<lambda>s. s\<lparr>au_min_elected := n\<rparr>)))"
| "force_field (EnforceMaxElected e) = modify (\<lambda>s. s\<lparr>au_force_max_elected := e\<rparr>)"
| "force_field (ForceMinFund a) =
     thenO (ensureO (a \<noteq> 0) (AuthorModule NonZeroConfigRequired))
    (thenO (readE (\<lambda>s. ensureE (a \<le> au_max_exposure s) (AuthorModule MinGreaterThanMax)))
           (modify (\<lambda>s. s\<lparr>au_min_fund := a\<rparr>)))"
| "force_field (ForceMaxExposure a) =
     thenO (readE (\<lambda>s. ensureE (a \<ge> au_min_fund s) (AuthorModule MinGreaterThanMax)))
           (modify (\<lambda>s. s\<lparr>au_max_exposure := a\<rparr>))"
| "force_field (ForceMinCollateral a) =
     thenO (ensureO (a \<noteq> 0) (AuthorModule NonZeroConfigRequired))
           (modify (\<lambda>s. s\<lparr>au_min_collateral := a\<rparr>))"

definition force_author_config :: "'w option \<Rightarrow> genesis_field \<Rightarrow> ('w, 'r, 'd, 'x, unit) author_op" where
  "force_author_config origin field =
     thenO (ensure_root origin)
    (thenO (force_field field) (deposit_author_event (EvGenesisConfigUpdated field)))"

end
