(* ===== verification/AuthorSchedule.thy ===== *)
theory AuthorSchedule
  imports AuthorPallet
begin

text \<open>
  The loops over block numbers and what they make of the schedule: the search for a free block
  and the scans of the pending rewards and penalties. Block numbers saturate, so a loop ends
  unless it reaches the last block number without having found what it looks for.
\<close>

section \<open>The next block\<close>

lemma unat_block: "unat (b :: block) < 4294967296"
  using unat_bound [of b] by simp

lemma sat_suc_max: "sat_add (- 1 :: block) 1 = - 1"
  by (simp add: word_unat_eq_iff unat_sat_add unat_max_word)

lemma unat_sat_suc: "b \<noteq> - 1 \<Longrightarrow> unat (sat_add b 1 :: block) = Suc (unat b)"
proof -
  assume "b \<noteq> - 1"
  then have "unat b \<noteq> 4294967295" by (simp add: word_unat_eq_iff unat_max_word)
  with unat_block [of b] show ?thesis by (simp add: unat_sat_add min_def)
qed

lemma sat_suc_le: "b \<le> sat_add b (1 :: block)"
  by (cases "b = - 1") (auto simp: sat_suc_max word_le_nat_alt unat_sat_suc)

lemma sat_suc_le_iff: "b \<noteq> - 1 \<Longrightarrow> sat_add b 1 \<le> (x :: block) \<longleftrightarrow> b < x"
  by (simp add: word_le_nat_alt word_less_nat_alt unat_sat_suc Suc_le_eq)

lemma block_induct [case_names step]:
  assumes "\<And>b :: block. (b \<noteq> - 1 \<Longrightarrow> P (sat_add b 1)) \<Longrightarrow> P b"
  shows "P b"
proof (induction "4294967296 - unat b" arbitrary: b rule: less_induct)
  case less
  have "P (sat_add b 1)" if "b \<noteq> - 1"
    using less [of "sat_add b 1"] unat_sat_suc [OF that] unat_block [of b] by simp
  then show ?case by (rule assms)
qed

section \<open>The search for a free block\<close>

lemma free_block_sound:
  "free_block taken b = Some c \<Longrightarrow> b \<le> c \<and> \<not> taken c \<and> (\<forall>x. b \<le> x \<longrightarrow> x < c \<longrightarrow> taken x)"
proof (induction rule: free_block.raw_induct [rotated, consumes 1, case_names step])
  case (step free_block taken b c)
  show ?case
  proof (cases "taken b")
    case False
    with step(2) have "c = b" by simp
    with False leD show ?thesis by blast
  next
    case True
    with step(2) have rec: "free_block taken (sat_add b 1) = Some c" by simp
    note ih = step(1) [OF rec]
    have "b \<le> c" using ih sat_suc_le order_trans by blast
    moreover have "taken x" if "b \<le> x" "x < c" for x
    proof (cases "x = b")
      case False
      with that have "b < x" by simp
      then have "b \<noteq> - 1" by (auto simp: not_less)
      from sat_suc_le_iff [OF this] \<open>b < x\<close> have "sat_add b 1 \<le> x" by blast
      with ih that show ?thesis by blast
    qed (simp add: True)
    ultimately show ?thesis using ih by blast
  qed
qed

lemma free_block_finds: "b \<le> c \<Longrightarrow> \<not> taken c \<Longrightarrow> \<exists>d. free_block taken b = Some d"
proof (induction b rule: block_induct)
  case (step b)
  show ?case
  proof (cases "taken b")
    case True
    from True step.prems have "b \<noteq> c" by blast
    with step.prems have "b < c" by simp
    then have "b \<noteq> - 1" by (metis word_order.extremum_strict)
    with step \<open>b < c\<close> True show ?thesis
      by (subst free_block.simps) (simp add: sat_suc_le_iff)
  qed (subst free_block.simps, simp)
qed

lemma free_block_None: "free_block taken b = None \<longleftrightarrow> (\<forall>c. b \<le> c \<longrightarrow> taken c)"
  using free_block_sound [of taken b] free_block_finds [of b _ taken]
  by (cases "free_block taken b") fastforce+

lemma free_block_Some:
  "free_block taken b = Some c \<longleftrightarrow> b \<le> c \<and> \<not> taken c \<and> (\<forall>x. b \<le> x \<longrightarrow> x < c \<longrightarrow> taken x)"
proof
  assume r: "b \<le> c \<and> \<not> taken c \<and> (\<forall>x. b \<le> x \<longrightarrow> x < c \<longrightarrow> taken x)"
  then obtain d where d: "free_block taken b = Some d" using free_block_finds by blast
  with free_block_sound [OF d] r have "d = c" by (metis linorder_neq_iff)
  with d show "free_block taken b = Some c" by simp
qed (rule free_block_sound)

section \<open>The scans\<close>

lemma scan_blocks_result:
  "scan_blocks p a l = Some r \<Longrightarrow> r = (\<exists>x. a \<le> x \<and> x \<le> l \<and> p x) \<and> (l = - 1 \<longrightarrow> r)"
proof (induction rule: scan_blocks.raw_induct [rotated, consumes 1, case_names step])
  case (step scan_blocks p a l r)
  consider "\<not> a \<le> l" | "a \<le> l" "p a" | "a \<le> l" "\<not> p a" by blast
  then show ?case
  proof cases
    case 1
    with step(2) have "\<not> r" by simp
    moreover have "\<not> (\<exists>x. a \<le> x \<and> x \<le> l \<and> p x)" using 1 order_trans by blast
    moreover have "l \<noteq> - 1" using 1 by auto
    ultimately show ?thesis by blast
  next
    case 2
    with step(2) have r by simp
    with 2 show ?thesis by blast
  next
    case 3
    with step(2) have rec: "scan_blocks p (sat_add a 1) l = Some r" by simp
    have "sat_add a 1 \<le> x \<longleftrightarrow> a \<le> x" if "p x" for x
      using 3 that by (cases "a = - 1") (auto simp: sat_suc_max sat_suc_le_iff order.strict_iff_order)
    with step(1) [OF rec] show ?thesis by blast
  qed
qed

lemma scan_blocks_ends: "l \<noteq> - 1 \<Longrightarrow> \<exists>r. scan_blocks p a l = Some r"
proof (induction a rule: block_induct)
  case (step a)
  show ?case
  proof (cases "a = - 1")
    case True
    with step have "\<not> a \<le> l" by (auto simp: word_order.extremum_unique)
    then show ?thesis by (subst scan_blocks.simps) auto
  next
    case False
    with step show ?thesis by (subst scan_blocks.simps) auto
  qed
qed

lemma scan_blocks_exact:
  assumes "l \<noteq> - 1"
  shows "scan_blocks p a l = Some (\<exists>x. a \<le> x \<and> x \<le> l \<and> p x)"
proof -
  obtain r where r: "scan_blocks p a l = Some r" using scan_blocks_ends [OF assms] by blast
  with scan_blocks_result [OF r] show ?thesis by blast
qed

lemma scan_blocks_stuck:
  assumes "\<forall>x. a \<le> x \<longrightarrow> \<not> p x"
  shows "scan_blocks p a (- 1) = None"
proof (cases "scan_blocks p a (- 1)")
  case (Some r)
  with scan_blocks_result [OF Some] assms show ?thesis by blast
qed

definition blocks_between :: "block \<Rightarrow> block \<Rightarrow> block list" where
  "blocks_between a l = map of_nat [unat a ..< Suc (unat l)]"

lemma blocks_between_step: "a \<le> l \<Longrightarrow> a \<noteq> - 1 \<Longrightarrow> blocks_between a l = a # blocks_between (sat_add a 1) l"
  by (simp add: blocks_between_def unat_sat_suc upt_conv_Cons word_le_nat_alt del: upt_Suc)

lemma set_blocks_between: "set (blocks_between a l) = {x. a \<le> x \<and> x \<le> l}"
proof -
  have "x \<in> set (blocks_between a l) \<longleftrightarrow> a \<le> x \<and> x \<le> l" for x
  proof
    assume "a \<le> x \<and> x \<le> l"
    then have "unat x \<in> {unat a ..< Suc (unat l)}" by (simp add: word_le_nat_alt)
    then have "of_nat (unat x) \<in> (of_nat :: nat \<Rightarrow> block) ` {unat a ..< Suc (unat l)}" by (rule imageI)
    then show "x \<in> set (blocks_between a l)" by (simp add: blocks_between_def del: upt_Suc)
  next
    assume "x \<in> set (blocks_between a l)"
    then obtain n where n: "unat a \<le> n" "n \<le> unat l" "x = of_nat n"
      by (auto simp: blocks_between_def)
    with unat_of_nat_le [OF n(2)] show "a \<le> x \<and> x \<le> l" by (simp add: word_le_nat_alt)
  qed
  then show ?thesis by blast
qed

lemma distinct_blocks_between: "distinct (blocks_between a l)"
  unfolding blocks_between_def distinct_map
proof
  show "inj_on (of_nat :: nat \<Rightarrow> block) (set [unat a ..< Suc (unat l)])"
  proof (rule inj_onI)
    fix x y assume "x \<in> set [unat a ..< Suc (unat l)]" "y \<in> set [unat a ..< Suc (unat l)]"
      and "of_nat x = (of_nat y :: block)"
    then show "x = y" by (metis unat_of_nat_le atLeastLessThan_iff less_Suc_eq_le set_upt)
  qed
qed simp

definition items_between :: "(block \<Rightarrow> 'v option) \<Rightarrow> block \<Rightarrow> block \<Rightarrow> (block \<times> 'v) list" where
  "items_between item a l = List.map_filter (\<lambda>b. map_option (Pair b) (item b)) (blocks_between a l)"

lemma set_map_filter: "set (List.map_filter f xs) = {y. \<exists>x \<in> set xs. f x = Some y}"
  by (induction xs) (auto simp: List.map_filter_simps split: option.splits)

lemma set_items_between:
  "set (items_between item a l) = {(b, v). a \<le> b \<and> b \<le> l \<and> item b = Some v}"
  by (auto simp: items_between_def set_map_filter set_blocks_between)

lemma collect_blocks_exact:
  "l \<noteq> - 1 \<Longrightarrow> collect_blocks item a l acc = Some (acc @ items_between item a l)"
proof (induction a arbitrary: acc rule: block_induct)
  case (step a)
  show ?case
  proof (cases "a \<le> l")
    case True
    with step(2) have ne: "a \<noteq> - 1" by (auto simp: word_order.extremum_unique)
    show ?thesis
      by (subst collect_blocks.simps)
        (simp add: True step(1) [OF ne step(2)] items_between_def blocks_between_step [OF True ne]
          List.map_filter_simps split: option.splits)
  next
    case False
    then have "blocks_between a l = []" by (simp add: blocks_between_def word_le_nat_alt)
    with False show ?thesis
      by (subst collect_blocks.simps) (simp add: items_between_def List.map_filter_simps)
  qed
qed

end
