(* ===== verification/AuthorMachine.thy ===== *)
theory AuthorMachine
  imports AuthorSchedule
begin

text \<open>
  The authors pallet as a transition system: a dispatched call (rolled back when it fails), an
  operation another pallet runs (rewards, penalties, roles, elections), the start of a block, and
  changes of the commitment pallet in between. The life cycle of an author and the invariant of
  the storage are proved for every step.
\<close>

section \<open>Calls\<close>

datatype (plugins only: code) ('w, 'd) author_call =
    CallEnlist asset fortitude_wrapper
  | CallBack "('w, 'd) funding_target" asset fortitude_wrapper precision_wrapper
  | CallRefill asset fortitude_wrapper
  | CallConfirm
  | CallExit "('w, 'd) funding_target"
  | CallDemit
  | CallCreateIndex "('w \<times> commit_shares) list"
  | CallCreatePool 'd commission
  | CallTransferPool 'd 'w
  | CallUpdateCommission 'd commission
  | CallUpdateEntryShares 'd 'd commit_shares
  | CallUpdateSlotShares 'd 'd commit_shares
  | CallMyCollateral
  | CallMyFund "('w, 'd) funding_target"
  | CallMyAuthorFund 'w "('w, 'd) funding_target"
  | CallShedRewards
  | CallShedPenalties
  | CallForceGenesisConfig genesis_field

fun dispatch_author ::
  "('w, 'r, 'd, 'x) author_config \<Rightarrow> 'w option \<Rightarrow> ('w, 'd) author_call \<Rightarrow> ('w, 'r, 'd, 'x, unit) author_op" where
  "dispatch_author C org (CallEnlist v f) = enlist C org v f"
| "dispatch_author C org (CallBack via v f p) = back_call C org via v f p"
| "dispatch_author C org (CallRefill v f) = refill C org v f"
| "dispatch_author C org CallConfirm = confirm C org"
| "dispatch_author C org (CallExit from) = exit_fund C org from"
| "dispatch_author C org CallDemit = demit C org"
| "dispatch_author C org (CallCreateIndex es) = create_index C org es"
| "dispatch_author C org (CallCreatePool i c) = create_pool C org i c"
| "dispatch_author C org (CallTransferPool p to) = transfer_pool C org p to"
| "dispatch_author C org (CallUpdateCommission i c) = update_commission C org i c"
| "dispatch_author C org (CallUpdateEntryShares i e sh) = update_entry_shares C org i e sh"
| "dispatch_author C org (CallUpdateSlotShares p sl sh) = update_slot_shares C org p sl sh"
| "dispatch_author C org CallMyCollateral = my_collateral C org"
| "dispatch_author C org (CallMyFund from) = my_fund C org from"
| "dispatch_author C org (CallMyAuthorFund a from) = my_author_fund C org a from"
| "dispatch_author C org CallShedRewards = shed_rewards org"
| "dispatch_author C org CallShedPenalties = shed_penalties org"
| "dispatch_author C org (CallForceGenesisConfig field) = force_author_config org field"

text \<open>The operations of the role, compensation and election traits that other pallets run. What
  they wrote before an error is kept unless the caller rolls it back, so both are steps.\<close>

datatype (plugins only: code) ('w, 'd) author_trait_call =
    OpEnroll 'w asset fortitude
  | OpResign 'w
  | OpSetStatus 'w author_status
  | OpAddCollateral 'w asset fortitude
  | OpFund 'w "('w, 'd) funder" asset precision fortitude
  | OpDraw 'w "('w, 'd) funder"
  | OpSetHold 'w asset
  | OpPenalize 'w ratio
  | OpForgive 'w block
  | OpReward 'w asset
  | OpReclaim 'w block
  | OpSetPermanence 'w
  | OpRevokePermanence 'w
  | OpRiskProbation 'w
  | OpRiskPermanence 'w
  | OpSecurePermanence 'w
  | OpStoreElected "'w list"

fun run_trait_call ::
  "('w, 'r, 'd, 'x) author_config \<Rightarrow> ('w, 'd) author_trait_call \<Rightarrow> ('w, 'r, 'd, 'x, unit) author_op" where
  "run_trait_call C (OpEnroll w v f) = thenO (enroll C w v f) (ret ())"
| "run_trait_call C (OpResign w) = thenO (resign C w) (ret ())"
| "run_trait_call C (OpSetStatus w st) = set_status C w st"
| "run_trait_call C (OpAddCollateral w v f) = thenO (add_collateral C w v f) (ret ())"
| "run_trait_call C (OpFund w by v p f) = thenO (fund C w by v p f) (ret ())"
| "run_trait_call C (OpDraw w by) = thenO (draw C w by) (ret ())"
| "run_trait_call C (OpSetHold w v) = set_hold C w v"
| "run_trait_call C (OpPenalize w f) = thenO (penalize C w f) (ret ())"
| "run_trait_call C (OpForgive w b) = thenO (forgive C w b) (ret ())"
| "run_trait_call C (OpReward w v) = thenO (reward C w v) (ret ())"
| "run_trait_call C (OpReclaim w b) = thenO (reclaim C w b) (ret ())"
| "run_trait_call C (OpSetPermanence w) = thenO (set_permanence C w) (ret ())"
| "run_trait_call C (OpRevokePermanence w) = thenO (revoke_permanence C w) (ret ())"
| "run_trait_call C (OpRiskProbation w) = risk_probation C w"
| "run_trait_call C (OpRiskPermanence w) = risk_permanence C w"
| "run_trait_call C (OpSecurePermanence w) = secure_permanence C w"
| "run_trait_call C (OpStoreElected ws) = store_elected ws"

inductive author_step ::
  "('w, 'r, 'd, 'x) author_config \<Rightarrow> ('w, 'r, 'd, 'x) author_store \<Rightarrow> ('w, 'r, 'd, 'x) author_store \<Rightarrow> bool"
  for C where
  step_call: "transactional (dispatch_author C org dc) s = (res, t) \<Longrightarrow> author_step C s t"
| step_trait: "run_trait_call C op s = (res, t) \<Longrightarrow> author_step C s t"
| step_remove: "author_step C s (remove_elected w s)"
| step_block: "au_block s < b \<Longrightarrow> author_step C s (on_initialize C b (s\<lparr>au_block := b\<rparr>))"
| step_commitment: "author_step C s (s\<lparr>au_commit := c\<rparr>)"

section \<open>Frames\<close>

definition frame_of :: "(('w, 'r, 'd, 'x) author_store \<Rightarrow> bool) \<Rightarrow> bool" where
  "frame_of P \<longleftrightarrow> (\<forall>s c. P s \<longrightarrow> P (s\<lparr>au_commit := c\<rparr>)) \<and> (\<forall>s e. P s \<longrightarrow> P (s\<lparr>au_events := e\<rparr>))"

lemma frame_fields [simp]:
  "frame_of (\<lambda>s. au_authors s = A)" "frame_of (\<lambda>s. au_block s = b)"
  by (simp_all add: frame_of_def)

lemma keeps_on_commitment [intro]: "frame_of P \<Longrightarrow> keeps P (on_commitment f)"
  by (auto simp: keeps_def on_commitment_def frame_of_def split: prod.splits sum.splits)

lemma keeps_deposit_event: "frame_of P \<Longrightarrow> keeps P (deposit_author_event e)"
  by (auto simp: deposit_author_event_def frame_of_def intro!: keeps_modify)

lemma keeps_author_events [intro]:
  assumes "frame_of P"
  shows "keeps P (deposit_author_event e)" "keeps P (emit_event C e)" "keeps P (call_event C e)"
    "keeps P (on_risk C w st)" "keeps P (on_set_hold C w v)"
  using assms by (auto simp: emit_event_def call_event_def on_set_hold_def on_risk_def
      intro!: keeps_bindO keeps_deposit_event split: sum.split)

section \<open>The life cycle\<close>

text \<open>What may become of an author's record between two states of which the first is \<open>s\<close>.\<close>

definition status_edge :: "('w, 'r, 'd, 'x) author_store \<Rightarrow> 'w \<Rightarrow> 'd author_info \<Rightarrow> 'd author_info \<Rightarrow> bool" where
  "status_edge s w i j =
     ((ai_status i = Resigned \<and> ai_status j = Probation
         \<or> ai_min_fund j = ai_min_fund i \<and> ai_max_fund j = ai_max_fund i) \<and>
      (case (ai_status i, ai_status j) of
        (Probation, Active) \<Rightarrow> sat_add (ai_status_since i) (au_probation_period s) \<le> au_block s
            \<and> ai_risk_until i \<le> au_block s \<and> ai_since j = ai_since i \<and> ai_status_since j = ai_status_since i
      | (Active, Probation) \<Rightarrow> ai_status_since j = au_block s \<and> ai_since j = ai_since i
            \<and> ai_risk_until j > sat_add (au_block s) (au_probation_period s)
      | (Active, Resigned) \<Rightarrow> has_penalty w s = Inl (AuthorModule PenaltyNotFound)
            \<and> ai_since j = ai_since i \<and> ai_status_since j = ai_status_since i
      | (Resigned, Probation) \<Rightarrow> has_reward w s = Inl (AuthorModule RewardNotFound)
            \<and> j = author_info_re_enroll (au_block s) i
      | (a, b) \<Rightarrow> a = b \<and> ai_since j = ai_since i \<and> ai_status_since j = ai_status_since i))"

fun role_edge ::
  "('w, 'r, 'd, 'x) author_store \<Rightarrow> 'w \<Rightarrow> 'd author_info option \<Rightarrow> 'd author_info option \<Rightarrow> bool" where
  "role_edge s w None None = True"
| "role_edge s w None (Some j) = (j = author_info_new (au_block s) (ai_digest j))"
| "role_edge s w (Some i) None = False"
| "role_edge s w (Some i) (Some j) = (ai_digest j = ai_digest i \<and> status_edge s w i j)"

named_theorems role_intros \<open>operations that follow the life cycle\<close>

lemma role_edge_refl [simp]: "role_edge s w x x"
  by (cases x) (auto simp: status_edge_def split: author_status.split)

definition follows_at :: "('w, 'r, 'd, 'x) author_store \<Rightarrow> ('w, 'r, 'd, 'x, 'a) author_op \<Rightarrow> bool" where
  "follows_at s m = (\<forall>r t w. m s = (r, t) \<longrightarrow> role_edge s w (au_authors s w) (au_authors t w))"

lemma follows_atI:
  "(\<And>r t w. m s = (r, t) \<Longrightarrow> role_edge s w (au_authors s w) (au_authors t w)) \<Longrightarrow> follows_at s m"
  by (simp add: follows_at_def)

lemma follows_atD: "follows_at s m \<Longrightarrow> m s = (r, t) \<Longrightarrow> role_edge s w (au_authors s w) (au_authors t w)"
  by (simp add: follows_at_def)

definition quiet :: "('w, 'r, 'd, 'x, 'a) author_op \<Rightarrow> bool" where
  "quiet m = (\<forall>A. keeps (\<lambda>s. au_authors s = A) m)"

lemma quietD: "quiet m \<Longrightarrow> m s = (r, t) \<Longrightarrow> au_authors t = au_authors s"
  by (auto simp: quiet_def keeps_def)

lemma quiet_basic [role_intros]:
  "quiet (ret x)" "quiet (throw e)" "quiet (readE q)" "quiet (gets f)" "quiet (ensureO b e)"
  "quiet (ok_orO e y)" "quiet (on_commitment g)" "quiet (deposit_author_event v)"
  "quiet (emit_event C v)" "quiet (call_event C v)" "quiet (on_risk C w st)" "quiet (on_set_hold C w u)"
  by (auto simp: quiet_def)

lemma quiet_modify: "(\<And>s. au_authors (h s) = au_authors s) \<Longrightarrow> quiet (modify h)"
  by (simp add: quiet_def keeps_def)

lemma quiet_compose [role_intros]:
  "quiet m \<Longrightarrow> (\<And>x. quiet (f x)) \<Longrightarrow> quiet (bindO m f)"
  "quiet m \<Longrightarrow> quiet n \<Longrightarrow> quiet (thenO m n)"
  "quiet k \<Longrightarrow> quiet l \<Longrightarrow> quiet (if b then k else l)"
  "(\<And>a c. quiet (g a c)) \<Longrightarrow> quiet (case z of (a, c) \<Rightarrow> g a c)"
  by (auto simp: quiet_def split: prod.split)

lemma follows_quiet: "quiet m \<Longrightarrow> follows_at s m"
  by (rule follows_atI) (simp add: quietD)

lemma follows_then:
  assumes "follows_at s m" and "\<And>x. quiet (f x)"
  shows "follows_at s (bindO m f)"
proof (rule follows_atI)
  fix r t w assume run: "bindO m f s = (r, t)"
  obtain q s' where m: "m s = (q, s')" by (cases "m s")
  have "au_authors t = au_authors s'"
    using run m assms(2) by (cases q) (auto simp: bindO_def dest: quietD)
  with follows_atD [OF assms(1) m] show "role_edge s w (au_authors s w) (au_authors t w)" by simp
qed

lemma follows_thenO: "follows_at s m \<Longrightarrow> quiet n \<Longrightarrow> follows_at s (thenO m n)"
  unfolding thenO_def by (rule follows_then)

lemma follows_reads:
  "(\<And>x. q s = Inr x \<Longrightarrow> follows_at s (f x)) \<Longrightarrow> follows_at s (bindO (readE q) f)"
  "follows_at s (g (h s)) \<Longrightarrow> follows_at s (bindO (gets h) g)"
  "(\<And>x. y = Some x \<Longrightarrow> follows_at s (k x)) \<Longrightarrow> follows_at s (bindO (ok_orO e y) k)"
  "(\<And>x. q s = Inr x \<Longrightarrow> follows_at s n) \<Longrightarrow> follows_at s (thenO (readE q) n)"
  "(b \<Longrightarrow> follows_at s n) \<Longrightarrow> follows_at s (thenO (ensureO b e) n)"
  by (auto simp: follows_at_def split: sum.splits option.splits)

lemma follows_if:
  "(b \<Longrightarrow> follows_at s m) \<Longrightarrow> (\<not> b \<Longrightarrow> follows_at s n) \<Longrightarrow> follows_at s (if b then m else n)"
  by simp

lemma follows_pair:
  "(\<And>a c. z = (a, c) \<Longrightarrow> follows_at s (h a c)) \<Longrightarrow> follows_at s (case z of (a, c) \<Rightarrow> h a c)"
  by (cases z) simp

lemma follows_transactional: "follows_at s m \<Longrightarrow> follows_at s (transactional m)"
  by (rule follows_atI) (auto simp: transactional_def split: prod.splits sum.splits dest: follows_atD)

lemma on_author_result:
  assumes "on_author w f s = (r, t)"
  shows "(\<exists>i j. au_authors s w = Some i \<and> f i = Inr j \<and> r = Inr () \<and> t = s\<lparr>au_authors := (au_authors s)(w \<mapsto> j)\<rparr>)
    \<or> t = s \<and> (\<exists>e. r = Inl e)"
  using assms
  by (auto simp: on_author_def get_meta_def ok_orE_def bindE_def split: option.splits sum.splits)

lemma follows_on_author:
  assumes "\<And>i j. au_authors s w = Some i \<Longrightarrow> f i = Inr j \<Longrightarrow> ai_digest j = ai_digest i \<and> status_edge s w i j"
  shows "follows_at s (on_author w f)"
proof (rule follows_atI)
  fix r t v assume "on_author w f s = (r, t)"
  from on_author_result [OF this] show "role_edge s v (au_authors s v) (au_authors t v)"
  proof (elim disjE exE conjE)
    fix i j assume i: "au_authors s w = Some i" and j: "f i = Inr j"
      and t: "t = s\<lparr>au_authors := (au_authors s)(w \<mapsto> j)\<rparr>"
    have "role_edge s w (au_authors s w) (Some j)"
      unfolding i role_edge.simps by (rule assms [OF i j])
    then show ?thesis unfolding t by (cases "v = w") simp_all
  qed simp
qed

text \<open>The operations on probation and roles.\<close>

lemma follows_set_permanence: "follows_at s (set_permanence C w)"
  unfolding set_permanence_def
  by (intro follows_reads follows_thenO follows_on_author role_intros)
    (auto simp: can_be_permanent_def get_meta_def status_edge_def resultE_iffs split: author_status.splits if_splits)

lemma follows_revoke_permanence: "follows_at s (revoke_permanence C w)"
  unfolding revoke_permanence_def
  by (intro follows_reads follows_thenO follows_on_author role_intros)
    (auto simp: can_revoke_permanence_def get_meta_def status_edge_def resultE_iffs split: author_status.splits if_splits)

lemma same_status_edge:
  "ai_status j = ai_status i \<Longrightarrow> ai_since j = ai_since i \<Longrightarrow> ai_status_since j = ai_status_since i \<Longrightarrow>
     ai_min_fund j = ai_min_fund i \<Longrightarrow> ai_max_fund j = ai_max_fund i \<Longrightarrow> status_edge s w i j"
  by (auto simp: status_edge_def split: author_status.split)

lemma has_penalty_error:
  "\<not> is_ok (has_penalty w s) \<Longrightarrow> has_penalty w s \<noteq> Inl NeverReturns \<Longrightarrow> au_authors s w \<noteq> None \<Longrightarrow>
     has_penalty w s = Inl (AuthorModule PenaltyNotFound)"
  by (auto simp: has_penalty_def role_exists_def bindE_def ok_orE_def ensureE_def is_ok_def
      split: sum.splits option.splits if_splits)

lemma has_reward_error:
  "\<not> is_ok (has_reward w s) \<Longrightarrow> has_reward w s \<noteq> Inl NeverReturns \<Longrightarrow> au_authors s w \<noteq> None \<Longrightarrow>
     has_reward w s = Inl (AuthorModule RewardNotFound)"
  by (auto simp: has_reward_def role_exists_def bindE_def ok_orE_def ensureE_def is_ok_def
      split: sum.splits option.splits if_splits)

lemma can_resign_ok:
  assumes "can_resign C w s = Inr u" and "au_authors s w = Some i"
  shows "ai_status i = Active \<and> has_penalty w s = Inl (AuthorModule PenaltyNotFound)"
proof -
  from assms have "ai_status i = Active" and "\<not> is_ok (has_penalty w s) \<and> has_penalty w s \<noteq> Inl NeverReturns"
    by (auto simp: can_resign_def get_status_def get_meta_def is_okR_iff resultE_iffs split: author_status.splits)
  with has_penalty_error [of w s] assms(2) show ?thesis by simp
qed

lemma follows_resign: "follows_at s (resign C w)"
  unfolding resign_def
  by (intro follows_reads follows_thenO follows_on_author role_intros)
    (auto simp: status_edge_def dest: can_resign_ok)

lemma schedule_commit [simp]:
  "has_penalty w (s\<lparr>au_commit := c\<rparr>) = has_penalty w s"
  "has_reward w (s\<lparr>au_commit := c\<rparr>) = has_reward w s"
  by (simp_all add: has_penalty_def has_reward_def role_exists_def)

lemma status_edge_commit [simp]: "status_edge (s\<lparr>au_commit := c\<rparr>) w i j = status_edge s w i j"
  by (simp add: status_edge_def split: author_status.split)

lemma role_edge_commit [simp]: "role_edge (s\<lparr>au_commit := c\<rparr>) w x y = role_edge s w x y"
  by (cases x; cases y) simp_all

lemma on_commitment_frame: "on_commitment f s = (r, t) \<Longrightarrow> \<exists>c. t = s\<lparr>au_commit := c\<rparr>"
  by (auto simp: on_commitment_def split: prod.splits sum.splits)

lemma follows_after_commitment:
  assumes "\<And>x c. follows_at (s\<lparr>au_commit := c\<rparr>) (f x)"
  shows "follows_at s (bindO (on_commitment g) f)"
proof (rule follows_atI)
  fix r t w assume run: "bindO (on_commitment g) f s = (r, t)"
  obtain q s' where m: "on_commitment g s = (q, s')" by (cases "on_commitment g s")
  from on_commitment_frame [OF m] obtain c where s': "s' = s\<lparr>au_commit := c\<rparr>" by blast
  show "role_edge s w (au_authors s w) (au_authors t w)"
  proof (cases q)
    case (Inl e)
    with run m s' have "t = s\<lparr>au_commit := c\<rparr>" by (simp add: bindO_def)
    then show ?thesis by simp
  next
    case (Inr x)
    with run m s' have "f x (s\<lparr>au_commit := c\<rparr>) = (r, t)" by (simp add: bindO_def)
    from follows_atD [OF assms this, of w] show ?thesis by simp
  qed
qed

lemma follows_modify:
  "(\<And>w. role_edge s w (au_authors s w) (au_authors (h s) w)) \<Longrightarrow> follows_at s (modify h)"
  by (simp add: follows_at_def)

lemma can_enroll_ok:
  assumes "can_enroll C w v s = Inr u" and "au_authors s w = Some i"
  shows "ai_status i = Resigned \<and> has_reward w s = Inl (AuthorModule RewardNotFound)"
proof -
  from assms have "ai_status i = Resigned" and "\<not> is_ok (has_reward w s) \<and> has_reward w s \<noteq> Inl NeverReturns"
    by (auto simp: can_enroll_def role_exists_def get_status_def get_meta_def is_okR_iff resultE_iffs split: if_splits)
  with has_reward_error [of w s] assms(2) show ?thesis by simp
qed

lemma follows_enroll: "follows_at s (enroll C w v f)"
  unfolding enroll_def
proof (intro follows_reads follows_pair follows_after_commitment follows_thenO follows_modify role_intros)
  fix u z meta digest a minimum c b and x :: limits_product
  assume ok: "can_enroll C w v s = Inr u"
    and q: "(if is_ok (role_exists w s)
         then bindE (get_meta w s) (\<lambda>meta. Inr (author_info_re_enroll (au_block s) meta, ai_digest meta))
         else case gen_digest (ac_commit C) w of Inl _ \<Rightarrow> Inl (AuthorModule CannotGenerateCommitDigest)
              | Inr d \<Rightarrow> Inr (author_info_new (au_block s) d, d)) = Inr z" and z: "z = (meta, digest)"
  let ?s = "s\<lparr>au_commit := c\<rparr>"
  show "role_edge ?s b (au_authors ?s b)
     (au_authors (?s\<lparr>au_authors := (au_authors ?s)(w \<mapsto> meta), au_digests := (au_digests ?s)(digest \<mapsto> w)\<rparr>) b)"
  proof (cases "au_authors s w")
    case None
    with q z have "meta = author_info_new (au_block s) digest"
      by (auto simp: role_exists_def split: sum.splits)
    with None show ?thesis by (cases "b = w") (simp_all add: author_info_new_def)
  next
    case (Some i)
    with q z have "meta = author_info_re_enroll (au_block s) i"
      by (simp add: role_exists_def get_meta_def)
    with Some can_enroll_ok [OF ok Some] show ?thesis
      by (cases "b = w") (simp_all add: author_info_re_enroll_def status_edge_def)
  qed
qed

text \<open>Changes of the risk alone, in any number.\<close>

definition mild_change :: "'d author_info option \<Rightarrow> 'd author_info option \<Rightarrow> bool" where
  "mild_change x y = (map_option (\<lambda>i. i\<lparr>ai_risk_until := 0\<rparr>) x = map_option (\<lambda>i. i\<lparr>ai_risk_until := 0\<rparr>) y)"

definition mild :: "('w, 'r, 'd, 'x, 'a) author_op \<Rightarrow> bool" where
  "mild m = (\<forall>s r t w. m s = (r, t) \<longrightarrow> mild_change (au_authors s w) (au_authors t w))"

lemma mildD: "mild m \<Longrightarrow> m s = (r, t) \<Longrightarrow> mild_change (au_authors s w) (au_authors t w)"
  by (simp add: mild_def)

lemma mild_change_Some:
  assumes "mild_change (Some i) (Some j)"
  shows "ai_digest j = ai_digest i \<and> ai_status j = ai_status i \<and> ai_since j = ai_since i
    \<and> ai_status_since j = ai_status_since i \<and> ai_min_fund j = ai_min_fund i \<and> ai_max_fund j = ai_max_fund i"
proof -
  from assms have "i\<lparr>ai_risk_until := 0\<rparr> = j\<lparr>ai_risk_until := 0\<rparr>" by (simp add: mild_change_def)
  then have "f (i\<lparr>ai_risk_until := 0\<rparr>) = f (j\<lparr>ai_risk_until := 0\<rparr>)" for f :: "'a author_info \<Rightarrow> 'b" by simp
  from this [of ai_digest] show ?thesis
    using \<open>i\<lparr>ai_risk_until := 0\<rparr> = j\<lparr>ai_risk_until := 0\<rparr>\<close> by (cases i; cases j) simp
qed

lemma mild_edge: "mild_change x y \<Longrightarrow> role_edge s w x y"
  by (cases x; cases y) (auto simp: mild_change_def [of None] mild_change_def [of _ None]
      intro!: same_status_edge dest: mild_change_Some)

lemma mild_follows: "mild m \<Longrightarrow> follows_at s m"
  by (rule follows_atI) (auto intro: mild_edge dest: mildD)

lemma mild_quiet: "quiet m \<Longrightarrow> mild m"
  by (auto simp: mild_def mild_change_def dest: quietD)

lemma mild_bindO:
  assumes "mild m" and "\<And>x. mild (f x)"
  shows "mild (bindO m f)"
  unfolding mild_def
proof (intro allI impI)
  fix s r t w assume run: "bindO m f s = (r, t)"
  obtain q s' where m: "m s = (q, s')" by (cases "m s")
  note a = mildD [OF assms(1) m, of w]
  show "mild_change (au_authors s w) (au_authors t w)"
  proof (cases q)
    case (Inr x)
    with run m have "f x s' = (r, t)" by (simp add: bindO_def)
    from mildD [OF assms(2) this, of w] a show ?thesis by (simp add: mild_change_def)
  qed (use run m a in \<open>simp add: bindO_def\<close>)
qed

lemma mild_thenO: "mild m \<Longrightarrow> mild n \<Longrightarrow> mild (thenO m n)"
  unfolding thenO_def by (rule mild_bindO)

lemma mild_on_author:
  assumes "\<And>i j. f i = Inr j \<Longrightarrow> i\<lparr>ai_risk_until := 0\<rparr> = j\<lparr>ai_risk_until := 0\<rparr>"
  shows "mild (on_author w f)"
  unfolding mild_def
proof (intro allI impI)
  fix s r t v assume "on_author w f s = (r, t)"
  from on_author_result [OF this] show "mild_change (au_authors s v) (au_authors t v)"
    by (elim disjE exE conjE) (auto simp: mild_change_def dest: assms)
qed

lemmas mild_intros = mild_bindO mild_thenO

lemma mild_pair: "(\<And>a c. mild (h a c)) \<Longrightarrow> mild (case z of (a, c) \<Rightarrow> h a c)"
  by (cases z) simp

lemma mild_if: "mild m \<Longrightarrow> mild n \<Longrightarrow> mild (if b then m else n)"
  by simp

lemma mild_risks: "mild (risk_probation C w)" "mild (risk_permanence C w)" "mild (secure_permanence C w)"
  unfolding risk_probation_def risk_permanence_def secure_permanence_def
  by (intro mild_intros mild_pair mild_on_author mild_quiet role_intros;
      auto simp: raise_risk_def split: author_status.splits if_splits)+

lemma quiet_set_funder_of_all: "quiet (set_funder_of_all es b f)"
proof (induction es)
  case (Cons e es)
  obtain d n where e: "e = (d, n)" by (cases e)
  show ?case
    unfolding e set_funder_of_all.simps set_funder_def
    by (intro role_intros quiet_modify Cons) simp
qed (unfold set_funder_of_all.simps, rule role_intros)

lemma quiet_funding [role_intros]:
  "quiet (update_funders C to fu f)" "quiet (fund C to fu v p q)" "quiet (draw C to fu)"
  "quiet (add_collateral C w v q)" "quiet (set_hold C w v)"
  "quiet (schedule_penalty w factor)" "quiet (schedule_reward w v)"
proof -
  show u: "quiet (update_funders C to fu f)" for to fu f
    by (cases fu) (auto simp: update_funders_def set_funder_def
        intro!: role_intros quiet_modify quiet_set_funder_of_all)
  show "quiet (fund C to fu v p q)" "quiet (draw C to fu)"
    by (auto simp: fund_def draw_def Let_def intro!: role_intros u)
  show "quiet (add_collateral C w v q)" "quiet (set_hold C w v)"
    by (auto simp: add_collateral_def set_hold_def intro!: role_intros)
  show "quiet (schedule_penalty w factor)" "quiet (schedule_reward w v)"
    by (auto simp: schedule_penalty_def schedule_reward_def intro!: role_intros quiet_modify)
qed

lemma mild_compensation: "mild (reward C w v)" "mild (forgive C w b)" "quiet (reclaim C w b)"
proof -
  show "mild (reward C w v)"
    unfolding reward_def
    by (intro mild_intros mild_if mild_risks) (rule mild_quiet, intro role_intros)+
  show "mild (forgive C w b)"
    unfolding forgive_def
    by (intro mild_intros mild_risks mild_quiet role_intros quiet_modify) simp
  show "quiet (reclaim C w b)"
    unfolding reclaim_def by (intro role_intros quiet_modify) simp
qed

text \<open>A penalty raises the risk of an active author and may then end its permanence.\<close>

lemma emit_event_result: "emit_event C e s = (r, t) \<Longrightarrow> \<exists>es. t = s\<lparr>au_events := es\<rparr>"
  by (auto simp: emit_event_def deposit_author_event_def split: if_splits intro: exI [of _ "au_events s"])

lemma on_risk_result: "on_risk C w st s = (r, t) \<Longrightarrow> \<exists>es. t = s\<lparr>au_events := es\<rparr> \<and> r = Inr ()"
  by (auto simp: on_risk_def deposit_author_event_def split: if_splits sum.splits intro: exI [of _ "au_events s"])

lemma risk_permanence_result:
  assumes "risk_permanence C w s = (Inr u, t)"
  obtains i es where "au_authors s w = Some i" "ai_status i = Active"
    "t = s\<lparr>au_authors := (au_authors s)(w \<mapsto> raise_risk (au_block s) (au_increase_probation_by s) i),
            au_events := es\<rparr>"
proof -
  from assms obtain x s' where run: "on_author w (\<lambda>info. case ai_status info of
         Active \<Rightarrow> Inr (raise_risk (au_block s) (au_increase_probation_by s) info)
       | Resigned \<Rightarrow> Inl (AuthorModule AuthorResigned)
       | Probation \<Rightarrow> Inl (AuthorModule AuthorInProbation)) s = (Inr x, s')"
    and ev: "on_risk C w Active s' = (Inr u, t)"
    by (auto simp: risk_permanence_def thenO_Inr_iff)
  from on_author_result [OF run] obtain i j where i: "au_authors s w = Some i"
    and j: "(case ai_status i of
         Active \<Rightarrow> Inr (raise_risk (au_block s) (au_increase_probation_by s) i)
       | Resigned \<Rightarrow> Inl (AuthorModule AuthorResigned)
       | Probation \<Rightarrow> Inl (AuthorModule AuthorInProbation)) = Inr j"
    and s': "s' = s\<lparr>au_authors := (au_authors s)(w \<mapsto> j)\<rparr>"
    by blast
  from j have "ai_status i = Active" "j = raise_risk (au_block s) (au_increase_probation_by s) i"
    by (cases "ai_status i"; simp)+
  with i s' on_risk_result [OF ev] show thesis by (auto intro: that)
qed

lemma raise_risk_fields [simp]:
  "ai_digest (raise_risk b n i) = ai_digest i" "ai_status (raise_risk b n i) = ai_status i"
  "ai_since (raise_risk b n i) = ai_since i" "ai_status_since (raise_risk b n i) = ai_status_since i"
  "ai_min_fund (raise_risk b n i) = ai_min_fund i" "ai_max_fund (raise_risk b n i) = ai_max_fund i"
  by (simp_all add: raise_risk_def)

lemma follows_penalize_risk: "follows_at s (penalize_risk C w status)"
proof (cases status)
  case Active
  show ?thesis
  proof (rule follows_atI)
    fix r t v assume run: "penalize_risk C w status s = (r, t)"
    obtain q s' where q: "risk_permanence C w s = (q, s')" by (cases "risk_permanence C w s")
    show "role_edge s v (au_authors s v) (au_authors t v)"
    proof (cases q)
      case (Inl e)
      with run q Active have "t = s'" by (simp add: penalize_risk_def thenO_def bindO_def)
      with mildD [OF mild_risks(2) q] show ?thesis by (auto intro: mild_edge)
    next
      case (Inr u)
      with q obtain i es where i: "au_authors s w = Some i" "ai_status i = Active"
        and s': "s' = s\<lparr>au_authors := (au_authors s)(w \<mapsto> raise_risk (au_block s) (au_increase_probation_by s) i),
            au_events := es\<rparr>"
        by (auto elim: risk_permanence_result)
      from run q Inr Active have step: "(if is_ok (can_revoke_permanence w s') then thenO (revoke_permanence C w) (ret ()) else ret ()) s' = (r, t)"
        by (simp add: penalize_risk_def thenO_def bindO_def)
      show ?thesis
      proof (cases "au_authors t = au_authors s'")
        case True
        with i s' show ?thesis by (cases "v = w") (simp_all add: same_status_edge)
      next
        case False
        with step obtain r' where rev: "revoke_permanence C w s' = (r', t)"
          by (auto simp: thenO_def bindO_def split: if_splits prod.splits sum.splits)
        from False rev obtain u' where can: "can_revoke_permanence w s' = Inr u'"
          and ch: "au_authors t = (au_authors s')(w \<mapsto> (the (au_authors s' w))\<lparr>ai_status := Probation, ai_status_since := au_block s\<rparr>)"
          by (auto simp: revoke_permanence_def thenO_def bindO_def s' split: sum.splits prod.splits
              dest!: on_author_result emit_event_result)
        from can i s' have "sat_add (au_block s) (au_probation_period s) < ai_risk_until (raise_risk (au_block s) (au_increase_probation_by s) i)"
          by (auto simp: can_revoke_permanence_def get_meta_def resultE_iffs not_le split: author_status.splits if_splits)
        with i s' ch show ?thesis by (cases "v = w") (simp_all add: status_edge_def)
      qed
    qed
  qed
next
  case Probation
  show ?thesis by (simp add: penalize_risk_def Probation mild_follows mild_risks)
next
  case Resigned
  show ?thesis by (simp add: penalize_risk_def Resigned follows_quiet role_intros)
qed

lemma follows_penalize: "follows_at s (penalize C w factor)"
  unfolding penalize_def
  by (rule follows_reads)+
    (simp only: thenO_def, rule follows_then [OF follows_penalize_risk], intro role_intros)

lemma follows_status_change: "follows_at s (status_change C w current status)"
  by (cases current; cases status)
    (simp_all add: status_change_def follows_quiet follows_thenO follows_set_permanence
      follows_revoke_permanence follows_resign role_intros)

lemma follows_set_status: "follows_at s (set_status C w status)"
  unfolding set_status_def by (intro follows_reads follows_thenO follows_status_change role_intros)

lemma follows_trait_call: "follows_at s (run_trait_call C tc)"
proof (cases tc)
  case (OpStoreElected ws)
  then show ?thesis
    by (simp add: store_elected_def follows_quiet quiet_modify role_intros Let_def)
qed (simp_all add: follows_thenO follows_quiet mild_follows mild_risks mild_compensation
  follows_enroll follows_resign follows_set_status follows_penalize follows_set_permanence
  follows_revoke_permanence role_intros)

section \<open>Calls and the start of a block\<close>

lemma quiet_force_field: "quiet (force_field field)"
  by (cases field) (simp_all add: role_intros quiet_modify)

lemma quiet_calls:
  "quiet (back_call C org via v f p)" "quiet (refill C org v f)" "quiet (exit_fund C org via)"
  "quiet (create_index C org es)" "quiet (create_pool C org i com)" "quiet (transfer_pool C org i w)"
  "quiet (update_commission C org i com)" "quiet (update_entry_shares C org i e sh)"
  "quiet (update_slot_shares C org i e sh)" "quiet (my_collateral C org)"
  "quiet (my_author_fund C org w via)" "quiet (shed_rewards org)" "quiet (shed_penalties org)"
  "quiet (force_author_config org field)"
  unfolding back_call_def refill_def exit_fund_def create_index_def create_pool_def transfer_pool_def
    update_commission_def update_entry_shares_def update_slot_shares_def my_collateral_def
    my_author_fund_def shed_rewards_def shed_penalties_def force_author_config_def
    ensure_signed_def ensure_root_def
  by (intro role_intros quiet_force_field)+

lemma quiet_my_fund: "quiet (my_fund C org via)"
  unfolding my_fund_def ensure_signed_def by (intro role_intros, cases via) (simp_all add: role_intros)

lemma follows_role_calls:
  "follows_at s (enlist C org v f)" "follows_at s (confirm C org)" "follows_at s (demit C org)"
  unfolding enlist_def confirm_def demit_def ensure_signed_def
  by (intro follows_reads follows_then [OF follows_enroll] follows_thenO [OF follows_set_status]
      follows_then [OF follows_resign] role_intros)+

lemma follows_dispatch: "follows_at s (dispatch_author C org dc)"
  by (cases dc) (simp_all add: follows_quiet quiet_calls quiet_my_fund follows_role_calls)

lemma settle_hold_authors: "au_authors (settle_hold C w f s) = au_authors s"
proof -
  have q: "quiet (set_hold C w v)" "quiet (on_set_hold C w v)" for v by (rule role_intros)+
  show ?thesis
    by (auto simp: settle_hold_def split: sum.split prod.split dest!: quietD [OF q(1)])
      (metis prod.collapse quietD [OF q(2)])
qed

lemma settle_rewards_authors: "au_authors (settle_rewards C b xs s) = au_authors s"
  by (induction C b xs s rule: settle_rewards.induct) (simp_all add: Let_def settle_hold_authors)

lemma settle_penalties_authors: "au_authors (settle_penalties C b xs s) = au_authors s"
  by (induction C b xs s rule: settle_penalties.induct) (simp_all add: Let_def settle_hold_authors)

lemma author_step_edges:
  assumes "author_step C s t"
  shows "role_edge s w (au_authors s w) (au_authors t w)"
  using assms
proof cases
  case (step_call org dc res)
  then show ?thesis by (rule follows_atD [OF follows_transactional [OF follows_dispatch]])
next
  case (step_trait tc res)
  then show ?thesis by (rule follows_atD [OF follows_trait_call])
next
  case (step_remove w')
  then show ?thesis by (simp add: remove_elected_def)
next
  case (step_block b)
  then show ?thesis
    by (simp add: on_initialize_def Let_def settle_penalties_authors settle_rewards_authors)
next
  case (step_commitment c)
  then show ?thesis by simp
qed

end
