(* ===== verification/AuthorInvariant.thy ===== *)
theory AuthorInvariant
  imports AuthorMachine
begin

text \<open>
  The invariant of the authors pallet's storage: the configuration is consistent, every scheduled
  reward and penalty belongs to an author and lies within the bound the scans use, and the dates
  of an author's record are in order. With the bound, the scans of the schedule are exact.
\<close>

section \<open>The invariant\<close>

definition author_config_ok :: "('w, 'r, 'd, 'x) author_store \<Rightarrow> bool" where
  "author_config_ok s \<longleftrightarrow> au_min_collateral s \<noteq> 0 \<and> au_min_fund s \<noteq> 0 \<and> au_min_fund s \<le> au_max_exposure s
     \<and> au_min_elected s \<noteq> 0 \<and> au_min_elected s \<le> au_max_elected s"

definition schedule_ok :: "('w, 'r, 'd, 'x) author_store \<Rightarrow> bool" where
  "schedule_ok s \<longleftrightarrow>
     (\<forall>b w. au_rewards s (b, w) \<noteq> None \<longrightarrow> b \<le> au_rewards_until s \<and> au_authors s w \<noteq> None) \<and>
     (\<forall>b w p. au_penalties s (b, w) = Some p \<longrightarrow>
        b \<le> au_penalties_until s \<and> au_authors s w \<noteq> None \<and> p \<noteq> 0)"

definition records_ok :: "('w, 'r, 'd, 'x) author_store \<Rightarrow> bool" where
  "records_ok s \<longleftrightarrow> (\<forall>w i. au_authors s w = Some i \<longrightarrow>
     ai_since i \<le> ai_status_since i \<and> ai_status_since i \<le> au_block s
     \<and> ai_min_fund i = None \<and> ai_max_fund i = None)"

definition author_inv :: "('w, 'r, 'd, 'x) author_store \<Rightarrow> bool" where
  "author_inv s \<longleftrightarrow> author_config_ok s \<and> schedule_ok s \<and> records_ok s"

section \<open>What the operations leave alone\<close>

text \<open>The configuration and the block number: only \<open>force_genesis_config\<close> and the start of a block
  write them.\<close>

definition settings :: "('w, 'r, 'd, 'x) author_store \<Rightarrow> (asset \<times> asset \<times> asset \<times> u32 \<times> u32 \<times> block)" where
  "settings s = (au_min_collateral s, au_min_fund s, au_max_exposure s, au_min_elected s, au_max_elected s, au_block s)"

definition steady :: "('w, 'r, 'd, 'x, 'a) author_op \<Rightarrow> bool" where
  "steady m = (\<forall>A. keeps (\<lambda>s. settings s = A) m)"

lemma steadyD: "steady m \<Longrightarrow> m s = (r, t) \<Longrightarrow> settings t = settings s"
  unfolding steady_def keeps_def by blast

named_theorems steady_intros \<open>operations that leave the settings alone\<close>

lemma steady_frame: "frame_of (\<lambda>s. settings s = A)"
  by (simp add: frame_of_def settings_def)

lemma steady_basic [steady_intros]:
  "steady (ret x)" "steady (throw e)" "steady (readE q)" "steady (gets f)" "steady (ensureO b e)"
  "steady (ok_orO e y)" "steady (on_commitment g)" "steady (deposit_author_event v)"
  "steady (emit_event C v)" "steady (call_event C v)" "steady (on_risk C w st)" "steady (on_set_hold C w u)"
  by (auto simp: steady_def intro: steady_frame)

lemma steady_modify: "(\<And>s. settings (h s) = settings s) \<Longrightarrow> steady (modify h)"
  by (simp add: steady_def keeps_def)

lemma steady_compose [steady_intros]:
  "steady m \<Longrightarrow> (\<And>x. steady (f x)) \<Longrightarrow> steady (bindO m f)"
  "steady m \<Longrightarrow> steady n \<Longrightarrow> steady (thenO m n)"
  "steady k \<Longrightarrow> steady l \<Longrightarrow> steady (if b then k else l)"
  "(\<And>a c. steady (g a c)) \<Longrightarrow> steady (case z of (a, c) \<Rightarrow> g a c)"
  by (auto simp: steady_def split: prod.split)

lemma steady_on_author [steady_intros]: "steady (on_author w f)"
  unfolding on_author_def by (intro steady_intros steady_modify) (simp add: settings_def)

lemma steady_roles [steady_intros]:
  "steady (set_permanence C w)" "steady (revoke_permanence C w)" "steady (risk_probation C w)"
  "steady (risk_permanence C w)" "steady (secure_permanence C w)" "steady (resign C w)"
  "steady (add_collateral C w v p)"
  unfolding set_permanence_def revoke_permanence_def risk_probation_def risk_permanence_def
    secure_permanence_def resign_def add_collateral_def
  by (intro steady_intros)+

lemma steady_enroll [steady_intros]: "steady (enroll C w v f)"
  unfolding enroll_def by (intro steady_intros steady_modify) (simp add: settings_def)

lemma steady_status_change [steady_intros]: "steady (status_change C w current status)"
  by (cases current; cases status) (simp_all add: status_change_def steady_intros)

lemma steady_set_status [steady_intros]: "steady (set_status C w status)"
  unfolding set_status_def by (intro steady_intros)

lemma steady_set_funder_of_all: "steady (set_funder_of_all es b f)"
proof (induction es)
  case (Cons e es)
  obtain d n where e: "e = (d, n)" by (cases e)
  show ?case
    unfolding e set_funder_of_all.simps set_funder_def
    by (intro steady_intros steady_modify Cons) (simp add: settings_def)
qed (unfold set_funder_of_all.simps, rule steady_intros)

lemma steady_funding [steady_intros]:
  "steady (update_funders C to fu f)" "steady (fund C to fu v p q)" "steady (draw C to fu)"
proof -
  show u: "steady (update_funders C to fu f)" for to fu f
    by (cases fu) (auto simp: update_funders_def set_funder_def settings_def
        intro!: steady_intros steady_modify steady_set_funder_of_all)
  show "steady (fund C to fu v p q)" "steady (draw C to fu)"
    by (auto simp: fund_def draw_def Let_def intro!: steady_intros u)
qed

lemma steady_penalize_risk [steady_intros]: "steady (penalize_risk C w st)"
  by (cases st) (auto simp: penalize_risk_def intro!: steady_intros)

lemma steady_compensation [steady_intros]:
  "steady (set_hold C w v)" "steady (schedule_penalty w p)" "steady (schedule_reward w v)"
  "steady (penalize C w p)" "steady (forgive C w b)" "steady (reward C w v)" "steady (reclaim C w b)"
proof -
  show h: "steady (set_hold C w v)" "steady (schedule_penalty w p)" "steady (schedule_reward w v)"
    unfolding set_hold_def schedule_penalty_def schedule_reward_def
    by (intro steady_intros steady_modify; simp add: settings_def)+
  show "steady (penalize C w p)" "steady (forgive C w b)" "steady (reward C w v)" "steady (reclaim C w b)"
    unfolding penalize_def forgive_def reward_def reclaim_def
    by (intro steady_intros steady_modify h; simp add: settings_def)+
qed

lemma steady_store_elected [steady_intros]: "steady (store_elected ws)"
  unfolding store_elected_def by (intro steady_intros steady_modify) (simp add: settings_def Let_def)

lemma steady_trait_call: "steady (run_trait_call C tc)"
  by (cases tc) (simp_all add: steady_intros)

lemma steady_calls:
  "steady (enlist C org v fw)" "steady (confirm C org)" "steady (demit C org)"
  "steady (back_call C org via v fw p)" "steady (refill C org v fw)" "steady (exit_fund C org via)"
  "steady (create_index C org es)" "steady (create_pool C org i com)" "steady (transfer_pool C org i w)"
  "steady (update_commission C org i com)" "steady (update_entry_shares C org i e sh)"
  "steady (update_slot_shares C org i e sh)" "steady (my_collateral C org)"
  "steady (my_author_fund C org w via)" "steady (shed_rewards org)" "steady (shed_penalties org)"
  unfolding enlist_def confirm_def demit_def back_call_def refill_def exit_fund_def create_index_def
    create_pool_def transfer_pool_def update_commission_def update_entry_shares_def
    update_slot_shares_def my_collateral_def my_author_fund_def shed_rewards_def shed_penalties_def
    ensure_signed_def
  by (intro steady_intros)+

lemma steady_my_fund: "steady (my_fund C org via)"
  unfolding my_fund_def ensure_signed_def by (intro steady_intros, cases via) (simp_all add: steady_intros)

lemma settle_settings: "settings (settle_hold C w f s) = settings s"
proof -
  have q: "steady (set_hold C w v)" "steady (on_set_hold C w v)" for v by (rule steady_intros)+
  show ?thesis
    by (auto simp: settle_hold_def split: sum.split prod.split dest!: steadyD [OF q(1)])
      (metis prod.collapse steadyD [OF q(2)])
qed

section \<open>The schedule\<close>

definition scheduled :: "'w set \<Rightarrow> ('w, 'r, 'd, 'x) author_store \<Rightarrow> bool" where
  "scheduled W s \<longleftrightarrow> schedule_ok s \<and> (\<forall>w \<in> W. au_authors s w \<noteq> None)"

named_theorems sched_intros \<open>operations that keep the schedule\<close>

lemma scheduled_same:
  "au_rewards t = au_rewards s \<Longrightarrow> au_penalties t = au_penalties s \<Longrightarrow>
   au_rewards_until t = au_rewards_until s \<Longrightarrow> au_penalties_until t = au_penalties_until s \<Longrightarrow>
   (\<And>w. au_authors s w \<noteq> None \<Longrightarrow> au_authors t w \<noteq> None) \<Longrightarrow> scheduled W s \<Longrightarrow> scheduled W t"
  by (simp add: scheduled_def schedule_ok_def)

lemma frame_scheduled: "frame_of (scheduled W)"
  by (auto simp: frame_of_def elim: scheduled_same [rotated -1])

lemma sched_basic [sched_intros]:
  "keeps (scheduled W) (ret x)" "keeps (scheduled W) (throw e)" "keeps (scheduled W) (readE q)"
  "keeps (scheduled W) (gets f)" "keeps (scheduled W) (ensureO b e)" "keeps (scheduled W) (ok_orO e y)"
  "keeps (scheduled W) (on_commitment g)" "keeps (scheduled W) (deposit_author_event v)"
  "keeps (scheduled W) (emit_event C v)" "keeps (scheduled W) (call_event C v)"
  "keeps (scheduled W) (on_risk C w st)" "keeps (scheduled W) (on_set_hold C w u)"
  by (auto intro: frame_scheduled)

lemma sched_compose [sched_intros]:
  "keeps (scheduled W) m \<Longrightarrow> (\<And>x. keeps (scheduled W) (f x)) \<Longrightarrow> keeps (scheduled W) (bindO m f)"
  "keeps (scheduled W) m \<Longrightarrow> keeps (scheduled W) n \<Longrightarrow> keeps (scheduled W) (thenO m n)"
  "keeps (scheduled W) k \<Longrightarrow> keeps (scheduled W) l \<Longrightarrow> keeps (scheduled W) (if b then k else l)"
  "(\<And>a c. keeps (scheduled W) (g a c)) \<Longrightarrow> keeps (scheduled W) (case z of (a, c) \<Rightarrow> g a c)"
  by (auto split: prod.split)

lemma sched_modify:
  "(\<And>s. au_rewards (h s) = au_rewards s \<and> au_penalties (h s) = au_penalties s \<and>
     au_rewards_until (h s) = au_rewards_until s \<and> au_penalties_until (h s) = au_penalties_until s \<and>
     (\<forall>w. au_authors s w \<noteq> None \<longrightarrow> au_authors (h s) w \<noteq> None)) \<Longrightarrow> keeps (scheduled W) (modify h)"
  by (rule keeps_modify) (rule scheduled_same; blast)

lemma sched_on_author [sched_intros]: "keeps (scheduled W) (on_author w f)"
  unfolding on_author_def by (intro sched_intros sched_modify) simp

lemma sched_roles [sched_intros]:
  "keeps (scheduled W) (set_permanence C w)" "keeps (scheduled W) (revoke_permanence C w)"
  "keeps (scheduled W) (risk_probation C w)" "keeps (scheduled W) (risk_permanence C w)"
  "keeps (scheduled W) (secure_permanence C w)" "keeps (scheduled W) (resign C w)"
  "keeps (scheduled W) (add_collateral C w v p)"
  unfolding set_permanence_def revoke_permanence_def risk_probation_def risk_permanence_def
    secure_permanence_def resign_def add_collateral_def
  by (intro sched_intros)+

lemma sched_enroll [sched_intros]: "keeps (scheduled W) (enroll C w v f)"
  unfolding enroll_def by (intro sched_intros sched_modify) simp

lemma sched_set_status [sched_intros]:
  "keeps (scheduled W) (status_change C w current status)" "keeps (scheduled W) (set_status C w status)"
proof -
  show c: "keeps (scheduled W) (status_change C w current status)" for current
    by (cases current; cases status) (simp_all add: status_change_def sched_intros)
  show "keeps (scheduled W) (set_status C w status)"
    unfolding set_status_def by (intro sched_intros c)
qed

lemma sched_set_funder_of_all: "keeps (scheduled W) (set_funder_of_all es b f)"
proof (induction es)
  case (Cons e es)
  obtain d n where e: "e = (d, n)" by (cases e)
  show ?case
    unfolding e set_funder_of_all.simps set_funder_def
    by (intro sched_intros sched_modify Cons) simp
qed (unfold set_funder_of_all.simps, rule sched_intros)

lemma sched_funding [sched_intros]:
  "keeps (scheduled W) (update_funders C to fu f)" "keeps (scheduled W) (fund C to fu v p q)"
  "keeps (scheduled W) (draw C to fu)" "keeps (scheduled W) (set_hold C w v)"
proof -
  show u: "keeps (scheduled W) (update_funders C to fu f)" for to fu f
    by (cases fu) (auto simp: update_funders_def set_funder_def
        intro!: sched_intros sched_modify sched_set_funder_of_all)
  show "keeps (scheduled W) (fund C to fu v p q)" "keeps (scheduled W) (draw C to fu)"
    by (auto simp: fund_def draw_def Let_def intro!: sched_intros u)
  show "keeps (scheduled W) (set_hold C w v)"
    unfolding set_hold_def by (intro sched_intros)
qed

lemma sched_penalize_risk [sched_intros]: "keeps (scheduled W) (penalize_risk C w st)"
  by (cases st) (auto simp: penalize_risk_def intro!: sched_intros)

lemma sched_store_elected [sched_intros]: "keeps (scheduled W) (store_elected ws)"
  unfolding store_elected_def by (intro sched_intros sched_modify) (simp add: Let_def)

text \<open>Scheduling raises the bound as far as the block it chose; removing leaves the bound.\<close>

lemma sched_schedule:
  assumes "w \<in> W"
  shows "p \<noteq> 0 \<Longrightarrow> keeps (scheduled W) (schedule_penalty w p)" "keeps (scheduled W) (schedule_reward w v)"
proof -
  show "keeps (scheduled W) (schedule_penalty w p)" if "p \<noteq> 0"
    unfolding schedule_penalty_def using assms that
    by (intro sched_intros keeps_modify)
      (fastforce simp: scheduled_def schedule_ok_def split: if_splits)
  show "keeps (scheduled W) (schedule_reward w v)"
    unfolding schedule_reward_def using assms
    by (intro sched_intros keeps_modify)
      (fastforce simp: scheduled_def schedule_ok_def split: if_splits)
qed

lemma sched_removal [sched_intros]:
  "keeps (scheduled W) (modify (\<lambda>s. s\<lparr>au_penalties := (au_penalties s)(k := None)\<rparr>))"
  "keeps (scheduled W) (modify (\<lambda>s. s\<lparr>au_rewards := (au_rewards s)(k := None)\<rparr>))"
  by (rule keeps_modify, auto simp: scheduled_def schedule_ok_def)+

lemma sched_with_author:
  assumes "keeps (scheduled (insert w W)) m" and "\<And>s. au_authors s w = None \<Longrightarrow> snd (m s) = s"
  shows "keeps (scheduled W) m"
proof (rule keepsI)
  fix s r t assume s: "scheduled W s" and run: "m s = (r, t)"
  show "scheduled W t"
  proof (cases "au_authors s w")
    case None
    with assms(2) [OF this] run s show ?thesis by simp
  next
    case (Some i)
    with s have "scheduled (insert w W) s" by (simp add: scheduled_def)
    with assms(1) run have "scheduled (insert w W) t" by (blast intro: keepsE)
    then show ?thesis by (simp add: scheduled_def)
  qed
qed

lemma no_author_status: "au_authors s w = None \<Longrightarrow> get_status w s = Inl (AuthorModule AuthorNotFound)"
  by (simp add: get_status_def get_meta_def)

lemma sched_compensation [sched_intros]:
  "keeps (scheduled W) (penalize C w p)" "keeps (scheduled W) (reward C w v)"
  "keeps (scheduled W) (forgive C w b)" "keeps (scheduled W) (reclaim C w b)"
proof -
  show "keeps (scheduled W) (penalize C w p)"
  proof (cases "p = 0")
    case True
    then show ?thesis by (simp add: penalize_def keeps_def)
  next
    case False
    show ?thesis
    proof (rule sched_with_author)
      show "keeps (scheduled (insert w W)) (penalize C w p)"
        unfolding penalize_def using False by (intro sched_intros sched_schedule) simp_all
      show "snd (penalize C w p s) = s" if "au_authors s w = None" for s
        using no_author_status [OF that] by (simp add: penalize_def)
    qed
  qed
  show "keeps (scheduled W) (reward C w v)"
  proof (rule sched_with_author)
    show "keeps (scheduled (insert w W)) (reward C w v)"
      unfolding reward_def by (intro sched_intros sched_schedule) simp_all
    show "snd (reward C w v s) = s" if "au_authors s w = None" for s
      using no_author_status [OF that] by (simp add: reward_def)
  qed
  show "keeps (scheduled W) (forgive C w b)" "keeps (scheduled W) (reclaim C w b)"
    unfolding forgive_def reclaim_def by (intro sched_intros)+
qed

lemma sched_trait_call: "keeps (scheduled W) (run_trait_call C tc)"
  by (cases tc) (simp_all add: sched_intros)

section \<open>Calls, the start of a block and the invariant\<close>

lemma sched_calls:
  "keeps (scheduled W) (enlist C org v fw)" "keeps (scheduled W) (confirm C org)"
  "keeps (scheduled W) (demit C org)" "keeps (scheduled W) (back_call C org via v fw p)"
  "keeps (scheduled W) (refill C org v fw)" "keeps (scheduled W) (exit_fund C org via)"
  "keeps (scheduled W) (create_index C org es)" "keeps (scheduled W) (create_pool C org i com)"
  "keeps (scheduled W) (transfer_pool C org i w)" "keeps (scheduled W) (update_commission C org i com)"
  "keeps (scheduled W) (update_entry_shares C org i e sh)"
  "keeps (scheduled W) (update_slot_shares C org i e sh)" "keeps (scheduled W) (my_collateral C org)"
  "keeps (scheduled W) (my_author_fund C org w via)" "keeps (scheduled W) (shed_rewards org)"
  "keeps (scheduled W) (shed_penalties org)"
  unfolding enlist_def confirm_def demit_def back_call_def refill_def exit_fund_def create_index_def
    create_pool_def transfer_pool_def update_commission_def update_entry_shares_def
    update_slot_shares_def my_collateral_def my_author_fund_def shed_rewards_def shed_penalties_def
    ensure_signed_def
  by (intro sched_intros)+

lemma sched_my_fund: "keeps (scheduled W) (my_fund C org via)"
  unfolding my_fund_def ensure_signed_def by (intro sched_intros, cases via) (simp_all add: sched_intros)

lemma sched_force: "keeps (scheduled W) (force_author_config org field)"
  unfolding force_author_config_def ensure_root_def
  by (intro sched_intros, cases field) (simp_all add: sched_intros sched_modify)

lemma sched_dispatch: "keeps (scheduled W) (dispatch_author C org dc)"
  by (cases dc) (simp_all add: sched_calls sched_my_fund sched_force)

lemma steady_dispatch:
  "\<not> (\<exists>field. dc = CallForceGenesisConfig field) \<Longrightarrow> steady (dispatch_author C org dc)"
  by (cases dc) (simp_all add: steady_calls steady_my_fund)

text \<open>\<open>force_genesis_config\<close> refuses a value that would contradict another.\<close>

lemma keeps_config_force:
  "keeps (\<lambda>s. author_config_ok s \<and> au_block s = b) (force_author_config org field)"
  unfolding force_author_config_def ensure_root_def
  by (intro keeps_thenO keeps_basic keeps_deposit_event, cases field)
    (auto simp: keeps_def author_config_ok_def frame_of_def ensureE_Inr_iff split: sum.splits if_splits)

lemma author_config_ok_settings: "settings t = settings s \<Longrightarrow> author_config_ok t = author_config_ok s \<and> au_block t = au_block s"
  by (simp add: settings_def author_config_ok_def)

lemma config_dispatch:
  assumes "dispatch_author C org dc s = (r, t)" and "author_config_ok s"
  shows "author_config_ok t \<and> au_block t = au_block s"
proof (cases "\<exists>field. dc = CallForceGenesisConfig field")
  case True
  then obtain field where "dc = CallForceGenesisConfig field" by blast
  with assms(1) have "force_author_config org field s = (r, t)" by simp
  from keepsE [OF keeps_config_force _ this, of "au_block s"] assms(2) show ?thesis by simp
next
  case False
  then have "steady (dispatch_author C org dc)" by (rule steady_dispatch)
  from author_config_ok_settings [OF steadyD [OF this assms(1)]] assms(2) show ?thesis by blast
qed

lemma settle_scheduled: "scheduled W s \<Longrightarrow> scheduled W (settle_hold C w f s)"
proof -
  have q: "keeps (scheduled W) (set_hold C w v)" "keeps (scheduled W) (on_set_hold C w v)" for v
    by (rule sched_intros)+
  show "scheduled W s \<Longrightarrow> ?thesis"
    by (auto simp: settle_hold_def split: sum.split prod.split intro!: keepsD [OF q(2)]
        dest: keepsE [OF q(1)])
qed

lemma settle_lists:
  "settings (settle_rewards C b xs s) = settings s \<and> (scheduled W s \<longrightarrow> scheduled W (settle_rewards C b xs s))"
  "settings (settle_penalties C b ys s) = settings s \<and> (scheduled W s \<longrightarrow> scheduled W (settle_penalties C b ys s))"
proof -
  have rem: "scheduled W t \<Longrightarrow> scheduled W (t\<lparr>au_rewards := (au_rewards t)(k := None)\<rparr>)"
    "scheduled W t \<Longrightarrow> scheduled W (t\<lparr>au_penalties := (au_penalties t)(k := None)\<rparr>)" for t k
    by (auto simp: scheduled_def schedule_ok_def)
  have sets: "settings (t\<lparr>au_rewards := f\<rparr>) = settings t" "settings (t\<lparr>au_penalties := g\<rparr>) = settings t" for t f g
    by (simp_all add: settings_def)
  show "settings (settle_rewards C b xs s) = settings s \<and> (scheduled W s \<longrightarrow> scheduled W (settle_rewards C b xs s))"
    by (induction C b xs s rule: settle_rewards.induct)
      (auto simp: Let_def sets settle_settings intro: rem settle_scheduled)
  show "settings (settle_penalties C b ys s) = settings s \<and> (scheduled W s \<longrightarrow> scheduled W (settle_penalties C b ys s))"
    by (induction C b ys s rule: settle_penalties.induct)
      (auto simp: Let_def sets settle_settings intro: rem settle_scheduled)
qed

lemma on_initialize_frame:
  "settings (on_initialize C b s) = settings s \<and> (scheduled W s \<longrightarrow> scheduled W (on_initialize C b s))"
  by (simp add: on_initialize_def Let_def settle_lists)

lemma step_config_schedule:
  assumes "author_step C s t" and "author_config_ok s" and "scheduled {} s"
  shows "author_config_ok t \<and> scheduled {} t \<and> au_block s \<le> au_block t"
  using assms(1)
proof cases
  case (step_call org dc res)
  show ?thesis
  proof (cases res)
    case (Inl e)
    with step_call assms transactional_Inl show ?thesis by fastforce
  next
    case (Inr x)
    with step_call have run: "dispatch_author C org dc s = (Inr x, t)" by (simp add: transactional_Inr_iff)
    with config_dispatch [OF run assms(2)] keepsE [OF sched_dispatch assms(3) run] show ?thesis by simp
  qed
next
  case (step_trait tc res)
  from author_config_ok_settings [OF steadyD [OF steady_trait_call step_trait]] keepsE [OF sched_trait_call assms(3) step_trait] assms(2)
  show ?thesis by auto
next
  case (step_remove w)
  with assms show ?thesis by (simp add: remove_elected_def author_config_ok_def scheduled_def schedule_ok_def)
next
  case (step_block b)
  let ?s = "s\<lparr>au_block := b\<rparr>"
  have "author_config_ok ?s" "scheduled {} ?s" using assms(2,3) by (simp_all add: author_config_ok_def scheduled_def schedule_ok_def)
  with step_block on_initialize_frame [of C b ?s "{}"] author_config_ok_settings [of t ?s]
  show ?thesis by (simp add: order_less_imp_le)
next
  case (step_commitment c)
  with assms show ?thesis by (simp add: author_config_ok_def scheduled_def schedule_ok_def)
qed

lemma edge_records:
  assumes edges: "\<And>w. role_edge s w (au_authors s w) (au_authors t w)"
    and "records_ok s" and le: "au_block s \<le> au_block t"
  shows "records_ok t"
  unfolding records_ok_def
proof (intro allI impI)
  fix w j assume j: "au_authors t w = Some j"
  show "ai_since j \<le> ai_status_since j \<and> ai_status_since j \<le> au_block t \<and> ai_min_fund j = None \<and> ai_max_fund j = None"
  proof (cases "au_authors s w")
    case None
    with edges [of w] j have "j = author_info_new (au_block s) (ai_digest j)" by simp
    then obtain d where "j = author_info_new (au_block s) d" by blast
    with le show ?thesis by (simp add: author_info_new_def)
  next
    case (Some i)
    with edges [of w] j have e: "status_edge s w i j" by simp
    have i: "ai_since i \<le> ai_status_since i" "ai_status_since i \<le> au_block s" "ai_min_fund i = None" "ai_max_fund i = None"
      using assms(2) Some by (auto simp: records_ok_def)
    with e le show ?thesis
      by (cases "ai_status i"; cases "ai_status j")
        (auto simp: status_edge_def author_info_re_enroll_def)
  qed
qed

lemma author_step_inv:
  assumes "author_step C s t" and "author_inv s"
  shows "author_inv t"
proof -
  have s: "author_config_ok s" "scheduled {} s" "records_ok s"
    using assms(2) by (simp_all add: author_inv_def scheduled_def)
  note t = step_config_schedule [OF assms(1) s(1,2)]
  have "records_ok t"
    by (rule edge_records [OF author_step_edges [OF assms(1)] s(3)]) (use t in simp)
  with t show ?thesis by (simp add: author_inv_def scheduled_def)
qed

end
