(* ===== verification/AuthorProperties.thy ===== *)
theory AuthorProperties
  imports AuthorInvariant CommitAccounting
begin

text \<open>
  Properties of the authors pallet: the life cycle and the invariant over all runs, the schedule
  of rewards and penalties, the hold of an author over the commitment pallet's digest values, the
  records of funders, and elections.
\<close>

section \<open>Runs\<close>

definition fresh_authors :: "('w, 'r, 'd, 'x) author_store \<Rightarrow> bool" where
  "fresh_authors s \<longleftrightarrow> au_block s = 0 \<and> au_authors s = Map.empty \<and> au_digests s = Map.empty
     \<and> au_funders s = Map.empty \<and> au_rewards s = Map.empty \<and> au_penalties s = Map.empty
     \<and> au_elected s = Map.empty"

inductive author_reachable :: "('w, 'r, 'd, 'x) author_store \<Rightarrow> bool" where
  author_start: "fresh_authors s \<Longrightarrow> author_genesis_build g s = Some t \<Longrightarrow> author_reachable t"
| author_next: "author_reachable s \<Longrightarrow> author_step C s t \<Longrightarrow> author_reachable t"

lemma max_one: "x \<noteq> 0 \<Longrightarrow> max x 1 = (x :: 'w::len word)"
  by (metis max.absorb1 not_le word_less_1)

lemma genesis_inv: "fresh_authors s \<Longrightarrow> author_genesis_build g s = Some t \<Longrightarrow> author_inv t"
  by (auto simp: author_genesis_build_def author_inv_def author_config_ok_def schedule_ok_def
      records_ok_def fresh_authors_def max_one split: if_splits)

lemma reachable_author_inv: "author_reachable s \<Longrightarrow> author_inv s"
  by (induction rule: author_reachable.induct) (auto intro: genesis_inv author_step_inv)

text \<open>C9: In every step of the pallet, whatever its outcome, the record of an author changes only along
  the life cycle: it is created on probation, is never removed, keeps its digest, becomes
  active only from a probation it has served and while no risk is pending, loses permanence only
  when its risk exceeds the probation period, resigns only from permanence and without a pending
  penalty, and comes back only on probation and without a pending reward.\<close>
theorem author_lifecycle:
  assumes "author_step C s t"
  shows "role_edge s w (au_authors s w) (au_authors t w)"
  by (rule author_step_edges [OF assms])

text \<open>C10: From any accepted genesis on, through calls, operations of other pallets (failed ones
  included), new blocks and changes of the commitment pallet, the configuration stays consistent,
  scheduled rewards and penalties belong to authors, are not zero factors and lie within the bound
  of the scans, and the dates of every author are in order.\<close>
theorem author_invariant:
  assumes "author_reachable s"
  shows "author_config_ok s \<and> schedule_ok s \<and> records_ok s"
  using reachable_author_inv [OF assms] by (simp add: author_inv_def)

section \<open>The schedule\<close>

lemma next_block_le: "l \<noteq> - 1 \<Longrightarrow> x \<le> l \<Longrightarrow> sat_add now (1 :: block) \<le> x \<longleftrightarrow> now < x"
proof (cases "now = - 1")
  case True
  assume "l \<noteq> - 1" "x \<le> l"
  then have "x \<noteq> - 1" by (auto simp: word_order.extremum_unique)
  with True show ?thesis by (auto simp: sat_suc_max word_order.extremum_unique)
qed (simp add: sat_suc_le_iff)

lemma scan_pending:
  assumes bound: "\<And>b. item b \<noteq> None \<Longrightarrow> b \<le> l" and l: "l \<noteq> - 1"
  shows "scan_blocks (\<lambda>b. item b \<noteq> None) (sat_add now 1) l = Some (\<exists>b. now < b \<and> item b \<noteq> None)"
  unfolding scan_blocks_exact [OF l] using next_block_le [OF l, of _ now] bound by auto

lemma collect_pending:
  assumes bound: "\<And>b. item b \<noteq> None \<Longrightarrow> b \<le> l" and l: "l \<noteq> - 1"
  shows "\<exists>xs. collect_blocks item (sat_add now 1) l [] = Some xs \<and> set xs = {(b, v). now < b \<and> item b = Some v}"
proof (intro exI conjI)
  show "collect_blocks item (sat_add now 1) l [] = Some (items_between item (sat_add now 1) l)"
    by (simp add: collect_blocks_exact [OF l])
  show "set (items_between item (sat_add now 1) l) = {(b, v). now < b \<and> item b = Some v}"
    unfolding set_items_between using next_block_le [OF l, of _ now] bound by fastforce
qed

text \<open>C16: In every reachable state whose bound is below the last block number the queries of the
  schedule return and are exact: a reward or penalty is reported pending exactly when one is
  scheduled after the current block, and the lists hold exactly the scheduled ones.\<close>
theorem schedule_queries_exact:
  assumes "author_reachable s" and "au_authors s w \<noteq> None"
    and "au_rewards_until s \<noteq> - 1" and "au_penalties_until s \<noteq> - 1"
  shows "has_reward w s = (if \<exists>b. au_block s < b \<and> au_rewards s (b, w) \<noteq> None
           then Inr () else Inl (AuthorModule RewardNotFound))
    \<and> has_penalty w s = (if \<exists>b. au_block s < b \<and> au_penalties s (b, w) \<noteq> None
           then Inr () else Inl (AuthorModule PenaltyNotFound))
    \<and> (\<exists>xs. get_rewards_of w s = Inr xs \<and> set xs = {(b, v). au_block s < b \<and> au_rewards s (b, w) = Some v})
    \<and> (\<exists>ys. get_penalties_of w s = Inr ys \<and> set ys = {(b, p). au_block s < b \<and> au_penalties s (b, w) = Some p})"
proof -
  have ok: "schedule_ok s" using reachable_author_inv [OF assms(1)] by (simp add: author_inv_def)
  have r: "b \<le> au_rewards_until s" if "au_rewards s (b, w) \<noteq> None" for b
    using ok that by (auto simp: schedule_ok_def)
  have p: "b \<le> au_penalties_until s" if "au_penalties s (b, w) \<noteq> None" for b
    using ok that by (auto simp: schedule_ok_def)
  have ex: "role_exists w s = Inr ()" using assms(2) by (simp add: role_exists_def)
  have scans: "scan_blocks (\<lambda>b. au_rewards s (b, w) \<noteq> None) (sat_add (au_block s) 1) (au_rewards_until s)
      = Some (\<exists>b. au_block s < b \<and> au_rewards s (b, w) \<noteq> None)"
    "scan_blocks (\<lambda>b. au_penalties s (b, w) \<noteq> None) (sat_add (au_block s) 1) (au_penalties_until s)
      = Some (\<exists>b. au_block s < b \<and> au_penalties s (b, w) \<noteq> None)"
    by (rule scan_pending, erule r p, rule assms)+
  obtain xs where xs: "collect_blocks (\<lambda>b. au_rewards s (b, w)) (sat_add (au_block s) 1) (au_rewards_until s) [] = Some xs"
      "set xs = {(b, v). au_block s < b \<and> au_rewards s (b, w) = Some v}"
    using collect_pending [of "\<lambda>b. au_rewards s (b, w)", OF _ assms(3)] r by blast
  obtain ys where ys: "collect_blocks (\<lambda>b. au_penalties s (b, w)) (sat_add (au_block s) 1) (au_penalties_until s) [] = Some ys"
      "set ys = {(b, v). au_block s < b \<and> au_penalties s (b, w) = Some v}"
    using collect_pending [of "\<lambda>b. au_penalties s (b, w)", OF _ assms(4)] p by blast
  show ?thesis
  proof (intro conjI exI)
    show "has_reward w s = (if \<exists>b. au_block s < b \<and> au_rewards s (b, w) \<noteq> None
        then Inr () else Inl (AuthorModule RewardNotFound))"
      unfolding has_reward_def ex scans(1) bindE_simps ok_orE_simps ensureE_def by (rule refl)
    show "has_penalty w s = (if \<exists>b. au_block s < b \<and> au_penalties s (b, w) \<noteq> None
        then Inr () else Inl (AuthorModule PenaltyNotFound))"
      unfolding has_penalty_def ex scans(2) bindE_simps ok_orE_simps ensureE_def by (rule refl)
    show "get_rewards_of w s = Inr xs" "get_penalties_of w s = Inr ys"
      by (simp_all only: get_rewards_of_def get_penalties_of_def ex xs(1) ys(1) bindE_simps ok_orE_simps)
  qed (rule xs(2) ys(2))+
qed

text \<open>Risk and permanence leave the calendar alone.\<close>

definition calendar :: "('w, 'r, 'd, 'x) author_store \<Rightarrow>
    block \<times> block \<times> block \<times> block \<times> block \<times> (block \<times> 'w \<Rightarrow> asset option) \<times> (block \<times> 'w \<Rightarrow> ratio option)" where
  "calendar s = (au_block s, au_rewards_buffer s, au_penalties_buffer s, au_rewards_until s,
     au_penalties_until s, au_rewards s, au_penalties s)"

definition timeless :: "('w, 'r, 'd, 'x, 'a) author_op \<Rightarrow> bool" where
  "timeless m = (\<forall>A. keeps (\<lambda>s. calendar s = A) m)"

lemma timelessD: "timeless m \<Longrightarrow> m s = (r, t) \<Longrightarrow> calendar t = calendar s"
  unfolding timeless_def keeps_def by blast

lemma frame_calendar: "frame_of (\<lambda>s. calendar s = A)"
  by (simp add: frame_of_def calendar_def)

lemma timeless_basic:
  "timeless (ret x)" "timeless (throw e)" "timeless (readE q)" "timeless (gets f)"
  "timeless (emit_event C v)" "timeless (on_risk C w st)"
  by (auto simp: timeless_def intro: frame_calendar)

lemma timeless_compose:
  "timeless m \<Longrightarrow> (\<And>x. timeless (f x)) \<Longrightarrow> timeless (bindO m f)"
  "timeless m \<Longrightarrow> timeless n \<Longrightarrow> timeless (thenO m n)"
  "timeless k \<Longrightarrow> timeless l \<Longrightarrow> timeless (if b then k else l)"
  "(\<And>a c. timeless (g a c)) \<Longrightarrow> timeless (case z of (a, c) \<Rightarrow> g a c)"
  by (auto simp: timeless_def split: prod.split)

lemma timeless_on_author: "timeless (on_author w f)"
  unfolding on_author_def
  by (intro timeless_compose timeless_basic) (simp add: timeless_def keeps_def calendar_def)

lemma timeless_roles: "timeless (revoke_permanence C w)" "timeless (risk_probation C w)"
  "timeless (risk_permanence C w)" "timeless (secure_permanence C w)"
  unfolding revoke_permanence_def risk_probation_def risk_permanence_def secure_permanence_def
  by (intro timeless_compose timeless_basic timeless_on_author)+

lemma timeless_penalize_risk: "timeless (penalize_risk C w st)"
  by (cases st) (auto simp: penalize_risk_def intro!: timeless_compose timeless_basic timeless_roles)

text \<open>C14: A penalty is scheduled at the first block from the buffer on at which the author has none:
  no penalty is overwritten, and nothing else of the schedule changes but the bound, which is
  raised to that block when it lies beyond.\<close>
theorem penalty_slot:
  assumes "penalize C w factor s = (Inr b, t)"
  shows "sat_add (au_block s) (au_penalties_buffer s) \<le> b \<and> au_penalties s (b, w) = None
    \<and> (\<forall>x. sat_add (au_block s) (au_penalties_buffer s) \<le> x \<and> x < b \<longrightarrow> au_penalties s (x, w) \<noteq> None)
    \<and> au_penalties t = (au_penalties s)((b, w) \<mapsto> factor) \<and> au_rewards t = au_rewards s
    \<and> au_penalties_until t = max (au_penalties_until s) b"
proof -
  from assms obtain st where "thenO (penalize_risk C w st) (bindO (schedule_penalty w factor) (\<lambda>b.
      thenO (emit_event C (EvAuthorPenaltyScheduled w factor b)) (ret b))) s = (Inr b, t)"
    by (auto simp: penalize_def split: if_splits sum.splits)
  then obtain u s1 s2 where risk: "penalize_risk C w st s = (Inr u, s1)"
    and slot: "schedule_penalty w factor s1 = (Inr b, s2)"
    and ev: "thenO (emit_event C (EvAuthorPenaltyScheduled w factor b)) (ret b) s2 = (Inr b, t)"
    by (auto simp: bindO_Inr_iff thenO_Inr_iff)
  from timelessD [OF timeless_penalize_risk risk] have cal: "au_block s1 = au_block s"
      "au_penalties_buffer s1 = au_penalties_buffer s" "au_penalties s1 = au_penalties s"
      "au_penalties_until s1 = au_penalties_until s" "au_rewards s1 = au_rewards s"
    by (simp_all add: calendar_def)
  from ev have "calendar t = calendar s2"
    by (rule timelessD [OF timeless_compose(2) [OF timeless_basic(5) timeless_basic(1)]])
  then have "au_penalties t = au_penalties s2" "au_rewards t = au_rewards s2"
      "au_penalties_until t = au_penalties_until s2"
    by (simp_all add: calendar_def)
  with slot show ?thesis
    by (auto simp: schedule_penalty_def cal ok_orE_Inr_iff free_block_Some max_def split: sum.splits)
qed

lemma penalize_risk_runs:
  assumes "au_authors s w = Some i" and "ai_status i \<noteq> Resigned"
  shows "\<exists>t. penalize_risk C w (ai_status i) s = (Inr (), t)"
proof (cases "ai_status i")
  case Active
  have rev: "\<exists>t'. revoke_permanence C w t = (Inr Probation, t')" if "is_ok (can_revoke_permanence w t)" for t
    using that by (auto simp: is_ok_iff revoke_permanence_def on_author_def can_revoke_permanence_def
        emit_event_def deposit_author_event_def thenO_def bindO_def resultE_iffs split: sum.splits)
  have "\<exists>s'. risk_permanence C w s = (Inr (), s')"
    using assms(1) Active by (auto simp: risk_permanence_def on_author_def get_meta_def thenO_def bindO_def
        on_risk_def deposit_author_event_def split: sum.splits)
  then obtain s' where "risk_permanence C w s = (Inr (), s')" by blast
  with rev [of s'] Active show ?thesis
    by (auto simp: penalize_risk_def thenO_def bindO_def split: prod.splits)
next
  case Probation
  with assms(1) show ?thesis
    by (auto simp: penalize_risk_def risk_probation_def on_author_def get_meta_def thenO_def bindO_def
        on_risk_def deposit_author_event_def split: sum.splits)
qed (use assms in simp)

text \<open>C15: Penalizing returns unless every block from the buffer to the last block number already holds
  a penalty of the author: then, and only then, the search for a block never ends.\<close>
theorem penalize_diverges_iff:
  "fst (penalize C w factor s) = Inl NeverReturns \<longleftrightarrow>
     factor \<noteq> 0 \<and> (\<exists>i. au_authors s w = Some i \<and> ai_status i \<noteq> Resigned)
     \<and> (\<forall>b. sat_add (au_block s) (au_penalties_buffer s) \<le> b \<longrightarrow> au_penalties s (b, w) \<noteq> None)"
proof (cases "factor \<noteq> 0 \<and> (\<exists>i. au_authors s w = Some i \<and> ai_status i \<noteq> Resigned)")
  case False
  then show ?thesis
    by (auto simp: penalize_def get_status_def get_meta_def penalize_risk_def thenO_def bindO_def
        ok_orE_def split: option.splits if_splits)
next
  case True
  then obtain i where i: "au_authors s w = Some i" "ai_status i \<noteq> Resigned" by blast
  from penalize_risk_runs [OF this, where C = C] obtain s1
    where risk: "penalize_risk C w (ai_status i) s = (Inr (), s1)" by blast
  from timelessD [OF timeless_penalize_risk risk] have cal: "au_block s1 = au_block s"
      "au_penalties_buffer s1 = au_penalties_buffer s" "au_penalties s1 = au_penalties s"
    by (simp_all add: calendar_def)
  have run: "penalize C w factor s = bindO (schedule_penalty w factor) (\<lambda>b.
      thenO (emit_event C (EvAuthorPenaltyScheduled w factor b)) (ret b)) s1"
    using True i risk by (simp add: penalize_def get_status_def get_meta_def thenO_def bindO_def)
  let ?slot = "free_block (\<lambda>b. au_penalties s (b, w) \<noteq> None) (sat_add (au_block s) (au_penalties_buffer s))"
  have "fst (penalize C w factor s) = Inl NeverReturns \<longleftrightarrow> ?slot = None"
    unfolding run by (cases ?slot)
      (auto simp: schedule_penalty_def cal thenO_def bindO_def emit_event_def deposit_author_event_def)
  with True show ?thesis by (simp add: free_block_None)
qed

section \<open>The hold\<close>

text \<open>The documented behaviour of \<open>Perbill\<close> the split rests on: a ratio made by \<open>from_rational\<close> is
  at most one, so its part of a value is at most the value.\<close>

definition perbill_part :: "perbill_ops \<Rightarrow> bool" where
  "perbill_part P \<longleftrightarrow> (\<forall>p q v. pb_mul_ceil P (pb_from_rational P p q) v \<le> v)"

lemma hold_split_exact:
  assumes "perbill_part P" and "hold_split P funding hold v = (fv, cv)"
  shows "checked_add fv cv = Some v"
proof -
  have "fv \<le> v" "cv = sat_sub v fv"
    using assms by (auto simp: hold_split_def perbill_part_def Let_def)
  then show ?thesis by (simp add: checked_add_Some_iff unat_sat_sub word_le_nat_alt)
qed

lemma set_value_step:
  assumes "commit_reachable CC c" and "set_digest_value CC r d v c = (Inr a, c')"
  shows "commit_reachable CC c'"
proof -
  from assms(2) have "transactional (set_digest_variant_value CC r d v position_default) c = (Inr a, c')"
    by (simp add: transactional_Inr_iff set_digest_value_def)
  then have "commit_step CC c c'" by (rule commit_step.step_value)
  with assms(1) show ?thesis by (rule commit_reachable.reach_step)
qed

text \<open>C11: A hold that is set is set exactly, over the two digest values it is made of: after a
  successful \<open>set_hold\<close> the hold of the author is the value, however it was split, and no
  record of an author has changed.\<close>
theorem set_hold_exact:
  assumes "commit_reachable (ac_commit C) (au_commit s)" and "ac_funding C \<noteq> ac_collateral C"
    and "perbill_part (ac_perbill C)" and "set_hold C w v s = (Inr (), t)"
  shows "get_hold C w t = Inr v \<and> au_authors t = au_authors s"
proof -
  let ?CC = "ac_commit C"
  from assms(4) obtain info funding hold fv cv where info: "au_authors s w = Some info"
    and split: "hold_split (ac_perbill C) funding hold v = (fv, cv)"
    and run: "thenO (on_commitment (set_digest_value ?CC (ac_funding C) (ai_digest info) fv))
      (thenO (on_commitment (set_digest_value ?CC (ac_collateral C) (ai_digest info) cv)) (on_set_hold C w v)) s = (Inr (), t)"
    by (auto simp: set_hold_def get_meta_def ok_orE_Inr_iff split: sum.splits prod.splits)
  let ?d = "ai_digest info"
  from run obtain a1 c1 a2 c2 where s1: "set_digest_value ?CC (ac_funding C) ?d fv (au_commit s) = (Inr a1, c1)"
    and s2: "set_digest_value ?CC (ac_collateral C) ?d cv c1 = (Inr a2, c2)"
    and t: "on_set_hold C w v (s\<lparr>au_commit := c2\<rparr>) = (Inr (), t)"
    by (auto simp: thenO_Inr_iff on_commitment_Inr_iff)
  have r1: "commit_reachable ?CC c1" by (rule set_value_step [OF assms(1) s1])
  have v1: "get_digest_value (ac_funding C) ?d c1 = Inr fv"
    using set_digest_sets [OF assms(1)] s1 by (simp add: set_digest_value_def get_digest_value_def)
  have v2: "get_digest_value (ac_collateral C) ?d c2 = Inr cv"
    using set_digest_sets [OF r1] s2 by (simp add: set_digest_value_def get_digest_value_def)
  have "cs_digests c2 (ac_funding C, ?d) = cs_digests c1 (ac_funding C, ?d)"
    using set_digest_other [of ?CC] s2 assms(2) by (simp add: set_digest_value_def)
  with v1 have v1': "get_digest_value (ac_funding C) ?d c2 = Inr fv"
    by (simp add: get_digest_value_def get_digest_variant_value_def)
  from t obtain es where "t = s\<lparr>au_commit := c2, au_events := es\<rparr>"
    by (auto simp: on_set_hold_def dest!: emit_event_result)
  with info v1' v2 hold_split_exact [OF assms(3) split] show ?thesis
    by (simp add: get_hold_def get_meta_def hold_parts_def ask_def)
qed

text \<open>C18: An author nobody has funded has no hold: what is scheduled for it is taken off the schedule
  without any effect on its collateral.\<close>
theorem unfunded_not_settled:
  assumes "au_authors s w = Some info"
    and "cs_digests (au_commit s) (ac_funding C, ai_digest info) = None"
  shows "get_hold C w s = Inl (CommitFailed (CommitModule DigestNotFound))
    \<and> settle_penalties C b [(w, p)] s = s\<lparr>au_penalties := (au_penalties s)((b, w) := None)\<rparr>
    \<and> settle_rewards C b [(w, v)] s = s\<lparr>au_rewards := (au_rewards s)((b, w) := None)\<rparr>"
proof -
  have hold: "get_hold C w s = Inl (CommitFailed (CommitModule DigestNotFound))"
    using assms by (simp add: get_hold_def get_meta_def hold_parts_def ask_def get_digest_value_def
        get_digest_variant_value_def)
  then have "settle_hold C w f s = s" for f by (simp add: settle_hold_def)
  with hold show ?thesis by simp
qed

end
