(* ===== verification/AuthorBacking.thy ===== *)
theory AuthorBacking
  imports AuthorProperties
begin

text \<open>
  The records of funders and the elections of the authors pallet: which records funding writes and
  drawing removes, what a record that outlived its commitment does to the queries, who is elected,
  and that the seats of a flat election go to the heaviest candidates.
\<close>

section \<open>Records of funders\<close>

text \<open>The authors a funder stands behind: the author itself, or those of the index or pool.\<close>

fun authors_listed ::
  "('w, 'r, 'd, 'x) author_store \<Rightarrow> commit_failure + ('d \<times> commit_shares) list \<Rightarrow> 'w set" where
  "authors_listed s (Inl e) = {}"
| "authors_listed s (Inr es) = {w. \<exists>(d, _) \<in> set es. au_digests s d = Some w}"

fun authors_behind ::
  "('w, 'r, 'd, 'x) author_config \<Rightarrow> 'w \<Rightarrow> ('w, 'd) funder \<Rightarrow> ('w, 'r, 'd, 'x) author_store \<Rightarrow> 'w set" where
  "authors_behind C to (ByDirect b) s = {to}"
| "authors_behind C to (ByIndex i b) s = authors_listed s (get_entries_shares (ac_funding C) i (au_commit s))"
| "authors_behind C to (ByPool p b) s = authors_listed s (get_slots_shares (ac_funding C) p (au_commit s))"

definition put_funder ::
  "'w set \<Rightarrow> 'w \<Rightarrow> ('w, 'd) funder option \<Rightarrow> ('w \<times> 'w \<Rightarrow> ('w, 'd) funder option) \<Rightarrow> ('w \<times> 'w \<Rightarrow> ('w, 'd) funder option)" where
  "put_funder A b f m = (\<lambda>k. if snd k = b \<and> fst k \<in> A then f else m k)"

lemma put_funder_simps:
  "put_funder {} b f m = m" "m((a, b) := f) = put_funder {a} b f m"
  "put_funder A b f (put_funder B b f m) = put_funder (A \<union> B) b f m"
  by (auto simp: put_funder_def fun_eq_iff)

lemma set_funder_of_all_result:
  "set_funder_of_all es b f s = (Inr u, t) \<Longrightarrow>
     t = s\<lparr>au_funders := put_funder {w. \<exists>(d, _) \<in> set es. au_digests s d = Some w} b f (au_funders s)\<rparr>"
proof (induction es arbitrary: s)
  case (Cons e es)
  obtain d n where e: "e = (d, n)" by (cases e)
  from Cons.prems obtain a where a: "au_digests s d = Some a"
    and run: "set_funder_of_all es b f (s\<lparr>au_funders := put_funder {a} b f (au_funders s)\<rparr>) = (Inr u, t)"
    by (auto simp: e set_funder_def put_funder_simps ok_orE_def split: sum.splits option.splits)
  have "{w. \<exists>(d', _) \<in> set (e # es). au_digests s d' = Some w}
      = {w. \<exists>(d', _) \<in> set es. au_digests s d' = Some w} \<union> {a}"
    using a by (auto simp: e)
  with Cons.IH [OF run] show ?case by (simp only: put_funder_simps) (simp add: put_funder_simps)
qed (simp add: put_funder_simps)

lemma update_funders_result:
  assumes "update_funders C to fu f s = (Inr u, t)"
  shows "t = s\<lparr>au_funders := put_funder (authors_behind C to fu s) (funder_backer fu) f (au_funders s)\<rparr>"
proof (cases fu)
  case (ByDirect b)
  with assms show ?thesis by (simp add: update_funders_def set_funder_def put_funder_simps)
next
  case (ByIndex i b)
  with assms obtain es where "get_entries_shares (ac_funding C) i (au_commit s) = Inr es"
      "set_funder_of_all es b f s = (Inr u, t)"
    by (auto simp: update_funders_def ask_Inr_iff split: sum.splits)
  with ByIndex set_funder_of_all_result [of es b f s u t] show ?thesis
    by simp
next
  case (ByPool p b)
  with assms obtain es where "get_slots_shares (ac_funding C) p (au_commit s) = Inr es"
      "set_funder_of_all es b f s = (Inr u, t)"
    by (auto simp: update_funders_def ask_Inr_iff split: sum.splits)
  with ByPool set_funder_of_all_result [of es b f s u t] show ?thesis
    by simp
qed

lemma authors_listed_frame [simp]:
  "authors_listed (s\<lparr>au_funders := F\<rparr>) r = authors_listed s r"
  "authors_listed (s\<lparr>au_events := es\<rparr>) r = authors_listed s r"
  by (cases r; simp)+

lemma authors_behind_frame [simp]:
  "authors_behind C to fu (s\<lparr>au_funders := F\<rparr>) = authors_behind C to fu s"
  "authors_behind C to fu (s\<lparr>au_events := es\<rparr>) = authors_behind C to fu s"
  by (cases fu; simp)+

lemma recorded_by:
  assumes "thenO (update_funders C to fu f) (thenO (emit_event C ev) (ret a)) s = (Inr a', t)"
  shows "au_commit t = au_commit s \<and> au_authors t = au_authors s
    \<and> au_funders t = put_funder (authors_behind C to fu t) (funder_backer fu) f (au_funders s)"
proof -
  from assms obtain u s1 u' where up: "update_funders C to fu f s = (Inr u, s1)"
    and ev: "emit_event C ev s1 = (Inr u', t)"
    by (auto simp: thenO_Inr_iff)
  from emit_event_result [OF ev] obtain es where "t = s1\<lparr>au_events := es\<rparr>" by blast
  with update_funders_result [OF up] show ?thesis by simp
qed

lemma fund_steps:
  assumes "fund C to fu v p q s = (Inr a, t)"
  obtains c where "thenO (update_funders C to fu (Some fu)) (thenO (emit_event C (funded_event to fu a)) (ret a))
      (s\<lparr>au_commit := c\<rparr>) = (Inr a, t)"
  using assms
  by (auto simp: fund_def Let_def bindO_Inr_iff [of "on_commitment _"] on_commitment_Inr_iff split: sum.splits)
    (auto simp: thenO_Inr_iff)

lemma draw_steps:
  assumes "draw C from fu s = (Inr a, t)"
  obtains c where "resolve_commit (ac_commit C) (funder_backer fu) (ac_funding C) (au_commit s) = (Inr a, c)"
    "thenO (update_funders C from fu None) (thenO (emit_event C (drawn_event from fu a)) (ret a))
      (s\<lparr>au_commit := c\<rparr>) = (Inr a, t)"
  using assms
  by (auto simp: draw_def bindO_Inr_iff [of "on_commitment _"] on_commitment_Inr_iff split: sum.splits)
    (auto simp: thenO_Inr_iff)

text \<open>C17: Funding records the funder with exactly the authors it stands behind, drawing removes
  the backer's records with exactly the authors the funder stands behind then, and every other
  record stays.\<close>
theorem funders_tracked:
  "(fund C to fu v p q s = (Inr a, t) \<longrightarrow> (\<forall>w b. au_funders t (w, b) =
      (if b = funder_backer fu \<and> w \<in> authors_behind C to fu t then Some fu else au_funders s (w, b))))
   \<and> (draw C to fu s = (Inr a, t) \<longrightarrow> (\<forall>w b. au_funders t (w, b) =
      (if b = funder_backer fu \<and> w \<in> authors_behind C to fu t then None else au_funders s (w, b))))"
proof (intro conjI impI)
  assume "fund C to fu v p q s = (Inr a, t)"
  from fund_steps [OF this] obtain c where
    "thenO (update_funders C to fu (Some fu)) (thenO (emit_event C (funded_event to fu a)) (ret a))
      (s\<lparr>au_commit := c\<rparr>) = (Inr a, t)" .
  from recorded_by [OF this] show "\<forall>w b. au_funders t (w, b) =
      (if b = funder_backer fu \<and> w \<in> authors_behind C to fu t then Some fu else au_funders s (w, b))"
    by (simp add: put_funder_def)
next
  assume "draw C to fu s = (Inr a, t)"
  from draw_steps [OF this] obtain c where
    "thenO (update_funders C to fu None) (thenO (emit_event C (drawn_event to fu a)) (ret a))
      (s\<lparr>au_commit := c\<rparr>) = (Inr a, t)" .
  from recorded_by [OF this] show "\<forall>w b. au_funders t (w, b) =
      (if b = funder_backer fu \<and> w \<in> authors_behind C to fu t then None else au_funders s (w, b))"
    by (simp add: put_funder_def)
qed

section \<open>A record that outlives its commitment\<close>

lemma keeps_commit_gone:
  "keeps_ok (\<lambda>s. cs_commits s k = None) (on_asset f)" "keeps_ok (\<lambda>s. cs_commits s k = None) (issue_less a)"
  "keeps_ok (\<lambda>s. cs_commits s k = None) (reap_less a)"
  "keeps_ok (\<lambda>s. cs_commits s k = None) (sub_from_total_value r a)" "keeps_ok (\<lambda>s. cs_commits s k = None) (emit C v)"
proof -
  show "keeps_ok (\<lambda>s. cs_commits s k = None) (on_asset f)"
    by (auto simp: keeps_ok_def on_asset_def split: prod.splits sum.splits)
qed (unfold issue_less_def reap_less_def sub_from_total_value_def set_total_value_def emit_def,
      (intro keep_intros keeps_ok_modify; simp)+)

lemma finalize_removes:
  assumes "finalize_resolve_commit CC who r imb c = (Inr a, c')"
  shows "cs_commits c' (who, r) = None"
proof -
  have "keeps_ok (\<lambda>s. cs_commits s (who, r) = None) (thenO (on_asset (as_thaw (cc_asset CC) r who))
    (bindO (resolve_imbalance CC who imb) (\<lambda>resolved. thenO (sub_from_total_value r resolved) (ret resolved))))"
    unfolding resolve_imbalance_def Let_def by (intro keep_intros keeps_commit_gone)
  from keeps_okD [OF this _ assms [unfolded finalize_resolve_commit_def thenO_simps]] show ?thesis by simp
qed

lemma resolve_removes:
  assumes "resolve_commit CC who r c = (Inr a, c')"
  shows "cs_commits c' (who, r) = None"
proof -
  from assms obtain d m c1 u where run: "resolve_commit_of CC who r m c = (Inr a, c1)"
    and ev: "emit CC (EvCommitResolved who r d a) c1 = (Inr u, c')"
    by (auto simp: resolve_commit_def bindO_Inr_iff [of "resolve_commit_of _ _ _ _"] thenO_Inr_iff split: sum.splits)
  from run have "cs_commits c1 (who, r) = None"
    by (cases m) (auto simp: resolve_digest_commit_def resolve_index_commit_def resolve_pool_commit_def
        thenO_Inr_iff bindO_Inr_iff [of "withdraw_from_digest _ _ _ _"]
        bindO_Inr_iff [of "withdraw_from_index _ _ _ _"] bindO_Inr_iff [of "withdraw_from_pool _ _ _ _"]
        dest: finalize_removes split: sum.splits)
  then show ?thesis by (rule keeps_okD [OF keeps_commit_gone(5) _ ev])
qed

lemma funder_value_gone:
  assumes "cs_commits (au_commit t) (funder_backer g, ac_funding C) = None"
  shows "\<not> is_ok (funder_value C d g t)"
  using assms
  by (cases g) (simp_all add: funder_value_def ask_def get_commit_value_def get_entry_value_for_def
      get_slot_value_for_def get_commit_digest_def bindE_def ok_orE_def)

lemma funder_values_fail:
  "(b, g) \<in> set fs \<Longrightarrow> \<not> is_ok (funder_value C d g t) \<Longrightarrow> \<not> is_ok (funder_values C d fs t)"
  by (induction C d fs t rule: funder_values.induct) (auto simp: bindE_def split: sum.splits)

lemma iter_prefix_member: "k \<in> set ks \<Longrightarrow> m k = Some v \<Longrightarrow> (k, v) \<in> set (iter_prefix ks m)"
  by (induction ks) (auto simp: iter_prefix_def List.map_filter_simps split: option.splits)

lemma backers_fail:
  assumes "au_funders t (w, b) = Some g" "b \<in> set (ac_keys C)" "funder_backer g = b"
    and "cs_commits (au_commit t) (b, ac_funding C) = None"
  shows "\<not> is_ok (backers_of C w t)"
proof (cases "get_meta w t")
  case (Inr info)
  have "(b, g) \<in> set (iter_prefix (ac_keys C) (\<lambda>b. au_funders t (w, b)))"
    by (rule iter_prefix_member [OF assms(2)]) (rule assms(1))
  from funder_values_fail [OF this funder_value_gone] assms(3,4) Inr show ?thesis
    by (simp add: backers_of_def bindE_def)
qed (simp add: backers_of_def bindE_def)

text \<open>C13: Drawing through an index or pool leaves the backer's record with an author that is no longer
  in it, although the commitment is gone. In that state, and in every state in which the record
  still stands and the backer has no funding commitment, the query of that author's backers fails,
  and with it the author's weight in a fair election. A new commitment of the same backer to that
  author overwrites the record.\<close>
theorem stale_backer_blocks:
  assumes run: "draw C from fu s = (Inr a, t)" and key: "funder_backer fu \<in> set (ac_keys C)"
    and rec: "au_funders s (w, funder_backer fu) = Some g" "funder_backer g = funder_backer fu"
    and left: "w \<notin> authors_behind C from fu t"
  shows "cs_commits (au_commit t) (funder_backer fu, ac_funding C) = None
    \<and> au_funders t (w, funder_backer fu) = Some g
    \<and> \<not> is_ok (backers_of C w t) \<and> \<not> is_ok (fair_weight_of C w t)
    \<and> (\<forall>u. cs_commits (au_commit u) (funder_backer fu, ac_funding C) = None \<longrightarrow>
           au_funders u (w, funder_backer fu) = Some g \<longrightarrow>
           \<not> is_ok (backers_of C w u) \<and> \<not> is_ok (fair_weight_of C w u))"
proof -
  from draw_steps [OF run] obtain c where
    gone: "resolve_commit (ac_commit C) (funder_backer fu) (ac_funding C) (au_commit s) = (Inr a, c)"
    and rest: "thenO (update_funders C from fu None) (thenO (emit_event C (drawn_event from fu a)) (ret a))
      (s\<lparr>au_commit := c\<rparr>) = (Inr a, t)" .
  note r = recorded_by [OF rest]
  then have none: "cs_commits (au_commit t) (funder_backer fu, ac_funding C) = None"
    using resolve_removes [OF gone] by simp
  from r left rec(1) have still: "au_funders t (w, funder_backer fu) = Some g" by (simp add: put_funder_def)
  have "\<not> is_ok (backers_of C w u) \<and> \<not> is_ok (fair_weight_of C w u)"
    if "cs_commits (au_commit u) (funder_backer fu, ac_funding C) = None" "au_funders u (w, funder_backer fu) = Some g" for u
    using backers_fail [OF that(2) key rec(2) that(1)] by (simp add: fair_weight_of_def)
  with none still show ?thesis by blast
qed

section \<open>Elections\<close>

definition seats_of :: "('w, 'r, 'd, 'x) author_store \<Rightarrow> 'w list \<Rightarrow> 'w list" where
  "seats_of s elects = (if au_force_max_elected s then take (unat (au_max_elected s)) elects else elects)"

lemma stored_elects:
  "store_elected elects s =
     (if length elects < unat (au_min_elected s) then (Inl (AuthorModule MinElectedNotReached), s)
      else (Inr (), s\<lparr>au_elected := insert_elected (au_block s) (seats_of s elects) (au_elected s),
                      au_recent_elected_on := au_block s\<rparr>))"
  by (simp add: store_elected_def seats_of_def ensureE_def Let_def)

text \<open>What an election leaves: nobody is elected by a ranking below the minimum; otherwise the
  seats are elected at the current block, together with those an earlier election of the same
  block has elected, and the elected of other blocks stay.\<close>
theorem elected_spec:
  "store_elected elects s = (res, t) \<Longrightarrow>
     (if length elects < unat (au_min_elected s) then \<not> is_ok res \<and> t = s
      else is_ok res \<and> au_recent_elected_on t = au_block s \<and>
        (\<forall>b w. au_elected t (b, w) \<noteq> None \<longleftrightarrow>
           b = au_block s \<and> w \<in> set (seats_of s elects) \<or> au_elected s (b, w) \<noteq> None) \<and>
        (\<forall>ws. reveal_elected C t = Some ws \<longrightarrow> set ws = {w \<in> set (ac_keys C).
           w \<in> set (seats_of s elects) \<or> au_elected s (au_block s, w) \<noteq> None}))"
  by (auto simp: stored_elects insert_elected_iff reveal_elected_filter Let_def split: if_splits)

lemma seats_exact:
  assumes ms: "mset cands = mset won + mset lost" and dist: "distinct (map fst cands)"
  shows "distinct (map fst won)" and "(c, x) \<in> set cands \<Longrightarrow> c \<in> fst ` set won \<Longrightarrow> (c, x) \<in> set won"
    and "(c, x) \<in> set cands \<Longrightarrow> c \<notin> fst ` set won \<Longrightarrow> (c, x) \<in> set lost"
proof -
  have all: "set cands = set won \<union> set lost"
    using ms by (metis set_mset_mset set_mset_union)
  have "mset (map fst cands) = mset (map fst (won @ lost))" using ms by (simp add: mset_map)
  then have d: "distinct (map fst (won @ lost))" using dist by (metis mset_eq_imp_distinct_iff)
  then show "distinct (map fst won)" by simp
  show "(c, x) \<in> set won" if "(c, x) \<in> set cands" "c \<in> fst ` set won"
    using that d all by (auto simp: distinct_map) (metis IntI empty_iff fst_conv image_eqI)
  show "(c, x) \<in> set lost" if "(c, x) \<in> set cands" "c \<notin> fst ` set won"
    using that all by force
qed

lemma flat_elected:
  assumes keys: "distinct (ac_keys C)" "fst ` set cands \<subseteq> set (ac_keys C)" and dist: "distinct (map fst cands)"
    and enough: "unat (au_min_elected s) \<le> length cands" and force: "au_force_max_elected s"
    and fresh: "\<And>w. au_elected s (au_block s, w) = None"
    and seats: "0 < min (unat (au_max_elected s)) (length cands)"
    and run: "prepare C top_down_flat cands s = (res, t)"
  shows "\<exists>ws. reveal_elected C t = Some ws \<and> distinct ws \<and> set ws \<subseteq> fst ` set cands
    \<and> length ws = min (unat (au_max_elected s)) (length cands)
    \<and> (\<forall>c x d y. (c, x) \<in> set cands \<and> (d, y) \<in> set cands \<and> c \<in> set ws \<and> d \<notin> set ws \<longrightarrow> y \<le> x)"
proof -
  let ?k = "unat (au_max_elected s)" and ?out = "top_down_flat cands"
  obtain won lost where ms: "mset cands = mset won + mset lost" and won: "take ?k ?out = map fst won"
    and best: "\<And>w l. w \<in> set won \<Longrightarrow> l \<in> set lost \<Longrightarrow> snd l \<le> snd w"
    by (rule flat.top_seats [of cands ?k]) blast
  note parts = seats_exact [OF ms dist]
  have len: "length ?out = length cands" by (simp add: top_down_flat_def)
  define ws where "ws = filter (\<lambda>w. w \<in> fst ` set won) (ac_keys C)"
  have sub: "set won \<subseteq> set cands" using ms by (metis set_mset_mset set_mset_union Un_upper1)
  then have set_ws: "set ws = fst ` set won" using keys(2) by (auto simp: ws_def)
  have "distinct ws" using keys(1) by (simp add: ws_def)
  then have "length ws = length won"
    using set_ws parts(1) distinct_card [of ws] distinct_card [of "map fst won"] by simp
  also have "\<dots> = min ?k (length cands)" using arg_cong [OF won, of length] len by simp
  finally have length_ws: "length ws = min ?k (length cands)" .
  with seats have "ws \<noteq> []" by (metis list.size(3) less_irrefl)
  have "store_elected ?out s = (Inr (), s\<lparr>au_elected := insert_elected (au_block s) (map fst won) (au_elected s),
      au_recent_elected_on := au_block s\<rparr>)"
    using enough len force by (simp add: stored_elects seats_of_def won)
  with run have "emit_event C (EvElectionPrepared ?out) (s\<lparr>au_elected := insert_elected (au_block s) (map fst won) (au_elected s),
      au_recent_elected_on := au_block s\<rparr>) = (res, t)"
    by (simp add: prepare_def)
  from emit_event_result [OF this] obtain es where "t = s\<lparr>au_elected := insert_elected (au_block s) (map fst won) (au_elected s),
      au_recent_elected_on := au_block s, au_events := es\<rparr>" by auto
  then have "reveal_elected C t = Some ws"
    using \<open>ws \<noteq> []\<close> fresh by (simp add: reveal_elected_filter insert_elected_iff ws_def)
  moreover have "y \<le> x" if "(c, x) \<in> set cands" "(d, y) \<in> set cands" "c \<in> set ws" "d \<notin> set ws" for c x d y
    using best [of "(c, x)" "(d, y)"] parts(2,3) that set_ws by auto
  ultimately show ?thesis
    using \<open>distinct ws\<close> image_mono [OF sub, of fst] length_ws unfolding set_ws [symmetric] by blast
qed

text \<open>C12: When a flat election with a forced maximum runs over distinct candidates that are at least
  the minimum, with at least one seat, and is the first of its block, exactly the smaller of the
  maximum and the number of candidates is elected, each once, all of them candidates, and no
  candidate left out weighs more than an elected one. A second election of the block adds its
  elected to those of the first (\<open>elected_spec\<close>).\<close>
theorem elected_are_heaviest:
  assumes "distinct (ac_keys C)" "fst ` set cands \<subseteq> set (ac_keys C)" "distinct (map fst cands)"
    and "unat (au_min_elected s) \<le> length cands" "au_force_max_elected s"
    and "\<And>w. au_elected s (au_block s, w) = None" "0 < min (unat (au_max_elected s)) (length cands)"
    and "prepare C top_down_flat cands s = (res, t)"
  shows "\<exists>ws. reveal_elected C t = Some ws \<and> distinct ws \<and> set ws \<subseteq> fst ` set cands
    \<and> length ws = min (unat (au_max_elected s)) (length cands)
    \<and> (\<forall>c x d y. (c, x) \<in> set cands \<and> (d, y) \<in> set cands \<and> c \<in> set ws \<and> d \<notin> set ws \<longrightarrow> y \<le> x)"
  by (rule flat_elected [OF assms])

end
