(* ===== verification/AuthorSamples.thy ===== *)
theory AuthorSamples
  imports AuthorBacking CommitSamples
begin

text \<open>
  The properties of the authors pallet applied to concrete runs, over the sample configuration of
  the commitment pallet: an author that is enrolled, funded by a commitment, penalized and elected.
\<close>

section \<open>A sample configuration\<close>

definition sample_perbill :: perbill_ops where
  "sample_perbill = \<lparr>
     pb_from_rational = (\<lambda>p q. if q \<le> p then 1000000000 else of_nat (unat p * 1000000000 div unat q)),
     pb_mul_ceil = (\<lambda>r v. of_nat ((unat r * unat v + 999999999) div 1000000000)),
     pb_mul_floor = (\<lambda>r v. of_nat (unat r * unat v div 1000000000))\<rparr>"

definition sample_authors :: "(nat, nat, nat, asset \<times> asset) author_config" where
  "sample_authors = \<lparr>
     ac_commit = sample_commits, ac_funding = 2, ac_collateral = 4, ac_emit = True,
     ac_perbill = sample_perbill, ac_is_idle = (\<lambda>_ _. Inr ()), ac_keys = [7, 8, 9]\<rparr>"

lemma sample_author_simps [simp]:
  "ac_commit sample_authors = sample_commits" "ac_funding sample_authors = 2"
  "ac_collateral sample_authors = 4" "ac_emit sample_authors" "ac_perbill sample_authors = sample_perbill"
  "ac_keys sample_authors = [7, 8, 9]" "cc_source_digest sample_commits w = Some 30" "ac_is_idle sample_authors w s = Inr ()"
  by (simp_all add: sample_authors_def sample_commits_def)

definition vacant :: "(nat, nat, nat, asset \<times> asset) commit_store \<Rightarrow> (nat, nat, nat, asset \<times> asset) author_store" where
  "vacant c = \<lparr>au_block = 0, au_commit = c, au_authors = Map.empty, au_digests = Map.empty,
     au_funders = Map.empty, au_rewards_until = 0, au_penalties_until = 0, au_rewards_buffer = 0,
     au_penalties_buffer = 0, au_rewards = Map.empty, au_penalties = Map.empty, au_min_collateral = 0,
     au_max_exposure = 0, au_min_fund = 0, au_probation_period = 0, au_reduce_probation_by = 0,
     au_increase_probation_by = 0, au_elected = Map.empty, au_recent_elected_on = 0, au_max_elected = 0,
     au_min_elected = 0, au_force_max_elected = False, au_events = []\<rparr>"

definition founded :: "(nat, nat, nat, asset \<times> asset) commit_store \<Rightarrow> (nat, nat, nat, asset \<times> asset) author_store" where
  "founded c = the (author_genesis_build (author_genesis_default\<lparr>ag_min_elected := 1, ag_max_elected := 2,
     ag_force_max_elected := True\<rparr>) (vacant c))"

lemma genesis_accepted:
  "author_genesis_build (author_genesis_default\<lparr>ag_min_elected := 1, ag_max_elected := 2,
     ag_force_max_elected := True\<rparr>) (vacant c) = Some (founded c)"
  by (simp add: founded_def author_genesis_build_def author_genesis_default_def)

lemma founded_fields [simp]:
  "au_block (founded c) = 0" "au_commit (founded c) = c" "au_authors (founded c) = Map.empty"
  "au_digests (founded c) = Map.empty" "au_funders (founded c) = Map.empty" "au_rewards (founded c) = Map.empty"
  "au_penalties (founded c) = Map.empty" "au_rewards_until (founded c) = 0" "au_penalties_until (founded c) = 0"
  "au_min_collateral (founded c) = 1" "au_penalties_buffer (founded c) = 4" "au_rewards_buffer (founded c) = 2"
  "au_min_elected (founded c) = 1" "au_max_elected (founded c) = 2" "au_force_max_elected (founded c)"
  "au_elected (founded c) = Map.empty" "au_probation_period (founded c) = 10"
  "au_increase_probation_by (founded c) = 1"
  by (simp_all add: founded_def author_genesis_build_def author_genesis_default_def vacant_def)

lemma founded_reachable: "author_reachable (founded c)"
  by (rule author_start [OF _ genesis_accepted]) (simp add: fresh_authors_def vacant_def)

section \<open>Runs of the commitment pallet\<close>

lemma limits_run [simp]: "deposit_limits_of b = Inr limits_default"
  by (simp add: deposit_limits_of_def pluginE_def model_deposit_limits_def)

lemma limits_open [simp]: "limits_contains limits_default v"
  by (simp add: limits_contains_def limits_maximum_def limits_minimum_def limits_default_def sum_dyn_default_def
      index_get_def)

lemma sample_take:
  "cs_asset s = (0, 4400) \<Longrightarrow>
     deduct_balance sample_commits 8 500 precise s = (Inr 500, s\<lparr>cs_asset := (0, 3900)\<rparr>)"
  by (simp add: deduct_balance_def policy_fortitude_def policy_precision_def run_defs on_asset_def
        checked_add_def sat_sub_def)

abbreviation sample_commit :: "nat \<Rightarrow> asset \<Rightarrow> nat commit_info" where
  "sample_commit d a \<equiv> \<lparr>ci_digest = d, ci_commits = [mk_receipt a a 1000000000 0], ci_variant = Affirmative\<rparr>"

definition backed_once :: "(nat, nat, nat, asset \<times> asset) commit_store" where
  "backed_once = (empty_store (0, 4400))\<lparr>
     cs_reason_value := [2 \<mapsto> 1000], cs_digests := [(2, 3) \<mapsto> [mk_balance 1000 1000 1000000000 0 0]],
     cs_commits := [(7, 2) \<mapsto> sample_commit 3 1000],
     cs_events := [EvCommitPlaced 7 2 3 1000 Affirmative]\<rparr>"

definition backed_twice :: "(nat, nat, nat, asset \<times> asset) commit_store" where
  "backed_twice = (empty_store (0, 3900))\<lparr>
     cs_reason_value := [2 \<mapsto> 1000, 4 \<mapsto> 500],
     cs_digests := [(2, 3) \<mapsto> [mk_balance 1000 1000 1000000000 0 0], (4, 3) \<mapsto> [mk_balance 500 500 1000000000 0 0]],
     cs_commits := [(7, 2) \<mapsto> sample_commit 3 1000, (8, 4) \<mapsto> sample_commit 3 500],
     cs_events := [EvCommitPlaced 7 2 3 1000 Affirmative, EvCommitPlaced 8 4 3 500 Affirmative]\<rparr>"

lemmas fresh_affirmative = init_variant_fresh [of Affirmative, unfolded digest_info_default_def]

lemma place_once:
  "place_commit_of_variant sample_commits 7 2 3 1000 Affirmative precise (empty_store (400, 5000)) =
     (Inr 1000, backed_once)"
  by (simp add: sample_run backed_once_def digest_info_default_def fresh_affirmative)

lemma place_twice:
  "place_commit_of_variant sample_commits 8 4 3 500 Affirmative precise backed_once = (Inr 500, backed_twice)"
  by (simp add: sample_run sample_take backed_once_def backed_twice_def digest_info_default_def fresh_affirmative)

lemma placed:
  "place_commit_of_variant C who r d v variant q s = (Inr a, t) \<Longrightarrow>
     transactional (place_commit_of_variant C who r d v variant q) s = (Inr a, t)"
  by (simp add: transactional_Inr_iff)

lemma backed_reachable: "commit_reachable sample_commits backed_once" "commit_reachable sample_commits backed_twice"
proof -
  show once: "commit_reachable sample_commits backed_once"
    by (rule reach_step [OF reach_genesis step_place [OF placed [OF place_once]]])
  show "commit_reachable sample_commits backed_twice"
    by (rule reach_step [OF once step_place [OF placed [OF place_twice]]])
qed

section \<open>An author enrols\<close>

lemma place_collateral:
  "\<exists>c. place_commit sample_commits 7 4 30 1000 precise (empty_store (400, 5000)) = (Inr 1000, c)"
  by (simp add: place_commit_def position_default_def sample_run digest_info_default_def fresh_affirmative)

definition enrolled :: "(nat, nat, nat, asset \<times> asset) author_store" where
  "enrolled = snd (enroll sample_authors 7 1000 Force (founded (empty_store (400, 5000))))"

lemma can_enroll_run: "can_enroll sample_authors 7 1000 (founded (empty_store (400, 5000))) = Inr ()"
  by (simp add: can_enroll_def role_exists_def available_funds_def bindE_def ensureE_def store_defs sat_add_def)

lemma enroll_run:
  "\<exists>r. enroll sample_authors 7 1000 Force (founded (empty_store (400, 5000))) = (r, enrolled)
     \<and> au_authors enrolled = [7 \<mapsto> author_info_new 0 30] \<and> au_rewards enrolled = Map.empty
     \<and> au_penalties enrolled = Map.empty \<and> au_rewards_until enrolled = 0 \<and> au_penalties_until enrolled = 0
     \<and> au_block enrolled = 0 \<and> au_rewards_buffer enrolled = 2 \<and> au_penalties_buffer enrolled = 4
     \<and> au_probation_period enrolled = 10 \<and> au_increase_probation_by enrolled = 1"
proof -
  obtain c where c: "place_commit sample_commits 7 4 30 1000 precise (empty_store (400, 5000)) = (Inr 1000, c)"
    using place_collateral by blast
  have "enroll sample_authors 7 1000 Force (founded (empty_store (400, 5000))) = (Inr 1000,
      (founded (empty_store (400, 5000)))\<lparr>au_commit := c, au_authors := [7 \<mapsto> author_info_new 0 30],
        au_digests := [30 \<mapsto> 7], au_events := au_events (founded (empty_store (400, 5000))) @ [EvAuthorEnlisted 7 1000]\<rparr>)"
    using c by (simp add: enroll_def can_enroll_run role_exists_def ensureE_def gen_digest_def ok_orE_def
        place_commit_limits_def place_commit_limits_of_variant_def ask_def
        on_commitment_def bindO_def thenO_def gets_def emit_event_def deposit_author_event_def policy_new_def)
  then show ?thesis by (simp add: enrolled_def)
qed

section \<open>The life cycle\<close>

abbreviation probation_info :: "nat author_info" where
  "probation_info \<equiv> author_info_new 0 30"

lemma permanence_run:
  "run_trait_call sample_authors (OpSetPermanence 7) (enrolled\<lparr>au_block := 20\<rparr>) =
     (Inr (), enrolled\<lparr>au_block := 20, au_authors := [7 \<mapsto> probation_info\<lparr>ai_status := Active\<rparr>],
        au_events := au_events enrolled @ [EvAuthorStatus 7 Active]\<rparr>)"
  using enroll_run
  by (auto simp: set_permanence_def can_be_permanent_def get_meta_def ok_orE_def bindE_def author_info_new_def
      on_author_def thenO_def bindO_def emit_event_def deposit_author_event_def sat_add_def)

theorem author_lifecycle_witness:
  "role_edge (enrolled\<lparr>au_block := 20\<rparr>) 7 (Some probation_info) (Some (probation_info\<lparr>ai_status := Active\<rparr>))"
  using author_lifecycle [OF step_trait [OF permanence_run], of 7] enroll_run by simp

definition rewarded :: "(nat, nat, nat, asset \<times> asset) author_store" where
  "rewarded = enrolled\<lparr>au_authors := [7 \<mapsto> probation_info], au_rewards := [(2, 7) \<mapsto> 300], au_rewards_until := 2,
     au_events := au_events enrolled @ [EvAuthorAtRisk 7 Probation 0, EvAuthorRewardScheduled 7 300 2]\<rparr>"

lemma reward_run: "run_trait_call sample_authors (OpReward 7 300) enrolled = (Inr (), rewarded)"
proof -
  have "free_block (\<lambda>b. au_rewards enrolled (b, 7) \<noteq> None) 2 = Some 2"
    using enroll_run by (subst free_block.simps) simp
  with enroll_run show ?thesis
    by (auto simp: reward_def get_status_def get_meta_def ok_orE_def bindE_def author_info_new_def
        secure_permanence_def schedule_reward_def on_author_def on_risk_def thenO_def bindO_def gets_def readE_def
        emit_event_def deposit_author_event_def sat_add_def rewarded_def)
qed

lemma rewarded_reachable: "author_reachable rewarded"
proof -
  obtain r where "enroll sample_authors 7 1000 Force (founded (empty_store (400, 5000))) = (r, enrolled)"
    using enroll_run by blast
  then obtain r' where "run_trait_call sample_authors (OpEnroll 7 1000 Force) (founded (empty_store (400, 5000))) = (r', enrolled)"
    by (cases r) (simp_all add: thenO_def bindO_def)
  from author_next [OF author_next [OF founded_reachable step_trait [OF this]] step_trait [OF reward_run]]
  show ?thesis .
qed

theorem author_invariant_witness:
  "schedule_ok rewarded \<and> au_rewards rewarded (2, 7) = Some 300"
  using author_invariant [OF rewarded_reachable] by (simp add: rewarded_def)

theorem schedule_queries_exact_witness:
  "has_reward 7 rewarded = Inr () \<and> has_penalty 7 rewarded = Inl (AuthorModule PenaltyNotFound)"
proof -
  have "au_authors rewarded 7 \<noteq> None" "au_rewards_until rewarded \<noteq> - 1" "au_penalties_until rewarded \<noteq> - 1"
    using enroll_run by (simp_all add: rewarded_def)
  from schedule_queries_exact [OF rewarded_reachable this] show ?thesis
    using enroll_run by (auto simp: rewarded_def)
qed

section \<open>Penalties\<close>

lemma penalty_run: "\<exists>t. penalize sample_authors 7 50 enrolled = (Inr 4, t)"
proof -
  have "free_block (\<lambda>b. au_penalties enrolled (b, 7) \<noteq> None) 4 = Some 4"
    using enroll_run by (subst free_block.simps) simp
  with enroll_run show ?thesis
    by (auto simp: penalize_def get_status_def get_meta_def ok_orE_def bindE_def author_info_new_def
        penalize_risk_def risk_probation_def raise_risk_def schedule_penalty_def on_author_def on_risk_def
        thenO_def bindO_def gets_def readE_def emit_event_def deposit_author_event_def sat_add_def)
qed

theorem penalty_slot_witness:
  "\<exists>t. penalize sample_authors 7 50 enrolled = (Inr 4, t) \<and> au_penalties t = [(4, 7) \<mapsto> 50]"
proof -
  obtain t where run: "penalize sample_authors 7 50 enrolled = (Inr 4, t)" using penalty_run by blast
  with penalty_slot [OF run] enroll_run show ?thesis by auto
qed

theorem penalize_diverges_iff_witness:
  "fst (penalize sample_authors 7 50 (enrolled\<lparr>au_penalties := \<lambda>_. Some 1\<rparr>)) = Inl NeverReturns"
  using enroll_run by (simp add: penalize_diverges_iff author_info_new_def)

section \<open>The hold\<close>

lemma unat_of_nat_bound: "n \<le> k \<Longrightarrow> unat (of_nat n :: 'w::len word) \<le> k"
  using mod_less_eq_dividend [of n "2 ^ LENGTH('w)"] by (simp only: unat_of_nat)

lemma sample_perbill_part: "perbill_part sample_perbill"
proof -
  have bound: "unat (of_nat ((unat r * unat v + 999999999) div 1000000000) :: asset) \<le> unat v"
    if "unat r \<le> 1000000000" for r :: ratio and v :: asset
  proof -
    have "unat r * unat v + 999999999 \<le> 1000000000 * unat v + 999999999" using that by simp
    then have "(unat r * unat v + 999999999) div 1000000000 \<le> (1000000000 * unat v + 999999999) div 1000000000"
      by (rule div_le_mono)
    also have "\<dots> = unat v" by simp
    finally show ?thesis by (rule unat_of_nat_bound)
  qed
  have ratio: "unat (pb_from_rational sample_perbill p q) \<le> 1000000000" for p q
  proof (cases "q \<le> p")
    case False
    then have less: "unat p < unat q" by (simp add: word_le_nat_alt)
    then have "unat p * 1000000000 div unat q \<le> 1000000000 * unat q div unat q"
      by (intro div_le_mono) simp
    also have "\<dots> = 1000000000" using less by (intro nonzero_mult_div_cancel_right) simp
    finally have "unat p * 1000000000 div unat q \<le> 1000000000" .
    then have "unat (of_nat (unat p * 1000000000 div unat q) :: ratio) \<le> 1000000000" by (rule unat_of_nat_bound)
    with False show ?thesis by (simp add: sample_perbill_def)
  qed (simp add: sample_perbill_def)
  show ?thesis
    using bound [OF ratio] by (simp add: perbill_part_def word_le_nat_alt sample_perbill_def)
qed

definition holding :: "(nat, nat, nat, asset \<times> asset) author_store" where
  "holding = (founded backed_twice)\<lparr>au_authors := [5 \<mapsto> author_info_new 0 3], au_digests := [3 \<mapsto> 5]\<rparr>"

lemma values_run:
  "get_digest_value 2 3 backed_twice = Inr 1000" "get_digest_value 4 3 backed_twice = Inr 500"
  by (simp_all add: get_digest_value_def get_digest_variant_value_def backed_twice_def store_defs
      position_default_def get_balance_def)

lemma split_run: "hold_split sample_perbill 1000 1500 3000 = (2000, 1000)"
  by (simp add: hold_split_def sample_perbill_def sat_sub_def)

lemma fund_value_run:
  "\<exists>a c. set_digest_value sample_commits 2 3 2000 backed_twice = (Inr a, c) \<and> cs_to_issue c = 1000
     \<and> cs_reason_value c 4 = Some 500 \<and> cs_digests c (4, 3) = Some [mk_balance 500 500 1000000000 0 0]"
  by (simp add: set_digest_value_def position_default_def set_digest_variant_value_def backed_twice_def sample_run
      lazy_mint_def mint_eval rt_simps issue_more_def sat_add_def sat_sub_def)

lemma collateral_value_run:
  assumes "cs_to_issue c = 1000" "cs_reason_value c 4 = Some 500"
    and "cs_digests c (4, 3) = Some [mk_balance 500 500 1000000000 0 0]"
  shows "\<exists>a c'. set_digest_value sample_commits 4 3 1000 c = (Inr a, c')"
  using assms
  by (simp add: set_digest_value_def position_default_def set_digest_variant_value_def sample_run
      lazy_mint_def mint_eval rt_simps issue_more_def sat_add_def sat_sub_def)

theorem set_hold_exact_witness:
  "\<exists>t. set_hold sample_authors 5 3000 holding = (Inr (), t) \<and> get_hold sample_authors 5 t = Inr 3000"
proof -
  obtain a c where c: "set_digest_value sample_commits 2 3 2000 backed_twice = (Inr a, c)"
    and ok: "cs_to_issue c = 1000" "cs_reason_value c 4 = Some 500"
      "cs_digests c (4, 3) = Some [mk_balance 500 500 1000000000 0 0]"
    using fund_value_run by blast
  obtain a' c' where c': "set_digest_value sample_commits 4 3 1000 c = (Inr a', c')"
    using collateral_value_run [OF ok] by blast
  have "\<exists>t. set_hold sample_authors 5 3000 holding = (Inr (), t)"
    using c c' by (simp add: set_hold_def holding_def get_meta_def ok_orE_def author_info_new_def hold_parts_def
        ask_def values_run checked_add_def bindE_def split_run thenO_def bindO_def on_commitment_def
        on_set_hold_def emit_event_def deposit_author_event_def)
  then obtain t where run: "set_hold sample_authors 5 3000 holding = (Inr (), t)" by blast
  have "commit_reachable (ac_commit sample_authors) (au_commit holding)"
    using backed_reachable(2) by (simp add: holding_def)
  from set_hold_exact [OF this _ _ run] run show ?thesis by (simp add: sample_perbill_part)
qed

theorem unfunded_not_settled_witness:
  "settle_penalties sample_authors 4 [(7, 50)] (enrolled\<lparr>au_commit := empty_store (0, 0)\<rparr>) =
     enrolled\<lparr>au_commit := empty_store (0, 0), au_penalties := (au_penalties enrolled)((4, 7) := None)\<rparr>"
  using unfunded_not_settled [of "enrolled\<lparr>au_commit := empty_store (0, 0)\<rparr>" 7 probation_info sample_authors 4 50]
    enroll_run by (simp add: store_defs)

section \<open>Drawing\<close>

definition funded :: "(nat, nat, nat, asset \<times> asset) author_store" where
  "funded = (founded backed_once)\<lparr>au_authors := [5 \<mapsto> author_info_new 0 3], au_digests := [3 \<mapsto> 5],
     au_funders := [(5, 7) \<mapsto> ByDirect 7]\<rparr>"

lemma resolve_run: "\<exists>u. resolve_commit sample_commits 7 2 backed_once = (Inr 1000, u)"
proof -
  have "fresh_key 2 3 (empty_store (400 :: asset, 5000 :: asset))"
    by (simp add: store_defs)
  from placed_resolves [OF _ this place_once, of "(0, 4400)" 1000 "(0, 5400)"] show ?thesis
    using fixed_u64.fixed_point_axioms by (auto simp: backed_once_def store_defs)
qed

lemma draw_run: "\<exists>t. draw sample_authors 5 (ByDirect 7) funded = (Inr 1000, t)"
proof -
  obtain u where "resolve_commit sample_commits 7 2 backed_once = (Inr 1000, u)" using resolve_run by blast
  then show ?thesis
    by (simp add: draw_def can_draw_def funded_def get_meta_def ok_orE_def bindE_def author_info_new_def ask_def
        commit_exists_def get_commit_digest_def ensureE_def backed_once_def store_defs fund_towards_def
        on_commitment_def update_funders_def set_funder_def emit_event_def deposit_author_event_def
        thenO_def bindO_def)
qed

theorem funders_tracked_witness:
  "\<exists>t. draw sample_authors 5 (ByDirect 7) funded = (Inr 1000, t) \<and> au_funders t (5, 7) = None"
proof -
  obtain t where run: "draw sample_authors 5 (ByDirect 7) funded = (Inr 1000, t)" using draw_run by blast
  with funders_tracked [of sample_authors 5 "ByDirect 7" 0 Exact Force funded 1000 t] show ?thesis by auto
qed

text \<open>A pool with one slot left, whose backer is still recorded with the author of a slot that was
  removed.\<close>

definition one_slot :: "(nat, nat, nat, asset \<times> asset) commit_store" where
  "one_slot = (empty_store (0, 4400))\<lparr>
     cs_reason_value := [2 \<mapsto> 1000], cs_digests := [(2, 11) \<mapsto> [mk_balance 1000 1000 1000000000 0 0]],
     cs_commits := [(7, 2) \<mapsto> sample_commit 20 1000],
     cs_pools := [(2, 20) \<mapsto> \<lparr>po_balance = mk_balance 1000 1000 1000000000 0 0, po_capital = 1, po_commission = 0,
       po_slots = [\<lparr>sl_digest = 11, sl_shares = 1, sl_commit = mk_receipt 1000 1000 1000000000 0,
                    sl_variant = Affirmative\<rparr>]\<rparr>],
     cs_managers := [(2, 20) \<mapsto> 9]\<rparr>"

lemma rt_withdraw:
  "model_withdraw fixed_u64_ops (mk_receipt 1000 1000 1000000000 0) (mk_balance 1000 1000 1000000000 (0 :: 32 word) 0) =
     (Inr 1000, mk_balance 0 0 1000000000 0 0)"
  by (simp add: withdraw_eval redeem_def rt_simps bindE_def ok_orE_def)

lemma rt_live [simp]:
  "mk_receipt 1000 1000 1000000000 0 \<noteq> (product_default :: commit_instance)"
  "mk_balance 1000 1000 1000000000 0 0 \<noteq> (product_default :: lazy_balance)"
  by (simp_all add: mk_receipt_def mk_balance_def product_default_def sum_dyn_default_def)

lemma rt_no_part: "slot_allocation sample_commits 0 1 1 = Inr 0"
  by (simp add: slot_allocation_def bindE_def ok_orE_def rt_simps Let_def)

definition emptied_slot :: "nat slot_info" where
  "emptied_slot = \<lparr>sl_digest = 11, sl_shares = 1, sl_commit = product_default, sl_variant = Affirmative\<rparr>"

definition drained :: "(nat, nat, nat, asset \<times> asset) commit_store" where
  "drained = one_slot\<lparr>cs_digests := [(2, 11) \<mapsto> [mk_balance 0 0 1000000000 0 0]],
       cs_pools := [(2, 20) \<mapsto> \<lparr>po_balance = mk_balance 0 0 1000000000 0 0, po_capital = 1, po_commission = 0,
         po_slots = [emptied_slot]\<rparr>]\<rparr>"

lemma pool_withdraw_run:
  "withdraw_from_pool sample_commits 7 2 20 one_slot = (Inr \<lparr>ad_deposit = 1000, ad_withdraw = 1000\<rparr>, drained)"
  by (simp add: drained_def withdraw_from_pool_def one_slot_def release_pool_def recover_pool_def get_pool_def sample_run
      on_local_def balance_total_def pluginE_def model_total_value_def layout lazy_withdraw_def rt_withdraw
      on_pool_def pool_set_slot_commit_def on_slots_def slots_set_commit_def balance_reset_def match_effective_def
      rt_no_part receipt_deposit_value_def model_receipt_deposit_value_def set_pool_balance_def emptied_slot_def)

lemma finalize_run:
  "\<exists>u. finalize_resolve_commit sample_commits 7 2 \<lparr>ad_deposit = 1000, ad_withdraw = 1000\<rparr> drained = (Inr 1000, u) \<and>
     cs_pools u = cs_pools drained"
  by (simp add: finalize_resolve_commit_def thenO_def bindO_def on_asset_def resolve_imbalance_def
      sub_from_total_value_def set_total_value_def gets_def get_total_value_def drained_def one_slot_def store_defs
      ok_orE_def checked_sub_def ok_orO_def ret_def)

lemma pool_resolve_run:
  "\<exists>u. resolve_commit sample_commits 7 2 one_slot = (Inr 1000, u) \<and>
     cs_pools u = [(2, 20) \<mapsto> \<lparr>po_balance = mk_balance 0 0 1000000000 0 0, po_capital = 1, po_commission = 0,
         po_slots = [emptied_slot]\<rparr>]"
proof -
  have "get_commit_digest 7 2 one_slot = Inr 20" "get_commit_variant 7 2 one_slot = Inr Affirmative"
    "determine_digest 20 2 one_slot = Inr (Pool 20)"
    by (simp_all add: get_commit_digest_def get_commit_variant_def determine_digest_def digest_exists_def
        index_exists_def pool_exists_def ensureE_def bindE_def ok_orE_def one_slot_def store_defs)
  with finalize_run show ?thesis
    by (auto simp: resolve_commit_def resolve_pool_commit_def pool_withdraw_run thenO_def bindO_def emit_def
        drained_def)
qed

definition removed_slot :: "(nat, nat, nat, asset \<times> asset) author_store" where
  "removed_slot = (founded one_slot)\<lparr>
     au_authors := [5 \<mapsto> author_info_new 0 11, 6 \<mapsto> author_info_new 0 12], au_digests := [11 \<mapsto> 5, 12 \<mapsto> 6],
     au_funders := [(5, 7) \<mapsto> ByPool 20 7, (6, 7) \<mapsto> ByPool 20 7]\<rparr>"

lemma pool_draw_run:
  "\<exists>t. draw sample_authors 5 (ByPool 20 7) removed_slot = (Inr 1000, t)
     \<and> authors_behind sample_authors 5 (ByPool 20 7) t = {5}"
proof -
  obtain u where run: "resolve_commit sample_commits 7 2 one_slot = (Inr 1000, u)"
    and u: "cs_pools u = [(2, 20) \<mapsto> \<lparr>po_balance = mk_balance 0 0 1000000000 0 0, po_capital = 1, po_commission = 0,
         po_slots = [emptied_slot]\<rparr>]"
    using pool_resolve_run by blast
  have can: "can_draw sample_authors (ByPool 20 7) 5 removed_slot = Inr ()"
    by (simp add: can_draw_def removed_slot_def get_meta_def ok_orE_def bindE_def author_info_new_def ask_def
        slot_exists_def get_pool_def commit_exists_def get_commit_digest_def ensureE_def one_slot_def store_defs
        fund_towards_def pool_slot_exists_def)
  have slots: "get_slots_shares 2 20 u = Inr [(11, 1)]"
    using u by (simp add: get_slots_shares_def get_pool_def ok_orE_def bindE_def emptied_slot_def)
  have "au_commit removed_slot = one_slot" "au_digests removed_slot = [11 \<mapsto> 5, 12 \<mapsto> 6]"
    by (simp_all add: removed_slot_def)
  then show ?thesis
    using run slots
    by (simp add: draw_def can on_commitment_def update_funders_def set_funder_def ask_def
        emit_event_def deposit_author_event_def thenO_def bindO_def ok_orE_def)
qed

theorem stale_backer_blocks_witness:
  "\<exists>t. draw sample_authors 5 (ByPool 20 7) removed_slot = (Inr 1000, t) \<and> \<not> is_ok (backers_of sample_authors 6 t)"
proof -
  obtain t where run: "draw sample_authors 5 (ByPool 20 7) removed_slot = (Inr 1000, t)"
    and behind: "authors_behind sample_authors 5 (ByPool 20 7) t = {5}"
    using pool_draw_run by blast
  have "\<not> is_ok (backers_of sample_authors 6 t)"
    using stale_backer_blocks [OF run, of 6 "ByPool 20 7"] behind by (simp add: removed_slot_def)
  with run show ?thesis by blast
qed

section \<open>An election\<close>

theorem elected_spec_witness:
  "\<exists>t. store_elected [9, 7, 8] (founded one_slot) = (Inr (), t) \<and> reveal_elected sample_authors t = Some [7, 9]"
proof -
  obtain res t where run: "store_elected [9, 7, 8] (founded one_slot) = (res, t)" by (cases "store_elected [9, 7, 8] (founded one_slot)")
  note spec = elected_spec [OF run, of sample_authors]
  then have "is_ok res" "\<And>w. au_elected t (au_recent_elected_on t, w) \<noteq> None \<longleftrightarrow> w = 9 \<or> w = 7"
    by (auto simp: seats_of_def)
  then show ?thesis using run by (cases res) (auto simp: reveal_elected_filter)
qed

theorem elected_are_heaviest_witness:
  "\<exists>t ws. prepare sample_authors top_down_flat [(7, 10 :: nat), (8, 30), (9, 20)] (founded one_slot) = (Inr (), t)
     \<and> reveal_elected sample_authors t = Some ws \<and> length ws = 2 \<and> 8 \<in> set ws"
proof -
  obtain res t where run: "prepare sample_authors top_down_flat [(7, 10 :: nat), (8, 30), (9, 20)] (founded one_slot) = (res, t)"
    by (cases "prepare sample_authors top_down_flat [(7, 10 :: nat), (8, 30), (9, 20)] (founded one_slot)")
  then have ok: "res = Inr ()"
    by (auto simp: prepare_def Let_def emit_event_def deposit_author_event_def split: prod.splits sum.splits)
  from elected_are_heaviest [OF _ _ _ _ _ _ _ run] obtain ws where ws: "reveal_elected sample_authors t = Some ws"
    "length ws = 2" "set ws \<subseteq> {7, 8, 9}" "distinct ws"
    and best: "\<And>c x d y. (c, x) \<in> {(7, 10 :: nat), (8, 30), (9, 20)} \<Longrightarrow> (d, y) \<in> {(7, 10), (8, 30), (9, 20)} \<Longrightarrow>
      c \<in> set ws \<Longrightarrow> d \<notin> set ws \<Longrightarrow> y \<le> x"
    by auto
  have "8 \<in> set ws"
  proof (rule ccontr)
    assume "8 \<notin> set ws"
    with best [of 7 10 8 30] best [of 9 20 8 30] have "7 \<notin> set ws" "9 \<notin> set ws" by auto
    with \<open>8 \<notin> set ws\<close> ws(3) have "set ws = {}" by (simp add: subset_insert)
    with ws(2) show False by simp
  qed
  with run ok ws show ?thesis by blast
qed

end
