(* ===== verification/FixedTypes.thy ===== *)
theory FixedTypes
  imports Prelude
begin

text \<open>
  The numeric types of \<open>frame/suite/src/fixedpoint.rs\<close>: the four fixed-point types of
  \<open>sp_arithmetic\<close>, the primitive integers with the fixed-point type of each, conversions between
  them and the bridge to signed arithmetic.

  A fixed-point number is its inner integer, kept in the range of its type. The arithmetic of
  \<open>sp_arithmetic\<close> is not part of the repository: \<open>fixed_type\<close> collects what the code calls
  (saturating and checked operations of \<open>FixedPointNumber\<close>), with the range and the scale of the
  type. The locale states what its documentation promises; \<open>scaled\<close> builds an instance of any
  range and scale, and the four types are such instances.
\<close>

section \<open>Fixed-point types\<close>

datatype fixed_kind = FU64 | FI64 | FU128 | FI128

fun inner_bits :: "fixed_kind \<Rightarrow> int" where
  "inner_bits FU64 = 64"
| "inner_bits FI64 = 64"
| "inner_bits FU128 = 128"
| "inner_bits FI128 = 128"

fun decimal_places :: "fixed_kind \<Rightarrow> int" where
  "decimal_places FU64 = 9"
| "decimal_places FI64 = 9"
| "decimal_places FU128 = 18"
| "decimal_places FI128 = 18"

record fixed_type =
  fp_kind :: fixed_kind
  fp_min :: int
  fp_max :: int
  fp_div :: int
  fp_add :: "int \<Rightarrow> int \<Rightarrow> int"
  fp_sub :: "int \<Rightarrow> int \<Rightarrow> int"
  fp_mul :: "int \<Rightarrow> int \<Rightarrow> int"
  fp_abs :: "int \<Rightarrow> int"
  fp_checked_mul :: "int \<Rightarrow> int \<Rightarrow> int option"
  fp_checked_div :: "int \<Rightarrow> int \<Rightarrow> int option"
  fp_integer :: "int \<Rightarrow> int"
  fp_rational :: "int \<Rightarrow> int \<Rightarrow> int"

abbreviation fp_one :: "fixed_type \<Rightarrow> int" where
  "fp_one F \<equiv> fp_div F"

definition clamp :: "int \<Rightarrow> int \<Rightarrow> int \<Rightarrow> int" where
  "clamp lo hi v = (if v < lo then lo else if v > hi then hi else v)"

definition in_range :: "fixed_type \<Rightarrow> int \<Rightarrow> bool" where
  "in_range F v \<longleftrightarrow> fp_min F \<le> v \<and> v \<le> fp_max F"

definition fits :: "fixed_type \<Rightarrow> int \<Rightarrow> int option" where
  "fits F v = (if in_range F v then Some v else None)"

text \<open>Integer division of Rust, which truncates.\<close>

definition tdiv :: "int \<Rightarrow> int \<Rightarrow> int" where
  "tdiv a b = (if (a < 0) = (b < 0) then \<bar>a\<bar> div \<bar>b\<bar> else - (\<bar>a\<bar> div \<bar>b\<bar>))"

definition scaled :: "fixed_kind \<Rightarrow> int \<Rightarrow> int \<Rightarrow> int \<Rightarrow> fixed_type" where
  "scaled k lo hi d =
     (let fit = (\<lambda>v. if lo \<le> v \<and> v \<le> hi then Some v else None) in
      \<lparr>fp_kind = k, fp_min = lo, fp_max = hi, fp_div = d,
       fp_add = (\<lambda>x y. clamp lo hi (x + y)), fp_sub = (\<lambda>x y. clamp lo hi (x - y)),
       fp_mul = (\<lambda>x y. clamp lo hi (tdiv (x * y) d)), fp_abs = (\<lambda>x. clamp lo hi \<bar>x\<bar>),
       fp_checked_mul = (\<lambda>x y. fit (tdiv (x * y) d)),
       fp_checked_div = (\<lambda>x y. if y = 0 then None else fit (tdiv (x * d) y)),
       fp_integer = (\<lambda>n. clamp lo hi (n * d)), fp_rational = (\<lambda>n m. clamp lo hi (tdiv (n * d) m))\<rparr>)"

definition fixed_u64 :: fixed_type where
  "fixed_u64 = scaled FU64 0 18446744073709551615 1000000000"

definition fixed_i64 :: fixed_type where
  "fixed_i64 = scaled FI64 (- 9223372036854775808) 9223372036854775807 1000000000"

definition fixed_u128 :: fixed_type where
  "fixed_u128 = scaled FU128 0 340282366920938463463374607431768211455 1000000000000000000"

definition fixed_i128 :: fixed_type where
  "fixed_i128 = scaled FI128 (- 170141183460469231731687303715884105728)
     170141183460469231731687303715884105727 1000000000000000000"

section \<open>The contract of the arithmetic\<close>

text \<open>
  Addition, subtraction and the conversion of an integer are exact up to saturation; a product or
  a quotient of two numbers that are not negative is rounded down, is \<open>None\<close> out of range or for a
  zero divisor, and a product of zero is zero. The scales are those of nine or eighteen decimals.
\<close>

locale fixed_arith =
  fixes F :: fixed_type
  assumes bounds: "fp_min F \<le> 0" "16 * fp_div F \<le> fp_max F"
    "fp_max F < 2 ^ 128" "fp_max F \<le> 2 ^ 70 * fp_div F"
    and scale: "10 ^ 9 \<le> fp_div F" "fp_div F \<le> 10 ^ 18"
    and add: "in_range F x \<Longrightarrow> in_range F y \<Longrightarrow> fp_add F x y = clamp (fp_min F) (fp_max F) (x + y)"
    and sub: "in_range F x \<Longrightarrow> in_range F y \<Longrightarrow> fp_sub F x y = clamp (fp_min F) (fp_max F) (x - y)"
    and abs: "in_range F x \<Longrightarrow> fp_abs F x = clamp (fp_min F) (fp_max F) \<bar>x\<bar>"
    and mul: "in_range F x \<Longrightarrow> in_range F y \<Longrightarrow> 0 \<le> x \<Longrightarrow> 0 \<le> y \<Longrightarrow>
        fp_mul F x y = clamp (fp_min F) (fp_max F) (x * y div fp_div F)"
    and checked_mul: "in_range F x \<Longrightarrow> in_range F y \<Longrightarrow> 0 \<le> x \<Longrightarrow> 0 \<le> y \<Longrightarrow>
        fp_checked_mul F x y = fits F (x * y div fp_div F)"
    and checked_div: "in_range F x \<Longrightarrow> in_range F y \<Longrightarrow> 0 \<le> x \<Longrightarrow> 0 < y \<Longrightarrow>
        fp_checked_div F x y = fits F (x * fp_div F div y)"
    and div_zero: "fp_checked_div F x 0 = None"
    and integer: "fp_integer F n = clamp (fp_min F) (fp_max F) (n * fp_div F)"
    and rational: "0 \<le> n \<Longrightarrow> 0 < m \<Longrightarrow> fp_rational F n m = clamp (fp_min F) (fp_max F) (n * fp_div F div m)"

lemma tdiv_nonneg [simp]: "0 \<le> a \<Longrightarrow> 0 < b \<Longrightarrow> tdiv a b = a div b"
  by (simp add: tdiv_def)

lemma scaled_arith:
  assumes "lo \<le> 0" "16 * d \<le> hi" "hi < 2 ^ 128" "hi \<le> 2 ^ 70 * d" "10 ^ 9 \<le> d" "d \<le> 10 ^ 18"
  shows "fixed_arith (scaled k lo hi d)"
proof -
  have "0 < d" using assms(5) by simp
  then show ?thesis using assms
    by unfold_locales (simp_all add: scaled_def in_range_def fits_def Let_def)
qed

interpretation fu64: fixed_arith fixed_u64
  unfolding fixed_u64_def by (rule scaled_arith) simp_all

interpretation fi64: fixed_arith fixed_i64
  unfolding fixed_i64_def by (rule scaled_arith) simp_all

interpretation fu128: fixed_arith fixed_u128
  unfolding fixed_u128_def by (rule scaled_arith) simp_all

interpretation fi128: fixed_arith fixed_i128
  unfolding fixed_i128_def by (rule scaled_arith) simp_all

text \<open>The fixed-point types of the program, by kind.\<close>

type_synonym fixed_family = "fixed_kind \<Rightarrow> fixed_type"

fun sp_fixed :: fixed_family where
  "sp_fixed FU64 = fixed_u64"
| "sp_fixed FI64 = fixed_i64"
| "sp_fixed FU128 = fixed_u128"
| "sp_fixed FI128 = fixed_i128"

lemma sp_fixed_arith: "fixed_arith (sp_fixed k)"
  by (cases k) (simp_all add: fu64.fixed_arith_axioms fi64.fixed_arith_axioms fu128.fixed_arith_axioms
    fi128.fixed_arith_axioms)

section \<open>Primitive integers\<close>

datatype prim_int = PU8 | PU16 | PU32 | PU64 | PU128 | PUsize | PI8 | PI16 | PI32 | PI64 | PI128 | PIsize

fun int_best_fixed :: "prim_int \<Rightarrow> fixed_kind" where
  "int_best_fixed PU8 = FU64"
| "int_best_fixed PU16 = FU64"
| "int_best_fixed PU32 = FU64"
| "int_best_fixed PU64 = FU128"
| "int_best_fixed PU128 = FU128"
| "int_best_fixed PUsize = FU128"
| "int_best_fixed PI8 = FI64"
| "int_best_fixed PI16 = FI64"
| "int_best_fixed PI32 = FI64"
| "int_best_fixed PI64 = FI128"
| "int_best_fixed PI128 = FI128"
| "int_best_fixed PIsize = FI128"

text \<open>Widths of the integers; a \<open>usize\<close> has the 32 bits of the WebAssembly runtime.\<close>

fun prim_bits :: "prim_int \<Rightarrow> nat" where
  "prim_bits PU8 = 8" | "prim_bits PU16 = 16" | "prim_bits PU32 = 32" | "prim_bits PU64 = 64"
| "prim_bits PU128 = 128" | "prim_bits PUsize = 32"
| "prim_bits PI8 = 8" | "prim_bits PI16 = 16" | "prim_bits PI32 = 32" | "prim_bits PI64 = 64"
| "prim_bits PI128 = 128" | "prim_bits PIsize = 32"

fun prim_signed :: "prim_int \<Rightarrow> bool" where
  "prim_signed p = (p \<in> {PI8, PI16, PI32, PI64, PI128, PIsize})"

definition prim_min :: "prim_int \<Rightarrow> int" where
  "prim_min p = (if prim_signed p then - (2 ^ (prim_bits p - 1)) else 0)"

definition prim_max :: "prim_int \<Rightarrow> int" where
  "prim_max p = (if prim_signed p then 2 ^ (prim_bits p - 1) - 1 else 2 ^ prim_bits p - 1)"

definition to_fixed :: "fixed_family \<Rightarrow> prim_int \<Rightarrow> int \<Rightarrow> int" where
  "to_fixed Fam p n = fp_integer (Fam (int_best_fixed p)) n"

definition from_fixed :: "fixed_family \<Rightarrow> prim_int \<Rightarrow> int \<Rightarrow> int" where
  "from_fixed Fam p f =
     (let inner = tdiv f (fp_div (Fam (int_best_fixed p))) in
      if prim_signed p
      then (if inner > prim_max p then prim_max p else if inner < prim_min p then prim_min p else inner)
      else (if inner > prim_max p then prim_max p else inner))"

section \<open>The bridge to signed arithmetic\<close>

fun signed_kind :: "fixed_kind \<Rightarrow> fixed_kind" where
  "signed_kind FI64 = FI64"
| "signed_kind FI128 = FI128"
| "signed_kind FU64 = FI128"
| "signed_kind FU128 = FI128"

fun checked_into :: "fixed_kind \<Rightarrow> int \<Rightarrow> int option" where
  "checked_into FI64 x = Some x"
| "checked_into FI128 x = Some x"
| "checked_into FU64 x = Some x"
| "checked_into FU128 x = (if x > prim_max PI128 then None else Some x)"

fun saturated_into :: "fixed_kind \<Rightarrow> int \<Rightarrow> int" where
  "saturated_into FI64 x = x"
| "saturated_into FI128 x = x"
| "saturated_into FU64 x = x"
| "saturated_into FU128 x = (if x > prim_max PI128 then prim_max PI128 else x)"

fun checked_from :: "fixed_kind \<Rightarrow> int \<Rightarrow> int option" where
  "checked_from FI64 x = Some x"
| "checked_from FI128 x = Some x"
| "checked_from FU64 x = (if x < 0 \<or> x > prim_max PU64 then None else Some x)"
| "checked_from FU128 x = (if x < 0 then None else Some x)"

fun saturated_from :: "fixed_kind \<Rightarrow> int \<Rightarrow> int" where
  "saturated_from FI64 x = x"
| "saturated_from FI128 x = x"
| "saturated_from FU64 x = (if x < 0 then 0 else if x > prim_max PU64 then prim_max PU64 else x)"
| "saturated_from FU128 x = (if x < 0 then 0 else x)"

text \<open>\<open>saturating\<close> and \<open>checked\<close> run a closure in the signed type.\<close>

fun cast_saturating :: "fixed_kind \<Rightarrow> int \<Rightarrow> (int \<Rightarrow> int) \<Rightarrow> int" where
  "cast_saturating FI64 x f = f x"
| "cast_saturating FI128 x f = f x"
| "cast_saturating FU64 x f = saturated_from FU64 (f x)"
| "cast_saturating FU128 x f = saturated_from FU128 (f (saturated_into FU128 x))"

definition unless_bound :: "fixed_type \<Rightarrow> int \<Rightarrow> int option" where
  "unless_bound F result = (if result = fp_min F \<or> result = fp_max F then None else Some result)"

fun cast_checked :: "fixed_family \<Rightarrow> fixed_kind \<Rightarrow> int \<Rightarrow> (int option \<Rightarrow> int) \<Rightarrow> int option" where
  "cast_checked Fam FI64 x f = unless_bound (Fam FI64) (f (Some x))"
| "cast_checked Fam FI128 x f = unless_bound (Fam FI128) (f (Some x))"
| "cast_checked Fam FU64 x f = checked_from FU64 (f (Some x))"
| "cast_checked Fam FU128 x f = checked_from FU128 (f (checked_into FU128 x))"

end
