(* ===== verification/FixedMath.thy ===== *)
theory FixedMath
  imports FixedTypes
begin

text \<open>
  The algorithms of \<open>frame/suite/src/fixedpoint.rs\<close>: square root, exponential, logarithm and
  powers, generic in the fixed-point type. Every loop of the code runs at most
  \<open>MAX_ITERATIONS\<close> times, so the iterations left are the argument each recursion descends on;
  no fuel is added. Where an inner value is converted to \<open>i128\<close>, a value of \<open>u128\<close> that does not
  fit is \<open>None\<close>.
\<close>

section \<open>Utilities\<close>

definition ulp :: int where
  "ulp = 1"

definition max_iterations :: nat where
  "max_iterations = 50"

definition inner_i128 :: "int \<Rightarrow> int option" where
  "inner_i128 x = (if prim_min PI128 \<le> x \<and> x \<le> prim_max PI128 then Some x else None)"

definition to_u32_floor :: "fixed_type \<Rightarrow> int \<Rightarrow> int" where
  "to_u32_floor F x =
     (case inner_i128 x of
        None \<Rightarrow> prim_max PU32
      | Some inner \<Rightarrow>
          (case inner_i128 (fp_div F) of
             None \<Rightarrow> 0
           | Some d \<Rightarrow>
               let int_part = tdiv inner d in
               if int_part < 0 then 0
               else if int_part > prim_max PU32 then prim_max PU32
               else int_part))"

definition fixed_to_i128 :: "fixed_type \<Rightarrow> int \<Rightarrow> int option" where
  "fixed_to_i128 F x =
     Option.bind (inner_i128 x) (\<lambda>inner.
     Option.bind (inner_i128 (fp_div F)) (\<lambda>d.
     if inner - tdiv inner d * d = 0 then Some (tdiv inner d) else None))"

definition fixed_pi :: "fixed_type \<Rightarrow> int" where
  "fixed_pi F = fp_rational F 355 113"

definition dynamic_max_iterations :: "fixed_type \<Rightarrow> int \<Rightarrow> int" where
  "dynamic_max_iterations F x =
     (let int_part = to_u32_floor F (fp_abs F x)
      in min (prim_max PU32) (min (prim_max PU32) (int_part * decimal_places (fp_kind F)) + 1))"

section \<open>Square root\<close>

fun newton_loop :: "fixed_type \<Rightarrow> int \<Rightarrow> nat \<Rightarrow> int \<Rightarrow> int option \<Rightarrow> int" where
  "newton_loop F x 0 guess prev_diff = guess"
| "newton_loop F x (Suc n) guess prev_diff =
     (case fp_checked_div F x guess of
        None \<Rightarrow> guess
      | Some quot \<Rightarrow>
          let two = fp_add F (fp_one F) (fp_one F);
              tol = fp_add F ulp ulp;
              next = (case fp_checked_div F (fp_add F guess quot) two of None \<Rightarrow> guess | Some v \<Rightarrow> v);
              diff = (if next > guess then fp_sub F next guess else fp_sub F guess next)
          in if diff \<le> tol then next
             else if (case prev_diff of Some pd \<Rightarrow> diff \<ge> pd | None \<Rightarrow> False) then next
             else newton_loop F x n next (Some diff))"

definition newton_guess :: "fixed_type \<Rightarrow> int \<Rightarrow> int" where
  "newton_guess F x =
     (let one = fp_one F; two = fp_add F one one in
      if x > one
      then (case fp_checked_div F (fp_add F x one) two of None \<Rightarrow> one | Some v \<Rightarrow> v)
      else let quarter = fp_rational F 1 4 in if x > quarter then x else quarter)"

definition fixed_sqrt_newton :: "fixed_type \<Rightarrow> int \<Rightarrow> int" where
  "fixed_sqrt_newton F x =
     (if x \<le> 0 then 0
      else if x = fp_one F then fp_one F
      else newton_loop F x max_iterations (newton_guess F x) None)"

definition fixed_sqrt :: "fixed_type \<Rightarrow> int \<Rightarrow> int option" where
  "fixed_sqrt F x =
     (if x < 0 then None
      else if x = 0 then Some 0
      else if x = fp_one F then Some (fp_one F)
      else Some (fixed_sqrt_newton F x))"

record complex_fixed =
  cx_real :: int
  cx_imgn :: int

definition complex_sqrt :: "fixed_type \<Rightarrow> int \<Rightarrow> complex_fixed option" where
  "complex_sqrt F x =
     (if x = 0 then Some \<lparr>cx_real = 0, cx_imgn = 0\<rparr>
      else if x < 0 then
        (let mag = fp_abs F x in Some \<lparr>cx_real = 0, cx_imgn = fixed_sqrt_newton F mag\<rparr>)
      else Some \<lparr>cx_real = fixed_sqrt_newton F x, cx_imgn = 0\<rparr>)"

section \<open>Powers\<close>

function powi_loop :: "fixed_type \<Rightarrow> nat \<Rightarrow> int \<Rightarrow> int \<Rightarrow> int" where
  "powi_loop F n base result =
     (if n > 0
      then let result' = (if n mod 2 = 1 then fp_mul F result base else result);
               n' = n div 2
           in powi_loop F n' (if n' > 0 then fp_mul F base base else base) result'
      else result)"
  by pat_completeness auto
termination by (relation "measure (\<lambda>(F, n, base, result). n)") auto

declare powi_loop.simps [simp del]

definition fixed_powi_positive :: "fixed_type \<Rightarrow> int \<Rightarrow> nat \<Rightarrow> int" where
  "fixed_powi_positive F x n = powi_loop F n x (fp_one F)"

definition fixed_powi :: "fixed_type \<Rightarrow> int \<Rightarrow> int \<Rightarrow> int option" where
  "fixed_powi F x n =
     (if n = 0 then Some (fp_one F)
      else if n < 0 then
        (if x = 0 then None
         else fp_checked_div F (fp_one F) (fixed_powi_positive F x (nat \<bar>n\<bar>)))
      else Some (fixed_powi_positive F x (nat n)))"

section \<open>Logarithm\<close>

fun range_reduce_loop :: "fixed_type \<Rightarrow> nat \<Rightarrow> int \<Rightarrow> nat \<Rightarrow> int \<times> nat" where
  "range_reduce_loop F 0 y k = (y, k)"
| "range_reduce_loop F (Suc n) y k =
     (let one = fp_one F; half = fp_rational F 1 2;
          diff = (if y > one then fp_sub F y one else fp_sub F one y)
      in if diff \<le> half then (y, k)
         else let ny = fixed_sqrt_newton F y
              in if ny = y then (y, k)
                 else if ny = 0 then (y, k)
                 else range_reduce_loop F n ny (k + 1))"

definition range_reduce_sqrt :: "fixed_type \<Rightarrow> int \<Rightarrow> int \<times> nat" where
  "range_reduce_sqrt F y = range_reduce_loop F max_iterations y 0"

fun ln_series :: "fixed_type \<Rightarrow> int \<Rightarrow> nat \<Rightarrow> nat \<Rightarrow> int \<Rightarrow> int \<Rightarrow> int" where
  "ln_series F t_sq 0 i pow acc = acc"
| "ln_series F t_sq (Suc n) i pow acc =
     (let term = (case fp_checked_div F pow (fp_integer F (2 * int i + 1)) of None \<Rightarrow> 0 | Some v \<Rightarrow> v)
      in if fp_abs F term \<le> ulp then acc
         else let new_sum = fp_add F acc term
              in if new_sum = acc then acc
                 else ln_series F t_sq n (i + 1)
                        (case fp_checked_mul F pow t_sq of None \<Rightarrow> 0 | Some v \<Rightarrow> v) new_sum)"

definition ln_near_one :: "fixed_type \<Rightarrow> int \<Rightarrow> int" where
  "ln_near_one F y =
     (let one = fp_one F; two = fp_add F one one;
          t = (case fp_checked_div F (fp_sub F y one) (fp_add F y one) of None \<Rightarrow> 0 | Some v \<Rightarrow> v);
          t_sq = (case fp_checked_mul F t t of None \<Rightarrow> 0 | Some v \<Rightarrow> v)
      in fp_mul F (ln_series F t_sq max_iterations 0 t 0) two)"

definition fixed_ln :: "fixed_type \<Rightarrow> int \<Rightarrow> int option" where
  "fixed_ln F x =
     (let one = fp_one F in
      if x \<le> 0 then None
      else if x = one then Some 0
      else if fp_sub F 0 one = 0 \<and> x < one then None
      else case range_reduce_sqrt F x of (y_reduced, k) \<Rightarrow>
        let ln_val = ln_near_one F y_reduced in
        if k > 31 then None
        else if k > 0 then Some (fp_mul F ln_val (fp_integer F (2 ^ k)))
        else Some ln_val)"

section \<open>Exponential\<close>

fun exp_series :: "fixed_type \<Rightarrow> int \<Rightarrow> nat \<Rightarrow> nat \<Rightarrow> int \<Rightarrow> int \<Rightarrow> int" where
  "exp_series F r 0 i term acc = acc"
| "exp_series F r (Suc n) i term acc =
     (let prod = (case fp_checked_mul F term r of None \<Rightarrow> 0 | Some v \<Rightarrow> v);
          next_term = (case fp_checked_div F prod (fp_integer F (int i)) of None \<Rightarrow> 0 | Some v \<Rightarrow> v)
      in if fp_abs F next_term \<le> ulp then acc
         else let new_sum = fp_add F acc next_term
              in if new_sum = acc then acc
                 else exp_series F r n (i + 1) next_term new_sum)"

text \<open>The exponent split into an integer and the rest.\<close>

definition exp_split :: "fixed_type \<Rightarrow> int \<Rightarrow> (int \<times> int) option" where
  "exp_split F x =
     Option.bind (inner_i128 x) (\<lambda>inner.
     Option.bind (inner_i128 (fp_div F)) (\<lambda>d.
     let n = clamp (prim_min PI32) (prim_max PI32) (tdiv inner d)
     in Some (n, fp_sub F x (fp_integer F n))))"

definition euler :: "fixed_type \<Rightarrow> int" where
  "euler F = fp_rational F 2718281828459045235 1000000000000000000"

definition fixed_exp :: "fixed_type \<Rightarrow> int \<Rightarrow> int option" where
  "fixed_exp F x =
     (let one = fp_one F;
          neg_threshold = fp_integer F
            (- (clamp (prim_min PI32) (prim_max PI32) (decimal_places (fp_kind F) * 10)))
      in if x = 0 then Some one
         else if x < neg_threshold then Some 0
         else Option.bind (exp_split F x) (\<lambda>(n, r).
           let acc = exp_series F r max_iterations 1 one one
           in if n = 0 then Some acc
              else Option.bind (fixed_powi F (euler F) n) (\<lambda>exp_n.
                   if exp_n \<ge> fp_max F then None else fp_checked_mul F acc exp_n)))"

definition fixed_pow :: "fixed_type \<Rightarrow> int \<Rightarrow> int \<Rightarrow> int option" where
  "fixed_pow F x p =
     (if x = 0 \<and> p \<le> 0 then None
      else if x = 0 then Some 0
      else let int_exp = fixed_to_i128 F p in
        if x < 0 \<and> int_exp = None then None
        else if p = 0 then Some (fp_one F)
        else if x = fp_one F then Some (fp_one F)
        else case int_exp of
          Some n \<Rightarrow> fixed_powi F x n
        | None \<Rightarrow> Option.bind (fixed_ln F x) (\<lambda>ln_x. fixed_exp F (fp_mul F p ln_x)))"

end
