(* ===== verification/FixedSqrt.thy ===== *)
theory FixedSqrt
  imports FixedMath
begin

text \<open>
  The accuracy of the square root. In inner units the Newton step of the code is the integer step
  \<open>(g + N div g) div 2\<close> for \<open>N = x * DIV\<close>. The distance between two guesses is at least halved
  while it is large and falls quadratically once it is below the root, so the loop ends by its
  convergence test within the iterations it has, never by stagnation or exhaustion, and the
  result is the integer root or at most two units above it.
\<close>

section \<open>The Newton step\<close>

definition nstep :: "int \<Rightarrow> int \<Rightarrow> int" where
  "nstep N g = (g + N div g) div 2"

definition root_of :: "int \<Rightarrow> int \<Rightarrow> bool" where
  "root_of N s \<longleftrightarrow> 0 \<le> s \<and> s * s \<le> N \<and> N < (s + 1) * (s + 1)"

lemma root_exists: "0 \<le> N \<Longrightarrow> \<exists>s. root_of N s"
proof (induction N rule: int_ge_induct)
  case base
  show ?case by (rule exI [of _ 0]) (simp add: root_of_def)
next
  case (step N)
  then obtain s where s: "0 \<le> s" "s * s \<le> N" "N < (s + 1) * (s + 1)" by (auto simp: root_of_def)
  show ?case
  proof (cases "N + 1 < (s + 1) * (s + 1)")
    case True
    with s show ?thesis by (intro exI [of _ s]) (simp add: root_of_def)
  next
    case False
    with s have "N + 1 = (s + 1) * (s + 1)" by simp
    moreover have "(s + 1) * (s + 1) < (s + 2) * (s + 2)" using s by (simp add: algebra_simps)
    ultimately show ?thesis using s by (intro exI [of _ "s + 1"]) (simp add: root_of_def add.assoc)
  qed
qed

lemma div_bounds: "0 < g \<Longrightarrow> g * (N div g) \<le> N \<and> N < g * (N div g) + g" for g :: int
  using pos_mod_bound [of g N] pos_mod_sign [of g N] mult_div_mod_eq [of g N] by linarith

lemma small_div:
  assumes "0 < g" "N < k * g"
  shows "N div g < (k :: int)"
proof -
  from div_bounds [OF assms(1)] have "g * (N div g) \<le> N" ..
  also have "N < g * k" using assms(2) by (simp add: mult.commute)
  finally have "g * (N div g) < g * k" .
  with assms(1) show ?thesis by simp
qed

lemma nstep_bounds: "2 * nstep N g \<le> g + N div g" "g + N div g \<le> 2 * nstep N g + 1"
  by (simp_all add: nstep_def)

lemma square_less: "x * x < y * y \<Longrightarrow> 0 \<le> y \<Longrightarrow> x < (y :: int)"
  using power2_less_imp_less [of x y] by (simp add: power2_eq_square)

lemma square_le: "x * x \<le> y * y \<Longrightarrow> 0 \<le> y \<Longrightarrow> x \<le> (y :: int)"
  using power2_le_imp_le [of x y] by (simp add: power2_eq_square)

lemma root_nonneg: "root_of N s \<Longrightarrow> 0 \<le> N"
  unfolding root_of_def by (meson order_trans zero_le_square)

text \<open>A step never undershoots the root.\<close>

lemma nstep_ge_root:
  assumes "root_of N s" "0 < g"
  shows "s \<le> nstep N g"
proof -
  define q where "q = N div g"
  have q: "0 \<le> q" using assms root_nonneg by (simp add: q_def pos_imp_zdiv_nonneg_iff)
  have "s * s < g * q + g" using div_bounds [OF assms(2), of N] assms(1) by (simp add: root_of_def q_def)
  then have "4 * (s * s) < 4 * (g * (q + 1))" by (simp add: distrib_left)
  also have "\<dots> = (g + (q + 1)) * (g + (q + 1)) - (g - (q + 1)) * (g - (q + 1))"
    by (simp add: algebra_simps)
  also have "\<dots> \<le> (g + (q + 1)) * (g + (q + 1))" by simp
  finally have "(2 * s) * (2 * s) < (g + q + 1) * (g + q + 1)" by (simp add: add.assoc)
  then have "2 * s < g + q + 1" by (rule square_less) (use q assms(2) in simp)
  with nstep_bounds(2) [of g N] show ?thesis by (simp add: q_def [symmetric])
qed

text \<open>How two successive distances are related.\<close>

lemma step_square:
  assumes "0 < g" "d = \<bar>nstep N g - g\<bar>"
  shows "nstep N g * nstep N g - d * d \<le> N"
proof -
  let ?h = "nstep N g" and ?q = "N div g"
  have "g * (2 * ?h - g) \<le> g * ?q"
    using nstep_bounds(1) [of N g] assms(1) by (intro mult_left_mono) auto
  also have "\<dots> \<le> N" using div_bounds [OF assms(1), of N] by simp
  finally have "g * (2 * ?h - g) \<le> N" .
  moreover have "d * d = (?h - g) * (?h - g)" by (simp add: assms(2) abs_mult_self_eq)
  ultimately show ?thesis by (simp add: algebra_simps)
qed

lemma next_distance:
  assumes "0 < h" "h * h - d * d \<le> N" "nstep N h \<le> h"
  shows "2 * h * (h - nstep N h - 1) < d * d"
proof -
  define q where "q = N div h"
  have "N < h * (q + 1)" using div_bounds [OF assms(1), of N] by (simp add: algebra_simps q_def)
  with assms(2) have "h * (h - (q + 1)) < d * d" by (simp add: algebra_simps)
  moreover have "2 * (h - nstep N h - 1) \<le> h - (q + 1)"
    using nstep_bounds(2) [of h N] by (simp add: q_def [symmetric])
  then have "h * (2 * (h - nstep N h - 1)) \<le> h * (h - (q + 1))"
    using assms(1) by (intro mult_left_mono) auto
  ultimately show ?thesis by (simp add: algebra_simps)
qed

lemma above_root:
  assumes "root_of N s" "s < g"
  shows "N div g \<le> s"
proof -
  have s: "0 \<le> s" "N < (s + 1) * (s + 1)" using assms(1) by (simp_all add: root_of_def)
  have "(s + 1) * (s + 1) \<le> g * (s + 1)" using assms(2) s(1) by (intro mult_right_mono) auto
  with s(2) have "N < (s + 1) * g" by (simp add: mult.commute)
  then have "N div g < s + 1" using assms(2) s(1) by (intro small_div) auto
  then show ?thesis by simp
qed

lemma root_quotient:
  assumes "root_of N s" "3 \<le> s" "s \<le> g"
  shows "N div g \<le> s + 2"
proof (cases "s = g")
  case True
  have "N < (s + 3) * s" using assms(1,2) by (simp add: root_of_def algebra_simps)
  then have "N div s < s + 3" using assms(2) by (intro small_div) auto
  then show ?thesis using True by simp
next
  case False
  with assms(3) above_root [OF assms(1), of g] show ?thesis by simp
qed

lemma step_falls:
  assumes "root_of N s" "3 \<le> s" "s \<le> h"
  shows "\<bar>nstep N h - h\<bar> \<le> 1 \<or> nstep N h \<le> h"
proof (cases "s = h")
  case True
  with root_quotient [OF assms] nstep_bounds [of N h] nstep_bounds(2) [of h N]
    nstep_ge_root [OF assms(1), of h] assms(2) show ?thesis by simp
next
  case False
  with above_root [OF assms(1), of h] nstep_bounds(1) [of N h] assms(3) show ?thesis by simp
qed

text \<open>Two guesses at most two units apart are at the root.\<close>

lemma close_steps:
  assumes root: "root_of N s" "3 \<le> s" and g: "0 < g" and near: "\<bar>nstep N g - g\<bar> \<le> 2"
  shows "s \<le> nstep N g" "nstep N g \<le> s + 2"
proof -
  define q h where "q = N div g" and "h = nstep N g"
  have h: "2 * h \<le> g + q" "g + q \<le> 2 * h + 1" using nstep_bounds [of N g] nstep_bounds(2) [of g N] by (simp_all add: q_def h_def)
  show "s \<le> nstep N g" by (rule nstep_ge_root [OF root(1) g])
  have "g \<le> s + 3"
  proof (rule ccontr)
    assume "\<not> g \<le> s + 3"
    then have far: "s + 4 \<le> g" by simp
    have "q \<le> s" using above_root [OF root(1), of g] far by (simp add: q_def)
    moreover have "g \<le> h + 2" using near by (simp add: h_def)
    ultimately have "g = s + 4" "q = s" using h far by linarith+
    then have "s * (s + 4) \<le> N" using div_bounds [OF g, of N] by (simp add: q_def mult.commute)
    then show False using root by (simp add: root_of_def algebra_simps)
  qed
  then consider "g \<le> s" | "s < g" "g \<le> s + 3" by linarith
  then have "h \<le> s + 2"
  proof cases
    case 1
    then show ?thesis using near by (simp add: h_def)
  next
    case 2
    then show ?thesis using above_root [OF root(1), of g] h by (simp add: q_def [symmetric])
  qed
  then show "nstep N g \<le> s + 2" by (simp add: h_def)
qed

section \<open>How fast the distance falls\<close>

lemma distance_below:
  assumes "0 \<le> N" "0 < g"
  shows "\<bar>nstep N g - g\<bar> \<le> nstep N g + 1"
proof -
  have "0 \<le> N div g" using assms by (simp add: pos_imp_zdiv_nonneg_iff)
  with nstep_bounds(2) [of g N] assms(2) show ?thesis by linarith
qed

lemma distance_next:
  assumes root: "root_of N s" "3 \<le> s" and g: "0 < g"
    and d: "d = \<bar>nstep N g - g\<bar>" and d': "d' = \<bar>nstep N (nstep N g) - nstep N g\<bar>" and far: "2 < d'"
  shows "2 * nstep N g * (d' - 1) < d * d" and "d \<le> nstep N g + 1" and "s \<le> nstep N g"
proof -
  let ?h = "nstep N g"
  show h: "s \<le> ?h" by (rule nstep_ge_root [OF root(1) g])
  show "d \<le> ?h + 1" using distance_below [OF root_nonneg [OF root(1)] g] d by simp
  have "nstep N ?h \<le> ?h" using step_falls [OF root h] far d' by linarith
  then show "2 * ?h * (d' - 1) < d * d"
    using next_distance [OF _ step_square [OF g d]] h root(2) d' by (simp add: abs_if split: if_splits)
qed

text \<open>The distance at least halves, up to a constant, and it falls strictly.\<close>

lemma distance_halves:
  assumes "2 * h * (d' - 1) < d * d" "d \<le> h + 1" "3 \<le> h" "2 < (d :: int)" "2 < d'"
  shows "2 * d' \<le> d + 3" and "d' < d"
proof -
  have "2 * (d - 1) * (d' - 1) \<le> 2 * h * (d' - 1)" using assms by (intro mult_right_mono) auto
  then have "2 * (d - 1) * (d' - 1) < d * d" using assms(1) by simp
  also have "d * d = (d - 1) * (d + 1) + 1" by (simp add: algebra_simps)
  finally have "(d - 1) * (2 * (d' - 1)) \<le> (d - 1) * (d + 1)" by (simp add: algebra_simps)
  then have "2 * (d' - 1) \<le> d + 1" using assms(4) by (simp add: mult_le_cancel_left)
  then show half: "2 * d' \<le> d + 3" by simp
  show "d' < d"
  proof (rule ccontr)
    assume "\<not> d' < d"
    with half assms have "d = 3" "d' = 3" by auto
    with assms(1,3) show False by simp
  qed
qed

text \<open>Below the root it falls quadratically.\<close>

lemma distance_squares:
  assumes "2 * h * (d' - 1) < d * d" "s \<le> h" "0 < A" "A * d \<le> (s :: int)" "2 < d" "2 < d'"
  shows "A * A * (2 * (d' - 1)) < s"
proof -
  have s: "0 < s" using assms(3,4,5) by (smt (verit) mult_pos_pos)
  have "s * (2 * (d' - 1)) \<le> h * (2 * (d' - 1))" using assms(2,6) by (intro mult_right_mono) auto
  with assms(1) have "s * (2 * (d' - 1)) < d * d" by (simp add: algebra_simps)
  then have "A * A * (s * (2 * (d' - 1))) < A * A * (d * d)" using assms(3) by simp
  also have "\<dots> = (A * d) * (A * d)" by simp
  also have "\<dots> \<le> s * s" using assms(3-5) s by (intro mult_mono) auto
  finally have "s * (A * A * (2 * (d' - 1))) < s * s" by (simp add: algebra_simps)
  with s show ?thesis by simp
qed

section \<open>The loop\<close>

text \<open>Bounds on the distance from which \<open>m\<close> more steps suffice: from level 7 on it is halved down
  to half of the root, below it is squared away.\<close>

definition level :: "nat \<Rightarrow> int \<Rightarrow> int \<Rightarrow> bool" where
  "level m s d =
     (if m = 0 then d \<le> 2
      else if m < 7 then 2 ^ 2 ^ (7 - m) * d \<le> s
      else 2 * (d - 4) \<le> 2 ^ (m - 7) * (s - 8))"

lemma level_down:
  assumes lev: "level (Suc m) s d" and s: "8 \<le> s" "s \<le> 2 ^ 94"
    and next_d: "2 * h * (d' - 1) < d * d" "d \<le> h + 1" "s \<le> h" and far: "2 < d" "2 < d'"
  shows "level m s d'"
proof (cases "m < 7")
  case True
  define A :: int where "A = 2 ^ 2 ^ (6 - m)"
  have "A * d \<le> s"
  proof (cases "m = 6")
    case True
    then show ?thesis using lev by (simp add: level_def A_def)
  next
    case False
    then show ?thesis using lev \<open>m < 7\<close> by (simp add: level_def A_def)
  qed
  moreover have "0 < A" by (simp add: A_def)
  ultimately have sq: "A * A * (2 * (d' - 1)) < s"
    using distance_squares [OF next_d(1,3)] far by simp
  show ?thesis
  proof (cases "m = 0")
    case True
    then have "2 ^ 128 * (2 * (d' - 1)) < s" using sq by (simp add: A_def)
    with s(2) far(2) show ?thesis by simp
  next
    case False
    then have "Suc (6 - m) = 7 - m" using \<open>m < 7\<close> by simp
    then have "(2 :: nat) ^ (7 - m) = 2 * 2 ^ (6 - m)" by (metis power_Suc)
    then have AA: "A * A = 2 ^ 2 ^ (7 - m)" by (simp add: A_def mult_2 power_add)
    have "A * A * d' \<le> A * A * (2 * (d' - 1))" using far by (intro mult_left_mono) auto
    with sq have "A * A * d' \<le> s" by (rule order_trans [OF _ less_imp_le, rotated])
    then have "2 ^ 2 ^ (7 - m) * d' \<le> s" by (simp only: AA)
    with False \<open>m < 7\<close> show ?thesis by (simp add: level_def)
  qed
next
  case False
  then obtain j where m: "m = 7 + j" using le_Suc_ex [of 7 m] by auto
  have "2 * d' \<le> d + 3" using distance_halves [OF next_d(1,2)] next_d(3) s far by simp
  moreover have "2 * (d - 4) \<le> 2 * (2 ^ j * (s - 8))" using lev by (simp add: level_def m)
  ultimately show ?thesis by (simp add: level_def m)
qed

fun ideal_newton :: "int \<Rightarrow> nat \<Rightarrow> int \<Rightarrow> int option \<Rightarrow> int" where
  "ideal_newton N 0 g prev = g"
| "ideal_newton N (Suc n) g prev =
     (let h = nstep N g; d = \<bar>h - g\<bar>
      in if d \<le> 2 then h
         else if (case prev of Some pd \<Rightarrow> d \<ge> pd | None \<Rightarrow> False) then h
         else ideal_newton N n h (Some d))"

lemma ideal_close:
  assumes root: "root_of N s" "8 \<le> s" "s \<le> 2 ^ 94"
    and "0 < g" "d = \<bar>nstep N g - g\<bar>" "level m s d" "m < n"
    and "\<And>pd. prev = Some pd \<Longrightarrow> d < pd"
  shows "s \<le> ideal_newton N n g prev \<and> ideal_newton N n g prev \<le> s + 2"
  using assms(4-8)
proof (induction n arbitrary: m g d prev)
  case (Suc n)
  let ?h = "nstep N g"
  have three: "3 \<le> s" using root(2) by simp
  show ?case
  proof (cases "d \<le> 2")
    case True
    with close_steps [OF root(1) three Suc.prems(1)] Suc.prems(2) show ?thesis by (simp add: Let_def)
  next
    case False
    define d' where "d' = \<bar>nstep N ?h - ?h\<bar>"
    have h: "s \<le> ?h" by (rule nstep_ge_root [OF root(1) Suc.prems(1)])
    obtain m' where m: "m = Suc m'" using Suc.prems(3) False by (cases m) (auto simp: level_def)
    have "level m' s d'" if "2 < d'"
      using level_down [OF Suc.prems(3) [unfolded m] root(2,3)] that False
        distance_next [OF root(1) three Suc.prems(1,2) d'_def that] by simp
    moreover have "d' < d"
    proof (cases "2 < d'")
      case True
      show ?thesis using distance_halves(2) [OF distance_next(1,2) [OF root(1) three Suc.prems(1,2) d'_def True]]
          True False h three by simp
    qed (use False in simp)
    moreover have "s \<le> ideal_newton N n ?h (Some d) \<and> ideal_newton N n ?h (Some d) \<le> s + 2"
    proof (cases "2 < d'")
      case True
      show ?thesis
        by (rule Suc.IH [of ?h d' m']) (use True calculation h three Suc.prems(4) m in \<open>auto simp: d'_def\<close>)
    next
      case False
      then show ?thesis
        by (intro Suc.IH [of ?h d' 0]) (use calculation h three Suc.prems(4) m in \<open>auto simp: d'_def level_def\<close>)
    qed
    ultimately show ?thesis using False Suc.prems(2,5) by (cases prev) (auto simp: Let_def)
  qed
qed simp

section \<open>The code's loop\<close>

context fixed_arith
begin

lemma sizes: "10 ^ 9 \<le> fp_div F" "16 * fp_div F \<le> fp_max F" "fp_min F \<le> 0" "0 < fp_div F"
  using bounds scale by simp_all

lemma in_rangeI: "0 \<le> v \<Longrightarrow> v \<le> fp_max F \<Longrightarrow> in_range F v"
  using sizes by (simp add: in_range_def)

lemma clamp_id: "0 \<le> v \<Longrightarrow> v \<le> fp_max F \<Longrightarrow> clamp (fp_min F) (fp_max F) v = v"
  using sizes by (simp add: clamp_def)

lemma fits_id: "0 \<le> v \<Longrightarrow> v \<le> fp_max F \<Longrightarrow> fits F v = Some v"
  by (simp add: fits_def in_rangeI)

lemma twos: "fp_add F (fp_div F) (fp_div F) = 2 * fp_div F" "fp_add F ulp ulp = 2"
  "fp_rational F 1 4 = fp_div F div 4" "fp_rational F 1 2 = fp_div F div 2"
proof -
  have "fp_div F div 4 \<le> fp_max F" "fp_div F div 2 \<le> fp_max F" using sizes by linarith+
  then show "fp_add F (fp_div F) (fp_div F) = 2 * fp_div F" "fp_add F ulp ulp = 2"
    "fp_rational F 1 4 = fp_div F div 4" "fp_rational F 1 2 = fp_div F div 2"
    using sizes by (simp_all add: add rational in_rangeI clamp_id ulp_def)
qed

lemma halve:
  assumes "0 \<le> v" "v \<le> fp_max F"
  shows "fp_checked_div F v (2 * fp_div F) = Some (v div 2)"
proof -
  have "v * fp_div F div (2 * fp_div F) = v div 2" using sizes by simp
  moreover have "v div 2 \<le> fp_max F" "0 \<le> v div 2" using assms by linarith+
  ultimately show ?thesis using assms sizes by (simp add: checked_div in_rangeI fits_id)
qed

definition guess_ok :: "int \<Rightarrow> int \<Rightarrow> bool" where
  "guess_ok x g \<longleftrightarrow> 0 < g \<and> 0 \<le> x * fp_div F div g \<and> g + x * fp_div F div g \<le> fp_max F"

lemma newton_step:
  assumes ok: "guess_ok x g" and x: "0 < x" "x \<le> fp_max F"
  shows "newton_loop F x (Suc n) g prev =
    (let h = nstep (x * fp_div F) g; d = \<bar>h - g\<bar>
     in if d \<le> 2 then h
        else if (case prev of Some pd \<Rightarrow> d \<ge> pd | None \<Rightarrow> False) then h
        else newton_loop F x n h (Some d))"
proof -
  define q where "q = x * fp_div F div g"
  define h where "h = nstep (x * fp_div F) g"
  have q: "0 < g" "0 \<le> q" "g + q \<le> fp_max F" using ok by (simp_all add: guess_ok_def q_def)
  have "h = (g + q) div 2" by (simp add: h_def nstep_def q_def)
  then have h: "0 \<le> h" "h \<le> fp_max F" using q by linarith+
  have "fp_checked_div F x g = Some q" "fp_add F g q = g + q"
    using q x by (simp_all add: checked_div add in_rangeI clamp_id fits_id q_def [symmetric])
  moreover have "fp_checked_div F (g + q) (2 * fp_div F) = Some h"
    using q by (simp add: halve h_def nstep_def q_def [symmetric])
  moreover have "g < h \<Longrightarrow> fp_sub F h g = \<bar>h - g\<bar>" "\<not> g < h \<Longrightarrow> fp_sub F g h = \<bar>h - g\<bar>"
    using h q by (simp_all add: sub in_rangeI clamp_id)
  ultimately show ?thesis
    by (cases prev; cases "g < h"; simp add: twos Let_def h_def [symmetric])
qed

lemma newton_ideal:
  assumes x: "0 < x" "x \<le> fp_max F" and root: "root_of (x * fp_div F) s" "3 \<le> s" "2 * s + 4 \<le> fp_max F"
    and "guess_ok x g"
  shows "newton_loop F x n g prev = ideal_newton (x * fp_div F) n g prev"
  using assms(6)
proof (induction n arbitrary: g prev)
  case (Suc n)
  define h where "h = nstep (x * fp_div F) g"
  have g: "0 < g" using Suc.prems by (simp add: guess_ok_def)
  have "s \<le> h" using nstep_ge_root [OF root(1) g] by (simp add: h_def)
  moreover have "x * fp_div F div h \<le> s + 2" by (rule root_quotient [OF root(1,2) calculation])
  moreover have "2 * h \<le> fp_max F"
    using nstep_bounds(1) [of "x * fp_div F" g] Suc.prems by (simp add: h_def guess_ok_def)
  moreover have "0 \<le> x * fp_div F" using x sizes by simp
  ultimately have "guess_ok x h"
    using root(2,3) by (simp add: guess_ok_def pos_imp_zdiv_nonneg_iff)
  from Suc.IH [OF this] show ?case
    by (simp only: newton_step [OF Suc.prems x] ideal_newton.simps h_def [symmetric] Let_def)
qed simp

lemma root_sizes:
  assumes x: "0 < x" "x \<le> fp_max F" and root: "root_of (x * fp_div F) s"
  shows "1000 \<le> s" "s \<le> 2 ^ 94" "2 * s + 4 \<le> fp_max F" "x \<le> 2 ^ 35 * (s + 1)" "fp_div F \<le> 2 ^ 30 * (s + 1)"
proof -
  let ?N = "x * fp_div F"
  have s: "0 \<le> s" "s * s \<le> ?N" "?N < (s + 1) * (s + 1)" using root by (simp_all add: root_of_def)
  have low: "fp_div F \<le> ?N" using x sizes by simp
  show "1000 \<le> s"
  proof (rule ccontr)
    assume "\<not> 1000 \<le> s"
    then have "(s + 1) * (s + 1) \<le> 1000 * 1000" using s(1) by (intro mult_mono) auto
    also have "\<dots> < fp_div F" using sizes(1) by simp
    finally show False using s(3) low by simp
  qed
  have "?N \<le> 2 ^ 128 * 10 ^ 18" using x bounds scale by (intro mult_mono) auto
  also have "\<dots> \<le> 2 ^ 94 * (2 ^ 94 :: int)" by simp
  finally show "s \<le> 2 ^ 94" using s(2) by (intro square_le [of s]) auto
  have "16 * ?N \<le> fp_max F * fp_max F"
    using mult_mono [OF x(2) sizes(2)] x sizes by simp
  then have "4 * s * (4 * s) \<le> fp_max F * fp_max F" using s(2) by simp
  then have "4 * s \<le> fp_max F" by (rule square_le) (use x in simp)
  with \<open>1000 \<le> s\<close> show "2 * s + 4 \<le> fp_max F" by simp
  have "x * x \<le> x * (2 ^ 70 * fp_div F)" using x bounds by (intro mult_left_mono) auto
  also have "\<dots> \<le> (2 ^ 35 * (s + 1)) * (2 ^ 35 * (s + 1))" using s(3) by (simp add: algebra_simps)
  finally show "x \<le> 2 ^ 35 * (s + 1)" by (rule square_le) (use s in simp)
  have "fp_div F * fp_div F \<le> 2 ^ 60 * fp_div F" using scale by (intro mult_right_mono) auto
  also have "\<dots> \<le> (2 ^ 30 * (s + 1)) * (2 ^ 30 * (s + 1))" using s(3) low by (simp add: algebra_simps)
  finally show "fp_div F \<le> 2 ^ 30 * (s + 1)" by (rule square_le) (use s in simp)
qed

lemma quotient_le: "0 < g \<Longrightarrow> N \<le> k * g \<Longrightarrow> N div g \<le> (k :: int)"
  by (metis nonzero_mult_div_cancel_right less_irrefl zdiv_mono1)

text \<open>The first guess leaves a distance the iterations are enough for.\<close>

lemma first_guess:
  assumes x: "0 < x" "x \<le> fp_max F" and other: "x \<noteq> fp_div F" and root: "root_of (x * fp_div F) s"
  defines "g \<equiv> newton_guess F x"
  shows "guess_ok x g" and "\<bar>nstep (x * fp_div F) g - g\<bar> \<le> 6 * max x (fp_div F)"
proof -
  let ?q = "x * fp_div F div g"
  have "0 < g \<and> ?q \<le> 5 * fp_div F \<and> 2 * g \<le> fp_max F \<and> g \<le> max x (fp_div F)"
  proof (cases "fp_div F < x")
    case True
    define y where "y = min (fp_max F) (x + fp_div F)"
    have y: "x \<le> y" "y \<le> 2 * x" "y \<le> fp_max F" using True x sizes by (simp_all add: y_def)
    have "in_range F x" "in_range F (fp_div F)" using x sizes by (simp_all add: in_range_def)
    then have "fp_add F x (fp_div F) = clamp (fp_min F) (fp_max F) (x + fp_div F)" by (rule add)
    also have "\<dots> = y" using x sizes by (simp add: clamp_def y_def min_def)
    finally have "fp_add F x (fp_div F) = y" .
    then have g: "g = y div 2" using True halve [of y] y x by (simp add: g_def newton_guess_def twos Let_def)
    have "x \<le> 3 * g" "0 < g" using y True sizes by (simp_all add: g)
    then have "x * fp_div F \<le> 3 * fp_div F * g" using sizes by simp
    then have "?q \<le> 3 * fp_div F" using \<open>0 < g\<close> by (rule quotient_le [rotated])
    moreover have "2 * g \<le> y" unfolding g by linarith
    moreover have "0 \<le> fp_div F" using sizes by simp
    ultimately show ?thesis using \<open>0 < g\<close> y by (auto simp: le_max_iff_disj)
  next
    case False
    then have g: "g = max x (fp_div F div 4)" by (simp add: g_def newton_guess_def twos Let_def max_def)
    have "0 < g" "fp_div F \<le> 5 * g" "g \<le> fp_div F" using False x sizes by (auto simp: g)
    then have "x * fp_div F \<le> 5 * fp_div F * g" using False other sizes x by (simp add: mult_mono mult.commute)
    then have "?q \<le> 5 * fp_div F" using \<open>0 < g\<close> by (rule quotient_le [rotated])
    with \<open>0 < g\<close> \<open>g \<le> fp_div F\<close> sizes show ?thesis by simp
  qed
  moreover have "0 \<le> ?q" using calculation x sizes by (simp add: pos_imp_zdiv_nonneg_iff)
  ultimately show "guess_ok x g" "\<bar>nstep (x * fp_div F) g - g\<bar> \<le> 6 * max x (fp_div F)"
    using nstep_bounds(1) [of "x * fp_div F" g] nstep_bounds(2) [of g "x * fp_div F"] sizes
    by (auto simp: guess_ok_def)
qed

lemma sqrt_close:
  assumes x: "0 < x" "x \<le> fp_max F"
  obtains s where "root_of (x * fp_div F) s" "s \<le> fixed_sqrt_newton F x" "fixed_sqrt_newton F x \<le> s + 2"
proof (cases "x = fp_div F")
  case True
  show thesis
    by (rule that [of "fp_div F"]) (use True sizes in \<open>simp_all add: root_of_def fixed_sqrt_newton_def algebra_simps\<close>)
next
  case False
  define g where "g = newton_guess F x"
  obtain s where root: "root_of (x * fp_div F) s" using root_exists [of "x * fp_div F"] x sizes by auto
  note large = root_sizes [OF x root]
  note first = first_guess [OF x False root, folded g_def]
  have "max x (fp_div F) \<le> 2 ^ 35 * (s + 1)" using large by simp
  with first(2) have "\<bar>nstep (x * fp_div F) g - g\<bar> \<le> 6 * (2 ^ 35 * (s + 1))" by linarith
  then have "level 49 s \<bar>nstep (x * fp_div F) g - g\<bar>" using large(1) by (simp add: level_def)
  then have "s \<le> ideal_newton (x * fp_div F) 50 g None \<and> ideal_newton (x * fp_div F) 50 g None \<le> s + 2"
    using first(1) by (intro ideal_close [OF root _ large(2), of g _ 49]) (use large(1) in \<open>auto simp: guess_ok_def\<close>)
  moreover have "newton_loop F x 50 g None = ideal_newton (x * fp_div F) 50 g None"
    using large by (intro newton_ideal [OF x root _ _ first(1)]) auto
  moreover have "fixed_sqrt_newton F x = newton_loop F x 50 g None"
    using x False by (simp only: fixed_sqrt_newton_def max_iterations_def g_def) simp
  ultimately show thesis using root by (intro that [of s]) simp_all
qed

end

text \<open>C31: The square root of every number of the type that is not negative exists and is the integer
  root of the scaled number or at most two units above it; below zero there is none.\<close>
theorem sqrt_accurate:
  assumes "fixed_arith F" and "in_range F x"
  shows "if x < 0 then fixed_sqrt F x = None
    else \<exists>r s. fixed_sqrt F x = Some r \<and> 0 \<le> s \<and> s * s \<le> x * fp_div F \<and> x * fp_div F < (s + 1) * (s + 1)
           \<and> s \<le> r \<and> r \<le> s + 2"
proof (cases "0 < x")
  case True
  moreover have "x \<le> fp_max F" using assms(2) by (simp add: in_range_def)
  moreover have "fixed_sqrt F x = Some (fixed_sqrt_newton F x)"
    using True by (simp add: fixed_sqrt_def fixed_sqrt_newton_def)
  ultimately show ?thesis
    using fixed_arith.sqrt_close [OF assms(1), of x] by (auto simp: root_of_def)
qed (auto simp: fixed_sqrt_def intro: exI [of _ 0])

end
