(* ===== verification/Payees.thy ===== *)
theory Payees
  imports FixedSqrt
begin

text \<open>
  The payees of \<open>frame/plugins/src/rewards.rs\<close>: how a payout is split among participants. A
  \<open>PayoutFor\<close> is the list its iterator yields; \<open>p\<close> is the integer of the payout and \<open>q\<close> the one of
  the shares, which have the same fixed-point type.
\<close>

definition prim_clamp :: "prim_int \<Rightarrow> int \<Rightarrow> int" where
  "prim_clamp p v = clamp (prim_min p) (prim_max p) v"

fun shares_total :: "prim_int \<Rightarrow> ('id \<times> int) list \<Rightarrow> int \<times> int \<Rightarrow> int \<times> int" where
  "shares_total q [] acc = acc"
| "shares_total q ((_, share) # rest) (acc_share, acc_len) =
     shares_total q rest (prim_clamp q (acc_share + share), prim_clamp PUsize (acc_len + 1))"

record 'id pay_state =
  ps_payouts :: "('id \<times> int \<times> int) list"
  ps_distributed :: int
  ps_remainders :: "(nat \<times> int) list"

definition pay_fp :: "fixed_family \<Rightarrow> prim_int \<Rightarrow> prim_int \<Rightarrow> int \<Rightarrow> int \<Rightarrow> int \<Rightarrow> int" where
  "pay_fp Fam p q payout_fixed total_shares share =
     (let F = Fam (int_best_fixed p);
          ratio = (case fp_checked_div F (to_fixed Fam q share) (to_fixed Fam q total_shares) of
                     None \<Rightarrow> to_fixed Fam q 0 | Some v \<Rightarrow> v)
      in fp_mul F payout_fixed ratio)"

fun shares_rows ::
  "fixed_family \<Rightarrow> prim_int \<Rightarrow> prim_int \<Rightarrow> int \<Rightarrow> int \<Rightarrow> nat \<Rightarrow> ('id \<times> int) list \<Rightarrow> 'id pay_state \<Rightarrow> 'id pay_state" where
  "shares_rows Fam p q payout_fixed total_shares idx [] s = s"
| "shares_rows Fam p q payout_fixed total_shares idx ((i, share) # rest) s =
     (let fp = pay_fp Fam p q payout_fixed total_shares share;
          pay_int = from_fixed Fam p fp;
          pay_fp_int = to_fixed Fam p pay_int;
          remainder = fp_sub (Fam (int_best_fixed p)) fp pay_fp_int
      in shares_rows Fam p q payout_fixed total_shares (idx + 1) rest
           \<lparr>ps_payouts = ps_payouts s @ [(i, pay_int, remainder)],
            ps_distributed = prim_clamp p (ps_distributed s + pay_int),
            ps_remainders = ps_remainders s @ [(idx, remainder)]\<rparr>)"

text \<open>One more unit for the largest remainders, as long as something is undistributed.\<close>

fun settle :: "prim_int \<Rightarrow> int \<Rightarrow> (nat \<times> int) list \<Rightarrow> int \<Rightarrow> ('id \<times> int \<times> int) list \<Rightarrow> ('id \<times> int \<times> int) list" where
  "settle p unit [] undistributed payouts = payouts"
| "settle p unit ((idx, _) # rest) undistributed payouts =
     (if undistributed > 0
      then settle p unit rest (prim_clamp p (undistributed - unit))
             (payouts[idx := (case payouts ! idx of (i, pay, r) \<Rightarrow> (i, prim_clamp p (pay + unit), r))])
      else payouts)"

definition shares_pay ::
  "fixed_family \<Rightarrow> prim_int \<Rightarrow> prim_int \<Rightarrow> int \<Rightarrow> ('id \<times> int) list \<Rightarrow> ('id \<times> int) list" where
  "shares_pay Fam p q payout payout_for =
     (let payout_fixed = to_fixed Fam p payout;
          (total_shares, len) = shares_total q payout_for (0, 0)
      in if total_shares = 0 \<or> len = 0 then []
         else let s = shares_rows Fam p q payout_fixed total_shares 0 payout_for
                        \<lparr>ps_payouts = [], ps_distributed = 0, ps_remainders = []\<rparr>;
                  undistributed = prim_clamp p (payout - ps_distributed s);
                  unit = from_fixed Fam p (fp_one (Fam (int_best_fixed p)))
              in map (\<lambda>(i, pay, _). (i, pay))
                   (settle p unit (sort_key (\<lambda>(_, r). - r) (ps_remainders s)) undistributed (ps_payouts s)))"

fun count_fixed :: "fixed_type \<Rightarrow> nat \<Rightarrow> int \<Rightarrow> int" where
  "count_fixed F 0 acc = acc"
| "count_fixed F (Suc n) acc = count_fixed F n (fp_add F acc (fp_one F))"

definition equal_pay :: "fixed_family \<Rightarrow> prim_int \<Rightarrow> int \<Rightarrow> ('id \<times> int) list \<Rightarrow> ('id \<times> int) list" where
  "equal_pay Fam p payout payout_for =
     (let F = Fam (int_best_fixed p);
          payout_fixed = to_fixed Fam p payout;
          count = length payout_for
      in if count = 0 then []
         else let cf = count_fixed F (count - 1) (fp_one F);
                  equal = (case fp_checked_div F payout_fixed cf of None \<Rightarrow> 0 | Some v \<Rightarrow> v)
              in map (\<lambda>(i, _). (i, from_fixed Fam p equal)) payout_for)"

end
