(* ===== verification/FixedModels.thy ===== *)
theory FixedModels
  imports FixedMath
begin

text \<open>
  The models of \<open>frame/plugins/src/influence.rs\<close> and the payouts of
  \<open>frame/plugins/src/rewards.rs\<close> that compute on fixed-point numbers. Every model takes the
  fixed-point types, the primitive integer of its input (an \<open>Asset\<close>) and its configuration; a
  configuration holds inner values of the fixed-point type of that integer.
\<close>

abbreviation best :: "fixed_family \<Rightarrow> prim_int \<Rightarrow> fixed_type" where
  "best Fam p \<equiv> Fam (int_best_fixed p)"

abbreviation into_signed :: "prim_int \<Rightarrow> int \<Rightarrow> int" where
  "into_signed p \<equiv> saturated_into (int_best_fixed p)"

abbreviation from_signed :: "prim_int \<Rightarrow> int \<Rightarrow> int" where
  "from_signed p \<equiv> saturated_from (int_best_fixed p)"

section \<open>Influence models\<close>

definition quadratic_model :: "fixed_family \<Rightarrow> prim_int \<Rightarrow> int \<Rightarrow> int" where
  "quadratic_model Fam p input =
     (let x = to_fixed Fam p input in
      case fixed_sqrt (best Fam p) x of Some sqrt \<Rightarrow> from_fixed Fam p sqrt | None \<Rightarrow> 0)"

definition logarithmic_model :: "fixed_family \<Rightarrow> prim_int \<Rightarrow> int \<Rightarrow> int" where
  "logarithmic_model Fam p input =
     (let x = to_fixed Fam p input in
      case fixed_ln (best Fam p) x of Some ln \<Rightarrow> from_fixed Fam p ln | None \<Rightarrow> 0)"

definition exponential_model :: "fixed_family \<Rightarrow> prim_int \<Rightarrow> int \<Rightarrow> int \<Rightarrow> int" where
  "exponential_model Fam p growth_rate input =
     (let x = to_fixed Fam p input;
          kx = fp_mul (best Fam p) growth_rate x;
          result = (case fixed_exp (best Fam p) kx of None \<Rightarrow> fp_max (best Fam p) | Some v \<Rightarrow> v)
      in from_fixed Fam p result)"

text \<open>The log-odds of a fraction, in the signed type.\<close>

definition logit :: "fixed_family \<Rightarrow> prim_int \<Rightarrow> int \<Rightarrow> int option" where
  "logit Fam p frac =
     (let denom = fp_sub (best Fam p) (fp_one (best Fam p)) frac in
      Option.bind (fp_checked_div (best Fam p) frac denom) (\<lambda>ratio.
      fixed_ln (Fam FI128) (into_signed p ratio)))"

definition open_unit :: "fixed_type \<Rightarrow> int \<Rightarrow> bool" where
  "open_unit F v \<longleftrightarrow> \<not> (v \<le> 0 \<or> v \<ge> fp_one F)"

text \<open>The value of the logistic curve, \<open>l / (1 + exp (- k (x - x0)))\<close>, in the signed type.\<close>

definition logistic :: "fixed_type \<Rightarrow> int \<Rightarrow> int \<Rightarrow> int \<Rightarrow> int \<Rightarrow> int" where
  "logistic S l k x x0 =
     (let delta = fp_sub S x x0;
          k_delta = fp_mul S k delta;
          neg_k_delta = fp_sub S 0 k_delta;
          exp_val = (case fixed_exp S neg_k_delta of None \<Rightarrow> fp_max S | Some v \<Rightarrow> v);
          denom = fp_add S (fp_one S) exp_val
      in case fp_checked_div S l denom of None \<Rightarrow> 0 | Some v \<Rightarrow> v)"

record sigmoid_config =
  sg_max_output :: int
  sg_start_frac :: int
  sg_end_frac :: int
  sg_start_x :: int
  sg_end_x :: int

definition sigmoid_shape :: "fixed_family \<Rightarrow> prim_int \<Rightarrow> sigmoid_config \<Rightarrow> (int \<times> int) option" where
  "sigmoid_shape Fam p cfg =
     (let S = Fam FI128;
          alpha = sg_start_frac cfg; beta = sg_end_frac cfg;
          x_alpha_s = into_signed p (sg_start_x cfg); x_beta_s = into_signed p (sg_end_x cfg);
          w_s = fp_sub S x_beta_s x_alpha_s in
      if \<not> (open_unit (best Fam p) alpha \<and> open_unit (best Fam p) beta) then None
      else if w_s \<le> 0 then None
      else Option.bind (logit Fam p alpha) (\<lambda>logit_alpha.
           Option.bind (logit Fam p beta) (\<lambda>logit_beta.
           Option.bind (fp_checked_div S (fp_sub S logit_beta logit_alpha) w_s) (\<lambda>k.
           if k = 0 then None
           else Option.bind (fp_checked_div S logit_alpha k) (\<lambda>logit_alpha_over_k.
                Some (k, fp_sub S x_alpha_s logit_alpha_over_k))))))"

definition sigmoid_model :: "fixed_family \<Rightarrow> prim_int \<Rightarrow> sigmoid_config \<Rightarrow> int \<Rightarrow> int" where
  "sigmoid_model Fam p cfg input =
     (case sigmoid_shape Fam p cfg of
        None \<Rightarrow> 0
      | Some (k, x0) \<Rightarrow>
          let x_s = into_signed p (to_fixed Fam p input);
              l_s = into_signed p (sg_max_output cfg)
          in from_fixed Fam p (from_signed p (logistic (Fam FI128) l_s k x_s x0)))"

section \<open>Payouts\<close>

definition zero_payout :: "int \<Rightarrow> int" where
  "zero_payout input = 0"

definition constant_payout :: "int \<Rightarrow> int \<Rightarrow> int" where
  "constant_payout payout input = payout"

definition inflation_payout :: "fixed_family \<Rightarrow> prim_int \<Rightarrow> int \<Rightarrow> int \<Rightarrow> int" where
  "inflation_payout Fam p inflation input =
     (let x = to_fixed Fam p input;
          reward_fixed = fp_mul (best Fam p) inflation x
      in from_fixed Fam p reward_fixed)"

record linear_payout_config =
  lp_slope :: int
  lp_base_reward :: int

definition linear_payout :: "fixed_family \<Rightarrow> prim_int \<Rightarrow> linear_payout_config \<Rightarrow> int \<Rightarrow> int" where
  "linear_payout Fam p cfg input =
     (let F = best Fam p; x = to_fixed Fam p input;
          reward_fixed = fp_add F (fp_mul F x (lp_slope cfg)) (lp_base_reward cfg)
      in from_fixed Fam p reward_fixed)"

record quadratic_payout_config =
  qp_quadratic_coeff :: int
  qp_linear_coeff :: int
  qp_constant_term :: int

definition quadratic_payout :: "fixed_family \<Rightarrow> prim_int \<Rightarrow> quadratic_payout_config \<Rightarrow> int \<Rightarrow> int" where
  "quadratic_payout Fam p cfg input =
     (let F = best Fam p; x = to_fixed Fam p input;
          x_sq = fp_mul F x x;
          term_quadratic = fp_mul F (qp_quadratic_coeff cfg) x_sq;
          term_linear = fp_mul F (qp_linear_coeff cfg) x;
          reward_fixed = fp_add F (fp_add F term_quadratic term_linear) (qp_constant_term cfg)
      in from_fixed Fam p reward_fixed)"

text \<open>
  The shift of a primitive integer by an integer of the same type. An amount outside the width
  aborts in a build with overflow checks (\<open>None\<close>) and is masked to the width in the others.
\<close>

definition prim_shr :: "bool \<Rightarrow> prim_int \<Rightarrow> int \<Rightarrow> int \<Rightarrow> int option" where
  "prim_shr checks p v n =
     (if checks \<and> \<not> (0 \<le> n \<and> n < int (prim_bits p)) then None
      else Some (v div 2 ^ nat (n mod int (prim_bits p))))"

definition halving_payout :: "bool \<Rightarrow> prim_int \<Rightarrow> int \<Rightarrow> int \<Rightarrow> int option" where
  "halving_payout checks p initial_reward n =
     (if n = 0 then Some initial_reward else prim_shr checks p initial_reward n)"

record exp_decay_config =
  ed_initial_reward :: int
  ed_decay_constant :: int

definition exp_decay_payout :: "fixed_family \<Rightarrow> prim_int \<Rightarrow> exp_decay_config \<Rightarrow> int \<Rightarrow> int" where
  "exp_decay_payout Fam p cfg x =
     (let F = best Fam p; S = Fam FI128;
          x_s = into_signed p (to_fixed Fam p x);
          a_s = into_signed p (ed_decay_constant cfg);
          ax_s = fp_mul S a_s x_s;
          neg_ax = fp_sub S 0 ax_s;
          exp_s = (case fixed_exp S neg_ax of None \<Rightarrow> 0 | Some v \<Rightarrow> v);
          exp_fp = from_signed p exp_s;
          r0_fixed = to_fixed Fam p (ed_initial_reward cfg);
          reward_fixed = fp_mul F r0_fixed exp_fp
      in from_fixed Fam p reward_fixed)"

record sigmoid_payout_config =
  sp_max_reward :: int
  sp_growth_start :: int
  sp_growth_end :: int

definition sigmoid_payout_shape :: "fixed_family \<Rightarrow> prim_int \<Rightarrow> sigmoid_payout_config \<Rightarrow> (int \<times> int) option" where
  "sigmoid_payout_shape Fam p cfg =
     (let S = Fam FI128; a = sp_growth_start cfg; b = sp_growth_end cfg in
      if \<not> (open_unit (best Fam p) a \<and> open_unit (best Fam p) b) then None
      else Option.bind (logit Fam p a) (\<lambda>logit_a.
           Option.bind (logit Fam p b) (\<lambda>logit_b.
           let k = fp_sub S logit_b logit_a in
           if k = 0 then None
           else let neg_logit_a = fp_sub S 0 logit_a in
                Option.bind (fp_checked_div S neg_logit_a k) (\<lambda>x0. Some (k, x0)))))"

definition sigmoid_payout :: "fixed_family \<Rightarrow> prim_int \<Rightarrow> sigmoid_payout_config \<Rightarrow> int \<Rightarrow> int" where
  "sigmoid_payout Fam p cfg x =
     (case sigmoid_payout_shape Fam p cfg of
        None \<Rightarrow> 0
      | Some (k, x0) \<Rightarrow>
          let x_s = into_signed p (to_fixed Fam p x);
              l_s = into_signed p (to_fixed Fam p (sp_max_reward cfg))
          in from_fixed Fam p (from_signed p (logistic (Fam FI128) l_s k x_s x0)))"

record inverse_config =
  ip_k :: int
  ip_epsilon :: int

definition inverse_payout :: "fixed_family \<Rightarrow> prim_int \<Rightarrow> inverse_config \<Rightarrow> int \<Rightarrow> int" where
  "inverse_payout Fam p cfg input =
     (let F = best Fam p; x = to_fixed Fam p input;
          denom = fp_add F x (ip_epsilon cfg) in
      if denom \<le> 0 then from_fixed Fam p 0
      else from_fixed Fam p (case fp_checked_div F (ip_k cfg) denom of None \<Rightarrow> 0 | Some v \<Rightarrow> v))"

record logarithmic_config =
  lg_vertical_scale :: int
  lg_horizontal_scale :: int
  lg_horizontal_shift :: int
  lg_vertical_shift :: int

definition logarithmic_payout :: "fixed_family \<Rightarrow> prim_int \<Rightarrow> logarithmic_config \<Rightarrow> int \<Rightarrow> int" where
  "logarithmic_payout Fam p cfg input =
     (let F = best Fam p; x = to_fixed Fam p input;
          inner = fp_add F (fp_mul F (lg_horizontal_scale cfg) x) (lg_horizontal_shift cfg);
          ln_val = (case fixed_ln F inner of None \<Rightarrow> 0 | Some v \<Rightarrow> v)
      in from_fixed Fam p (fp_add F (fp_mul F (lg_vertical_scale cfg) ln_val) (lg_vertical_shift cfg)))"

definition fixed_rate_payout :: "fixed_family \<Rightarrow> prim_int \<Rightarrow> int \<Rightarrow> int \<Rightarrow> int" where
  "fixed_rate_payout Fam p rate input =
     (let x = to_fixed Fam p input in from_fixed Fam p (fp_mul (best Fam p) x rate))"

record fixed_annual_config =
  fa_apr :: int
  fa_time_count :: int

text \<open>The \<open>debug_assert!\<close>s of the yearly rate are absent from the builds the model describes.\<close>

definition period_rate :: "fixed_type \<Rightarrow> int \<Rightarrow> int \<Rightarrow> int" where
  "period_rate F apr n =
     (let one = fp_one F;
          base = fp_add F one apr;
          exponent = (case fp_checked_div F one n of None \<Rightarrow> 0 | Some v \<Rightarrow> v);
          power = (case fixed_pow F base exponent of Some v \<Rightarrow> v | None \<Rightarrow> fp_max F)
      in fp_sub F power one)"

definition fixed_annual_payout :: "fixed_family \<Rightarrow> prim_int \<Rightarrow> fixed_annual_config \<Rightarrow> int \<Rightarrow> int" where
  "fixed_annual_payout Fam p cfg input =
     (let F = best Fam p; n = to_fixed Fam p (fa_time_count cfg) in
      if n = 0 then from_fixed Fam p 0
      else from_fixed Fam p (fp_mul F (to_fixed Fam p input) (period_rate F (fa_apr cfg) n)))"

section \<open>Piecewise payouts\<close>

record curve_params =
  cv_l :: int
  cv_k :: int
  cv_x0 :: int

definition evaluate :: "fixed_family \<Rightarrow> fixed_kind \<Rightarrow> curve_params \<Rightarrow> int \<Rightarrow> int" where
  "evaluate Fam kind c x =
     saturated_from kind
       (logistic (Fam FI128) (saturated_into kind (cv_l c)) (saturated_into kind (cv_k c))
         (saturated_into kind x) (saturated_into kind (cv_x0 c)))"

datatype segment =
    Linear int int int int
  | Curve int int curve_params

fun covers :: "int \<Rightarrow> segment \<Rightarrow> bool" where
  "covers x (Linear start_x end_x _ _) \<longleftrightarrow> x \<ge> start_x \<and> x \<le> end_x"
| "covers x (Curve start_x end_x _) \<longleftrightarrow> x \<ge> start_x \<and> x \<le> end_x"

definition interpolate :: "fixed_family \<Rightarrow> fixed_kind \<Rightarrow> int \<Rightarrow> int \<Rightarrow> int \<Rightarrow> int \<Rightarrow> int \<Rightarrow> int" where
  "interpolate Fam kind x start_x width start_y end_y =
     (let F = Fam kind; S = Fam FI128;
          t = (case fp_checked_div F (fp_sub F x start_x) width of None \<Rightarrow> 0 | Some v \<Rightarrow> v);
          start_y_s = saturated_into kind start_y;
          end_y_s = saturated_into kind end_y;
          delta_y_s = fp_sub S end_y_s start_y_s;
          t_s = saturated_into kind t
      in saturated_from kind (fp_add S start_y_s (fp_mul S t_s delta_y_s)))"

definition piecewise_payout :: "fixed_family \<Rightarrow> prim_int \<Rightarrow> segment list \<Rightarrow> int \<Rightarrow> int" where
  "piecewise_payout Fam p segments input =
     (let x = to_fixed Fam p input in
      case find (covers x) segments of
        None \<Rightarrow> 0
      | Some (Linear start_x end_x start_y end_y) \<Rightarrow>
          let width = fp_sub (best Fam p) end_x start_x in
          if width = 0 then from_fixed Fam p start_y
          else from_fixed Fam p (interpolate Fam (int_best_fixed p) x start_x width start_y end_y)
      | Some (Curve _ _ params) \<Rightarrow> from_fixed Fam p (evaluate Fam (int_best_fixed p) params x))"

end
