(* ===== verification/FixedProperties.thy ===== *)
theory FixedProperties
  imports FixedSqrt
begin

text \<open>
  Powers, the domain of the logarithm, and the conversions of the fixed-point suite: what they
  return exactly, where they saturate, and where the bridge to signed arithmetic changes the scale.
\<close>

section \<open>Powers\<close>

lemma one_le_product: "1 \<le> a \<Longrightarrow> 1 \<le> b \<Longrightarrow> 1 \<le> a * (b :: int)"
  using mult_mono [of 1 a 1 b] by simp

context fixed_arith
begin

lemma saturated_product:
  assumes "1 \<le> r" "1 \<le> b"
  shows "fp_mul F (min (fp_max F) (r * fp_div F)) (min (fp_max F) (b * fp_div F)) = min (fp_max F) (r * b * fp_div F)"
proof -
  let ?M = "fp_max F" and ?d = "fp_div F"
  let ?R = "min ?M (r * ?d)" and ?B = "min ?M (b * ?d)"
  have d: "0 < ?d" "?d \<le> ?M" using sizes by linarith+
  have rb: "?d \<le> r * ?d" "?d \<le> b * ?d" using assms d(1) by simp_all
  then have low: "?d \<le> ?R" "?d \<le> ?B" using d by simp_all
  have "fp_mul F ?R ?B = clamp (fp_min F) ?M (?R * ?B div ?d)"
    using low d by (intro mul) (auto simp: in_range_def intro: order_trans [OF sizes(3)])
  also have "0 \<le> ?R * ?B div ?d"
    using low d by (intro iffD2 [OF pos_imp_zdiv_nonneg_iff] mult_nonneg_nonneg) auto
  then have "clamp (fp_min F) ?M (?R * ?B div ?d) = min ?M (?R * ?B div ?d)"
    using sizes(3) by (simp add: clamp_def min_def)
  also have "\<dots> = min ?M (r * b * ?d)"
  proof (cases "r * ?d \<le> ?M \<and> b * ?d \<le> ?M")
    case True
    have "r * ?d * (b * ?d) = (r * b * ?d) * ?d" by simp
    with True d(1) show ?thesis by simp
  next
    case False
    have "?M \<le> ?R * ?B div ?d"
    proof -
      have "?M * ?d \<le> ?R * ?B"
      proof (cases "r * ?d \<le> ?M")
        case True
        then have "?B = ?M" using False by simp
        then show ?thesis using low d by (simp add: mult_mono mult.commute [of ?M])
      next
        case rs: False
        then have "?R = ?M" by simp
        then show ?thesis using low d by (simp add: mult_left_mono)
      qed
      then have "?M * ?d div ?d \<le> ?R * ?B div ?d" using d by (intro zdiv_mono1) auto
      with d show ?thesis by simp
    qed
    moreover have "r * ?d \<le> r * b * ?d" "b * ?d \<le> r * b * ?d" using assms d by simp_all
    then have "?M \<le> r * b * ?d" using False by linarith
    ultimately show ?thesis by simp
  qed
  finally show ?thesis .
qed

lemma powi_loop_exact:
  "1 \<le> r \<Longrightarrow> 1 \<le> b \<Longrightarrow> powi_loop F n (min (fp_max F) (b * fp_div F)) (min (fp_max F) (r * fp_div F)) =
     min (fp_max F) (r * b ^ n * fp_div F)"
proof (induction n arbitrary: b r rule: less_induct)
  case (less n)
  show ?case
  proof (cases n)
    case (Suc m)
    define r' where "r' = (if n mod 2 = 1 then r * b else r)"
    have r': "1 \<le> r'" using less.prems by (simp add: r'_def one_le_product)
    have res: "(if n mod 2 = 1 then fp_mul F (min (fp_max F) (r * fp_div F)) (min (fp_max F) (b * fp_div F))
        else min (fp_max F) (r * fp_div F)) = min (fp_max F) (r' * fp_div F)"
      using less.prems by (simp add: r'_def saturated_product)
    have pow: "r' * (b * b) ^ (n div 2) = r * b ^ n"
    proof (cases "n mod 2 = 1")
      case True
      then have "n = Suc (2 * (n div 2))" by presburger
      then have "b ^ n = b * (b * b) ^ (n div 2)" by (metis power_Suc power_mult power2_eq_square)
      with True show ?thesis by (simp add: r'_def)
    next
      case False
      then have "n = 2 * (n div 2)" by presburger
      then have "b ^ n = (b * b) ^ (n div 2)" by (metis power_mult power2_eq_square)
      with False show ?thesis by (simp add: r'_def)
    qed
    show ?thesis
    proof (cases "n div 2 = 0")
      case True
      then have last: "powi_loop F (n div 2) v (min (fp_max F) (r' * fp_div F)) = min (fp_max F) (r * b ^ n * fp_div F)" for v
        using pow by (simp add: powi_loop.simps)
      have "0 < n" using Suc by simp
      then show ?thesis by (subst powi_loop.simps) (simp only: Let_def res if_True last)
    next
      case False
      have bb: "1 \<le> b * b" by (rule one_le_product) (use less.prems(2) in simp_all)
      have "n div 2 < n" using Suc by simp
      from less.IH [OF this r' bb]
      have rest: "powi_loop F (n div 2) (min (fp_max F) (b * b * fp_div F)) (min (fp_max F) (r' * fp_div F)) =
          min (fp_max F) (r * b ^ n * fp_div F)" by (simp only: pow)
      have sq: "fp_mul F (min (fp_max F) (b * fp_div F)) (min (fp_max F) (b * fp_div F)) = min (fp_max F) (b * b * fp_div F)"
        by (rule saturated_product [OF less.prems(2,2)])
      have pos: "0 < n" "0 < n div 2" using Suc False by simp_all
      show ?thesis
        by (subst powi_loop.simps) (simp only: Let_def res pos if_True sq rest)
    qed
  qed (simp add: powi_loop.simps)
qed

text \<open>The powers of a whole number.\<close>

lemma powi_whole:
  assumes "1 \<le> a" "a * fp_div F \<le> fp_max F"
  shows "fixed_powi F (a * fp_div F) (int n) = Some (min (fp_max F) (a ^ n * fp_div F))"
proof (cases n)
  case 0
  then show ?thesis using sizes by (simp add: fixed_powi_def)
next
  case (Suc m)
  have "min (fp_max F) (1 * fp_div F) = fp_div F" "min (fp_max F) (a * fp_div F) = a * fp_div F"
    using sizes assms(2) by simp_all
  with powi_loop_exact [of 1 a n] assms(1)
  have "powi_loop F n (a * fp_div F) (fp_div F) = min (fp_max F) (a ^ n * fp_div F)" by simp
  moreover have "0 < int n" using Suc by simp
  ultimately show ?thesis by (simp del: powi_loop.simps add: fixed_powi_def fixed_powi_positive_def)
qed

lemma whole_exponent:
  assumes "0 \<le> n" "n * fp_div F \<le> prim_max PI128"
  shows "fixed_to_i128 F (n * fp_div F) = Some n"
proof -
  define v where "v = n * fp_div F"
  have v: "0 \<le> v" "v \<le> prim_max PI128" using assms sizes by (simp_all add: v_def)
  have "10 ^ 18 \<le> prim_max PI128" by (simp add: prim_max_def)
  then have "inner_i128 (fp_div F) = Some (fp_div F)" "inner_i128 v = Some v"
    using v sizes scale(2) by (simp_all add: inner_i128_def prim_min_def)
  moreover have "tdiv v (fp_div F) = n" using v(1) sizes by (simp add: v_def)
  ultimately show ?thesis by (simp add: fixed_to_i128_def v_def [symmetric])
qed

lemma pow_exact:
  assumes "1 \<le> a" "a * fp_div F \<le> fp_max F" "int n * fp_div F \<le> prim_max PI128"
  shows "fixed_pow F (a * fp_div F) (int n * fp_div F) = Some (min (fp_max F) (a ^ n * fp_div F))"
proof -
  have "0 < a * fp_div F" using assms(1) sizes by (simp add: zero_less_mult_iff)
  moreover have "a * fp_div F = fp_div F \<longleftrightarrow> a = 1" using sizes by simp
  moreover have "min (fp_max F) (fp_div F) = fp_div F" using sizes by simp
  moreover have "int n * fp_div F = 0 \<longleftrightarrow> n = 0" using sizes by simp
  moreover have "fixed_to_i128 F (int n * fp_div F) = Some (int n)" by (rule whole_exponent) (use assms(3) in simp_all)
  moreover note powi_whole [OF assms(1,2), of n]
  moreover have "a \<noteq> 0" "fp_div F \<noteq> 0" using assms(1) sizes by simp_all
  ultimately show ?thesis
    by (simp only: fixed_pow_def Let_def) simp
qed

end

end
