(* ===== verification/PayeeProperties.thy ===== *)
theory PayeeProperties
  imports Payees FixedModels FixedProperties "HOL-Library.Multiset"
begin

text \<open>
  What the payees hand out: the shares payee pays the floors of the rounded ratios and then one
  unit each to the largest remainders, so its total is known exactly; the equal payee pays the
  integer quotient to everybody.
\<close>

section \<open>Conversions in the exact range\<close>

lemma to_fixed_exact:
  assumes "fixed_arith (best Fam p)" "0 \<le> n" "n * fp_div (best Fam p) \<le> fp_max (best Fam p)"
  shows "to_fixed Fam p n = n * fp_div (best Fam p)"
  using assms fixed_arith.integer [OF assms(1)] fixed_arith.clamp_id [OF assms(1)] fixed_arith.sizes(4) [OF assms(1)]
  by (simp add: to_fixed_def)

lemma from_fixed_exact:
  assumes "fixed_arith (best Fam p)" "0 \<le> v" "v div fp_div (best Fam p) \<le> prim_max p"
  shows "from_fixed Fam p v = v div fp_div (best Fam p)"
proof -
  have "0 < fp_div (best Fam p)" by (rule fixed_arith.sizes(4) [OF assms(1)])
  moreover have "0 \<le> v div fp_div (best Fam p)" using calculation assms(2) by (simp add: pos_imp_zdiv_nonneg_iff)
  moreover have "prim_min p \<le> 0" by (simp add: prim_min_def)
  ultimately show ?thesis using assms by (simp add: from_fixed_def Let_def)
qed

lemma prim_clamp_id: "0 \<le> v \<Longrightarrow> v \<le> prim_max p \<Longrightarrow> prim_clamp p v = v"
  using prim_min_def [of p] by (simp add: prim_clamp_def clamp_def split: if_splits)

lemma prim_max_ge_1: "1 \<le> prim_max p"
  by (cases p) (simp_all add: prim_max_def)

section \<open>The rows of the shares payee\<close>

lemma sum_list_nonneg_snd: "\<forall>s\<in>snd ` set xs. 0 \<le> s \<Longrightarrow> 0 \<le> (\<Sum>x\<leftarrow>xs. snd x :: int)"
  by (induction xs) auto

lemma shares_total_exact:
  "\<forall>s\<in>snd ` set xs. 0 \<le> s \<Longrightarrow> 0 \<le> a \<Longrightarrow> a + (\<Sum>x\<leftarrow>xs. snd x) \<le> prim_max q \<Longrightarrow> 0 \<le> l \<Longrightarrow>
    fst (shares_total q xs (a, l)) = a + (\<Sum>x\<leftarrow>xs. snd x) \<and> 0 \<le> snd (shares_total q xs (a, l)) \<and>
    (xs \<noteq> [] \<or> 0 < l \<longrightarrow> 0 < snd (shares_total q xs (a, l)))"
proof (induction xs arbitrary: a l)
  case (Cons x xs)
  obtain i s where x: "x = (i, s)" by force
  have s: "0 \<le> s" "\<forall>s\<in>snd ` set xs. 0 \<le> s" using Cons.prems(1) x by auto
  note rest = sum_list_nonneg_snd [OF s(2)]
  have "prim_clamp q (a + s) = a + s" using Cons.prems x s rest by (intro prim_clamp_id) auto
  moreover have "0 < prim_clamp PUsize (l + 1)"
    using Cons.prems(4) by (simp add: prim_clamp_def clamp_def prim_min_def prim_max_def)
  ultimately show ?case
    using Cons.IH [of "a + s" "prim_clamp PUsize (l + 1)"] Cons.prems x s by simp
qed auto

text \<open>The amount of a row before the remainders are settled.\<close>

definition row_floor :: "int \<Rightarrow> int \<Rightarrow> int \<Rightarrow> int \<Rightarrow> int" where
  "row_floor d payout whole share = payout * (share * d div whole) div d"

definition row_rest :: "int \<Rightarrow> int \<Rightarrow> int \<Rightarrow> int \<Rightarrow> int" where
  "row_rest d payout whole share = payout * (share * d div whole) mod d"

lemma ratio_le:
  fixes s t d :: int
  assumes "0 \<le> s" "s \<le> t" "0 < t" "0 \<le> d"
  shows "0 \<le> s * d div t" "s * d div t \<le> d"
proof -
  show "0 \<le> s * d div t" using assms by (simp add: pos_imp_zdiv_nonneg_iff)
  have "s * d div t \<le> t * d div t" using assms by (intro zdiv_mono1 mult_right_mono) auto
  then show "s * d div t \<le> d" using assms by simp
qed

lemma row_floor_le:
  assumes "0 \<le> s" "s \<le> t" "0 < t" "0 < d" "0 \<le> payout"
  shows "0 \<le> row_floor d payout t s" "row_floor d payout t s \<le> payout"
proof -
  note r = ratio_le [OF assms(1-3), of d]
  show "0 \<le> row_floor d payout t s" using r assms by (simp add: row_floor_def pos_imp_zdiv_nonneg_iff)
  have "row_floor d payout t s \<le> payout * d div d"
    unfolding row_floor_def using r assms by (intro zdiv_mono1 mult_left_mono) auto
  then show "row_floor d payout t s \<le> payout" using assms by simp
qed

lemma pay_row:
  assumes F: "fixed_arith (best Fam p)" and q: "int_best_fixed q = int_best_fixed p"
    and s: "0 \<le> s" "s \<le> t" "0 < t" "t * fp_div (best Fam p) \<le> fp_max (best Fam p)"
    and pay: "0 \<le> payout" "payout * fp_div (best Fam p) \<le> fp_max (best Fam p)" "payout \<le> prim_max p"
  defines "d \<equiv> fp_div (best Fam p)"
  defines "v \<equiv> pay_fp Fam p q (to_fixed Fam p payout) t s"
  shows "v = payout * (s * d div t)" "from_fixed Fam p v = row_floor d payout t s"
    "fp_sub (best Fam p) v (to_fixed Fam p (from_fixed Fam p v)) = row_rest d payout t s"
proof -
  let ?F = "best Fam p" and ?r = "s * d div t"
  have d: "0 < d" using fixed_arith.sizes(4) [OF F] by (simp add: d_def)
  have sd: "0 \<le> s * d" "s * d \<le> fp_max ?F" "0 < t * d"
    using s d order_trans [OF mult_right_mono [OF s(2) less_imp_le [OF d]]] by (simp_all add: d_def)
  have tf: "to_fixed Fam q s = s * d" "to_fixed Fam q t = t * d" "to_fixed Fam p payout = payout * d"
    using to_fixed_exact [of Fam q s] to_fixed_exact [of Fam q t] to_fixed_exact [of Fam p payout] F q s pay sd
    by (simp_all add: d_def)
  note r = ratio_le [OF s(1-3) less_imp_le [OF d]]
  have rm: "?r \<le> fp_max ?F" "d \<le> fp_max ?F"
    using r(2) fixed_arith.sizes(2) [OF F] d by (simp_all add: d_def)
  have "fp_checked_div ?F (s * d) (t * d) = fits ?F (s * d * d div (t * d))"
    unfolding d_def using fixed_arith.checked_div [OF F, of "s * d" "t * d"] sd s
      fixed_arith.in_rangeI [OF F] by (simp add: d_def)
  also have "s * d * d div (t * d) = ?r" using d by simp
  finally have ratio: "fp_checked_div ?F (s * d) (t * d) = Some ?r"
    using fixed_arith.fits_id [OF F r(1) rm(1)] by simp
  have le: "0 \<le> payout * ?r" "payout * ?r \<le> fp_max ?F"
    using pay(1,2) r mult_left_mono [OF r(2) pay(1)] by (simp_all add: d_def)
  have "fp_mul ?F (payout * d) ?r = clamp (fp_min ?F) (fp_max ?F) (payout * d * ?r div d)"
    unfolding d_def using fixed_arith.mul [OF F, of "payout * d" ?r] pay r rm d
      fixed_arith.in_rangeI [OF F] by (simp add: d_def)
  also have "payout * d * ?r div d = payout * ?r" using d by (simp add: mult.assoc mult.commute [of d])
  finally show v: "v = payout * ?r"
    using fixed_arith.clamp_id [OF F le] q by (simp add: v_def pay_fp_def Let_def tf ratio)
  note row = row_floor_le [OF s(1-3) d pay(1)]
  show fv: "from_fixed Fam p v = row_floor d payout t s"
    using from_fixed_exact [of Fam p "payout * ?r"] F le(1) row(2) pay(3) by (simp add: v row_floor_def d_def)
  have "row_floor d payout t s * d \<le> payout * d" using row(2) d by simp
  then have "to_fixed Fam p (row_floor d payout t s) = row_floor d payout t s * d"
    using to_fixed_exact [of Fam p "row_floor d payout t s"] F row(1) pay(2) by (simp add: d_def)
  moreover have split: "payout * ?r - row_floor d payout t s * d = row_rest d payout t s"
    by (simp add: row_floor_def row_rest_def minus_div_mult_eq_mod)
  moreover have rest: "0 \<le> row_rest d payout t s" "row_rest d payout t s < d"
    using d by (simp_all add: row_rest_def)
  moreover have "row_floor d payout t s * d \<le> payout * ?r" using split rest by linarith
  then have "in_range ?F (row_floor d payout t s * d)"
    using le row(1) d fixed_arith.in_rangeI [OF F] by simp
  ultimately show "fp_sub ?F v (to_fixed Fam p (from_fixed Fam p v)) = row_rest d payout t s"
    using fixed_arith.sub [OF F, of v] fixed_arith.in_rangeI [OF F le] fixed_arith.clamp_id [OF F rest(1)] rm(2)
    by (simp only: v fv [unfolded v])
qed

lemma shares_rows_exact:
  assumes F: "fixed_arith (best Fam p)" and q: "int_best_fixed q = int_best_fixed p"
    and t: "0 < t" "t * fp_div (best Fam p) \<le> fp_max (best Fam p)"
    and pay: "0 \<le> payout" "payout * fp_div (best Fam p) \<le> fp_max (best Fam p)" "payout \<le> prim_max p"
  defines "d \<equiv> fp_div (best Fam p)"
  shows "\<forall>s\<in>snd ` set xs. 0 \<le> s \<and> s \<le> t \<Longrightarrow> 0 \<le> ps_distributed st \<Longrightarrow>
    ps_distributed st + (\<Sum>x\<leftarrow>xs. row_floor d payout t (snd x)) \<le> prim_max p \<Longrightarrow>
    shares_rows Fam p q (to_fixed Fam p payout) t idx xs st =
      \<lparr>ps_payouts = ps_payouts st @ map (\<lambda>(i, s). (i, row_floor d payout t s, row_rest d payout t s)) xs,
       ps_distributed = ps_distributed st + (\<Sum>x\<leftarrow>xs. row_floor d payout t (snd x)),
       ps_remainders = ps_remainders st @ zip [idx..<idx + length xs] (map (\<lambda>x. row_rest d payout t (snd x)) xs)\<rparr>"
proof (induction xs arbitrary: idx st)
  case (Cons x xs)
  obtain i s where x: "x = (i, s)" by force
  have s: "0 \<le> s" "s \<le> t" "\<forall>s\<in>snd ` set xs. 0 \<le> s \<and> s \<le> t" using Cons.prems(1) x by auto
  have d: "0 < d" using fixed_arith.sizes(4) [OF F] by (simp add: d_def)
  have "\<forall>f\<in>set (map (\<lambda>x. row_floor d payout t (snd x)) xs). 0 \<le> f"
    using s(3) row_floor_le(1) [OF _ _ t(1) d pay(1)] by auto
  then have rest: "0 \<le> (\<Sum>x\<leftarrow>xs. row_floor d payout t (snd x))" by (intro sum_list_nonneg) auto
  note row = row_floor_le(1) [OF s(1,2) t(1) d pay(1)]
  note pr = pay_row [where Fam = Fam and p = p and q = q, OF F q s(1,2) t pay, folded d_def]
  note pr2 = pr(2) [unfolded pr(1)]
  note pr3 = pr(3) [unfolded pr(1), unfolded pr2]
  have "prim_clamp p (ps_distributed st + row_floor d payout t s) = ps_distributed st + row_floor d payout t s"
    using Cons.prems(2,3) row rest x by (intro prim_clamp_id) auto
  moreover have "[idx..<idx + length (x # xs)] = idx # [Suc idx..<Suc idx + length xs]" by (simp del: upt_Suc add: upt_conv_Cons)
  ultimately show ?case
    using Cons.IH [OF s(3), of "\<lparr>ps_payouts = ps_payouts st @ [(i, row_floor d payout t s, row_rest d payout t s)],
        ps_distributed = ps_distributed st + row_floor d payout t s,
        ps_remainders = ps_remainders st @ [(idx, row_rest d payout t s)]\<rparr>" "idx + 1"] Cons.prems(2,3) row x
    by (simp del: upt_Suc add: Let_def pr(1) pr2 pr3)
qed simp

section \<open>Bounds on the floors\<close>

lemma sum_list_scale: "(\<Sum>x\<leftarrow>xs. c * f x) = c * (\<Sum>x\<leftarrow>xs. f x :: int)"
  by (induction xs) (auto simp: algebra_simps)

lemma floor_times_bounds: "0 < (b :: int) \<Longrightarrow> a - (b - 1) \<le> a div b * b \<and> a div b * b \<le> a"
  using pos_mod_bound [of b a] pos_mod_sign [of b a] div_mult_mod_eq [of a b] by linarith

lemma sum_div_bounds:
  fixes f :: "'a \<Rightarrow> int"
  assumes "0 < b"
  shows "(\<Sum>x\<leftarrow>xs. f x) - int (length xs) * (b - 1) \<le> (\<Sum>x\<leftarrow>xs. f x div b) * b"
    and "(\<Sum>x\<leftarrow>xs. f x div b) * b \<le> (\<Sum>x\<leftarrow>xs. f x)"
proof -
  have "(\<Sum>x\<leftarrow>xs. f x) - int (length xs) * (b - 1) \<le> (\<Sum>x\<leftarrow>xs. f x div b) * b \<and>
    (\<Sum>x\<leftarrow>xs. f x div b) * b \<le> (\<Sum>x\<leftarrow>xs. f x)"
  proof (induction xs)
    case (Cons x xs)
    with floor_times_bounds [OF assms, of "f x"] show ?case by (simp add: algebra_simps)
  qed simp
  then show "(\<Sum>x\<leftarrow>xs. f x) - int (length xs) * (b - 1) \<le> (\<Sum>x\<leftarrow>xs. f x div b) * b"
    "(\<Sum>x\<leftarrow>xs. f x div b) * b \<le> (\<Sum>x\<leftarrow>xs. f x)" by simp_all
qed

lemma floors_sum:
  fixes d payout t :: int
  assumes "0 < d" "0 \<le> payout" "t = (\<Sum>x\<leftarrow>xs. snd x)" "0 < t"
  defines "tot \<equiv> (\<Sum>x\<leftarrow>xs. row_floor d payout t (snd x))"
  shows "tot \<le> payout" "payout * (int (length xs) - 1) \<le> d \<Longrightarrow> payout - tot \<le> int (length xs)"
proof -
  define n where "n = int (length xs)"
  define r where "r = (\<Sum>x\<leftarrow>xs. snd x * d div t)"
  have ts: "(\<Sum>x\<leftarrow>xs. snd x * d) = t * d" using assms(3) by (simp add: sum_list_mult_const)
  have r: "t * d - n * (t - 1) \<le> r * t" "r * t \<le> t * d"
    using sum_div_bounds [OF assms(4), of "\<lambda>x. snd x * d" xs] ts by (simp_all add: r_def n_def)
  have rs: "(\<Sum>x\<leftarrow>xs. payout * (snd x * d div t)) = payout * r" by (simp add: sum_list_scale r_def)
  have f: "payout * r - n * (d - 1) \<le> tot * d" "tot * d \<le> payout * r"
    using sum_div_bounds [OF assms(1), of "\<lambda>x. payout * (snd x * d div t)" xs] rs
    by (simp_all add: tot_def row_floor_def n_def)
  have "r * t \<le> d * t" using r(2) by (simp add: mult.commute)
  then have "r \<le> d" using assms(4) by simp
  then have "tot * d \<le> payout * d" using f(2) mult_left_mono [OF _ assms(2), of r d] by linarith
  then show "tot \<le> payout" using assms(1) by simp
  have n: "1 \<le> n" using assms(3,4) by (cases xs) (simp_all add: n_def)
  have "d - n < r"
  proof (rule ccontr)
    assume "\<not> d - n < r"
    then have "r * t \<le> (d - n) * t" using assms(4) by simp
    then show False using r(1) n by (simp add: algebra_simps)
  qed
  then have "payout * (d - n + 1) \<le> payout * r" using assms(2) by (intro mult_left_mono) auto
  then have "(payout - tot) * d \<le> payout * (n - 1) + n * (d - 1)" using f(1) by (simp add: algebra_simps)
  moreover assume "payout * (int (length xs) - 1) \<le> d"
  ultimately have "(payout - tot) * d < (n + 1) * d" using n by (simp add: n_def algebra_simps)
  then show "payout - tot \<le> int (length xs)" using assms(1) by (simp add: n_def)
qed

section \<open>Settling the remainders\<close>

lemma sum_list_change: "k < length xs \<Longrightarrow> sum_list (xs[k := v]) = sum_list xs - xs ! k + (v :: int)"
  by (induction xs arbitrary: k) (auto split: nat.splits)

lemma settle_exact:
  "distinct (map fst rest) \<Longrightarrow>
   \<forall>j\<in>fst ` set rest. j < length pays \<and> 0 \<le> fst (snd (pays ! j)) \<and> fst (snd (pays ! j)) < prim_max p \<Longrightarrow>
   0 \<le> u \<Longrightarrow> u \<le> prim_max p \<Longrightarrow> R = settle p 1 rest u pays \<Longrightarrow>
   map fst R = map fst pays \<and> (\<Sum>x\<leftarrow>R. fst (snd x)) = (\<Sum>x\<leftarrow>pays. fst (snd x)) + min u (int (length rest)) \<and>
   (\<forall>j<length pays. fst (snd (pays ! j)) \<le> fst (snd (R ! j)) \<and>
      fst (snd (R ! j)) \<le> fst (snd (pays ! j)) + (if j \<in> fst ` set rest then 1 else 0))"
proof (induction rest arbitrary: u pays R)
  case (Cons x rest)
  obtain k v where x: "x = (k, v)" by force
  obtain i a r where pk: "pays ! k = (i, a, r)" by (metis prod_cases3)
  show ?case
  proof (cases "0 < u")
    case True
    define pays' where "pays' = pays[k := (i, a + 1, r)]"
    have k: "k < length pays" "0 \<le> a" "a < prim_max p" "k \<notin> fst ` set rest" using Cons.prems(1,2) x pk by auto
    have "prim_clamp p (a + 1) = a + 1" "prim_clamp p (u - 1) = u - 1"
      using k True Cons.prems(3,4) by (auto intro: prim_clamp_id)
    then have R: "R = settle p 1 rest (u - 1) pays'" using Cons.prems(5) True by (simp add: x pk pays'_def)
    have same: "pays' ! j = pays ! j" if "j \<noteq> k" for j using that by (simp add: pays'_def)
    have at: "pays' ! k = (i, a + 1, r)" using k(1) by (simp add: pays'_def)
    have "map fst pays' = map fst pays" using pk k(1) by (metis fst_conv list_update_id map_update pays'_def)
    moreover have "(\<Sum>x\<leftarrow>pays'. fst (snd x)) = (\<Sum>x\<leftarrow>pays. fst (snd x)) + 1"
      using k(1) pk by (simp add: pays'_def map_update sum_list_change)
    moreover have "length pays' = length pays" by (simp add: pays'_def)
    moreover have "\<forall>j\<in>fst ` set rest. j < length pays' \<and> 0 \<le> fst (snd (pays' ! j)) \<and> fst (snd (pays' ! j)) < prim_max p"
    proof
      fix j assume j: "j \<in> fst ` set rest"
      then have "j \<noteq> k" "j \<in> fst ` set (x # rest)" using k(4) by auto
      then show "j < length pays' \<and> 0 \<le> fst (snd (pays' ! j)) \<and> fst (snd (pays' ! j)) < prim_max p"
        using Cons.prems(2) same calculation(3) by metis
    qed
    moreover note IH = Cons.IH [OF _ calculation(4) _ _ R]
    moreover have "distinct (map fst rest)" using Cons.prems(1) x by simp
    ultimately have res: "map fst R = map fst pays"
      "(\<Sum>x\<leftarrow>R. fst (snd x)) = (\<Sum>x\<leftarrow>pays. fst (snd x)) + 1 + min (u - 1) (int (length rest))"
      "\<forall>j<length pays. fst (snd (pays' ! j)) \<le> fst (snd (R ! j)) \<and>
         fst (snd (R ! j)) \<le> fst (snd (pays' ! j)) + (if j \<in> fst ` set rest then 1 else 0)"
      using True Cons.prems(3,4) by simp_all
    moreover have "fst (snd (pays ! j)) \<le> fst (snd (R ! j)) \<and>
        fst (snd (R ! j)) \<le> fst (snd (pays ! j)) + (if j \<in> fst ` set (x # rest) then 1 else 0)" if "j < length pays" for j
      using res(3) that same at k(4) pk x by (cases "j = k") (auto split: if_splits)
    moreover have "1 + min (u - 1) (int (length rest)) = min u (int (length (x # rest)))" by simp
    ultimately show ?thesis by (simp add: add.assoc)
  next
    case False
    then have "u = 0" "R = pays" using Cons.prems(3,5) x by simp_all
    then show ?thesis by simp
  qed
qed simp

lemma settle_nothing: "settle p unit rest 0 pays = pays"
  by (cases rest) auto

lemma unit_one: "fixed_arith (best Fam p) \<Longrightarrow> from_fixed Fam p (fp_div (best Fam p)) = 1"
  using from_fixed_exact [of Fam p "fp_div (best Fam p)"] fixed_arith.sizes(4) prim_max_ge_1 by fastforce

text \<open>The inputs on which no conversion of the shares payee saturates.\<close>

definition payable :: "fixed_family \<Rightarrow> prim_int \<Rightarrow> prim_int \<Rightarrow> int \<Rightarrow> ('id \<times> int) list \<Rightarrow> bool" where
  "payable Fam p q payout xs \<longleftrightarrow>
     (let F = best Fam p; whole = (\<Sum>x\<leftarrow>xs. snd x) in
      int_best_fixed q = int_best_fixed p \<and> (\<forall>s\<in>snd ` set xs. 0 \<le> s) \<and> 0 < whole \<and> whole \<le> prim_max q
      \<and> whole * fp_div F \<le> fp_max F \<and> 0 \<le> payout \<and> payout \<le> prim_max p \<and> payout * fp_div F \<le> fp_max F)"

lemma share_le_whole: "\<forall>s\<in>snd ` set xs. (0 :: int) \<le> s \<Longrightarrow> \<forall>s\<in>snd ` set xs. 0 \<le> s \<and> s \<le> (\<Sum>x\<leftarrow>xs. snd x)"
  using sum_list_nonneg_snd by (induction xs) force+

lemma shares_pay_settled:
  assumes F: "fixed_arith (best Fam p)" and ok: "payable Fam p q payout xs"
  defines "d \<equiv> fp_div (best Fam p)" and "t \<equiv> (\<Sum>x\<leftarrow>xs. snd x)"
  obtains rest where "shares_pay Fam p q payout xs = map (\<lambda>(i, pay, _). (i, pay))
      (settle p 1 rest (payout - (\<Sum>x\<leftarrow>xs. row_floor d payout t (snd x)))
        (map (\<lambda>(i, s). (i, row_floor d payout t s, row_rest d payout t s)) xs))"
    "distinct (map fst rest)" "fst ` set rest = {..<length xs}" "length rest = length xs"
proof -
  have q: "int_best_fixed q = int_best_fixed p" and nn: "\<forall>s\<in>snd ` set xs. 0 \<le> s"
    and t: "0 < t" "t \<le> prim_max q" "t * fp_div (best Fam p) \<le> fp_max (best Fam p)"
    and pay: "0 \<le> payout" "payout * fp_div (best Fam p) \<le> fp_max (best Fam p)" "payout \<le> prim_max p"
    using ok by (simp_all add: payable_def t_def Let_def)
  have d: "0 < d" using fixed_arith.sizes(4) [OF F] by (simp add: d_def)
  let ?floors = "\<Sum>x\<leftarrow>xs. row_floor d payout t (snd x)"
  let ?rems = "zip [0..<length xs] (map (\<lambda>x. row_rest d payout t (snd x)) xs)"
  note shares = share_le_whole [OF nn, folded t_def]
  have le: "?floors \<le> payout" by (rule floors_sum(1) [OF d pay(1) t_def [THEN meta_eq_to_obj_eq] t(1)])
  have "0 \<le> ?floors" using shares row_floor_le(1) [OF _ _ t(1) d pay(1)] by (intro sum_list_nonneg) auto
  then have u: "prim_clamp p (payout - ?floors) = payout - ?floors" using le pay by (intro prim_clamp_id) auto
  have "xs \<noteq> []" using t(1) by (auto simp: t_def)
  then have total: "fst (shares_total q xs (0, 0)) = t" "snd (shares_total q xs (0, 0)) \<noteq> 0"
    using shares_total_exact [OF nn, of 0 q 0] t(2) by (simp_all add: t_def)
  have rows: "shares_rows Fam p q (to_fixed Fam p payout) t 0 xs \<lparr>ps_payouts = [], ps_distributed = 0, ps_remainders = []\<rparr> =
      \<lparr>ps_payouts = map (\<lambda>(i, s). (i, row_floor d payout t s, row_rest d payout t s)) xs,
       ps_distributed = ?floors, ps_remainders = ?rems\<rparr>"
    using shares_rows_exact [where Fam = Fam and p = p and q = q and idx = 0, OF F q t(1,3) pay shares] le pay
    by (simp add: d_def)
  show thesis
  proof (rule that [of "sort_key (\<lambda>(_, r). - r) ?rems"])
    show "shares_pay Fam p q payout xs = map (\<lambda>(i, pay, _). (i, pay))
      (settle p 1 (sort_key (\<lambda>(_, r). - r) ?rems) (payout - ?floors)
        (map (\<lambda>(i, s). (i, row_floor d payout t s, row_rest d payout t s)) xs))"
      using total t(1) unit_one [of Fam p] F
      by (cases "shares_total q xs (0, 0)") (simp add: shares_pay_def Let_def rows u)
    have "mset (map fst (sort_key (\<lambda>(_, r). - r) ?rems)) = mset (map fst ?rems)" by (simp only: mset_map mset_sort)
    then show "distinct (map fst (sort_key (\<lambda>(_, r). - r) ?rems))"
      by (metis distinct_upt length_map length_upt map_fst_zip minus_nat.diff_0 mset_eq_imp_distinct_iff)
    have "fst ` set ?rems = set (map fst ?rems)" by (rule set_map [symmetric])
    also have "\<dots> = {..<length xs}" by (subst map_fst_zip) auto
    finally show "fst ` set (sort_key (\<lambda>(_, r). - r) ?rems) = {..<length xs}" by simp
  qed simp
qed

lemma shares_pay_amounts:
  assumes F: "fixed_arith (best Fam p)" and ok: "payable Fam p q payout xs"
  defines "d \<equiv> fp_div (best Fam p)" and "t \<equiv> (\<Sum>x\<leftarrow>xs. snd x)" and "R \<equiv> shares_pay Fam p q payout xs"
  shows "map fst R = map fst xs"
    "(\<Sum>x\<leftarrow>R. snd x) = min payout ((\<Sum>x\<leftarrow>xs. row_floor d payout t (snd x)) + int (length xs))"
    "\<forall>j<length xs. row_floor d payout t (snd (xs ! j)) \<le> snd (R ! j) \<and>
       snd (R ! j) \<le> row_floor d payout t (snd (xs ! j)) + 1"
proof -
  let ?f = "row_floor d payout t" and ?floors = "\<Sum>x\<leftarrow>xs. row_floor d payout t (snd x)"
  let ?pays = "map (\<lambda>(i, s). (i, row_floor d payout t s, row_rest d payout t s)) xs"
  have nn: "\<forall>s\<in>snd ` set xs. 0 \<le> s" and t: "0 < t" and pay: "0 \<le> payout" "payout \<le> prim_max p"
    using ok by (simp_all add: payable_def t_def Let_def)
  have d: "0 < d" using fixed_arith.sizes(4) [OF F] by (simp add: d_def)
  have f: "\<forall>x\<in>set xs. 0 \<le> ?f (snd x)"
    using share_le_whole [OF nn, folded t_def] row_floor_le(1) [OF _ _ t d pay(1)] by auto
  have le: "?floors \<le> payout" by (rule floors_sum(1) [OF d pay(1) t_def [THEN meta_eq_to_obj_eq] t])
  obtain rest where R: "R = map (\<lambda>(i, pay, _). (i, pay)) (settle p 1 rest (payout - ?floors) ?pays)"
    and rest: "distinct (map fst rest)" "fst ` set rest = {..<length xs}" "length rest = length xs"
    by (rule shares_pay_settled [where Fam = Fam and p = p and q = q, OF F ok, folded d_def t_def R_def])
  have at: "fst (snd (?pays ! j)) = ?f (snd (xs ! j))" if "j < length xs" for j
    using that by (simp add: split_beta)
  have base: "map fst ?pays = map fst xs" "(\<Sum>x\<leftarrow>?pays. fst (snd x)) = ?floors"
    by (simp_all add: split_beta comp_def)
  have key: "map fst R = map fst xs \<and> (\<Sum>x\<leftarrow>R. snd x) = ?floors + min (payout - ?floors) (int (length xs)) \<and>
    (\<forall>j<length xs. ?f (snd (xs ! j)) \<le> snd (R ! j) \<and> snd (R ! j) \<le> ?f (snd (xs ! j)) + 1)"
  proof (cases "?floors = payout")
    case True
    then show ?thesis using base at by (simp add: R settle_nothing split_beta comp_def)
  next
    case False
    define S where "S = settle p 1 rest (payout - ?floors) ?pays"
    have "?f (snd (xs ! j)) \<le> ?floors" if "j < length xs" for j
      using f that by (intro member_le_sum_list) auto
    then have "?f (snd (xs ! j)) < prim_max p" if "j < length xs" for j using False le pay(2) that by fastforce
    then have "\<forall>j\<in>fst ` set rest. j < length ?pays \<and> 0 \<le> fst (snd (?pays ! j)) \<and> fst (snd (?pays ! j)) < prim_max p"
      unfolding rest(2) using f by (auto simp: split_beta)
    note inside = this
    have "0 \<le> ?floors" using f by (intro sum_list_nonneg) auto
    then have u: "0 \<le> payout - ?floors" "payout - ?floors \<le> prim_max p" using le pay(2) by linarith+
    note settled = settle_exact [OF rest(1) inside u S_def]
    note S = settled [THEN conjunct1] settled [THEN conjunct2, THEN conjunct1] settled [THEN conjunct2, THEN conjunct2]
    have "length S = length xs" using arg_cong [OF S(1), of length] by (simp only: length_map)
    have RS: "R = map (\<lambda>x. (fst x, fst (snd x))) S" by (simp add: R S_def split_beta)
    have "map fst R = map fst xs" using S(1) base(1) by (simp add: RS comp_def)
    moreover have "(\<Sum>x\<leftarrow>R. snd x) = (\<Sum>x\<leftarrow>S. fst (snd x))" by (simp add: RS comp_def)
    moreover have "?f (snd (xs ! j)) \<le> snd (R ! j) \<and> snd (R ! j) \<le> ?f (snd (xs ! j)) + 1" if "j < length xs" for j
      using S(3) [rule_format, of j] at [OF that] that \<open>length S = length xs\<close> by (simp add: RS rest(2))
    ultimately show ?thesis using S(2) base(2) rest(3) by simp
  qed
  then show "map fst R = map fst xs" "\<forall>j<length xs. ?f (snd (xs ! j)) \<le> snd (R ! j) \<and> snd (R ! j) \<le> ?f (snd (xs ! j)) + 1"
    by simp_all
  from key le show "(\<Sum>x\<leftarrow>R. snd x) = min payout (?floors + int (length xs))" by simp
qed

lemma shares_pay_bounds:
  assumes F: "fixed_arith (best Fam p)" and ok: "payable Fam p q payout xs"
  defines "d \<equiv> fp_div (best Fam p)" and "whole \<equiv> (\<Sum>x\<leftarrow>xs. snd x)" and "R \<equiv> shares_pay Fam p q payout xs"
  shows "map fst R = map fst xs \<and> (\<Sum>x\<leftarrow>R. snd x) \<le> payout \<and>
    (\<forall>j<length xs. row_floor d payout whole (snd (xs ! j)) \<le> snd (R ! j) \<and>
       snd (R ! j) \<le> row_floor d payout whole (snd (xs ! j)) + 1) \<and>
    (payout * (int (length xs) - 1) \<le> d \<longrightarrow> (\<Sum>x\<leftarrow>R. snd x) = payout)"
proof -
  have w: "0 < whole" "0 \<le> payout" using ok by (simp_all add: payable_def whole_def Let_def)
  have d: "0 < d" using fixed_arith.sizes(4) [OF F] by (simp add: d_def)
  note amounts = shares_pay_amounts [where Fam = Fam and p = p, OF F ok, folded d_def whole_def R_def]
  note sums = floors_sum [OF d w(2) whole_def [THEN meta_eq_to_obj_eq] w(1)]
  show ?thesis using amounts sums by (simp only: min_def) auto
qed

section \<open>The equal payee\<close>

lemma quotient_small: "0 \<le> a \<Longrightarrow> 1 \<le> n \<Longrightarrow> a div n \<le> (a :: int)"
  using zdiv_mono2 [of a 1 n] by simp

lemma count_fixed_exact:
  "fixed_arith F \<Longrightarrow> 0 \<le> m \<Longrightarrow> (m + int n) * fp_div F \<le> fp_max F \<Longrightarrow>
    count_fixed F n (m * fp_div F) = (m + int n) * fp_div F"
proof (induction n arbitrary: m)
  case (Suc n)
  note F = Suc.prems(1)
  have d: "0 < fp_div F" "fp_div F \<le> fp_max F" using fixed_arith.sizes [OF F] by linarith+
  have step: "m * fp_div F + fp_div F = (m + 1) * fp_div F" by (simp add: algebra_simps)
  have "(m + 1) * fp_div F \<le> (m + int (Suc n)) * fp_div F" using d by (intro mult_right_mono) auto
  then have le: "0 \<le> m * fp_div F" "(m + 1) * fp_div F \<le> fp_max F" using Suc.prems(2,3) d by (simp, linarith)
  then have "m * fp_div F \<le> fp_max F" using d step by linarith
  then have "fp_add F (m * fp_div F) (fp_div F) = (m + 1) * fp_div F"
    using fixed_arith.add [OF F] fixed_arith.in_rangeI [OF F] fixed_arith.clamp_id [OF F] le d
    by (simp add: step Suc.prems(2))
  then show ?case using Suc.IH [OF F, of "m + 1"] Suc.prems by (simp add: add.assoc)
qed simp

text \<open>Everybody gets the integer quotient, in the range where the payout and the number of
  participants convert exactly.\<close>

lemma equal_pay_exact:
  assumes F: "fixed_arith (best Fam p)"
    and pay: "0 \<le> payout" "payout * fp_div (best Fam p) \<le> fp_max (best Fam p)" "payout \<le> prim_max p"
    and n: "int (length xs) * fp_div (best Fam p) \<le> fp_max (best Fam p)"
  shows "equal_pay Fam p payout xs = map (\<lambda>(i, _). (i, payout div int (length xs))) xs"
proof (cases "xs = []")
  case False
  define d where "d = fp_div (best Fam p)"
  define n where "n = int (length xs)"
  have d: "0 < d" using fixed_arith.sizes(4) [OF F] by (simp add: d_def)
  have n1: "1 \<le> n" "n * d \<le> fp_max (best Fam p)" using False assms(5) by (cases xs; simp add: n_def d_def)+
  have cf: "count_fixed (best Fam p) (length xs - 1) d = n * d"
    using count_fixed_exact [OF F, of 1 "length xs - 1"] n1 False by (cases xs) (simp_all add: n_def d_def)
  have tf: "to_fixed Fam p payout = payout * d" using to_fixed_exact [of Fam p payout] F pay by (simp add: d_def)
  let ?v = "payout * d div n"
  have v: "0 \<le> ?v" "?v \<le> fp_max (best Fam p)"
  proof -
    show "0 \<le> ?v" using pay d n1 by (simp add: pos_imp_zdiv_nonneg_iff)
    have "?v \<le> payout * d" using n1 pay d by (intro quotient_small) auto
    then show "?v \<le> fp_max (best Fam p)" using pay by (simp add: d_def)
  qed
  have "fp_checked_div (best Fam p) (payout * d) (n * d) = fits (best Fam p) (payout * d * d div (n * d))"
    using fixed_arith.checked_div [OF F, of "payout * d" "n * d"] fixed_arith.in_rangeI [OF F] pay n1 d
    by (simp add: d_def)
  also have "payout * d * d div (n * d) = ?v" using d by simp
  finally have q: "fp_checked_div (best Fam p) (payout * d) (n * d) = Some ?v"
    using fixed_arith.fits_id [OF F v] by simp
  have "?v div d = payout * d div (n * d)" using d n1 zdiv_zmult2_eq [of d "payout * d" n] by simp
  then have "?v div d = payout div n" using d by simp
  moreover have "payout div n \<le> prim_max p"
    using quotient_small [OF pay(1) n1(1)] pay(3) by linarith
  ultimately have "from_fixed Fam p ?v = payout div n"
    using from_fixed_exact [of Fam p ?v] F v(1) by (simp add: d_def)
  then show ?thesis using False cf by (simp add: equal_pay_def Let_def tf q d_def [symmetric] n_def [symmetric])
qed (simp add: equal_pay_def)

end
