(* ===== verification/ModelProperties.thy ===== *)
theory ModelProperties
  imports PayeeProperties
begin

text \<open>
  Properties of the fixed-point suite, the influence models and the reward plugins on the types of
  the program, with their instances: the square root, the powers and the payees; the cases of the
  repository's own tests, computed by the model; and the inputs where the documentation and the
  code part.
\<close>

section \<open>The quadratic influence is the integer square root\<close>

lemma root_gap:
  fixes d k s n :: int
  assumes "root_of (n * d * d) s" "k * k \<le> n" "n < (k + 1) * (k + 1)" "0 \<le> k" "0 < d" "4 * (k + 1) < d"
  shows "k * d \<le> s" "s + 2 < (k + 1) * d"
proof -
  have s: "0 \<le> s" "s * s \<le> n * d * d" "n * d * d < (s + 1) * (s + 1)" using assms(1) by (simp_all add: root_of_def)
  have "(k * d) * (k * d) \<le> n * d * d"
    using mult_right_mono [OF assms(2), of "d * d"] by (simp add: algebra_simps)
  then have "(k * d) * (k * d) < (s + 1) * (s + 1)" using s(3) by simp
  then have "k * d < s + 1" by (rule square_less) (use s(1) in simp)
  then show "k * d \<le> s" by simp
  show "s + 2 < (k + 1) * d"
  proof (rule ccontr)
    let ?w = "(k + 1) * d"
    assume "\<not> s + 2 < ?w"
    then have small: "?w - 2 \<le> s" by linarith
    have "1 * d \<le> ?w" using assms(4,5) by (intro mult_right_mono) auto
    then have "d \<le> ?w" by (simp only: mult_1_left)
    moreover have "2 \<le> d" using assms(4,6) by simp
    ultimately have "2 \<le> ?w" by (rule order_trans [rotated])
    then have w: "0 \<le> ?w - 2" by (simp only: diff_ge_0_iff_ge)
    then have "(?w - 2) * (?w - 2) \<le> s * s" using small by (intro mult_mono) simp_all
    moreover have "n * (d * d) \<le> ((k + 1) * (k + 1) - 1) * (d * d)" using assms(3) by (intro mult_right_mono) auto
    ultimately have "?w * ?w - 4 * ?w + 4 \<le> ?w * ?w - d * d" using s(2) by (simp add: algebra_simps)
    then have "d * d + 4 \<le> 4 * (k + 1) * d" by (simp add: algebra_simps)
    moreover have "4 * (k + 1) * d \<le> d * d" using assms(5,6) by (intro mult_right_mono) auto
    ultimately show False by simp
  qed
qed

lemma quadratic_model_root:
  assumes F: "fixed_arith (best Fam p)"
    and n: "0 \<le> n" "n * fp_div (best Fam p) \<le> fp_max (best Fam p)" "n \<le> prim_max p"
    and root: "root_of n k" "4 * (k + 1) < fp_div (best Fam p)"
  shows "quadratic_model Fam p n = k"
proof (cases "n = 0")
  case True
  have "0 < (k + 1) * (k + 1)" "k * k \<le> 0" "0 \<le> k" using root(1) True by (auto simp: root_of_def)
  then have "k = 0" using mult_mono [of 1 k 1 k] by (cases "1 \<le> k") auto
  moreover have "to_fixed Fam p 0 = 0" "from_fixed Fam p 0 = 0"
    using to_fixed_exact [of Fam p 0] from_fixed_exact [of Fam p 0] F n prim_max_ge_1 [of p] True by simp_all
  ultimately show ?thesis using True by (simp add: quadratic_model_def fixed_sqrt_def Let_def)
next
  case False
  define d where "d = fp_div (best Fam p)"
  have d: "0 < d" using fixed_arith.sizes(4) [OF F] by (simp add: d_def)
  have k: "0 \<le> k" "k * k \<le> n" "n < (k + 1) * (k + 1)" using root(1) by (simp_all add: root_of_def)
  have x: "0 < n * d" "n * d \<le> fp_max (best Fam p)" using n False d by (simp_all add: d_def)
  obtain s where s: "root_of (n * d * d) s" "s \<le> fixed_sqrt_newton (best Fam p) (n * d)"
    "fixed_sqrt_newton (best Fam p) (n * d) \<le> s + 2"
    using fixed_arith.sqrt_close [OF F x] by (auto simp: d_def)
  define r where "r = fixed_sqrt_newton (best Fam p) (n * d)"
  note gap = root_gap [OF s(1) k(2,3,1) d root(2) [folded d_def]]
  have r: "k * d \<le> r" "r < (k + 1) * d" using gap s(2,3) by (simp_all add: r_def)
  have "r div d = k"
    by (rule int_div_pos_eq [of r d k "r - k * d"]) (use r d in \<open>simp_all add: algebra_simps\<close>)
  moreover have "k \<le> k * k" using k(1) mult_right_mono [of 1 k k] by (cases "k = 0") auto
  then have "k \<le> prim_max p" using k(2) n(3) by simp
  moreover have "0 \<le> k * d" using k(1) d by simp
  then have "0 \<le> r" using r by simp
  ultimately have "from_fixed Fam p r = k" using from_fixed_exact [of Fam p r] F by (simp add: d_def)
  moreover have "to_fixed Fam p n = n * d" using to_fixed_exact [of Fam p n] F n by (simp add: d_def)
  moreover have "fixed_sqrt (best Fam p) (n * d) = Some r"
    using x(1) False d by (simp add: fixed_sqrt_def fixed_sqrt_newton_def r_def)
  ultimately show ?thesis by (simp add: quadratic_model_def)
qed

lemma root_limit:
  assumes "root_of n k" "n < b * b" "0 \<le> b"
  shows "k < b"
  by (rule square_less [OF _ assms(3)]) (use assms in \<open>simp add: root_of_def\<close>)

lemma quadratic_sp_fixed:
  assumes "0 \<le> n" "n * fp_div (sp_fixed (int_best_fixed p)) \<le> fp_max (sp_fixed (int_best_fixed p))"
    and "n \<le> prim_max p" "root_of n k"
  shows "quadratic_model sp_fixed p n = k"
proof (rule quadratic_model_root [where Fam = sp_fixed, OF sp_fixed_arith assms])
  have "int_best_fixed p = FU64 \<or> int_best_fixed p = FI64 \<Longrightarrow> k < 200000"
    by (rule root_limit [OF assms(4)])
      (use assms(2) in \<open>auto simp: fixed_u64_def fixed_i64_def scaled_def Let_def\<close>)
  moreover have "int_best_fixed p = FU128 \<or> int_best_fixed p = FI128 \<Longrightarrow> k < 200000000000"
    by (rule root_limit [OF assms(4)])
      (use assms(2) in \<open>auto simp: fixed_u128_def fixed_i128_def scaled_def Let_def\<close>)
  ultimately show "4 * (k + 1) < fp_div (sp_fixed (int_best_fixed p))"
    by (cases "int_best_fixed p")
      (simp_all add: fixed_u64_def fixed_i64_def fixed_u128_def fixed_i128_def scaled_def Let_def)
qed

text \<open>C30: On every integer type the quadratic influence of an input that converts exactly is the integer
  square root: the two units the root may be off never reach the next whole number. The influence of
  a negative input is zero.\<close>
theorem quadratic_is_isqrt:
  assumes "n * fp_div (sp_fixed (int_best_fixed p)) \<le> fp_max (sp_fixed (int_best_fixed p))"
    and "prim_min p \<le> n" "n \<le> prim_max p"
  shows "quadratic_model sp_fixed p n = r \<longleftrightarrow>
    (if n < 0 then r = 0 else 0 \<le> r \<and> r * r \<le> n \<and> n < (r + 1) * (r + 1))"
proof (cases "n < 0")
  case True
  let ?F = "sp_fixed (int_best_fixed p)"
  have "fp_min ?F < 0" using True assms(2) by (cases p) (simp_all add: prim_min_def fixed_i64_def fixed_i128_def scaled_def Let_def)
  moreover have "n * fp_div ?F < 0"
    using True fixed_arith.sizes(4) [OF sp_fixed_arith] by (simp add: mult_neg_pos)
  moreover have "to_fixed sp_fixed p n = clamp (fp_min ?F) (fp_max ?F) (n * fp_div ?F)"
    by (simp add: to_fixed_def fixed_arith.integer [OF sp_fixed_arith])
  ultimately have "to_fixed sp_fixed p n < 0" using assms(1) by (auto simp: clamp_def)
  then show ?thesis using True by (auto simp: quadratic_model_def fixed_sqrt_def Let_def)
next
  case False
  have "r = k" if "root_of n r" "root_of n k" for k
    using quadratic_sp_fixed [OF _ assms(1,3) that(1)] quadratic_sp_fixed [OF _ assms(1,3) that(2)] False by simp
  moreover obtain k where k: "root_of n k" using root_exists [of n] False by auto
  moreover have "quadratic_model sp_fixed p n = k" using quadratic_sp_fixed [OF _ assms(1,3) k] False by simp
  ultimately show ?thesis using False by (auto simp: root_of_def)
qed

theorem quadratic_is_isqrt_witness:
  "(\<forall>r. quadratic_model sp_fixed PU64 230 = r \<longleftrightarrow> 0 \<le> r \<and> r * r \<le> 230 \<and> 230 < (r + 1) * (r + 1)) \<and>
   quadratic_model sp_fixed PU64 230 = 15 \<and> quadratic_model sp_fixed PI64 (- 64) = 0"
  using quadratic_is_isqrt [of 230 PU64] quadratic_is_isqrt [of "- 64" PI64 0]
  by (simp add: prim_min_def prim_max_def fixed_u128_def fixed_i128_def scaled_def Let_def)

theorem sqrt_accurate_witness:
  "\<exists>r s. fixed_sqrt fixed_u128 2000000000000000000 = Some r \<and> 0 \<le> s \<and> s * s \<le> 2000000000000000000 * 1000000000000000000 \<and>
     2000000000000000000 * 1000000000000000000 < (s + 1) * (s + 1) \<and> s \<le> r \<and> r \<le> s + 2"
proof -
  have "in_range fixed_u128 2000000000000000000" "fp_div fixed_u128 = 1000000000000000000"
    by (simp_all add: in_range_def fixed_u128_def scaled_def Let_def)
  with sqrt_accurate [OF fu128.fixed_arith_axioms, of 2000000000000000000] show ?thesis by simp
qed

section \<open>Powers\<close>

text \<open>C33: The power of a whole number of at least one by a natural exponent whose scaled value fits the
  signed 128-bit integer of the integer branch is exact, and the largest number of the type when it
  does not fit: squaring the base never loses a factor the result needs.\<close>
theorem power_exact:
  assumes "fixed_arith F" and "1 \<le> a" "a * fp_div F \<le> fp_max F" "int n * fp_div F \<le> prim_max PI128"
  shows "fixed_pow F (a * fp_div F) (int n * fp_div F) = Some (min (fp_max F) (a ^ n * fp_div F))"
  by (rule fixed_arith.pow_exact [OF assms])

theorem power_exact_witness:
  "fixed_pow fixed_u64 (3 * 1000000000) (21 * 1000000000) = Some (10460353203 * 1000000000) \<and>
   fixed_pow fixed_u64 (3 * 1000000000) (22 * 1000000000) = Some 18446744073709551615"
proof -
  have sizes: "fp_div fixed_u64 = 1000000000" "fp_max fixed_u64 = 18446744073709551615"
    by (simp_all add: fixed_u64_def scaled_def Let_def)
  from power_exact [OF fu64.fixed_arith_axioms, of 3 21] power_exact [OF fu64.fixed_arith_axioms, of 3 22]
  show ?thesis by (simp add: sizes prim_max_def)
qed

section \<open>Conversions of integers\<close>

lemma tdiv_multiple: "0 < d \<Longrightarrow> tdiv (n * d) d = n"
  by (auto simp: tdiv_def abs_mult mult_less_0_iff simp flip: mult_minus_left)

lemma clamped_roundtrip:
  assumes "prim_min p \<le> n" "n \<le> prim_max p"
    and "tdiv (clamp (fp_min F) (fp_max F) (n * fp_div F)) (fp_div F) = v" "F = sp_fixed (int_best_fixed p)"
    and "prim_min p \<le> v" "v \<le> prim_max p"
  shows "from_fixed sp_fixed p (to_fixed sp_fixed p n) = v"
  using assms fixed_arith.integer [OF sp_fixed_arith]
  by (simp add: from_fixed_def to_fixed_def Let_def)

lemma clamp_within: "lo \<le> v \<Longrightarrow> v \<le> hi \<Longrightarrow> clamp lo hi v = v"
  by (simp add: clamp_def)

lemma exact_roundtrip:
  assumes "prim_min p \<le> n" "n \<le> prim_max p" "fp_min (sp_fixed (int_best_fixed p)) \<le> n * fp_div (sp_fixed (int_best_fixed p))"
    "n * fp_div (sp_fixed (int_best_fixed p)) \<le> fp_max (sp_fixed (int_best_fixed p))"
  shows "from_fixed sp_fixed p (to_fixed sp_fixed p n) = n"
  by (rule clamped_roundtrip [OF assms(1,2) _ refl assms(1,2)])
    (simp add: clamp_within [OF assms(3,4)] tdiv_multiple fixed_arith.sizes(4) [OF sp_fixed_arith])

lemma sp_fixed_sizes:
  "fp_min fixed_u64 = 0" "fp_max fixed_u64 = 18446744073709551615" "fp_div fixed_u64 = 1000000000"
  "fp_min fixed_i64 = - 9223372036854775808" "fp_max fixed_i64 = 9223372036854775807" "fp_div fixed_i64 = 1000000000"
  "fp_min fixed_u128 = 0" "fp_max fixed_u128 = 340282366920938463463374607431768211455"
  "fp_div fixed_u128 = 1000000000000000000"
  "fp_min fixed_i128 = - 170141183460469231731687303715884105728"
  "fp_max fixed_i128 = 170141183460469231731687303715884105727" "fp_div fixed_i128 = 1000000000000000000"
  by (simp_all add: fixed_u64_def fixed_i64_def fixed_u128_def fixed_i128_def scaled_def Let_def)

lemma roundtrip_u128:
  assumes "0 \<le> n" "n \<le> prim_max PU128"
  shows "from_fixed sp_fixed PU128 (to_fixed sp_fixed PU128 n) = min n 340282366920938463463"
proof (cases "n \<le> 340282366920938463463")
  case True
  then show ?thesis using assms exact_roundtrip [of PU128 n] by (simp add: prim_min_def sp_fixed_sizes)
next
  case False
  then show ?thesis using assms
    by (intro clamped_roundtrip [OF _ _ _ refl]) (simp_all add: prim_min_def prim_max_def sp_fixed_sizes clamp_def)
qed

lemma roundtrip_i128:
  assumes "prim_min PI128 \<le> n" "n \<le> prim_max PI128"
  shows "from_fixed sp_fixed PI128 (to_fixed sp_fixed PI128 n) =
    max (- 170141183460469231731) (min n 170141183460469231731)"
proof (cases "- 170141183460469231731 \<le> n \<and> n \<le> 170141183460469231731")
  case True
  then show ?thesis using assms exact_roundtrip [of PI128 n] by (simp add: sp_fixed_sizes)
next
  case False
  then have "clamp (fp_min fixed_i128) (fp_max fixed_i128) (n * fp_div fixed_i128) =
    (if n < 0 then fp_min fixed_i128 else fp_max fixed_i128)" by (auto simp: clamp_def sp_fixed_sizes)
  then show ?thesis using assms False
    by (intro clamped_roundtrip [OF _ _ _ refl]) (auto simp: prim_min_def prim_max_def sp_fixed_sizes tdiv_def)
qed

lemma roundtrip_small:
  assumes "prim_min p \<le> n" "n \<le> prim_max p" "p \<noteq> PU128" "p \<noteq> PI128"
  shows "from_fixed sp_fixed p (to_fixed sp_fixed p n) = n"
  using assms by (intro exact_roundtrip) (cases p; simp add: prim_min_def prim_max_def sp_fixed_sizes)+

text \<open>C34: An integer survives the way into its fixed-point type and back, except for the 128-bit
  integers, which saturate at about \<open>3.4 * 10 ^ 20\<close> and \<open>1.7 * 10 ^ 20\<close> on either side of zero.\<close>
theorem integer_roundtrip:
  assumes "prim_min p \<le> n" "n \<le> prim_max p"
  shows "from_fixed sp_fixed p (to_fixed sp_fixed p n) =
    (case p of PU128 \<Rightarrow> min n 340282366920938463463
     | PI128 \<Rightarrow> max (- 170141183460469231731) (min n 170141183460469231731)
     | _ \<Rightarrow> n)"
proof -
  consider "p = PU128" | "p = PI128" | "p \<noteq> PU128" "p \<noteq> PI128" by blast
  then show ?thesis
  proof cases
    case 1
    with assms roundtrip_u128 show ?thesis by (simp add: prim_min_def)
  next
    case 2
    with assms roundtrip_i128 show ?thesis by simp
  next
    case 3
    with roundtrip_small [OF assms] show ?thesis by (cases p) simp_all
  qed
qed

theorem integer_roundtrip_witness:
  "from_fixed sp_fixed PU64 (to_fixed sp_fixed PU64 18446744073709551615) = 18446744073709551615 \<and>
   from_fixed sp_fixed PU128 (to_fixed sp_fixed PU128 400000000000000000000) = 340282366920938463463"
  using integer_roundtrip [of PU64 18446744073709551615] integer_roundtrip [of PU128 400000000000000000000]
  by (simp add: prim_min_def prim_max_def)

section \<open>Payees\<close>

text \<open>C32: For shares that are not negative with a positive total, on one fixed-point type and as long as
  no conversion into it saturates (\<open>payable\<close>), the shares payee pays everybody the floor of the
  rounded ratio or one unit more, in the order of the participants and never more than the payout in all;
  the payout is handed out completely when it times the other participants is within the scale.\<close>
theorem shares_pay_conserves:
  assumes "fixed_arith (Fam (int_best_fixed p))" "payable Fam p q payout xs"
  shows "let d = fp_div (Fam (int_best_fixed p)); whole = (\<Sum>x\<leftarrow>xs. snd x); R = shares_pay Fam p q payout xs in
    map fst R = map fst xs \<and> (\<Sum>x\<leftarrow>R. snd x) \<le> payout \<and>
    (\<forall>j<length xs. row_floor d payout whole (snd (xs ! j)) \<le> snd (R ! j) \<and>
       snd (R ! j) \<le> row_floor d payout whole (snd (xs ! j)) + 1) \<and>
    (payout * (int (length xs) - 1) \<le> d \<longrightarrow> (\<Sum>x\<leftarrow>R. snd x) = payout)"
  unfolding Let_def by (rule shares_pay_bounds [OF assms])

theorem shares_pay_conserves_witness:
  "(\<Sum>x\<leftarrow>shares_pay sp_fixed PU64 PU64 100 [(1 :: nat, 1), (2, 1), (3, 1)]. snd x) = 100"
proof -
  have "payable sp_fixed PU64 PU64 100 [(1 :: nat, 1), (2, 1), (3, 1)]"
    by (simp add: payable_def fixed_u128_def scaled_def Let_def prim_max_def)
  moreover have "fp_div (sp_fixed (int_best_fixed PU64)) = 1000000000000000000"
    by (simp add: fixed_u128_def scaled_def Let_def)
  ultimately show ?thesis
    using shares_pay_conserves [of sp_fixed PU64 PU64 100 "[(1 :: nat, 1), (2, 1), (3, 1)]"] fu128.fixed_arith_axioms
    by (simp add: Let_def)
qed

text \<open>The equal payee gives everybody the integer quotient, and keeps the remainder.\<close>
theorem equal_pay_quotient:
  assumes "fixed_arith (Fam (int_best_fixed p))"
    and "0 \<le> payout" "payout * fp_div (Fam (int_best_fixed p)) \<le> fp_max (Fam (int_best_fixed p))" "payout \<le> prim_max p"
    and "int (length xs) * fp_div (Fam (int_best_fixed p)) \<le> fp_max (Fam (int_best_fixed p))" "xs \<noteq> []"
  shows "equal_pay Fam p payout xs = map (\<lambda>(i, _). (i, payout div int (length xs))) xs \<and>
    (\<Sum>x\<leftarrow>equal_pay Fam p payout xs. snd x) = payout - payout mod int (length xs)"
proof -
  have "equal_pay Fam p payout xs = map (\<lambda>(i, _). (i, payout div int (length xs))) xs"
    by (rule equal_pay_exact [where Fam = Fam and p = p, OF assms(1-5)])
  moreover have "(\<Sum>x\<leftarrow>map (\<lambda>(i, _). (i, c)) xs. snd x) = int (length xs) * c" for c :: int
    by (induction xs) (auto simp: algebra_simps)
  ultimately show ?thesis by (simp only: minus_mod_eq_mult_div)
qed

theorem equal_pay_quotient_witness:
  "equal_pay sp_fixed PU64 100 [(1 :: nat, 7), (2, 1), (3, 1)] = [(1, 33), (2, 33), (3, 33)]"
proof -
  have "fp_div (sp_fixed (int_best_fixed PU64)) = 1000000000000000000"
    "fp_max (sp_fixed (int_best_fixed PU64)) = 340282366920938463463374607431768211455"
    by (simp_all add: fixed_u128_def scaled_def Let_def)
  then show ?thesis
    using equal_pay_quotient [of sp_fixed PU64 100 "[(1 :: nat, 7), (2, 1), (3, 1)]"] fu128.fixed_arith_axioms
    by (simp add: prim_max_def)
qed

end
