(* ===== verification/ModelSamples.thy ===== *)
theory ModelSamples
  imports ModelProperties
begin

text \<open>
  Samples. The first section computes cases of the repository's own tests of the influence models;
  the second holds the inputs where the code does not do what it means to: payees that lose or
  double a payout, the scale of \<open>FixedU64\<close> lost on the way to signed arithmetic, and a halving
  schedule that starts over.
\<close>

section \<open>Cases of the repository's tests\<close>

lemma test_quadratic:
  "map (quadratic_model sp_fixed PU64) [0, 1, 9, 230] = [0, 1, 3, 15]"
  by code_simp

lemma test_logarithmic:
  "map (logarithmic_model sp_fixed PU64) [1, 3] = [0, 1]"
  by code_simp

lemma test_exponential:
  "map (exponential_model sp_fixed PU64 1000000000000000000) [0, 2] = [1, 7]"
  by code_simp

lemma test_exponential_signed:
  "map (exponential_model sp_fixed PI64 1000000000000000000) [-1] = [0]"
  by code_simp

section \<open>Where the code parts from its purpose\<close>

text \<open>Two participants with shares beyond the range of the 128-bit conversion get the payout each.\<close>

lemma shares_pay_doubles:
  "shares_pay sp_fixed PU128 PU128 100 [(1 :: nat, 400000000000000000000), (2, 400000000000000000000)] =
     [(1, 100), (2, 100)]"
  by code_simp

text \<open>A payout larger than the scale is not handed out completely, within the exact range too.\<close>

lemma shares_pay_keeps:
  "(\<Sum>x\<leftarrow>shares_pay sp_fixed PU32 PU32 4000000000 [(1 :: nat, 1), (2, 1), (3, 1)]. snd x) = 3999999999"
  by code_simp

lemma shares_pay_saturates:
  "shares_pay sp_fixed PU128 PU128 400000000000000000000 [(1 :: nat, 1), (2, 1)] =
     [(1, 170141183460469231732), (2, 170141183460469231732)]"
  by code_simp

text \<open>A decay of one per step from a reward of 1000: six units are left after five steps with 64-bit
  integers, and the largest 32-bit integer is paid with 32-bit ones.\<close>

lemma decay_wide: "exp_decay_payout sp_fixed PU64 \<lparr>ed_initial_reward = 1000, ed_decay_constant = 1000000000000000000\<rparr> 5 = 6"
  by code_simp

lemma decay_narrow: "exp_decay_payout sp_fixed PU32 \<lparr>ed_initial_reward = 1000, ed_decay_constant = 1000000000\<rparr> 5 = 4294967295"
  by code_simp

lemma halving_restarts:
  "map (halving_payout False PU64 1000) [0, 1, 9, 10, 63, 64, 65] =
     [Some 1000, Some 500, Some 1, Some 0, Some 0, Some 1000, Some 500]"
  "halving_payout True PU64 1000 64 = None"
  by (simp_all add: halving_payout_def prim_shr_def)

end
