(* ===== verification/OffchainStore.thy ===== *)
theory OffchainStore
  imports Prelude "HOL-Library.AList"
begin

text \<open>
  The node-local storage behind \<open>frame/suite/src/forks.rs\<close> and \<open>frame/suite/src/routines.rs\<close>:
  the values they keep, \<open>ForkLocalDepot\<close> with the trait \<open>Accrete\<close> of \<open>misc.rs\<close>, and the storage
  calls they use. A stored value is a \<open>cell\<close> of its type; reading it as another type is a decoding
  error. The hash function and the codec are fields of \<open>fork_env\<close>, with the hashes the block
  number resolves to and the constants of a \<open>ForksHandler\<close>.
\<close>

section \<open>Values\<close>

type_synonym bytes = "8 word list"

definition ascii :: "string \<Rightarrow> bytes" where
  "ascii s = map (\<lambda>c. of_nat (of_char c)) s"

record fork_depot =
  fd_inherited_keys :: "bytes set"
  fd_local_keys :: "bytes set"

record branch =
  br_parent :: "bytes option"
  br_head :: u32
  br_scope :: fork_depot
  br_genesis :: bytes
  br_counter :: "u32 list"

record 'v observation =
  ob_first_seen :: u64
  ob_last_seen :: u64
  ob_blocks_seen :: u32
  ob_value :: 'v

type_synonym 'v ledger = "(bytes \<times> 'v observation) list"

datatype 'v cell =
    CBlock u32
  | CKey bytes
  | CBranch branch
  | CLedger "'v ledger"
  | CRaw bytes

type_synonym 'v off_db = "bytes \<Rightarrow> 'v cell option"

fun as_block :: "'v cell \<Rightarrow> u32 option" where
  "as_block (CBlock b) = Some b"
| "as_block _ = None"

fun as_key :: "'v cell \<Rightarrow> bytes option" where
  "as_key (CKey k) = Some k"
| "as_key _ = None"

fun as_branch :: "'v cell \<Rightarrow> branch option" where
  "as_branch (CBranch b) = Some b"
| "as_branch _ = None"

fun as_ledger :: "'v cell \<Rightarrow> 'v ledger option" where
  "as_ledger (CLedger l) = Some l"
| "as_ledger _ = None"

section \<open>The fork-local depot\<close>

definition depot_default :: fork_depot where
  "depot_default = \<lparr>fd_inherited_keys = {}, fd_local_keys = {}\<rparr>"

definition accrete :: "fork_depot \<Rightarrow> fork_depot" where
  "accrete d = (let inherited = fd_inherited_keys d \<union> fd_local_keys d
     in \<lparr>fd_inherited_keys = inherited, fd_local_keys = {}\<rparr>)"

definition exists_in_local :: "bytes \<Rightarrow> fork_depot \<Rightarrow> bool" where
  "exists_in_local k d \<longleftrightarrow> k \<in> fd_local_keys d"

definition exists_in_inherited :: "bytes \<Rightarrow> fork_depot \<Rightarrow> bool" where
  "exists_in_inherited k d \<longleftrightarrow> k \<in> fd_inherited_keys d"

definition remove_from_local :: "bytes \<Rightarrow> fork_depot \<Rightarrow> fork_depot" where
  "remove_from_local k d = d\<lparr>fd_local_keys := fd_local_keys d - {k}\<rparr>"

definition remove_from_inherited :: "bytes \<Rightarrow> fork_depot \<Rightarrow> fork_depot" where
  "remove_from_inherited k d = d\<lparr>fd_inherited_keys := fd_inherited_keys d - {k}\<rparr>"

section \<open>The environment\<close>

datatype store_kind = PersistentStore | ForkAwareStore

datatype off_error =
    ForksNotEnabled
  | InconsistentForks
  | MaxForksError
  | DecodeFailed store_kind
  | ConcurrentMutation store_kind
  | HangingHash
  | HangingValue
  | OtherError string

record ('h, 'v) fork_env =
  fe_blake :: "bytes \<Rightarrow> bytes"
  fe_enc_bytes :: "bytes \<Rightarrow> bytes"
  fe_enc_hash :: "'h \<Rightarrow> bytes"
  fe_enc_u32 :: "u32 \<Rightarrow> bytes"
  fe_enc_value :: "'v \<Rightarrow> bytes"
  fe_tag :: bytes
  fe_max_forks :: u32
  fe_max_recover :: u32
  fe_block_hash :: "u32 \<Rightarrow> 'h"
  fe_number :: u32
  fe_now :: u64
  fe_finality_after :: u64
  fe_finality_ticks :: u32
  fe_race :: "bytes \<Rightarrow> 'v cell option option"

definition make_key :: "('h, 'v) fork_env \<Rightarrow> bytes \<Rightarrow> bytes" where
  "make_key E item = fe_blake E (fe_enc_bytes E item)"

definition add_to_local :: "('h, 'v) fork_env \<Rightarrow> bytes \<Rightarrow> fork_depot \<Rightarrow> bytes \<times> fork_depot" where
  "add_to_local E item d =
     (let key = make_key E item in (key, d\<lparr>fd_local_keys := insert key (fd_local_keys d)\<rparr>))"

section \<open>Storage calls\<close>

text \<open>Reading a value: absent, undecodable (\<open>Inl\<close>), or present.\<close>

definition read_cell :: "('v cell \<Rightarrow> 'a option) \<Rightarrow> bytes \<Rightarrow> 'v off_db \<Rightarrow> unit + 'a option" where
  "read_cell dec k db =
     (case db k of
        None \<Rightarrow> Inr None
      | Some c \<Rightarrow> (case dec c of None \<Rightarrow> Inl () | Some v \<Rightarrow> Inr (Some v)))"

definition load_value :: "('v cell \<Rightarrow> 'a option) \<Rightarrow> bytes \<Rightarrow> 'v off_db \<Rightarrow> 'a option" where
  "load_value dec k db = (case read_cell dec k db of Inl _ \<Rightarrow> None | Inr result \<Rightarrow> result)"

definition store_encoded :: "bytes \<Rightarrow> 'v cell \<Rightarrow> 'v off_db \<Rightarrow> 'v off_db" where
  "store_encoded k c db = db(k \<mapsto> c)"

definition clear_cell :: "bytes \<Rightarrow> 'v off_db \<Rightarrow> 'v off_db" where
  "clear_cell k db = db(k := None)"

text \<open>
  The atomic update of \<open>StorageValueRef\<close>: the closure sees the decoded value and may use the
  storage itself; its result is written only if the stored value is still the one that was read.
  \<open>fe_race\<close> is what another worker writes meanwhile.
\<close>

datatype 'e mutate_error =
    ConcurrentModification
  | ValueFunctionFailed 'e

definition mutate_cell ::
  "('h, 'v) fork_env \<Rightarrow> ('v cell \<Rightarrow> 'a option) \<Rightarrow> ('a \<Rightarrow> 'v cell) \<Rightarrow> bytes \<Rightarrow>
   (unit + 'a option \<Rightarrow> ('v off_db, 'e, 'a) op) \<Rightarrow> ('v off_db, 'e mutate_error, unit) op" where
  "mutate_cell E dec enc k f db =
     (let old = db k in
      case f (read_cell dec k db) db of
        (Inl e, db') \<Rightarrow> (Inl (ValueFunctionFailed e), db')
      | (Inr v, db') \<Rightarrow>
          let db'' = (case fe_race E k of None \<Rightarrow> db' | Some c \<Rightarrow> db'(k := c))
          in if db'' k = old then (Inr (), db''(k \<mapsto> enc v)) else (Inl ConcurrentModification, db''))"

end
