(* ===== verification/ForkGraph.thy ===== *)
theory ForkGraph
  imports OffchainStore
begin

text \<open>
  The local fork graph, \<open>frame/suite/src/forks.rs\<close>: keys, lookups, recovery, the registration of a
  block (\<open>start\<close>), traversal and scopes. The offchain worker that \<open>start\<close> runs last is the
  outcome \<open>RanOcw\<close>. The recovery loop of \<open>start\<close> has no bound in the code, so it is a partial
  function; the walk to the root is one as well.
\<close>

section \<open>Keys\<close>

definition head_block :: bytes where
  "head_block = ascii ''LOCAL_HEAD_BLOCK''"

definition make_hash :: "('h, 'v) fork_env \<Rightarrow> bytes \<Rightarrow> bytes \<Rightarrow> bytes" where
  "make_hash E input suffix = fe_blake E (fe_enc_bytes E (fe_tag E) @ fe_enc_bytes E input @ suffix)"

definition branch_key :: "('h, 'v) fork_env \<Rightarrow> bytes \<Rightarrow> u32 list \<Rightarrow> bytes" where
  "branch_key E genesis counter =
     make_hash E (genesis @ concat (map (fe_enc_u32 E) counter)) (ascii ''branch'')"

definition divider_key :: "('h, 'v) fork_env \<Rightarrow> 'h \<Rightarrow> bytes \<Rightarrow> bytes" where
  "divider_key E hash branch = make_hash E (fe_enc_hash E hash @ branch) (ascii ''divider'')"

definition block_key :: "('h, 'v) fork_env \<Rightarrow> 'h \<Rightarrow> bytes" where
  "block_key E hash = make_hash E (fe_enc_hash E hash) (ascii ''block'')"

definition head_key :: "('h, 'v) fork_env \<Rightarrow> bytes" where
  "head_key E = fe_tag E @ head_block"

section \<open>Lookups\<close>

definition get_head :: "('h, 'v) fork_env \<Rightarrow> 'v off_db \<Rightarrow> u32 option" where
  "get_head E db = load_value as_block (head_key E) db"

definition get_divider :: "('h, 'v) fork_env \<Rightarrow> 'h \<Rightarrow> 'v off_db \<Rightarrow> bytes option" where
  "get_divider E hash db = load_value as_key (block_key E hash) db"

definition get_branch_hash :: "('h, 'v) fork_env \<Rightarrow> 'h \<Rightarrow> 'v off_db \<Rightarrow> bytes option" where
  "get_branch_hash E hash db = Option.bind (get_divider E hash db) (\<lambda>divider. load_value as_key divider db)"

definition get_branch :: "bytes \<Rightarrow> 'v off_db \<Rightarrow> branch option" where
  "get_branch branch_hash db = load_value as_branch branch_hash db"

definition get_block_branch :: "('h, 'v) fork_env \<Rightarrow> 'h \<Rightarrow> 'v off_db \<Rightarrow> branch option" where
  "get_block_branch E hash db = Option.bind (get_branch_hash E hash db) (\<lambda>h. get_branch h db)"

definition get_prev_branch :: "('h, 'v) fork_env \<Rightarrow> 'h \<Rightarrow> 'v off_db \<Rightarrow> branch option" where
  "get_prev_branch E hash db =
     Option.bind (get_block_branch E hash db) (\<lambda>branch.
     Option.bind (br_parent branch) (\<lambda>parent. get_branch parent db))"

definition get_prev_block_branch :: "('h, 'v) fork_env \<Rightarrow> 'v off_db \<Rightarrow> branch option" where
  "get_prev_block_branch E db = get_block_branch E (fe_block_hash E (sat_sub (fe_number E) 1)) db"

section \<open>Recovery\<close>

text \<open>The nearest earlier block whose branch is known; the attempts left bound the search.\<close>

fun find_recoverable :: "('h, 'v) fork_env \<Rightarrow> 'v off_db \<Rightarrow> nat \<Rightarrow> u32 \<Rightarrow> (branch \<times> u32) option" where
  "find_recoverable E db 0 recoverer = None"
| "find_recoverable E db (Suc n) recoverer =
     (if recoverer = 0 then None
      else case get_block_branch E (fe_block_hash E (sat_sub recoverer 1)) db of
             Some branch \<Rightarrow> Some (branch, recoverer)
           | None \<Rightarrow> find_recoverable E db n (sat_sub recoverer 1))"

text \<open>Routing of one block: divider and block entry.\<close>

definition route :: "('h, 'v) fork_env \<Rightarrow> 'h \<Rightarrow> 'h \<Rightarrow> bytes \<Rightarrow> 'v off_db \<Rightarrow> 'v off_db" where
  "route E parent current branch_hash db =
     (let divider_hash = divider_key E parent branch_hash
      in store_encoded (block_key E current) (CKey divider_hash)
           (store_encoded divider_hash (CKey branch_hash) db))"

definition synthetic_root :: "('h, 'v) fork_env \<Rightarrow> u32 \<Rightarrow> 'v off_db \<Rightarrow> 'v off_db" where
  "synthetic_root E block db =
     (let parent_block = sat_sub block 1;
          parent = fe_block_hash E parent_block;
          grand_parent = fe_block_hash E (sat_sub block 2);
          genesis = fe_blake E (fe_enc_bytes E (fe_enc_hash E grand_parent));
          branch = \<lparr>br_parent = None, br_head = parent_block, br_scope = depot_default,
                    br_genesis = genesis, br_counter = []\<rparr>;
          branch_hash = branch_key E genesis []
      in route E parent parent branch_hash (store_encoded branch_hash (CBranch branch) db))"

lemma next_target: "target < (block :: u32) \<Longrightarrow> unat (sat_add target 1) = Suc (unat target)"
  using unat_bound [of block] by (simp add: sat_add_def word_less_nat_alt unat_word_ariths)

function rebuild ::
  "('h, 'v) fork_env \<Rightarrow> u32 \<Rightarrow> u32 \<Rightarrow> fork_depot \<Rightarrow> u32 \<Rightarrow> bytes option \<Rightarrow> 'v off_db \<Rightarrow> 'v off_db" where
  "rebuild E block recoverer scope target branchkey db =
     (if target < block then
        (let current = fe_block_hash E target;
             parent = fe_block_hash E (sat_sub target 1);
             (branch_hash, db') =
               (case branchkey of
                  Some h \<Rightarrow> (h, db)
                | None \<Rightarrow>
                    let genesis = fe_blake E (fe_enc_bytes E (fe_enc_hash E parent));
                        branch = \<lparr>br_parent = get_branch_hash E (fe_block_hash E (sat_sub recoverer 1)) db,
                                  br_head = target, br_scope = scope, br_genesis = genesis, br_counter = []\<rparr>;
                        key = branch_key E genesis []
                    in (key, store_encoded key (CBranch branch) db))
         in rebuild E block recoverer scope (sat_add target 1) (Some branch_hash)
              (route E parent current branch_hash db'))
      else db)"
  by pat_completeness auto

termination
  by (relation "measure (\<lambda>(E, block, recoverer, scope, target, branchkey, db). unat block - unat target)")
    (auto simp: next_target word_less_nat_alt)

declare rebuild.simps [simp del]

definition parent_branch_hash_unavailable :: "('h, 'v) fork_env \<Rightarrow> u32 \<Rightarrow> 'v off_db \<Rightarrow> 'v off_db" where
  "parent_branch_hash_unavailable E block db =
     (case find_recoverable E db (unat (fe_max_recover E)) (sat_sub block 2) of
        Some (branch, recoverer) \<Rightarrow>
          rebuild E block recoverer (accrete (br_scope branch)) (sat_add recoverer 1) None db
      | None \<Rightarrow> synthetic_root E block db)"

definition parent_branch_unavailable :: "('h, 'v) fork_env \<Rightarrow> u32 \<Rightarrow> 'v off_db \<Rightarrow> 'v off_db" where
  "parent_branch_unavailable E block db =
     (let parent = fe_block_hash E (sat_sub block 1) in
      case get_divider E parent db of
        None \<Rightarrow> parent_branch_hash_unavailable E block db
      | Some divider_hash \<Rightarrow> parent_branch_hash_unavailable E block (clear_cell divider_hash db))"

definition parent_divider_unavailable :: "('h, 'v) fork_env \<Rightarrow> u32 \<Rightarrow> 'v off_db \<Rightarrow> 'v off_db" where
  "parent_divider_unavailable = parent_branch_hash_unavailable"

definition inherited_branch_decode_error :: "('h, 'v) fork_env \<Rightarrow> u32 \<Rightarrow> 'v off_db \<Rightarrow> 'v off_db" where
  "inherited_branch_decode_error = parent_branch_unavailable"

section \<open>Registration of a block\<close>

text \<open>The first unused child index, of the indexes up to \<open>MAX_FORKS\<close>. The counter of the code has 32
  bits, so with \<open>MAX_FORKS\<close> at its largest value and all its children stored the code would start
  over for ever; the model gives up there.\<close>

fun free_counter :: "('h, 'v) fork_env \<Rightarrow> 'v off_db \<Rightarrow> bytes \<Rightarrow> u32 list \<Rightarrow> nat \<Rightarrow> u32 \<Rightarrow> u32 option" where
  "free_counter E db genesis counter 0 i = None"
| "free_counter E db genesis counter (Suc n) i =
     (if load_value as_branch (branch_key E genesis (counter @ [i])) db = None then Some i
      else free_counter E db genesis counter n (i + 1))"

text \<open>A new sibling: a child of the parent's branch with its accreted scope.\<close>

definition new_sibling ::
  "('h, 'v) fork_env \<Rightarrow> u32 \<Rightarrow> bytes \<Rightarrow> branch \<Rightarrow> ('v off_db, off_error, unit) op" where
  "new_sibling E block branch_hash prev_branch db =
     (let current = fe_block_hash E block;
          parent = fe_block_hash E (sat_sub block 1);
          scope = accrete (br_scope prev_branch);
          genesis = br_genesis prev_branch;
          counter = br_counter prev_branch
      in case free_counter E db genesis counter (unat (fe_max_forks E) + 1) 0 of
           None \<Rightarrow> (Inl MaxForksError, db)
         | Some new_counter \<Rightarrow>
             let counter = counter @ [new_counter];
                 new_branch_hash = branch_key E genesis counter;
                 new_branch = \<lparr>br_parent = Some branch_hash, br_head = block, br_scope = scope,
                               br_genesis = genesis, br_counter = counter\<rparr>
             in (Inr (), route E parent current new_branch_hash
                           (store_encoded new_branch_hash (CBranch new_branch) db)))"

definition inherited_branch_mutation_conflict :: "('h, 'v) fork_env \<Rightarrow> u32 \<Rightarrow> ('v off_db, off_error, unit) op" where
  "inherited_branch_mutation_conflict E block db =
     (let parent = fe_block_hash E (sat_sub block 1) in
      case get_branch_hash E parent db of
        None \<Rightarrow> (Inr (), parent_branch_hash_unavailable E block db)
      | Some branch_hash \<Rightarrow>
          (case get_branch branch_hash db of
             None \<Rightarrow> (Inr (), parent_branch_unavailable E block db)
           | Some prev_branch \<Rightarrow>
               (case new_sibling E block branch_hash prev_branch db of
                  (Inl e, db') \<Rightarrow> (Inl e, db')
                | (Inr _, db') \<Rightarrow> (Inr (), store_encoded (head_key E) (CBlock block) db'))))"

datatype start_outcome = Skipped | RanOcw | Stopped off_error

text \<open>One round of the recovery loop: \<open>None\<close> is \<open>continue\<close>.\<close>

definition extend_branch ::
  "('h, 'v) fork_env \<Rightarrow> u32 \<Rightarrow> bytes \<Rightarrow> bytes \<Rightarrow> 'v off_db \<Rightarrow> start_outcome option \<times> 'v off_db" where
  "extend_branch E block divider located db =
     (case mutate_cell E as_branch CBranch located
             (\<lambda>result db. case result of
                Inl _ \<Rightarrow> (Inl (), inherited_branch_decode_error E block db)
              | Inr None \<Rightarrow> (Inl (), parent_branch_unavailable E block db)
              | Inr (Some branch) \<Rightarrow> (Inr (branch\<lparr>br_head := block\<rparr>), db)) db of
        (Inr _, db') \<Rightarrow>
          (Some RanOcw,
           store_encoded (head_key E) (CBlock block)
             (store_encoded (block_key E (fe_block_hash E block)) (CKey divider) db'))
      | (Inl ConcurrentModification, db') \<Rightarrow>
          (case inherited_branch_mutation_conflict E block db' of
             (Inr _, db'') \<Rightarrow> (Some RanOcw, db'')
           | (Inl e, db'') \<Rightarrow> (Some (Stopped e), db''))
      | (Inl (ValueFunctionFailed _), db') \<Rightarrow> (None, db'))"

definition start_round ::
  "('h, 'v) fork_env \<Rightarrow> u32 \<Rightarrow> 'v off_db \<Rightarrow> start_outcome option \<times> 'v off_db" where
  "start_round E block db0 =
     (let parent = fe_block_hash E (sat_sub block 1);
          (head, db) = (case get_head E db0 of
             Some v \<Rightarrow> (v, db0)
           | None \<Rightarrow> (let initial_head = sat_sub block 1
                      in (initial_head, store_encoded (head_key E) (CBlock initial_head) db0)))
      in case get_divider E parent db of
           None \<Rightarrow> (None, parent_divider_unavailable E block db)
         | Some divider \<Rightarrow>
             (case get_branch_hash E parent db of
                None \<Rightarrow> (None, parent_branch_hash_unavailable E block db)
              | Some located \<Rightarrow>
                  if block \<le> head then
                    (case get_branch located db of
                       None \<Rightarrow> (None, parent_branch_unavailable E block db)
                     | Some prev_branch \<Rightarrow>
                         (case new_sibling E block located prev_branch db of
                            (Inl e, db') \<Rightarrow> (Some (Stopped e), db')
                          | (Inr _, db') \<Rightarrow> (Some RanOcw, db')))
                  else extend_branch E block divider located db))"

partial_function (option) start_loop ::
  "('h, 'v) fork_env \<Rightarrow> u32 \<Rightarrow> 'v off_db \<Rightarrow> (start_outcome \<times> 'v off_db) option" where
  "start_loop E block db =
     (case start_round E block db of
        (Some outcome, db') \<Rightarrow> Some (outcome, db')
      | (None, db') \<Rightarrow> start_loop E block db')"

declare start_loop.simps [code]

definition start :: "('h, 'v) fork_env \<Rightarrow> 'v off_db \<Rightarrow> (start_outcome \<times> 'v off_db) option" where
  "start E db =
     (let block = fe_number E;
          actual_parent_block = sat_sub block 1;
          actual_grandparent_block = sat_sub block 2
      in if actual_parent_block = actual_grandparent_block then Some (Skipped, db)
         else start_loop E (sat_sub block 1) db)"

section \<open>Traversal\<close>

datatype fork_action =
    MoveToParentBranchBack u32
  | MoveToParentBranch
  | MoveToChildBranch u32
  | MoveToNextChildBranch
  | MoveToSiblingBranch u32
  | MoveToNextSiblingBranch
  | MoveToPreviousSiblingBranch
  | MoveToRootBranch

definition to_parent :: "'v off_db \<Rightarrow> branch \<Rightarrow> branch option" where
  "to_parent db branch = Option.bind (br_parent branch) (\<lambda>key. get_branch key db)"

definition to_child :: "('h, 'v) fork_env \<Rightarrow> 'v off_db \<Rightarrow> u32 \<Rightarrow> branch \<Rightarrow> branch option" where
  "to_child E db index branch = get_branch (branch_key E (br_genesis branch) (br_counter branch @ [index])) db"

definition to_sibling :: "('h, 'v) fork_env \<Rightarrow> 'v off_db \<Rightarrow> u32 \<Rightarrow> branch \<Rightarrow> branch option" where
  "to_sibling E db index branch =
     (let sibling_counter = (if br_counter branch = [] then [index] else butlast (br_counter branch) @ [index])
      in if sibling_counter = br_counter branch then None
         else get_branch (branch_key E (br_genesis branch) sibling_counter) db)"

partial_function (option) to_root :: "'v off_db \<Rightarrow> branch \<Rightarrow> branch option" where
  "to_root db branch =
     (case br_parent branch of
        None \<Rightarrow> Some branch
      | Some key \<Rightarrow> (case get_branch key db of None \<Rightarrow> Some branch | Some parent \<Rightarrow> to_root db parent))"

declare to_root.simps [code]

text \<open>The result of a walk to the root is \<open>None\<close> when the walk never ends, which the code does not
  return from; every other \<open>None\<close> is the code's.\<close>

fun transition :: "('h, 'v) fork_env \<Rightarrow> 'v off_db \<Rightarrow> branch \<Rightarrow> fork_action \<Rightarrow> branch option" where
  "transition E db branch MoveToParentBranch = to_parent db branch"
| "transition E db branch (MoveToParentBranchBack n) = iter_option (unat n) (to_parent db) branch"
| "transition E db branch (MoveToChildBranch index) = to_child E db index branch"
| "transition E db branch MoveToNextChildBranch = to_child E db 0 branch"
| "transition E db branch (MoveToSiblingBranch index) = to_sibling E db index branch"
| "transition E db branch MoveToNextSiblingBranch =
     to_sibling E db (if br_counter branch = [] then 0 else sat_add (last (br_counter branch)) 1) branch"
| "transition E db branch MoveToPreviousSiblingBranch =
     (if br_counter branch = [] then None
      else let k = last (br_counter branch) in if k = 0 then None else to_sibling E db (sat_sub k 1) branch)"
| "transition E db branch MoveToRootBranch = to_root db branch"

section \<open>Scopes\<close>

definition scope_item_exists :: "('h, 'v) fork_env \<Rightarrow> bytes \<Rightarrow> ('v off_db, off_error, bool) op" where
  "scope_item_exists E key db =
     (case get_prev_block_branch E db of
        None \<Rightarrow> (Inl ForksNotEnabled, db)
      | Some branch \<Rightarrow> (Inr (exists_in_local key (br_scope branch) \<or> exists_in_inherited key (br_scope branch)), db))"

definition add_to_scope :: "('h, 'v) fork_env \<Rightarrow> bytes \<Rightarrow> ('v off_db, off_error, bytes) op" where
  "add_to_scope E item db =
     (case get_branch_hash E (fe_block_hash E (sat_sub (fe_number E) 1)) db of
        None \<Rightarrow> (Inl ForksNotEnabled, db)
      | Some branch_hash \<Rightarrow>
          (case get_branch branch_hash db of
             None \<Rightarrow> (Inl InconsistentForks, db)
           | Some branch \<Rightarrow>
               (case add_to_local E item (br_scope branch) of
                  (key, scope) \<Rightarrow> (Inr key, store_encoded branch_hash (CBranch (branch\<lparr>br_scope := scope\<rparr>)) db))))"

definition remove_from_scope :: "('h, 'v) fork_env \<Rightarrow> bytes \<Rightarrow> ('v off_db, off_error, unit) op" where
  "remove_from_scope E key db =
     (case get_branch_hash E (fe_block_hash E (sat_sub (fe_number E) 1)) db of
        None \<Rightarrow> (Inl ForksNotEnabled, db)
      | Some branch_hash \<Rightarrow>
          (case get_prev_block_branch E db of
             None \<Rightarrow> (Inl InconsistentForks, db)
           | Some branch \<Rightarrow>
               let scope = br_scope branch in
               if exists_in_local key scope
               then (Inr (), store_encoded branch_hash (CBranch (branch\<lparr>br_scope := remove_from_local key scope\<rparr>)) db)
               else if \<not> exists_in_inherited key scope then (Inr (), db)
               else (Inr (), store_encoded branch_hash (CBranch (branch\<lparr>br_scope := remove_from_inherited key scope\<rparr>)) db)))"

end
