(* ===== verification/OffchainRoutines.thy ===== *)
theory OffchainRoutines
  imports ForkGraph
begin

text \<open>
  The key-value stores of \<open>frame/suite/src/routines.rs\<close>: \<open>Persistent\<close>, \<open>ForkAware\<close> over the scopes of
  the fork graph, and \<open>Finalized\<close> over both, with its ledger of observations. A store is given the
  type of its values by the functions that read and write a cell; log output is left out, so the
  error a call logs is the error it returns.
\<close>

section \<open>Persistent storage\<close>

definition persistent_insert :: "('a \<Rightarrow> 'v cell) \<Rightarrow> bytes \<Rightarrow> 'a \<Rightarrow> ('v off_db, off_error, unit) op" where
  "persistent_insert enc key v db = (Inr (), store_encoded key (enc v) db)"

definition persistent_get :: "('v cell \<Rightarrow> 'a option) \<Rightarrow> bytes \<Rightarrow> ('v off_db, off_error, 'a option) op" where
  "persistent_get dec key db =
     (case read_cell dec key db of Inl _ \<Rightarrow> (Inl (DecodeFailed PersistentStore), db) | Inr v \<Rightarrow> (Inr v, db))"

definition persistent_remove :: "('v cell \<Rightarrow> 'a option) \<Rightarrow> bytes \<Rightarrow> ('v off_db, off_error, 'a option) op" where
  "persistent_remove dec key db =
     (case read_cell dec key db of
        Inl _ \<Rightarrow> (Inl (DecodeFailed PersistentStore), db)
      | Inr existing \<Rightarrow> (Inr existing, clear_cell key db))"

text \<open>An update whose closure gets the decoding error as an error of the routine.\<close>

definition store_mutate ::
  "('h, 'v) fork_env \<Rightarrow> store_kind \<Rightarrow> ('v cell \<Rightarrow> 'a option) \<Rightarrow> ('a \<Rightarrow> 'v cell) \<Rightarrow> bytes \<Rightarrow>
   (off_error + 'a option \<Rightarrow> ('v off_db, off_error, 'a) op) \<Rightarrow> ('v off_db, off_error, unit) op" where
  "store_mutate E kind dec enc key f db =
     (case mutate_cell E dec enc key
             (\<lambda>current. f (case current of Inl _ \<Rightarrow> Inl (DecodeFailed kind) | Inr v \<Rightarrow> Inr v)) db of
        (Inr _, db') \<Rightarrow> (Inr (), db')
      | (Inl ConcurrentModification, db') \<Rightarrow> (Inl (ConcurrentMutation kind), db')
      | (Inl (ValueFunctionFailed e), db') \<Rightarrow> (Inl e, db'))"

definition persistent_mutate ::
  "('h, 'v) fork_env \<Rightarrow> ('v cell \<Rightarrow> 'a option) \<Rightarrow> ('a \<Rightarrow> 'v cell) \<Rightarrow> bytes \<Rightarrow>
   (off_error + 'a option \<Rightarrow> ('v off_db, off_error, 'a) op) \<Rightarrow> ('v off_db, off_error, unit) op" where
  "persistent_mutate E = store_mutate E PersistentStore"

section \<open>Fork-aware storage\<close>

definition fork_insert ::
  "('h, 'v) fork_env \<Rightarrow> ('a \<Rightarrow> 'v cell) \<Rightarrow> bytes \<Rightarrow> 'a \<Rightarrow> ('v off_db, off_error, unit) op" where
  "fork_insert E enc key v =
     bindO (add_to_scope E key) (\<lambda>scope_key. modify (store_encoded scope_key (enc v)))"

definition fork_get ::
  "('h, 'v) fork_env \<Rightarrow> ('v cell \<Rightarrow> 'a option) \<Rightarrow> bytes \<Rightarrow> ('v off_db, off_error, 'a option) op" where
  "fork_get E dec key =
     (let scope_key = make_key E key in
      bindO (scope_item_exists E scope_key) (\<lambda>found.
        if \<not> found then ret None
        else (\<lambda>db. case read_cell dec scope_key db of
                Inl _ \<Rightarrow> (Inl (DecodeFailed ForkAwareStore), db)
              | Inr v \<Rightarrow> (Inr v, db))))"

definition fork_remove ::
  "('h, 'v) fork_env \<Rightarrow> ('v cell \<Rightarrow> 'a option) \<Rightarrow> bytes \<Rightarrow> ('v off_db, off_error, 'a option) op" where
  "fork_remove E dec key =
     (let scope_key = make_key E key in
      bindO (scope_item_exists E scope_key) (\<lambda>found.
        if \<not> found then ret None
        else (\<lambda>db. case read_cell dec scope_key db of
                Inl _ \<Rightarrow> (Inl (DecodeFailed ForkAwareStore), db)
              | Inr existing \<Rightarrow>
                  thenO (modify (clear_cell scope_key))
                    (thenO (remove_from_scope E scope_key) (ret existing)) db)))"

definition fork_mutate ::
  "('h, 'v) fork_env \<Rightarrow> ('v cell \<Rightarrow> 'a option) \<Rightarrow> ('a \<Rightarrow> 'v cell) \<Rightarrow> bytes \<Rightarrow>
   (off_error + 'a option \<Rightarrow> ('v off_db, off_error, 'a) op) \<Rightarrow> ('v off_db, off_error, unit) op" where
  "fork_mutate E dec enc key f =
     (let scope_key = make_key E key in
      bindO (scope_item_exists E scope_key) (\<lambda>found.
        if \<not> found then bindO (f (Inr None)) (\<lambda>v. fork_insert E enc key v)
        else store_mutate E ForkAwareStore dec enc scope_key f))"

section \<open>Finalized storage\<close>

datatype 'v confidence = Safe 'v | Risky 'v | Unsafe 'v

definition value_hash :: "('h, 'v) fork_env \<Rightarrow> 'v \<Rightarrow> bytes" where
  "value_hash E v = fe_blake E (fe_enc_value E v)"

definition fresh_observation :: "('h, 'v) fork_env \<Rightarrow> 'v \<Rightarrow> 'v observation" where
  "fresh_observation E v = \<lparr>ob_first_seen = fe_now E, ob_last_seen = fe_now E, ob_blocks_seen = 0, ob_value = v\<rparr>"

definition finalized_insert :: "('h, 'v) fork_env \<Rightarrow> bytes \<Rightarrow> 'v \<Rightarrow> ('v off_db, off_error, unit) op" where
  "finalized_insert E key v =
     (let hash = value_hash E v in
      thenO (fork_insert E CKey key hash)
        (persistent_mutate E as_ledger CLedger key (\<lambda>current.
           case current of
             Inr existing \<Rightarrow>
               let ledger = (case existing of None \<Rightarrow> [] | Some l \<Rightarrow> l)
               in ret (AList.update hash (fresh_observation E v) ledger)
           | Inl e \<Rightarrow> throw e)))"

text \<open>One observation of a value: its confidence and the updated record.\<close>

definition observe :: "('h, 'v) fork_env \<Rightarrow> 'v observation \<Rightarrow> 'v confidence \<times> 'v observation" where
  "observe E ob =
     (let first_seen = ob_first_seen ob; last_seen = ob_last_seen ob; obs_count = ob_blocks_seen ob;
          v = ob_value ob;
          ob' = ob\<lparr>ob_last_seen := fe_now E\<rparr>
      in if sat_add first_seen (fe_finality_after E) > last_seen then (Unsafe v, ob')
         else if obs_count < fe_finality_ticks E
         then (Risky v, if last_seen < fe_now E then ob'\<lparr>ob_blocks_seen := obs_count + 1\<rparr> else ob')
         else (Safe v, ob'))"

text \<open>The result of \<open>finalized_get\<close> is set by the closure, whose effect is the new ledger.\<close>

definition observe_ledger ::
  "('h, 'v) fork_env \<Rightarrow> bytes \<Rightarrow> bytes \<Rightarrow> off_error + 'v ledger option \<Rightarrow> ('v off_db, off_error, 'v ledger) op" where
  "observe_ledger E key hash current =
     (case current of
        Inl e \<Rightarrow> throw e
      | Inr None \<Rightarrow> thenO (fork_remove E as_key key) (throw HangingValue)
      | Inr (Some ledger) \<Rightarrow>
          (case map_of ledger hash of
             None \<Rightarrow> thenO (fork_remove E as_key key) (throw HangingHash)
           | Some ob \<Rightarrow> ret (AList.update hash (snd (observe E ob)) ledger)))"

definition observed :: "('h, 'v) fork_env \<Rightarrow> bytes \<Rightarrow> bytes \<Rightarrow> 'v off_db \<Rightarrow> 'v confidence option" where
  "observed E key hash db =
     (case read_cell as_ledger key db of
        Inr (Some ledger) \<Rightarrow> map_option (\<lambda>ob. fst (observe E ob)) (map_of ledger hash)
      | _ \<Rightarrow> None)"

definition finalized_get :: "('h, 'v) fork_env \<Rightarrow> bytes \<Rightarrow> ('v off_db, off_error, 'v confidence option) op" where
  "finalized_get E key =
     bindO (fork_get E as_key key) (\<lambda>found.
       case found of
         None \<Rightarrow> ret None
       | Some hash \<Rightarrow> (\<lambda>db. thenO (persistent_mutate E as_ledger CLedger key (observe_ledger E key hash))
                                 (ret (observed E key hash db)) db))"

definition finalized_remove :: "('h, 'v) fork_env \<Rightarrow> bytes \<Rightarrow> ('v off_db, off_error, 'v option) op" where
  "finalized_remove E key =
     bindO (fork_get E as_key key) (\<lambda>found.
       case found of
         None \<Rightarrow> ret None
       | Some hash \<Rightarrow>
           thenO (fork_remove E as_key key) (\<lambda>db.
             let old = read_cell as_ledger key db;
                 ledger = (case old of Inr (Some l) \<Rightarrow> l | _ \<Rightarrow> [])
             in thenO (persistent_mutate E as_ledger CLedger key (\<lambda>current.
                    case current of
                      Inl e \<Rightarrow> throw e
                    | Inr None \<Rightarrow> throw HangingValue
                    | Inr (Some l) \<Rightarrow> ret (AList.delete hash l)))
                  (thenO (if AList.delete hash ledger = [] then bindO (persistent_remove as_ledger key) (\<lambda>_. ret ())
                          else ret ())
                    (ret (map_option ob_value (map_of ledger hash)))) db))"

definition finalized_replace ::
  "('h, 'v) fork_env \<Rightarrow> bytes \<Rightarrow> (off_error + 'v option \<Rightarrow> off_error + 'v) \<Rightarrow> off_error + bytes option \<Rightarrow>
   ('v off_db, off_error, bytes) op" where
  "finalized_replace E key f current_hash =
     bindO (case current_hash of
              Inl e \<Rightarrow> throw e
            | Inr None \<Rightarrow> ret None
            | Inr (Some hash) \<Rightarrow>
                bindO (persistent_get as_ledger key) (\<lambda>ledger.
                  case ledger of
                    None \<Rightarrow> throw HangingValue
                  | Some l \<Rightarrow> ret (map_option ob_value (map_of l hash))))
       (\<lambda>current_value.
          case f (Inr current_value) of
            Inl e \<Rightarrow> throw e
          | Inr new_value \<Rightarrow>
              let new_hash = value_hash E new_value
              in thenO (persistent_mutate E as_ledger CLedger key (\<lambda>ledger_result.
                     case ledger_result of
                       Inl e \<Rightarrow> throw e
                     | Inr existing \<Rightarrow>
                         let ledger = (case existing of None \<Rightarrow> [] | Some l \<Rightarrow> l);
                             ledger' = (case current_hash of Inr (Some old) \<Rightarrow> AList.delete old ledger | _ \<Rightarrow> ledger)
                         in ret (AList.update new_hash (fresh_observation E new_value) ledger')))
                   (ret new_hash))"

definition finalized_mutate ::
  "('h, 'v) fork_env \<Rightarrow> bytes \<Rightarrow> (off_error + 'v option \<Rightarrow> off_error + 'v) \<Rightarrow> ('v off_db, off_error, unit) op" where
  "finalized_mutate E key f db =
     (case fork_mutate E as_key CKey key (finalized_replace E key f) db of
        (Inr _, db') \<Rightarrow> (Inr (), db')
      | (Inl e, db') \<Rightarrow>
          if e = HangingValue then thenO (fork_remove E as_key key) (throw e) db' else (Inl e, db'))"

end
