(* ===== verification/ForkProperties.thy ===== *)
theory ForkProperties
  imports OffchainRoutines
begin

text \<open>
  What the fork graph guarantees when its hash does not collide: the kinds of keys never meet, the
  recovery loop ends after one repair, a registered block resolves to a branch whose head it is,
  and a sibling sees what its parent's branch saw.
\<close>

section \<open>Keys never meet\<close>

definition prefix_free :: "('a \<Rightarrow> bytes) \<Rightarrow> bool" where
  "prefix_free enc \<longleftrightarrow> (\<forall>x y s t. enc x @ s = enc y @ t \<longrightarrow> x = y)"

text \<open>The idealised hash: injective, never the head key; a prefix-free codec for byte strings, and
  block hashes of one length.\<close>

definition ideal_hash :: "('h, 'v) fork_env \<Rightarrow> bool" where
  "ideal_hash E \<longleftrightarrow> inj (fe_blake E) \<and> prefix_free (fe_enc_bytes E) \<and> head_key E \<notin> range (fe_blake E) \<and>
     (\<forall>h h'. length (fe_enc_hash E h) = length (fe_enc_hash E h'))"

lemma make_hash_eq:
  assumes "ideal_hash E"
  shows "make_hash E i s = make_hash E j t \<longleftrightarrow> i = j \<and> s = t"
proof
  assume "make_hash E i s = make_hash E j t"
  then have "fe_enc_bytes E i @ s = fe_enc_bytes E j @ t"
    using assms by (simp add: make_hash_def ideal_hash_def inj_eq)
  moreover from this have "i = j" using assms by (auto simp: ideal_hash_def prefix_free_def)
  ultimately show "i = j \<and> s = t" by simp
qed simp

lemma suffixes: "ascii ''block'' \<noteq> ascii ''divider''" "ascii ''block'' \<noteq> ascii ''branch''" "ascii ''divider'' \<noteq> ascii ''branch''"
  by (simp_all add: ascii_def)

lemma keys_apart:
  assumes "ideal_hash E"
  shows "block_key E h \<noteq> divider_key E h' b" "divider_key E h' b \<noteq> block_key E h"
    "block_key E h \<noteq> branch_key E g c" "branch_key E g c \<noteq> block_key E h"
    "divider_key E h b \<noteq> branch_key E g c" "branch_key E g c \<noteq> divider_key E h b"
    "head_key E \<noteq> block_key E h" "head_key E \<noteq> divider_key E h b" "head_key E \<noteq> branch_key E g c"
    "block_key E h \<noteq> head_key E" "divider_key E h b \<noteq> head_key E" "branch_key E g c \<noteq> head_key E"
proof -
  have "head_key E \<noteq> make_hash E i s" for i s
    using assms by (auto simp: ideal_hash_def make_hash_def)
  then show "block_key E h \<noteq> divider_key E h' b" "divider_key E h' b \<noteq> block_key E h"
    "block_key E h \<noteq> branch_key E g c" "branch_key E g c \<noteq> block_key E h"
    "divider_key E h b \<noteq> branch_key E g c" "branch_key E g c \<noteq> divider_key E h b"
    "head_key E \<noteq> block_key E h" "head_key E \<noteq> divider_key E h b" "head_key E \<noteq> branch_key E g c"
    "block_key E h \<noteq> head_key E" "divider_key E h b \<noteq> head_key E" "branch_key E g c \<noteq> head_key E"
    using make_hash_eq [OF assms] suffixes
    by (simp_all add: block_key_def divider_key_def branch_key_def) (metis)+
qed

lemma divider_key_branch:
  assumes "ideal_hash E" "divider_key E p k = divider_key E p' k'"
  shows "k = k'"
proof -
  have "fe_enc_hash E p @ k = fe_enc_hash E p' @ k'"
    using assms make_hash_eq [OF assms(1)] by (simp add: divider_key_def)
  moreover have "length (fe_enc_hash E p) = length (fe_enc_hash E p')" using assms(1) by (simp add: ideal_hash_def)
  ultimately show ?thesis by (simp add: append_eq_append_conv)
qed

section \<open>Lookups after writes\<close>

lemma load_store: "load_value dec k (store_encoded k' c db) = (if k = k' then dec c else load_value dec k db)"
  by (simp add: load_value_def read_cell_def store_encoded_def split: option.splits)

text \<open>A block is routed to a branch when the chain of lookups from its hash reaches it.\<close>

definition routed :: "('h, 'v) fork_env \<Rightarrow> 'h \<Rightarrow> bytes \<Rightarrow> branch \<Rightarrow> 'v off_db \<Rightarrow> bool" where
  "routed E hash key branch db \<longleftrightarrow>
     (\<exists>p g c. key = branch_key E g c \<and> get_divider E hash db = Some (divider_key E p key) \<and>
        load_value as_key (divider_key E p key) db = Some key \<and> get_branch key db = Some branch)"

lemma routed_lookups:
  assumes "routed E hash key branch db"
  shows "get_branch_hash E hash db = Some key" "get_branch key db = Some branch"
    "get_block_branch E hash db = Some branch" "\<exists>d. get_divider E hash db = Some d"
  using assms by (auto simp: routed_def get_branch_hash_def get_block_branch_def)

lemma route_routes:
  assumes "ideal_hash E" "get_branch (branch_key E g c) db = Some branch"
  shows "routed E current (branch_key E g c) branch (route E parent current (branch_key E g c) db)"
  using assms keys_apart [OF assms(1)]
  by (auto simp: routed_def route_def get_divider_def get_branch_def load_store Let_def)

lemma route_keeps_branch:
  assumes "ideal_hash E"
  shows "get_branch (branch_key E g c) (route E parent current k db) = get_branch (branch_key E g c) db"
  using keys_apart [OF assms] by (simp add: route_def get_branch_def load_store Let_def)

section \<open>One repair is enough\<close>

lemma last_target:
  assumes "target < (block :: u32)" "\<not> sat_add target 1 < block"
  shows "target = block - 1"
proof -
  have "unat block = Suc (unat target)"
    using assms next_target [OF assms(1)] by (simp add: word_less_nat_alt)
  then have "unat target = unat (block - 1)" by (simp add: unat_sub_if')
  then show ?thesis by (simp only: word_unat_eq_iff)
qed

lemma rebuild_known:
  assumes ideal: "ideal_hash E" and key: "key = branch_key E g c"
  shows "target < block \<Longrightarrow> get_branch key db = Some branch \<Longrightarrow>
    routed E (fe_block_hash E (block - 1)) key branch (rebuild E block recoverer scope target (Some key) db)"
proof (induction "unat block - unat target" arbitrary: target db rule: less_induct)
  case less
  define db' where "db' = route E (fe_block_hash E (sat_sub target 1)) (fe_block_hash E target) key db"
  have unfold: "rebuild E block recoverer scope target (Some key) db =
      rebuild E block recoverer scope (sat_add target 1) (Some key) db'"
    using less.prems(1) by (subst rebuild.simps) (simp add: Let_def db'_def)
  have known: "get_branch key db' = Some branch"
    using less.prems(2) by (simp add: db'_def key route_keeps_branch [OF ideal])
  show ?case
  proof (cases "sat_add target 1 < block")
    case True
    have "unat block - unat (sat_add target 1) < unat block - unat target"
      using next_target [OF less.prems(1)] less.prems(1) by (simp add: word_less_nat_alt)
    from less.hyps [OF this True known] show ?thesis by (simp only: unfold)
  next
    case False
    then have "rebuild E block recoverer scope (sat_add target 1) (Some key) db' = db'"
      by (subst rebuild.simps) simp
    moreover have "target = block - 1" by (rule last_target [OF less.prems(1) False])
    moreover have "routed E (fe_block_hash E target) key branch db'"
      using route_routes [OF ideal, of g c] less.prems(2) by (simp add: db'_def key)
    ultimately show ?thesis using unfold by simp
  qed
qed

lemma rebuild_fresh:
  assumes ideal: "ideal_hash E" and "target < block"
  obtains g branch where "routed E (fe_block_hash E (block - 1)) (branch_key E g []) branch
      (rebuild E block recoverer scope target None db)"
proof -
  define parent where "parent = fe_block_hash E (sat_sub target 1)"
  define g where "g = fe_blake E (fe_enc_bytes E (fe_enc_hash E parent))"
  define branch where "branch = \<lparr>br_parent = get_branch_hash E (fe_block_hash E (sat_sub recoverer 1)) db,
      br_head = target, br_scope = scope, br_genesis = g, br_counter = []\<rparr>"
  define db' where "db' = store_encoded (branch_key E g []) (CBranch branch) db"
  have known: "get_branch (branch_key E g []) db' = Some branch" by (simp add: db'_def get_branch_def load_store)
  have "rebuild E block recoverer scope target None db = rebuild E block recoverer scope target (Some (branch_key E g [])) db'"
    using assms(2) by (subst (1 2) rebuild.simps)
      (simp add: Let_def parent_def [symmetric] g_def [symmetric] branch_def [symmetric] db'_def [symmetric])
  with rebuild_known [OF ideal refl assms(2) known] show thesis by (intro that) simp
qed

lemma find_recoverable_range:
  "find_recoverable E db n r = Some (branch, r') \<Longrightarrow> r' \<noteq> 0 \<and> r' \<le> r"
proof (induction n arbitrary: r)
  case (Suc n)
  have "sat_sub r 1 \<le> r" if "r \<noteq> 0"
    using that by (simp add: sat_sub_def word_le_nat_alt unat_sub_if' split: if_splits)
  with Suc show ?case by (fastforce split: if_splits option.splits)
qed simp

text \<open>A repair routes the parent of the block.\<close>

lemma repair_routes:
  assumes ideal: "ideal_hash E" and "block \<noteq> 0"
  obtains key branch where "routed E (fe_block_hash E (block - 1)) key branch (parent_branch_hash_unavailable E block db)"
proof (cases "find_recoverable E db (unat (fe_max_recover E)) (sat_sub block 2)")
  case None
  define g where "g = fe_blake E (fe_enc_bytes E (fe_enc_hash E (fe_block_hash E (sat_sub block 2))))"
  define branch where "branch = \<lparr>br_parent = None, br_head = block - 1, br_scope = depot_default, br_genesis = g, br_counter = []\<rparr>"
  define db' where "db' = store_encoded (branch_key E g []) (CBranch branch) db"
  have one: "sat_sub block 1 = block - 1" using assms(2) by (simp add: sat_sub_def word_le_nat_alt unat_eq_zero Suc_le_eq)
  have "get_branch (branch_key E g []) db' = Some branch" by (simp add: db'_def get_branch_def load_store)
  from route_routes [OF ideal this, of "fe_block_hash E (block - 1)" "fe_block_hash E (block - 1)"]
  show thesis using None
    by (intro that) (simp add: parent_branch_hash_unavailable_def synthetic_root_def Let_def one
      g_def [symmetric] branch_def [symmetric] db'_def [symmetric])
next
  case (Some found)
  obtain b r where found: "found = (b, r)" by force
  have r: "r \<noteq> 0" "r \<le> sat_sub block 2" using find_recoverable_range Some found by blast+
  moreover have "unat r \<noteq> 0" using r(1) by (simp add: unat_0_iff)
  ultimately have "unat r + 2 \<le> unat block"
    by (auto simp: sat_sub_def word_le_nat_alt unat_sub_if' split: if_splits)
  moreover from this have "unat (sat_add r 1) = Suc (unat r)"
    using unat_bound [of block] by (simp add: sat_add_def unat_word_ariths)
  ultimately have "sat_add r 1 < block" by (simp add: word_less_nat_alt)
  from rebuild_fresh [OF ideal this] show thesis
    using that Some found by (simp add: parent_branch_hash_unavailable_def) metis
qed

lemma repair_unavailable:
  assumes "ideal_hash E" "block \<noteq> 0"
  obtains key branch where "routed E (fe_block_hash E (block - 1)) key branch (parent_branch_unavailable E block db)"
proof -
  obtain db' where "parent_branch_unavailable E block db = parent_branch_hash_unavailable E block db'"
    by (cases "get_divider E (fe_block_hash E (sat_sub block 1)) db") (auto simp: parent_branch_unavailable_def)
  with repair_routes [OF assms] that show thesis by metis
qed

section \<open>A round\<close>

lemma new_sibling_returns: "\<exists>r db'. new_sibling E block h prev db = (r, db')"
  by simp

lemma sat_pred: "block \<noteq> 0 \<Longrightarrow> sat_sub block 1 = block - (1 :: u32)"
  by (simp add: sat_sub_def word_le_nat_alt unat_0_iff Suc_le_eq)

lemma routed_keeps_head:
  assumes "ideal_hash E" "routed E hash key branch db"
  shows "routed E hash key branch (store_encoded (head_key E) (CBlock b) db)"
  using assms(2) keys_apart [OF assms(1)]
  unfolding routed_def by (elim exE) (simp add: get_divider_def get_branch_def load_store, blast)

text \<open>The storage a round starts from, with a head.\<close>

definition with_head :: "('h, 'v) fork_env \<Rightarrow> u32 \<Rightarrow> 'v off_db \<Rightarrow> 'v off_db" where
  "with_head E block db =
     (case get_head E db of
        Some v \<Rightarrow> db
      | None \<Rightarrow> store_encoded (head_key E) (CBlock (sat_sub block 1)) db)"

definition head_of :: "('h, 'v) fork_env \<Rightarrow> u32 \<Rightarrow> 'v off_db \<Rightarrow> u32" where
  "head_of E block db = (case get_head E db of Some v \<Rightarrow> v | None \<Rightarrow> sat_sub block 1)"

lemma start_round_alt:
  "start_round E block db0 =
     (let parent = fe_block_hash E (sat_sub block 1); db = with_head E block db0 in
      case get_divider E parent db of
        None \<Rightarrow> (None, parent_branch_hash_unavailable E block db)
      | Some divider \<Rightarrow>
          (case get_branch_hash E parent db of
             None \<Rightarrow> (None, parent_branch_hash_unavailable E block db)
           | Some located \<Rightarrow>
               if block \<le> head_of E block db0 then
                 (case get_branch located db of
                    None \<Rightarrow> (None, parent_branch_unavailable E block db)
                  | Some prev_branch \<Rightarrow>
                      (case new_sibling E block located prev_branch db of
                         (Inl e, db') \<Rightarrow> (Some (Stopped e), db')
                       | (Inr _, db') \<Rightarrow> (Some RanOcw, db')))
               else extend_branch E block divider located db))"
  by (cases "get_head E db0")
    (simp_all only: start_round_def with_head_def head_of_def parent_divider_unavailable_def Let_def option.case prod.case)

lemma routed_with_head: "ideal_hash E \<Longrightarrow> routed E hash key branch db \<Longrightarrow> routed E hash key branch (with_head E block db)"
  by (auto simp: with_head_def routed_keeps_head split: option.splits)

text \<open>With the parent routed a round decides, without a repair.\<close>

lemma routed_round:
  assumes "ideal_hash E" "routed E (fe_block_hash E (sat_sub block 1)) key branch db"
  shows "\<exists>outcome db'. start_round E block db = (Some outcome, db')"
proof -
  note routed = routed_with_head [OF assms, of block]
  obtain d where d: "get_divider E (fe_block_hash E (sat_sub block 1)) (with_head E block db) = Some d"
    using routed_lookups(4) [OF routed] by blast
  note look = routed_lookups(1,2) [OF routed]
  have cell: "read_cell as_branch key (with_head E block db) = Inr (Some branch)"
    using look(2) by (auto simp: get_branch_def load_value_def split: sum.splits)
  show ?thesis
    by (simp add: start_round_alt d look cell extend_branch_def mutate_cell_def Let_def
        split: prod.splits sum.splits option.splits mutate_error.splits)
qed

lemma continued_extension:
  assumes "extend_branch E block divider located db = (None, db')"
  shows "db' = parent_branch_unavailable E block db"
  using assms
  by (auto simp: extend_branch_def mutate_cell_def inherited_branch_decode_error_def Let_def
      split: prod.splits sum.splits option.splits mutate_error.splits if_splits)

text \<open>A round that repairs leaves the parent routed.\<close>

lemma continued_round:
  assumes "ideal_hash E" "block \<noteq> 0" "start_round E block db = (None, db')"
  shows "\<exists>key branch. routed E (fe_block_hash E (sat_sub block 1)) key branch db'"
proof -
  have "db' = parent_branch_hash_unavailable E block (with_head E block db) \<or>
      db' = parent_branch_unavailable E block (with_head E block db)"
    using assms(3)
    by (auto simp: start_round_alt Let_def dest: continued_extension split: option.splits if_splits prod.splits sum.splits)
  then show ?thesis
    unfolding sat_pred [OF assms(2)]
    by (elim disjE) (metis repair_routes [OF assms(1,2)], metis repair_unavailable [OF assms(1,2)])
qed

lemma start_loop_ends:
  assumes "ideal_hash E" "block \<noteq> 0"
  shows "\<exists>outcome db'. start_loop E block db = Some (outcome, db')"
proof -
  obtain o1 db1 where one: "start_round E block db = (o1, db1)" by force
  show ?thesis
  proof (cases o1)
    case None
    with continued_round [OF assms] one obtain key branch where
      "routed E (fe_block_hash E (sat_sub block 1)) key branch db1" by blast
    from routed_round [OF assms(1) this] obtain outcome db2 where "start_round E block db1 = (Some outcome, db2)" by blast
    then show ?thesis using one None by (subst start_loop.simps, simp, subst start_loop.simps) simp
  next
    case (Some outcome)
    then show ?thesis using one by (subst start_loop.simps) simp
  qed
qed

lemma start_ends:
  assumes "ideal_hash E"
  shows "\<exists>outcome db'. start E db = Some (outcome, db')"
proof (cases "sat_sub (fe_number E) 1 = sat_sub (fe_number E) 2")
  case False
  have "sat_sub (fe_number E) 1 \<noteq> 0"
  proof
    assume "sat_sub (fe_number E) 1 = 0"
    then have "unat (fe_number E) \<le> 1" by (auto simp: sat_sub_def word_le_nat_alt unat_0_iff [symmetric] unat_sub_if' split: if_splits)
    then have "sat_sub (fe_number E) 2 = 0" by (auto simp: sat_sub_def word_le_nat_alt split: if_splits)
    with \<open>sat_sub (fe_number E) 1 = 0\<close> False show False by simp
  qed
  from start_loop_ends [OF assms this] show ?thesis using False by (simp add: start_def Let_def)
qed (simp add: start_def)

section \<open>Well-formed graphs\<close>

text \<open>Every kind of key holds its kind of value, and dividers lead to the branch in their key.\<close>

definition graph_wf :: "('h, 'v) fork_env \<Rightarrow> 'v off_db \<Rightarrow> bool" where
  "graph_wf E db \<longleftrightarrow>
     (\<forall>h c. db (block_key E h) = Some c \<longrightarrow> (\<exists>p k. c = CKey (divider_key E p k))) \<and>
     (\<forall>p k c. db (divider_key E p k) = Some c \<longrightarrow> c = CKey k \<and> (\<exists>g n. k = branch_key E g n)) \<and>
     (\<forall>g n c. db (branch_key E g n) = Some c \<longrightarrow> (\<exists>br. c = CBranch br)) \<and>
     (\<forall>c. db (head_key E) = Some c \<longrightarrow> (\<exists>b. c = CBlock b))"

lemma graph_wf_empty: "graph_wf E Map.empty"
  by (simp add: graph_wf_def)

lemma graph_wf_head:
  assumes "ideal_hash E" "graph_wf E db"
  shows "graph_wf E (store_encoded (head_key E) (CBlock b) db)"
  using assms(2) keys_apart [OF assms(1)] by (auto simp: graph_wf_def store_encoded_def)

lemma graph_wf_branch:
  assumes "ideal_hash E" "graph_wf E db"
  shows "graph_wf E (store_encoded (branch_key E g n) (CBranch br) db)"
  using assms(2) keys_apart [OF assms(1)] unfolding graph_wf_def store_encoded_def
  by (auto split: if_splits)

lemma graph_wf_divider:
  assumes "ideal_hash E" "graph_wf E db"
  shows "graph_wf E (store_encoded (divider_key E p (branch_key E g n)) (CKey (branch_key E g n)) db)"
  using assms(2) keys_apart [OF assms(1)] unfolding graph_wf_def store_encoded_def
  by (auto split: if_splits dest!: divider_key_branch [OF assms(1)])

lemma graph_wf_block:
  assumes "ideal_hash E" "graph_wf E db"
  shows "graph_wf E (store_encoded (block_key E h) (CKey (divider_key E p k)) db)"
  using assms(2) keys_apart [OF assms(1)] unfolding graph_wf_def store_encoded_def
  by (auto split: if_splits)

lemma graph_wf_route:
  "ideal_hash E \<Longrightarrow> graph_wf E db \<Longrightarrow> graph_wf E (route E parent current (branch_key E g n) db)"
  by (simp add: route_def Let_def graph_wf_block graph_wf_divider)

lemma graph_wf_clear: "graph_wf E db \<Longrightarrow> graph_wf E (clear_cell k db)"
  unfolding graph_wf_def clear_cell_def by (auto split: if_splits)

lemma graph_wf_with_head: "ideal_hash E \<Longrightarrow> graph_wf E db \<Longrightarrow> graph_wf E (with_head E block db)"
  by (simp add: with_head_def graph_wf_head split: option.splits)

lemma graph_wf_rebuild:
  assumes "ideal_hash E"
  shows "graph_wf E db \<Longrightarrow> (\<forall>h. key = Some h \<longrightarrow> (\<exists>g n. h = branch_key E g n)) \<Longrightarrow>
    graph_wf E (rebuild E block recoverer scope target key db)"
proof (induction "unat block - unat target" arbitrary: target key db rule: less_induct)
  case less
  show ?case
  proof (cases "target < block")
    case True
    have smaller: "unat block - unat (sat_add target 1) < unat block - unat target"
      using next_target [OF True] True by (simp add: word_less_nat_alt)
    note IH = less.hyps [OF smaller]
    show ?thesis
      using less.prems
      by (cases key; subst rebuild.simps)
        (auto simp: True Let_def intro!: IH graph_wf_route [OF assms] graph_wf_branch [OF assms])
  qed (use less.prems in \<open>subst rebuild.simps, simp\<close>)
qed

lemma graph_wf_repair:
  "ideal_hash E \<Longrightarrow> graph_wf E db \<Longrightarrow> graph_wf E (parent_branch_hash_unavailable E block db)"
  by (auto simp: parent_branch_hash_unavailable_def synthetic_root_def Let_def
      intro: graph_wf_rebuild graph_wf_route graph_wf_branch split: option.splits)

lemma graph_wf_unavailable:
  "ideal_hash E \<Longrightarrow> graph_wf E db \<Longrightarrow> graph_wf E (parent_branch_unavailable E block db)"
  by (auto simp: parent_branch_unavailable_def Let_def intro: graph_wf_repair graph_wf_clear split: option.splits)

lemma graph_wf_sibling:
  assumes "ideal_hash E" "graph_wf E db" "new_sibling E block h prev db = (r, db')"
  shows "graph_wf E db'"
  using assms by (auto simp: new_sibling_def Let_def intro: graph_wf_route graph_wf_branch split: option.splits)

lemma graph_wf_conflict:
  assumes "ideal_hash E" "graph_wf E db" "inherited_branch_mutation_conflict E block db = (r, db')"
  shows "graph_wf E db'"
  using assms
  by (auto simp: inherited_branch_mutation_conflict_def Let_def
      intro: graph_wf_repair graph_wf_unavailable graph_wf_sibling graph_wf_head
      split: option.splits prod.splits sum.splits)

text \<open>The lookups of a well-formed graph.\<close>

lemma wf_get_divider:
  assumes "graph_wf E db" "get_divider E h db = Some d"
  shows "\<exists>p k. d = divider_key E p k"
  using assms by (fastforce simp: graph_wf_def get_divider_def load_value_def read_cell_def split: option.splits)

lemma wf_divider:
  assumes "graph_wf E db" "load_value as_key (divider_key E p k) db = Some key"
  shows "key = k \<and> (\<exists>g n. k = branch_key E g n)"
  using assms by (fastforce simp: graph_wf_def load_value_def read_cell_def split: option.splits)

lemma wf_branch_hash:
  assumes "graph_wf E db" "get_branch_hash E h db = Some key"
  obtains p g n where "key = branch_key E g n" "get_divider E h db = Some (divider_key E p key)"
    "load_value as_key (divider_key E p key) db = Some key"
proof -
  obtain d where d: "get_divider E h db = Some d" "load_value as_key d db = Some key"
    using assms(2) by (auto simp: get_branch_hash_def bind_eq_Some_conv)
  obtain p k where "d = divider_key E p k" using wf_get_divider [OF assms(1) d(1)] by blast
  with wf_divider [OF assms(1)] d that show thesis by blast
qed

lemma wf_routed:
  assumes "graph_wf E db" "get_branch_hash E h db = Some key" "get_branch key db = Some br"
  shows "routed E h key br db"
proof -
  obtain p g n where "key = branch_key E g n" "get_divider E h db = Some (divider_key E p key)"
    "load_value as_key (divider_key E p key) db = Some key" by (rule wf_branch_hash [OF assms(1,2)])
  with assms(3) show ?thesis by (auto simp: routed_def)
qed

lemma wf_read_branch:
  assumes "graph_wf E db"
  shows "read_cell as_branch (branch_key E g n) db \<noteq> Inl ()"
  using assms by (fastforce simp: graph_wf_def read_cell_def split: option.splits)

section \<open>Registration\<close>

definition no_race :: "('h, 'v) fork_env \<Rightarrow> bool" where
  "no_race E \<longleftrightarrow> (\<forall>k. fe_race E k = None)"

definition visible :: "branch \<Rightarrow> bytes set" where
  "visible br = fd_inherited_keys (br_scope br) \<union> fd_local_keys (br_scope br)"

text \<open>Without a concurrent writer an extension moves the head of the branch to the block and routes
  the block to it.\<close>

lemma extend_exact:
  assumes "graph_wf E db" "ideal_hash E" "no_race E"
    and "get_divider E (fe_block_hash E (sat_sub block 1)) db = Some (divider_key E p key)"
    and "load_value as_key (divider_key E p key) db = Some key" "key = branch_key E g n" "get_branch key db = Some br"
    and "extend_branch E block (divider_key E p key) key db = (Some outcome, db')"
  shows "outcome = RanOcw \<and> routed E (fe_block_hash E block) key (br\<lparr>br_head := block\<rparr>) db' \<and> graph_wf E db'"
proof -
  define db1 where "db1 = store_encoded key (CBranch (br\<lparr>br_head := block\<rparr>)) db"
  have "read_cell as_branch key db = Inr (Some br)"
    using assms(7) by (auto simp: get_branch_def load_value_def split: sum.splits)
  then have result: "outcome = RanOcw" "db' = store_encoded (head_key E) (CBlock block)
      (store_encoded (block_key E (fe_block_hash E block)) (CKey (divider_key E p key)) db1)"
    using assms(3,8)
    by (simp_all add: extend_branch_def mutate_cell_def no_race_def db1_def store_encoded_def)
  have wf: "graph_wf E db'"
    unfolding result(2) db1_def assms(6)
    by (intro graph_wf_head graph_wf_block graph_wf_branch assms)
  have "routed E (fe_block_hash E block) key (br\<lparr>br_head := block\<rparr>)
      (store_encoded (block_key E (fe_block_hash E block)) (CKey (divider_key E p key)) db1)"
    using assms(5,6) keys_apart [OF assms(2)]
    by (auto simp: routed_def get_divider_def get_branch_def load_store db1_def)
  from routed_keeps_head [OF assms(2) this] wf show ?thesis by (simp add: result)
qed

lemma free_counter_free:
  "free_counter E db g c n i = Some k \<Longrightarrow> load_value as_branch (branch_key E g (c @ [k])) db = None"
  by (induction n arbitrary: i) (auto split: if_splits)

lemma sibling_exact:
  assumes "ideal_hash E" "new_sibling E block key prev db = (Inr (), db')"
  obtains i where "routed E (fe_block_hash E block) (branch_key E (br_genesis prev) (br_counter prev @ [i]))
      \<lparr>br_parent = Some key, br_head = block, br_scope = accrete (br_scope prev),
       br_genesis = br_genesis prev, br_counter = br_counter prev @ [i]\<rparr> db'"
    "get_branch (branch_key E (br_genesis prev) (br_counter prev @ [i])) db = None"
proof -
  obtain i where i: "free_counter E db (br_genesis prev) (br_counter prev) (unat (fe_max_forks E) + 1) 0 = Some i"
    using assms(2) by (auto simp: new_sibling_def Let_def split: option.splits)
  let ?key = "branch_key E (br_genesis prev) (br_counter prev @ [i])"
  let ?new = "\<lparr>br_parent = Some key, br_head = block, br_scope = accrete (br_scope prev),
       br_genesis = br_genesis prev, br_counter = br_counter prev @ [i]\<rparr>"
  have "db' = route E (fe_block_hash E (sat_sub block 1)) (fe_block_hash E block) ?key (store_encoded ?key (CBranch ?new) db)"
    using assms(2) i by (simp add: new_sibling_def Let_def)
  moreover have "get_branch ?key (store_encoded ?key (CBranch ?new) db) = Some ?new"
    by (simp add: get_branch_def load_store)
  ultimately have "routed E (fe_block_hash E block) ?key ?new db'" using route_routes [OF assms(1)] by simp
  moreover have "get_branch ?key db = None" using free_counter_free [OF i] by (simp add: get_branch_def)
  ultimately show thesis by (rule that)
qed

text \<open>A round that ends with the worker has registered the block on a branch that sees what the
  branch of the parent saw.\<close>

lemma round_registers:
  assumes ideal: "ideal_hash E" and wf: "graph_wf E db" and race: "no_race E"
    and "start_round E block db = (Some RanOcw, db')"
  obtains pb br where "get_block_branch E (fe_block_hash E (sat_sub block 1)) db = Some pb"
    "get_block_branch E (fe_block_hash E block) db' = Some br" "br_head br = block" "visible br = visible pb"
    "graph_wf E db'"
proof -
  define db1 where "db1 = with_head E block db"
  let ?parent = "fe_block_hash E (sat_sub block 1)"
  have wf1: "graph_wf E db1" by (simp add: db1_def graph_wf_with_head ideal wf)
  have same: "get_branch k db1 = get_branch k db" if "k \<noteq> head_key E" for k
    using that by (simp add: db1_def with_head_def get_branch_def load_store split: option.splits)
  have key_same: "load_value as_key k db1 = load_value as_key k db" if "k \<noteq> head_key E" for k
    using that by (simp add: db1_def with_head_def load_store split: option.splits)
  obtain key where key: "get_branch_hash E ?parent db1 = Some key"
    using assms(4) by (auto simp: start_round_alt db1_def [symmetric] Let_def split: option.splits)
  obtain p g n where parts: "key = branch_key E g n" "get_divider E ?parent db1 = Some (divider_key E p key)"
    "load_value as_key (divider_key E p key) db1 = Some key" by (rule wf_branch_hash [OF wf1 key])
  have round: "(if block \<le> head_of E block db then
       (case get_branch key db1 of None \<Rightarrow> (None, parent_branch_unavailable E block db1)
        | Some prev \<Rightarrow> (case new_sibling E block key prev db1 of
            (Inl e, db') \<Rightarrow> (Some (Stopped e), db') | (Inr _, db') \<Rightarrow> (Some RanOcw, db')))
     else extend_branch E block (divider_key E p key) key db1) = (Some RanOcw, db')"
    using assms(4) key parts(2) by (simp add: start_round_alt db1_def [symmetric] Let_def)
  obtain pb where pb: "get_branch key db1 = Some pb"
  proof (cases "get_branch key db1")
    case None
    then have "read_cell as_branch key db1 = Inr None"
      using wf_read_branch [OF wf1] parts(1) by (auto simp: get_branch_def load_value_def split: sum.splits)
    then show ?thesis using round None by (auto simp: extend_branch_def mutate_cell_def split: if_splits)
  qed simp
  have "get_branch_hash E ?parent db = Some key"
    using key key_same keys_apart [OF ideal] parts by (simp add: get_branch_hash_def get_divider_def)
  then have "get_block_branch E ?parent db = Some pb"
    using pb same [of key] keys_apart [OF ideal] parts(1) by (simp add: get_block_branch_def)
  moreover have "\<exists>br. get_block_branch E (fe_block_hash E block) db' = Some br \<and> br_head br = block \<and>
      visible br = visible pb \<and> graph_wf E db'"
  proof (cases "block \<le> head_of E block db")
    case True
    then have sib: "new_sibling E block key pb db1 = (Inr (), db')" using round pb by (auto split: prod.splits sum.splits)
    obtain i where "routed E (fe_block_hash E block) (branch_key E (br_genesis pb) (br_counter pb @ [i]))
      \<lparr>br_parent = Some key, br_head = block, br_scope = accrete (br_scope pb),
       br_genesis = br_genesis pb, br_counter = br_counter pb @ [i]\<rparr> db'" by (rule sibling_exact [OF ideal sib])
    from routed_lookups(3) [OF this] graph_wf_sibling [OF ideal wf1 sib]
    show ?thesis by (simp add: visible_def accrete_def Let_def)
  next
    case False
    with round have "extend_branch E block (divider_key E p key) key db1 = (Some RanOcw, db')" by simp
    from extend_exact [OF wf1 ideal race parts(2,3,1) pb this]
    show ?thesis using routed_lookups(3) by (fastforce simp: visible_def)
  qed
  ultimately show thesis using that by blast
qed

lemma continued_db:
  assumes "start_round E block db = (None, db')"
  shows "db' = parent_branch_hash_unavailable E block (with_head E block db) \<or>
    db' = parent_branch_unavailable E block (with_head E block db)"
  using assms
  by (auto simp: start_round_alt Let_def dest: continued_extension split: option.splits if_splits prod.splits sum.splits)

lemma graph_wf_continued:
  assumes "ideal_hash E" "graph_wf E db" "start_round E block db = (None, db')"
  shows "graph_wf E db'"
  using continued_db [OF assms(3)] graph_wf_repair graph_wf_unavailable graph_wf_with_head assms(1,2) by blast

lemma start_block: "start E db = Some (outcome, db') \<Longrightarrow> outcome \<noteq> Skipped \<Longrightarrow>
    sat_sub (fe_number E) 1 \<noteq> 0 \<and> start_loop E (sat_sub (fe_number E) 1) db = Some (outcome, db')"
proof -
  assume a: "start E db = Some (outcome, db')" "outcome \<noteq> Skipped"
  then have ne: "sat_sub (fe_number E) 1 \<noteq> sat_sub (fe_number E) 2"
    and loop: "start_loop E (sat_sub (fe_number E) 1) db = Some (outcome, db')"
    by (auto simp: start_def Let_def split: if_splits)
  have "sat_sub (fe_number E) 1 \<noteq> 0"
  proof
    assume zero: "sat_sub (fe_number E) 1 = 0"
    then have "unat (fe_number E) \<le> 1"
      by (auto simp: sat_sub_def word_le_nat_alt unat_0_iff [symmetric] unat_sub_if' split: if_splits)
    then have "sat_sub (fe_number E) 2 = 0" by (auto simp: sat_sub_def word_le_nat_alt split: if_splits)
    with zero ne show False by simp
  qed
  with loop show ?thesis by simp
qed

lemma loop_registers:
  assumes ideal: "ideal_hash E" and wf: "graph_wf E db" and race: "no_race E" and block: "block \<noteq> 0"
    and loop: "start_loop E block db = Some (RanOcw, db')"
  shows "\<exists>br. get_block_branch E (fe_block_hash E block) db' = Some br \<and> br_head br = block \<and> graph_wf E db' \<and>
    (\<forall>pb. get_block_branch E (fe_block_hash E (sat_sub block 1)) db = Some pb \<longrightarrow> visible br = visible pb)"
proof -
  obtain o1 db1 where one: "start_round E block db = (o1, db1)" by force
  show ?thesis
  proof (cases o1)
    case (Some outcome)
    then have "start_round E block db = (Some RanOcw, db')"
      using one loop by (subst (asm) start_loop.simps) simp
    from round_registers [OF ideal wf race this] show ?thesis by (metis option.inject)
  next
    case None
    then have rest: "start_loop E block db1 = Some (RanOcw, db')" using one loop by (subst (asm) start_loop.simps) simp
    note wf1 = graph_wf_continued [OF ideal wf one [unfolded None]]
    obtain key branch where "routed E (fe_block_hash E (sat_sub block 1)) key branch db1"
      using continued_round [OF ideal block one [unfolded None]] by blast
    from routed_round [OF ideal this] obtain o2 db2 where two: "start_round E block db1 = (Some o2, db2)" by blast
    then have "start_round E block db1 = (Some RanOcw, db')" using rest by (subst (asm) start_loop.simps) simp
    moreover have "get_block_branch E (fe_block_hash E (sat_sub block 1)) db \<noteq> Some pb" for pb
    proof
      assume "get_block_branch E (fe_block_hash E (sat_sub block 1)) db = Some pb"
      then obtain k where "get_branch_hash E (fe_block_hash E (sat_sub block 1)) db = Some k" "get_branch k db = Some pb"
        by (auto simp: get_block_branch_def bind_eq_Some_conv)
      from routed_round [OF ideal wf_routed [OF wf this]] one None show False by simp
    qed
    ultimately show ?thesis using round_registers [OF ideal wf1 race] by metis
  qed
qed

section \<open>Reachable graphs\<close>

text \<open>A concurrent writer of a branch writes a branch or removes it.\<close>

definition branch_race :: "('h, 'v) fork_env \<Rightarrow> bool" where
  "branch_race E \<longleftrightarrow> (\<forall>k c. fe_race E k = Some (Some c) \<longrightarrow> (\<exists>b. c = CBranch b))"

definition same_keys :: "('h, 'v) fork_env \<Rightarrow> ('h, 'v) fork_env \<Rightarrow> bool" where
  "same_keys E E' \<longleftrightarrow> fe_blake E' = fe_blake E \<and> fe_enc_bytes E' = fe_enc_bytes E \<and> fe_enc_hash E' = fe_enc_hash E \<and>
     fe_enc_u32 E' = fe_enc_u32 E \<and> fe_tag E' = fe_tag E"

definition graph_key :: "('h, 'v) fork_env \<Rightarrow> bytes \<Rightarrow> bool" where
  "graph_key E k \<longleftrightarrow> (\<exists>h. k = block_key E h) \<or> (\<exists>h b. k = divider_key E h b) \<or> (\<exists>g c. k = branch_key E g c) \<or> k = head_key E"

lemma same_keys_fun:
  assumes "same_keys E E'"
  shows "block_key E' = block_key E" "divider_key E' = divider_key E" "branch_key E' = branch_key E" "head_key E' = head_key E"
    "ideal_hash E' = ideal_hash E" "graph_wf E' = graph_wf E"
proof -
  have eqs: "fe_blake E' = fe_blake E" "fe_enc_bytes E' = fe_enc_bytes E" "fe_enc_hash E' = fe_enc_hash E"
    "fe_enc_u32 E' = fe_enc_u32 E" "fe_tag E' = fe_tag E" using assms by (simp_all add: same_keys_def)
  have hash: "make_hash E' = make_hash E" by (intro ext) (simp only: make_hash_def eqs)
  show keys: "block_key E' = block_key E" "divider_key E' = divider_key E" "branch_key E' = branch_key E" "head_key E' = head_key E"
    by (intro ext, simp only: block_key_def divider_key_def branch_key_def head_key_def eqs hash)+
      (simp only: head_key_def eqs)
  show "ideal_hash E' = ideal_hash E" by (simp only: ideal_hash_def eqs keys)
  show "graph_wf E' = graph_wf E" by (intro ext) (simp only: graph_wf_def keys)
qed

lemma graph_wf_extend:
  assumes ideal: "ideal_hash E" and wf: "graph_wf E db" and race: "branch_race E"
    and key: "key = branch_key E g n" "extend_branch E block (divider_key E p k) key db = (r, db')"
  shows "graph_wf E db'"
proof -
  have raced: "graph_wf E (db(key := c))" if "fe_race E key = Some c" for c
  proof (cases c)
    case None
    then show ?thesis using graph_wf_clear [OF wf] by (simp add: clear_cell_def)
  next
    case (Some x)
    then have "fe_race E key = Some (Some x)" using that by simp
    then obtain b where "x = CBranch b" using race unfolding branch_race_def by blast
    then show ?thesis using graph_wf_branch [OF ideal wf] key(1) Some by (simp add: store_encoded_def)
  qed
  have own: "graph_wf E (store_encoded (head_key E) (CBlock b) (store_encoded (block_key E h) (CKey (divider_key E p k))
      (d(key \<mapsto> CBranch br))))" if "graph_wf E d" for b h d br
    using graph_wf_head [OF ideal graph_wf_block [OF ideal graph_wf_branch [OF ideal that]]]
    by (simp add: key(1) store_encoded_def)
  show ?thesis using key(2)
    by (auto simp: extend_branch_def mutate_cell_def inherited_branch_decode_error_def Let_def
        intro: own raced wf graph_wf_unavailable [OF ideal] graph_wf_conflict [OF ideal]
        split: prod.splits sum.splits option.splits mutate_error.splits if_splits)
qed

lemma graph_wf_round:
  assumes ideal: "ideal_hash E" and wf: "graph_wf E db" and race: "branch_race E"
    and round: "start_round E block db = (r, db')"
  shows "graph_wf E db'"
proof -
  define db1 where "db1 = with_head E block db"
  have wf1: "graph_wf E db1" by (simp add: db1_def graph_wf_with_head ideal wf)
  have ext: "graph_wf E d" if "get_branch_hash E h db1 = Some key" "get_divider E h db1 = Some x"
    "extend_branch E block x key db1 = (r', d)" for h key x r' d
  proof -
    note found = that
    obtain p g n where parts: "key = branch_key E g n" "get_divider E h db1 = Some (divider_key E p key)"
      "load_value as_key (divider_key E p key) db1 = Some key" by (rule wf_branch_hash [OF wf1 found(1)])
    have "x = divider_key E p key" using found(2) parts(2) by simp
    with graph_wf_extend [OF ideal wf1 race parts(1)] found(3) show ?thesis by blast
  qed
  show ?thesis using round
    by (auto simp: start_round_alt db1_def [symmetric] Let_def
        intro: ext graph_wf_repair [OF ideal wf1] graph_wf_unavailable [OF ideal wf1] graph_wf_sibling [OF ideal wf1]
        split: option.splits prod.splits sum.splits if_splits)
qed

lemma graph_wf_loop:
  assumes ideal: "ideal_hash E" and race: "branch_race E" and block: "block \<noteq> 0"
    and wf: "graph_wf E db" and loop: "start_loop E block db = Some (outcome, db')"
  shows "graph_wf E db'"
proof -
  obtain o1 db1 where one: "start_round E block db = (o1, db1)" by force
  note wf1 = graph_wf_round [OF ideal wf race one]
  show ?thesis
  proof (cases o1)
    case (Some o)
    with loop one wf1 show ?thesis by (subst (asm) start_loop.simps) simp
  next
    case None
    then have rest: "start_loop E block db1 = Some (outcome, db')" using one loop by (subst (asm) start_loop.simps) simp
    obtain key branch where "routed E (fe_block_hash E (sat_sub block 1)) key branch db1"
      using continued_round [OF ideal block one [unfolded None]] by blast
    from routed_round [OF ideal this] obtain o2 db2 where two: "start_round E block db1 = (Some o2, db2)" by blast
    then show ?thesis using graph_wf_round [OF ideal wf1 race two] rest by (subst (asm) start_loop.simps) simp
  qed
qed

lemma graph_wf_start:
  assumes "ideal_hash E" "branch_race E" "graph_wf E db" "start E db = Some (outcome, db')"
  shows "graph_wf E db'"
proof (cases "outcome = Skipped \<and> db' = db")
  case False
  then have "sat_sub (fe_number E) 1 \<noteq> sat_sub (fe_number E) 2" using assms(4) by (auto simp: start_def Let_def)
  then have loop: "start_loop E (sat_sub (fe_number E) 1) db = Some (outcome, db')"
    using assms(4) by (simp add: start_def Let_def)
  have "sat_sub (fe_number E) 1 \<noteq> 0"
  proof
    assume zero: "sat_sub (fe_number E) 1 = 0"
    then have "unat (fe_number E) \<le> 1"
      by (auto simp: sat_sub_def word_le_nat_alt unat_0_iff [symmetric] unat_sub_if' split: if_splits)
    then have "sat_sub (fe_number E) 2 = 0" by (auto simp: sat_sub_def word_le_nat_alt split: if_splits)
    with zero \<open>sat_sub (fe_number E) 1 \<noteq> sat_sub (fe_number E) 2\<close> show False by simp
  qed
  from graph_wf_loop [OF assms(1,2) this assms(3) loop] show ?thesis .
qed (use assms(3) in simp)

lemma graph_wf_scope:
  assumes "ideal_hash E" "graph_wf E db"
  shows "add_to_scope E item db = (r, db') \<Longrightarrow> graph_wf E db'"
    and "remove_from_scope E item db = (r', db') \<Longrightarrow> graph_wf E db'"
  using graph_wf_branch [OF assms] assms(2)
  by (auto simp: add_to_scope_def remove_from_scope_def Let_def
      elim!: wf_branch_hash [OF assms(2)] split: option.splits prod.splits if_splits)

inductive fork_reachable :: "('h, 'v) fork_env \<Rightarrow> 'v off_db \<Rightarrow> bool" for E where
  empty: "fork_reachable E Map.empty"
| start: "fork_reachable E db \<Longrightarrow> same_keys E E' \<Longrightarrow> branch_race E' \<Longrightarrow> start E' db = Some (outcome, db') \<Longrightarrow>
    fork_reachable E db'"
| add: "fork_reachable E db \<Longrightarrow> same_keys E E' \<Longrightarrow> add_to_scope E' item db = (r, db') \<Longrightarrow> fork_reachable E db'"
| remove: "fork_reachable E db \<Longrightarrow> same_keys E E' \<Longrightarrow> remove_from_scope E' key db = (r', db') \<Longrightarrow> fork_reachable E db'"
| stored: "fork_reachable E db \<Longrightarrow> \<not> graph_key E key \<Longrightarrow> fork_reachable E (db(key := c))"
| lost: "fork_reachable E db \<Longrightarrow> fork_reachable E (db(key := None))"

lemma reachable_wf:
  assumes "ideal_hash E"
  shows "fork_reachable E db \<Longrightarrow> graph_wf E db"
proof (induction rule: fork_reachable.induct)
  case (start db E' outcome db')
  note same = same_keys_fun [OF start.hyps(2)]
  from graph_wf_start [of E' db outcome db'] start assms show ?case by (simp add: same)
next
  case (add db E' item r db')
  note same = same_keys_fun [OF add.hyps(2)]
  from graph_wf_scope(1) [of E' db item r db'] add assms show ?case by (simp add: same)
next
  case (remove db E' key r' db')
  note same = same_keys_fun [OF remove.hyps(2)]
  from graph_wf_scope(2) [of E' db key r' db'] remove assms show ?case by (simp add: same)
next
  case (stored db key c)
  then show ?case by (auto simp: graph_wf_def graph_key_def)
next
  case (lost db key)
  from graph_wf_clear [OF lost.IH, of key] show ?case by (simp only: clear_cell_def)
qed (rule graph_wf_empty)

section \<open>Sibling limit\<close>

lemma free_counter_none:
  "free_counter E db g c n i = None \<longleftrightarrow> (\<forall>j<n. load_value as_branch (branch_key E g (c @ [i + of_nat j])) db \<noteq> None)"
proof (induction n arbitrary: i)
  case (Suc n)
  show ?case
    by (auto simp: Suc.IH All_less_Suc2 add.assoc add.commute [of "of_nat _"])
qed simp

lemma indexes_up_to: "(\<forall>j<Suc (unat m). P (of_nat j)) \<longleftrightarrow> (\<forall>i\<le>m. P (i :: u32))"
proof
  assume "\<forall>j<Suc (unat m). P (of_nat j)"
  then have "P (of_nat (unat i))" if "i \<le> m" for i
    using that by (simp only: word_le_nat_alt less_Suc_eq_le)
  then show "\<forall>i\<le>m. P i" by simp
next
  assume a: "\<forall>i\<le>m. P i"
  have "of_nat j \<le> m" if "j < Suc (unat m)" for j
  proof -
    have "j < 2 ^ 32" using that unat_bound [of m] by simp
    then have "unat (of_nat j :: u32) = j" by (simp add: unat_of_nat)
    then show ?thesis using that by (simp add: word_le_nat_alt)
  qed
  with a show "\<forall>j<Suc (unat m). P (of_nat j)" by simp
qed

lemma sibling_limit_iff:
  "new_sibling E block h prev db = (Inl e, db') \<longleftrightarrow> e = MaxForksError \<and> db' = db \<and>
     (\<forall>i\<le>fe_max_forks E. get_branch (branch_key E (br_genesis prev) (br_counter prev @ [i])) db \<noteq> None)"
proof -
  have none: "free_counter E db (br_genesis prev) (br_counter prev) (Suc (unat (fe_max_forks E))) 0 = None \<longleftrightarrow>
      (\<forall>i\<le>fe_max_forks E. get_branch (branch_key E (br_genesis prev) (br_counter prev @ [i])) db \<noteq> None)"
    using free_counter_none [of E db _ _ "Suc (unat (fe_max_forks E))" 0]
      indexes_up_to [of "fe_max_forks E" "\<lambda>i. get_branch (branch_key E (br_genesis prev) (br_counter prev @ [i])) db \<noteq> None"]
    by (simp add: get_branch_def del: free_counter.simps)
  show ?thesis unfolding none [symmetric]
    by (auto simp: new_sibling_def Let_def simp del: free_counter.simps split: option.splits)
qed

section \<open>A sample environment\<close>

text \<open>An injective hash and a prefix-free codec, with eight-bit block hashes.\<close>

definition sample_env :: "u32 \<Rightarrow> (8 word, nat) fork_env" where
  "sample_env n =
     \<lparr>fe_blake = (\<lambda>x. 0 # x), fe_enc_bytes = (\<lambda>xs. concat (map (\<lambda>b. [1, b]) xs) @ [0]), fe_enc_hash = (\<lambda>h. [h]),
      fe_enc_u32 = (\<lambda>i. [ucast i]), fe_enc_value = (\<lambda>v. [of_nat v]), fe_tag = [1], fe_max_forks = 1,
      fe_max_recover = 3, fe_block_hash = ucast, fe_number = n, fe_now = 0, fe_finality_after = 10,
      fe_finality_ticks = 2, fe_race = (\<lambda>_. None)\<rparr>"

lemma sample_prefix_free: "prefix_free (\<lambda>xs. concat (map (\<lambda>b. [1, b]) xs) @ [0 :: 8 word])"
  unfolding prefix_free_def
proof (intro allI impI)
  fix xs ys s t :: bytes
  show "(concat (map (\<lambda>b. [1, b]) xs) @ [0]) @ s = (concat (map (\<lambda>b. [1, b]) ys) @ [0]) @ t \<Longrightarrow> xs = ys"
  proof (induction xs arbitrary: ys)
    case Nil
    then show ?case by (cases ys) auto
  next
    case (Cons x xs)
    then show ?case by (cases ys) auto
  qed
qed

lemma sample_ideal: "ideal_hash (sample_env n)"
  using sample_prefix_free by (auto simp: ideal_hash_def sample_env_def head_key_def head_block_def intro: injI)

lemma sample_no_race: "no_race (sample_env n)"
  by (simp add: no_race_def sample_env_def)

lemma sample_branch_race: "branch_race (sample_env n)"
  by (simp add: branch_race_def sample_env_def)

lemma sample_same: "same_keys (sample_env n) (sample_env m)"
  by (simp add: same_keys_def sample_env_def)

section \<open>Properties\<close>

text \<open>C35: With a hash that does not collide, registering a block ends whatever the storage holds: one
  repair makes the next round decide.\<close>
theorem start_returns:
  assumes "ideal_hash E"
  shows "\<exists>outcome db'. start E db = Some (outcome, db')"
  by (rule start_ends [OF assms])

theorem start_returns_witness: "\<exists>outcome db'. start (sample_env 5) (\<lambda>_. Some (CRaw [])) = Some (outcome, db')"
  by (rule start_returns [OF sample_ideal])

text \<open>C36: In every graph the registrations, scope changes, other writes and losses can reach, each kind of
  key holds its kind of value and every divider leads to the branch it was made for.\<close>
theorem fork_graph_invariant:
  assumes "ideal_hash E" and "fork_reachable E db"
  shows "graph_wf E db"
  by (rule reachable_wf [OF assms])

theorem fork_graph_invariant_witness: "graph_wf (sample_env 0) (snd (the (start (sample_env 2) Map.empty)))"
proof -
  obtain outcome db' where "start (sample_env 2) Map.empty = Some (outcome, db')"
    using start_ends [OF sample_ideal] by blast
  moreover from this have "fork_reachable (sample_env 0) db'"
    by (rule fork_reachable.start [OF fork_reachable.empty sample_same sample_branch_race])
  ultimately show ?thesis using fork_graph_invariant [OF sample_ideal] by simp
qed

text \<open>C37: When the worker runs and nobody wrote concurrently, the previous block resolves to a branch that
  has it as head and in which exactly the keys of its parent's branch are visible.\<close>
theorem start_registers:
  assumes "ideal_hash E" "fork_reachable E db" "no_race E" "start E db = Some (RanOcw, db')"
  shows "\<exists>br. get_prev_block_branch E db' = Some br \<and> br_head br = sat_sub (fe_number E) 1 \<and>
    (\<forall>pb. get_block_branch E (fe_block_hash E (sat_sub (sat_sub (fe_number E) 1) 1)) db = Some pb \<longrightarrow> visible br = visible pb)"
proof -
  have "sat_sub (fe_number E) 1 \<noteq> 0" "start_loop E (sat_sub (fe_number E) 1) db = Some (RanOcw, db')"
    using start_block [OF assms(4)] by simp_all
  from loop_registers [OF assms(1) reachable_wf [OF assms(1,2)] assms(3) this] show ?thesis
    by (auto simp: get_prev_block_branch_def)
qed

theorem start_registers_witness:
  "\<exists>db' br. start (sample_env 2) Map.empty = Some (RanOcw, db') \<and> get_prev_block_branch (sample_env 2) db' = Some br \<and>
     br_head br = 1"
proof -
  have "fst (the (start (sample_env 2) Map.empty)) = RanOcw"
    by code_simp
  moreover obtain outcome db' where s: "start (sample_env 2) Map.empty = Some (outcome, db')"
    using start_ends [OF sample_ideal] by blast
  ultimately have "start (sample_env 2) Map.empty = Some (RanOcw, db')" by simp
  from start_registers [OF sample_ideal fork_reachable.empty sample_no_race this] this show ?thesis
    by (auto simp: sample_env_def sat_sub_def)
qed

end
