(* ===== verification/RoutineProperties.thy ===== *)
theory RoutineProperties
  imports ForkProperties
begin

text \<open>
  What the stores guarantee: a fork-aware key is visible on exactly the branches that wrote or
  inherited it, but its value is stored once for all of them; a finalized value is \<open>Safe\<close> only
  after enough observations behind its window, and is after them.
\<close>

section \<open>Scopes and values\<close>

lemma make_key_apart:
  assumes "ideal_hash E"
  shows "make_key E item \<noteq> block_key E h" "make_key E item \<noteq> divider_key E p k" "make_key E item \<noteq> branch_key E g c"
    "make_key E item \<noteq> head_key E"
proof -
  have "make_key E item \<noteq> make_hash E i s" if "s \<noteq> []" for i s
  proof
    assume "make_key E item = make_hash E i s"
    then have eq: "fe_enc_bytes E item = fe_enc_bytes E (fe_tag E) @ fe_enc_bytes E i @ s"
      using assms by (simp add: make_key_def make_hash_def ideal_hash_def inj_eq)
    then have "item = fe_tag E"
      using assms unfolding ideal_hash_def prefix_free_def by (metis append_Nil2)
    with eq that show False by simp
  qed
  moreover have "ascii ''block'' \<noteq> []" "ascii ''divider'' \<noteq> []" "ascii ''branch'' \<noteq> []" by (simp_all add: ascii_def)
  ultimately show "make_key E item \<noteq> block_key E h" "make_key E item \<noteq> divider_key E p k" "make_key E item \<noteq> branch_key E g c"
    by (simp_all add: block_key_def divider_key_def branch_key_def)
  show "make_key E item \<noteq> head_key E" using assms unfolding ideal_hash_def make_key_def by (metis rangeI)
qed

lemma make_key_same: "same_keys E E' \<Longrightarrow> make_key E' item = make_key E item"
  by (simp add: make_key_def same_keys_def)

text \<open>What an insertion does: the branch of the previous block gets the key, the value is stored
  under the hash of the key.\<close>

lemma fork_insert_exact:
  assumes "fork_insert B enc key v db = (Inr (), db')"
  obtains h br where "get_branch_hash B (fe_block_hash B (sat_sub (fe_number B) 1)) db = Some h"
    "get_branch h db = Some br"
    "db' = store_encoded (make_key B key) (enc v)
       (store_encoded h (CBranch (br\<lparr>br_scope := (br_scope br)\<lparr>fd_local_keys := insert (make_key B key) (fd_local_keys (br_scope br))\<rparr>\<rparr>)) db)"
  using assms
  by (auto simp: fork_insert_def bindO_def modify_def add_to_scope_def add_to_local_def Let_def
      split: option.splits prod.splits sum.splits)

lemma block_branch_after:
  assumes ideal: "ideal_hash E" and wf: "graph_wf E db" and "get_block_branch E hash db = Some br"
    and "h = branch_key E g n" "k = make_key E item"
  shows "get_block_branch E hash (store_encoded k c (store_encoded h (CBranch new) db)) =
    Some (if get_branch_hash E hash db = Some h then new else br)"
proof -
  obtain bh where bh: "get_branch_hash E hash db = Some bh" "get_branch bh db = Some br"
    using assms(3) by (auto simp: get_block_branch_def bind_eq_Some_conv)
  obtain p g' n' where parts: "bh = branch_key E g' n'" "get_divider E hash db = Some (divider_key E p bh)"
    "load_value as_key (divider_key E p bh) db = Some bh" by (rule wf_branch_hash [OF wf bh(1)])
  note apart = keys_apart [OF ideal] make_key_apart [OF ideal]
  let ?db = "store_encoded k c (store_encoded h (CBranch new) db)"
  have "get_divider E hash ?db = Some (divider_key E p bh)"
    using parts(2) apart assms(4,5) by (simp add: get_divider_def load_store) (metis)
  moreover have "load_value as_key (divider_key E p bh) ?db = Some bh"
    using parts(3) apart assms(4,5) by (simp add: load_store) (metis)
  moreover have "get_branch bh ?db = Some (if bh = h then new else br)"
    using bh(2) parts(1) apart assms(4,5) by (simp add: get_branch_def load_store) (metis)
  ultimately show ?thesis using bh(1) by (simp add: get_block_branch_def get_branch_hash_def)
qed

lemma fork_get_visible:
  "fork_get E dec key db =
     (case get_prev_block_branch E db of
        None \<Rightarrow> (Inl ForksNotEnabled, db)
      | Some br \<Rightarrow>
          if make_key E key \<in> visible br
          then (case read_cell dec (make_key E key) db of
                  Inl _ \<Rightarrow> (Inl (DecodeFailed ForkAwareStore), db) | Inr v \<Rightarrow> (Inr v, db))
          else (Inr None, db))"
  by (auto simp: fork_get_def bindO_def scope_item_exists_def visible_def exists_in_local_def
      exists_in_inherited_def ret_def Let_def split: option.splits)

lemma shared_values:
  assumes ideal: "ideal_hash E" and wf: "graph_wf E db" and same: "same_keys E A" "same_keys E B"
    and a: "get_prev_block_branch A db = Some br"
    and ins: "fork_insert B CKey key v db = (Inr (), db')"
  shows "fork_get A as_key key db' =
    (Inr (if make_key E key \<in> visible br \<or>
             get_branch_hash A (fe_block_hash A (sat_sub (fe_number A) 1)) db =
             get_branch_hash B (fe_block_hash B (sat_sub (fe_number B) 1)) db
          then Some v else None), db')"
proof -
  note funs = same_keys_fun [OF same(1)] same_keys_fun [OF same(2)]
  have idA: "ideal_hash A" "graph_wf A db" "graph_wf B db" using ideal wf by (simp_all add: funs)
  have mk: "make_key A key = make_key E key" "make_key B key = make_key E key"
    using make_key_same same by metis+
  obtain h b where h: "get_branch_hash B (fe_block_hash B (sat_sub (fe_number B) 1)) db = Some h"
    "get_branch h db = Some b"
    "db' = store_encoded (make_key B key) (CKey v)
       (store_encoded h (CBranch (b\<lparr>br_scope := (br_scope b)\<lparr>fd_local_keys := insert (make_key B key) (fd_local_keys (br_scope b))\<rparr>\<rparr>)) db)"
    by (rule fork_insert_exact [OF ins])
  let ?new = "b\<lparr>br_scope := (br_scope b)\<lparr>fd_local_keys := insert (make_key B key) (fd_local_keys (br_scope b))\<rparr>\<rparr>"
  obtain p g n where "h = branch_key B g n" "get_divider B (fe_block_hash B (sat_sub (fe_number B) 1)) db = Some (divider_key B p h)"
    "load_value as_key (divider_key B p h) db = Some h" by (rule wf_branch_hash [OF idA(3) h(1)])
  then have hk: "h = branch_key A g n" by (simp add: funs)
  let ?hashA = "fe_block_hash A (sat_sub (fe_number A) 1)"
  have "get_block_branch A ?hashA db' = Some (if get_branch_hash A ?hashA db = Some h then ?new else br)"
    unfolding h(3) by (rule block_branch_after [where item = key, OF idA(1,2) _ hk])
      (use a mk in \<open>simp_all add: get_prev_block_branch_def\<close>)
  moreover have "br = b" if "get_branch_hash A ?hashA db = Some h"
    using that a h(2) by (simp add: get_prev_block_branch_def get_block_branch_def)
  moreover have "read_cell as_key (make_key E key) db' = Inr (Some v)"
    by (simp add: h(3) mk read_cell_def store_encoded_def)
  ultimately show ?thesis
    using h(1) by (auto simp: fork_get_visible get_prev_block_branch_def visible_def mk)
qed

section \<open>Observations\<close>

text \<open>Observations at the given times, with the confidence of each.\<close>

fun observe_at :: "('h, 'v) fork_env \<Rightarrow> u64 list \<Rightarrow> 'v observation \<Rightarrow> 'v confidence list \<times> 'v observation" where
  "observe_at E [] ob = ([], ob)"
| "observe_at E (t # ts) ob =
     (case observe (E\<lparr>fe_now := t\<rparr>) ob of (c, ob') \<Rightarrow>
        (case observe_at E ts ob' of (cs, ob'') \<Rightarrow> (c # cs, ob'')))"

abbreviation window_end :: "('h, 'v) fork_env \<Rightarrow> 'v observation \<Rightarrow> u64" where
  "window_end E ob \<equiv> sat_add (ob_first_seen ob) (fe_finality_after E)"

lemma observe_fields:
  "observe (E\<lparr>fe_now := t\<rparr>) ob = (c, ob') \<Longrightarrow>
     ob_first_seen ob' = ob_first_seen ob \<and> ob_last_seen ob' = t \<and> ob_value ob' = ob_value ob \<and>
     ob_blocks_seen ob' = (if window_end E ob \<le> ob_last_seen ob \<and> ob_blocks_seen ob < fe_finality_ticks E \<and> ob_last_seen ob < t
                           then ob_blocks_seen ob + 1 else ob_blocks_seen ob) \<and>
     ((\<exists>v. c = Safe v) \<longleftrightarrow> window_end E ob \<le> ob_last_seen ob \<and> fe_finality_ticks E \<le> ob_blocks_seen ob)"
  by (auto simp: observe_def Let_def not_less not_le split: if_splits)

lemma unat_next: "a < (b :: u32) \<Longrightarrow> unat (a + 1) = Suc (unat a)"
  using unat_bound [of b] by (simp add: word_less_nat_alt unat_word_ariths)

text \<open>Observations that came at a later moment than the one before them, which was behind the window.\<close>

definition rises :: "u64 \<Rightarrow> u64 \<Rightarrow> u64 list \<Rightarrow> nat" where
  "rises window seen ts = length (filter (\<lambda>(before, t). window \<le> before \<and> before < t) (zip (seen # ts) ts))"

lemma rises_simps [simp]:
  "rises w a [] = 0"
  "rises w a (t # ts) = (if w \<le> a \<and> a < t then 1 else 0) + rises w t ts"
  by (simp_all add: rises_def)



section \<open>Reading a finalized value\<close>

text \<open>Consecutive reads, each in an environment of its own: its fork, its block and its moment.\<close>

fun finalized_reads :: "('h, 'v) fork_env list \<Rightarrow> bytes \<Rightarrow> 'v off_db \<Rightarrow>
    (off_error + 'v confidence option) list \<times> 'v off_db" where
  "finalized_reads [] key db = ([], db)"
| "finalized_reads (E # Es) key db =
     (case finalized_get E key db of (r, db1) \<Rightarrow>
        (case finalized_reads Es key db1 of (rs, db2) \<Rightarrow> (r # rs, db2)))"


text \<open>Environments of one chain: the same keys and policy, and nobody writes in between.\<close>

definition same_policy :: "('h, 'v) fork_env \<Rightarrow> ('h, 'v) fork_env \<Rightarrow> bool" where
  "same_policy E E' \<longleftrightarrow> same_keys E E' \<and> no_race E' \<and>
     fe_finality_after E' = fe_finality_after E \<and> fe_finality_ticks E' = fe_finality_ticks E"


text \<open>The value that is kept under a key, and its observation.\<close>

definition kept :: "('h, 'v) fork_env \<Rightarrow> bytes \<Rightarrow> bytes \<Rightarrow> 'v observation \<Rightarrow> 'v off_db \<Rightarrow> bool" where
  "kept E key hash ob db \<longleftrightarrow> db (make_key E key) = Some (CKey hash) \<and>
     (\<exists>l. db key = Some (CLedger l) \<and> map_of l hash = Some ob)"

lemma get_exact:
  assumes l: "db (make_key E key) = Some (CKey hash)" "db key = Some (CLedger l)" "map_of l hash = Some ob"
    and pol: "same_policy E E'"
  shows "finalized_get E' key db =
      (case get_prev_block_branch E' db of
         None \<Rightarrow> (Inl ForksNotEnabled, db)
       | Some br \<Rightarrow>
           if make_key E' key \<in> visible br
           then (Inr (Some (fst (observe E' ob))), db(key \<mapsto> CLedger (AList.update hash (snd (observe E' ob)) l)))
           else (Inr None, db))"
proof -
  have mk: "make_key E' key = make_key E key" using pol make_key_same by (auto simp: same_policy_def)
  have race: "fe_race E' key = None" using pol by (simp add: same_policy_def no_race_def)
  have cells: "read_cell as_key (make_key E' key) db = Inr (Some hash)" "read_cell as_ledger key db = Inr (Some l)"
    by (simp_all add: read_cell_def l mk)
  show ?thesis
    using race by (simp add: finalized_get_def bindO_def fork_get_visible cells thenO_def persistent_mutate_def
        store_mutate_def mutate_cell_def observe_ledger_def observed_def l ret_def split: option.split)
qed



lemma insert_keeps:
  assumes "finalized_insert E key v db = (Inr (), db')"
  shows "kept E key (value_hash E v) (fresh_observation E v) db'"
proof -
  let ?h = "value_hash E v"
  obtain db1 where ins: "fork_insert E CKey key ?h db = (Inr (), db1)"
    and mut: "persistent_mutate E as_ledger CLedger key (\<lambda>current. case current of
        Inr existing \<Rightarrow> let ledger = (case existing of None \<Rightarrow> [] | Some l \<Rightarrow> l)
          in ret (AList.update ?h (fresh_observation E v) ledger)
      | Inl e \<Rightarrow> throw e) db1 = (Inr (), db')"
    using assms by (auto simp: finalized_insert_def thenO_Inr_iff Let_def)
  have cell: "db1 (make_key E key) = Some (CKey ?h)"
    by (rule fork_insert_exact [OF ins]) (simp add: store_encoded_def)
  from mut obtain l where l: "read_cell as_ledger key db1 = Inr l"
    "db' = db1(key \<mapsto> CLedger (AList.update ?h (fresh_observation E v) (case l of None \<Rightarrow> [] | Some l \<Rightarrow> l)))"
    by (auto simp: persistent_mutate_def store_mutate_def mutate_cell_def ret_def throw_def Let_def
        split: sum.splits prod.splits if_splits mutate_error.splits option.splits)
  have "make_key E key \<noteq> key" using l(1) cell by (auto simp: read_cell_def)
  then show ?thesis using cell by (auto simp: kept_def l(2) update_conv')
qed

section \<open>How a value becomes safe\<close>

lemma observe_value: "observe_at E ts ob = (cs, ob') \<Longrightarrow> ob_value ob' = ob_value ob \<and> ob_first_seen ob' = ob_first_seen ob"
proof (induction ts arbitrary: ob cs)
  case (Cons t ts)
  obtain c ob1 where o1: "observe (E\<lparr>fe_now := t\<rparr>) ob = (c, ob1)" by force
  with Cons show ?case using observe_fields [OF o1] by (auto split: prod.splits)
qed simp

lemma saturated_count:
  "observe_at E ts ob = (cs, ob') \<Longrightarrow> sorted_wrt (<) (ob_last_seen ob # ts) \<Longrightarrow> window_end E ob \<le> ob_last_seen ob \<Longrightarrow>
    ob_blocks_seen ob \<le> fe_finality_ticks E \<Longrightarrow>
    unat (ob_blocks_seen ob') = min (unat (fe_finality_ticks E)) (unat (ob_blocks_seen ob) + length ts) \<and>
    window_end E ob' \<le> ob_last_seen ob'"
proof (induction ts arbitrary: ob cs)
  case Nil
  then show ?case by (simp add: word_le_nat_alt)
next
  case (Cons t ts)
  obtain c ob1 where o1: "observe (E\<lparr>fe_now := t\<rparr>) ob = (c, ob1)" by force
  obtain cs1 where rest: "observe_at E ts ob1 = (cs1, ob')"
    using Cons.prems(1) o1 by (auto split: prod.splits)
  note f = observe_fields [OF o1]
  have t: "ob_last_seen ob < t" "sorted_wrt (<) (ob_last_seen ob1 # ts)" "window_end E ob1 \<le> ob_last_seen ob1"
    using Cons.prems(2,3) f by auto
  have blocks: "unat (ob_blocks_seen ob1) = min (unat (fe_finality_ticks E)) (unat (ob_blocks_seen ob) + 1)"
    using f t(1) Cons.prems(3,4) unat_next [of "ob_blocks_seen ob" "fe_finality_ticks E"]
    by (auto simp: word_less_nat_alt word_le_nat_alt)
  then have "ob_blocks_seen ob1 \<le> fe_finality_ticks E" by (simp add: word_le_nat_alt)
  from Cons.IH [OF rest t(2,3) this] blocks show ?case by auto
qed

section \<open>Two forks\<close>

text \<open>Block 1, whose branch lists the key \<open>[9]\<close>, and two blocks 2 on it.\<close>

definition other_block :: "(8 word, nat) fork_env" where
  "other_block = (sample_env 3)\<lparr>fe_block_hash := (\<lambda>n. if n = 2 then 102 else ucast n)\<rparr>"

definition one_block :: "nat off_db" where
  "one_block = snd (add_to_scope (sample_env 2) [9] (snd (the (start (sample_env 2) Map.empty))))"

definition two_forks :: "nat off_db" where
  "two_forks = snd (the (start other_block (snd (the (start (sample_env 3) one_block)))))"

lemma other_block_env: "same_keys (sample_env 0) other_block" "branch_race other_block" "ideal_hash other_block"
  using sample_ideal [of 3] by (simp_all add: same_keys_def other_block_def branch_race_def sample_env_def ideal_hash_def head_key_def)

lemma reachable_start:
  assumes "fork_reachable (sample_env 0) db" "same_keys (sample_env 0) E" "branch_race E" "ideal_hash E"
  shows "fork_reachable (sample_env 0) (snd (the (start E db)))"
proof -
  obtain outcome db' where s: "start E db = Some (outcome, db')" using start_ends [OF assms(4)] by blast
  show ?thesis using fork_reachable.start [OF assms(1-3) s] by (simp add: s)
qed

lemma two_forks_reachable: "fork_reachable (sample_env 0) two_forks"
proof -
  have "fork_reachable (sample_env 0) one_block"
    unfolding one_block_def
    by (rule fork_reachable.add [OF reachable_start sample_same prod.collapse [symmetric]])
      (rule fork_reachable.empty sample_same sample_branch_race sample_ideal)+
  then show ?thesis unfolding two_forks_def
    by (intro reachable_start other_block_env sample_same sample_branch_race sample_ideal)
qed

text \<open>A value inserted at moment 0 and read on one block, with the given number of ticks. The local
  storage routes that block to one branch.\<close>

definition one_branch :: "nat off_db" where
  "one_branch = [block_key (sample_env 2) 1 \<mapsto> CKey [1], [1] \<mapsto> CKey [2], [2] \<mapsto> CBranch
     \<lparr>br_parent = None, br_head = 1, br_scope = depot_default, br_genesis = [], br_counter = []\<rparr>]"

definition read_env :: "u32 \<Rightarrow> u64 \<Rightarrow> (8 word, nat) fork_env" where
  "read_env ticks t = (sample_env 2)\<lparr>fe_finality_ticks := ticks, fe_now := t\<rparr>"

lemma read_policy: "same_policy (read_env ticks t) (read_env ticks t')"
  by (simp add: same_policy_def same_keys_def no_race_def read_env_def sample_env_def)

definition shown :: "nat off_db \<Rightarrow> bool" where
  "shown db \<longleftrightarrow> (\<exists>br. db [0, 1, 1, 0, 1, 1, 0, 98, 108, 111, 99, 107] = Some (CKey [1]) \<and> db [1] = Some (CKey [2]) \<and>
     db [2] = Some (CBranch br) \<and> [0, 1, 9, 0] \<in> visible br)"

lemma sample_keys: "make_key (read_env ticks t) [9] = [0, 1, 9, 0]"
  "block_key (sample_env 2) 1 = [0, 1, 1, 0, 1, 1, 0, 98, 108, 111, 99, 107]"
  "block_key (read_env ticks t) 1 = [0, 1, 1, 0, 1, 1, 0, 98, 108, 111, 99, 107]"
  by (simp_all add: make_key_def block_key_def make_hash_def read_env_def sample_env_def ascii_def)

lemma shown_branch: "shown db \<Longrightarrow> \<exists>br. get_prev_block_branch (read_env ticks t) db = Some br \<and> [0, 1, 9, 0] \<in> visible br"
proof -
  assume "shown db"
  moreover have "fe_block_hash (read_env ticks t) (sat_sub (fe_number (read_env ticks t)) 1) = 1"
    by (simp add: read_env_def sample_env_def sat_sub_def)
  ultimately show ?thesis
    by (auto simp: shown_def get_prev_block_branch_def get_block_branch_def get_branch_hash_def get_branch_def
        get_divider_def load_value_def read_cell_def sample_keys)
qed

lemma shown_read:
  assumes "kept (read_env ticks 0) [9] hash ob db" "shown db"
  shows "\<exists>db'. finalized_get (read_env ticks t) [9] db =
      (Inr (Some (fst (observe (read_env ticks t) ob))), db') \<and>
    kept (read_env ticks 0) [9] hash (snd (observe (read_env ticks t) ob)) db' \<and> shown db'"
proof -
  obtain l where l: "db (make_key (read_env ticks 0) [9]) = Some (CKey hash)" "db [9] = Some (CLedger l)" "map_of l hash = Some ob"
    using assms(1) by (auto simp: kept_def)
  obtain br where br: "get_prev_block_branch (read_env ticks t) db = Some br" "[0, 1, 9, 0] \<in> visible br"
    using shown_branch [OF assms(2)] by blast
  have "finalized_get (read_env ticks t) [9] db =
      (Inr (Some (fst (observe (read_env ticks t) ob))),
       db([9] \<mapsto> CLedger (AList.update hash (snd (observe (read_env ticks t) ob)) l)))"
    using get_exact [OF l read_policy] br by (simp add: sample_keys)
  moreover have "kept (read_env ticks 0) [9] hash (snd (observe (read_env ticks t) ob))
      (db([9] \<mapsto> CLedger (AList.update hash (snd (observe (read_env ticks t) ob)) l)))"
    using l by (simp add: kept_def sample_keys update_conv')
  moreover have "shown (db([9] \<mapsto> CLedger (AList.update hash (snd (observe (read_env ticks t) ob)) l)))"
    using assms(2) by (simp add: shown_def)
  ultimately show ?thesis by blast
qed

lemma shown_reads:
  "kept (read_env ticks 0) [9] hash ob db \<Longrightarrow> shown db \<Longrightarrow>
    \<exists>db'. finalized_reads (map (read_env ticks) ts) [9] db =
      (map (Inr \<circ> Some) (fst (observe_at (read_env ticks 0) ts ob)), db') \<and>
    kept (read_env ticks 0) [9] hash (snd (observe_at (read_env ticks 0) ts ob)) db' \<and> shown db'"
proof (induction ts arbitrary: ob db)
  case (Cons t ts)
  obtain db1 where one: "finalized_get (read_env ticks t) [9] db = (Inr (Some (fst (observe (read_env ticks t) ob))), db1)"
    "kept (read_env ticks 0) [9] hash (snd (observe (read_env ticks t) ob)) db1" "shown db1"
    using shown_read [OF Cons.prems] by blast
  have "read_env ticks 0\<lparr>fe_now := t\<rparr> = read_env ticks t" by (simp add: read_env_def)
  with Cons.IH [OF one(2,3)] one(1) show ?case by (auto split: prod.splits)
qed simp



lemma sample_insert:
  "\<exists>db. finalized_insert (read_env ticks 0) [9] 7 one_branch = (Inr (), db) \<and> shown db"
proof -
  let ?br = "\<lparr>br_parent = None, br_head = 1, br_scope = depot_default, br_genesis = [], br_counter = []\<rparr>"
  let ?new = "?br\<lparr>br_scope := depot_default\<lparr>fd_local_keys := {[0, 1, 9, 0]}\<rparr>\<rparr>"
  have block: "fe_block_hash (read_env ticks 0) (sat_sub (fe_number (read_env ticks 0)) 1) = 1"
    "fe_race (read_env ticks 0) [9] = None"
    by (simp_all add: read_env_def sample_env_def sat_sub_def)
  have "get_branch_hash (read_env ticks 0) 1 one_branch = Some [2]" "get_branch [2] one_branch = Some ?br"
    by (simp_all add: get_branch_hash_def get_branch_def get_divider_def load_value_def read_cell_def one_branch_def sample_keys)
  then have "fork_insert (read_env ticks 0) CKey [9] h one_branch =
      (Inr (), one_branch([2] \<mapsto> CBranch ?new, [0, 1, 9, 0] \<mapsto> CKey h))" for h
    by (simp add: fork_insert_def add_to_scope_def block bindO_def add_to_local_def sample_keys store_encoded_def
        modify_def depot_default_def Let_def)
  then show ?thesis
    by (simp add: finalized_insert_def thenO_def bindO_def Let_def persistent_mutate_def store_mutate_def mutate_cell_def
        read_cell_def one_branch_def sample_keys block ret_def shown_def visible_def)
qed

section \<open>Properties\<close>

text \<open>C38: After a fork-aware insertion on one fork every other fork reads the new value, provided the key
  is visible there or both forks share the branch; the others still see nothing. The value is not
  kept apart by fork, only its visibility.\<close>
theorem fork_values_shared:
  assumes "ideal_hash E" "fork_reachable E db" "same_keys E A" "same_keys E B"
    and "get_prev_block_branch A db = Some br" "fork_insert B CKey key v db = (Inr (), db')"
  shows "fork_get A as_key key db' =
    (Inr (if make_key E key \<in> visible br \<or>
             get_branch_hash A (fe_block_hash A (sat_sub (fe_number A) 1)) db =
             get_branch_hash B (fe_block_hash B (sat_sub (fe_number B) 1)) db
          then Some v else None), db')"
  by (rule shared_values [OF assms(1) reachable_wf [OF assms(1,2)] assms(3-6)])

theorem fork_values_shared_witness:
  "get_branch_hash (sample_env 3) 2 two_forks \<noteq> get_branch_hash other_block 102 two_forks \<and>
   fork_get (sample_env 3) as_key [9] (snd (fork_insert other_block CKey [9] [7] two_forks)) =
     (Inr (Some [7]), snd (fork_insert other_block CKey [9] [7] two_forks))"
proof -
  let ?db = "snd (fork_insert other_block CKey [9] [7] two_forks)"
  have "fork_insert other_block CKey [9] [7] two_forks = (Inr (), ?db)"
    by (rule prod_eqI) (code_simp, simp)
  moreover have "map_option visible (get_prev_block_branch (sample_env 3) two_forks) = Some {make_key (sample_env 0) [9]}"
    by code_simp
  then obtain br where "get_prev_block_branch (sample_env 3) two_forks = Some br"
    "make_key (sample_env 0) [9] \<in> visible br" by auto
  moreover have "get_branch_hash (sample_env 3) 2 two_forks \<noteq> get_branch_hash other_block 102 two_forks"
    by code_simp
  ultimately show ?thesis
    using fork_values_shared [OF sample_ideal two_forks_reachable sample_same other_block_env(1)] by auto
qed



text \<open>Two moments that alternate, as the timestamps of two forks may, make a value safe that the policy
  wants to be seen at three.\<close>

lemma alternating_moments_safe:
  "\<exists>db rs db'. finalized_insert (read_env 3 0) [9] 7 one_branch = (Inr (), db) \<and>
     finalized_reads (map (read_env 3) [11, 12, 11, 12, 11, 12]) [9] db = (rs, db') \<and>
     fst (finalized_get (read_env 3 11) [9] db') = Inr (Some (Safe 7))"
proof -
  obtain db where ins: "finalized_insert (read_env 3 0) [9] 7 one_branch = (Inr (), db)" "shown db"
    using sample_insert by blast
  let ?ob = "fresh_observation (read_env 3 0) 7"
  from shown_reads [OF insert_keeps [OF ins(1)] ins(2), of "[11, 12, 11, 12, 11, 12]"] obtain rs db' where
    reads: "finalized_reads (map (read_env 3) [11, 12, 11, 12, 11, 12]) [9] db = (rs, db')"
    and now: "kept (read_env 3 0) [9] (value_hash (read_env 3 0) 7)
      (snd (observe_at (read_env 3 0) [11, 12, 11, 12, 11, 12] ?ob)) db'" "shown db'" by blast
  have ob: "snd (observe_at (read_env 3 0) [11, 12, 11, 12, 11, 12] ?ob) =
      \<lparr>ob_first_seen = 0, ob_last_seen = 12, ob_blocks_seen = 3, ob_value = 7\<rparr>"
    by (simp add: observe_def fresh_observation_def read_env_def sample_env_def sat_add_def)
  have "fst (finalized_get (read_env 3 11) [9] db') = Inr (Some (Safe 7))"
    using shown_read [OF now, of 11] unfolding ob by (auto simp: observe_def read_env_def sample_env_def sat_add_def)
  with ins reads show ?thesis by blast
qed

text \<open>C40: Observed once behind its window and then at as many later moments as the policy asks for, a
  value is safe.\<close>
theorem safe_is_reached:
  assumes "observe_at E ts (fresh_observation E v) = (cs, ob)" "sorted_wrt (<) (fe_now E # ts)"
    and "length ts = Suc (unat (fe_finality_ticks E))" "\<forall>t\<in>set ts. sat_add (fe_now E) (fe_finality_after E) \<le> t"
  shows "fst (observe (E\<lparr>fe_now := t\<rparr>) ob) = Safe v"
proof -
  obtain t1 rest where ts: "ts = t1 # rest" using assms(3) by (cases ts) auto
  obtain c ob1 where o1: "observe (E\<lparr>fe_now := t1\<rparr>) (fresh_observation E v) = (c, ob1)" by force
  note f = observe_fields [OF o1]
  obtain cs1 where o2: "observe_at E rest ob1 = (cs1, ob)" using assms(1) ts o1 by (auto split: prod.splits)
  have w: "window_end E ob1 \<le> ob_last_seen ob1" using f ts assms(4) by (simp add: fresh_observation_def)
  have s: "sorted_wrt (<) (ob_last_seen ob1 # rest)" using f ts assms(2) by simp
  have b: "ob_blocks_seen ob1 \<le> fe_finality_ticks E"
    using f unat_next [of 0 "fe_finality_ticks E"] by (auto simp: fresh_observation_def word_less_nat_alt word_le_nat_alt)
  note count = saturated_count [OF o2 s w b]
  have "unat (ob_blocks_seen ob) = unat (fe_finality_ticks E)" using count assms(3) ts by simp
  then have "fe_finality_ticks E \<le> ob_blocks_seen ob" by (simp add: word_le_nat_alt)
  moreover have "ob_value ob = v" using observe_value [OF assms(1)] by (simp add: fresh_observation_def)
  ultimately show ?thesis using count by (simp add: observe_def Let_def not_less not_le)
qed

theorem safe_is_reached_witness:
  "fst (observe ((sample_env 5)\<lparr>fe_now := 14\<rparr>) (snd (observe_at (sample_env 5) [11, 12, 13] (fresh_observation (sample_env 5) 7)))) = Safe 7"
proof -
  let ?E = "sample_env 5"
  have "observe_at ?E [11, 12, 13] (fresh_observation ?E 7) =
      (fst (observe_at ?E [11, 12, 13] (fresh_observation ?E 7)), snd (observe_at ?E [11, 12, 13] (fresh_observation ?E 7)))"
    by simp
  moreover have "sorted_wrt (<) (fe_now ?E # [11, 12, 13 :: u64])" by (simp add: sample_env_def)
  moreover have "length [11, 12, 13 :: u64] = Suc (unat (fe_finality_ticks ?E))" by (simp add: sample_env_def)
  moreover have "\<forall>t\<in>set [11, 12, 13 :: u64]. sat_add (fe_now ?E) (fe_finality_after ?E) \<le> t"
    by (simp add: sample_env_def sat_add_def)
  ultimately show ?thesis by (rule safe_is_reached)
qed

end
