(* ===== verification/Spec2Isabelle.thy ===== *)
theory Spec2Isabelle
  imports XpMachine ShareProperties LoadElections PluginModels CommitInspect CommitSamples AuthorPallet AuthorSamples ModelSamples RoutineProperties
begin

text \<open>
  FRAME Suite: the XP, commitment and authors pallets and the plugin families.

  The repository is a set of Substrate pallets over a library of traits (\<open>frame/suite\<close>) and of
  interchangeable algorithms, the plugins (\<open>frame/plugins\<close>). The XP pallet (\<open>pallets/xp\<close>) keeps
  experience points per key, with reserves, locks, ownership and reaping, and offers them as a
  fungible asset; the commitment pallet holds deposits in lazy balances whose arithmetic is the
  share-balance plugin family; the authors pallet keeps block authors, whose collateral and
  funding are commitments, schedules their rewards and penalties, and elects them with the
  election and influence plugins.

  Theories and code.

  \<^item> \<open>Prelude\<close>: results, stateful operations that keep their state on an error, checked and
    saturating machine arithmetic, labelled entry lists.
  \<^item> \<open>XpTypes\<close>: storage, records, errors and events of \<open>pallets/xp/src/types.rs\<close> and \<open>lib.rs\<close>;
    \<open>XpAccumulator\<close>: the pulse accumulator; \<open>XpCore\<close>: entries, owners and points
    (\<open>pallets/xp/src/xp.rs\<close> with the default methods of \<open>frame/suite/src/xp.rs\<close>);
    \<open>XpAllocation\<close>: what reserves and locks share; \<open>XpReserve\<close>, \<open>XpLock\<close>, \<open>XpReap\<close>: the three
    traits; \<open>XpPallet\<close>: genesis, keys (\<open>frame/suite/src/keys.rs\<close>), queries and calls;
    \<open>XpFungible\<close>: \<open>pallets/xp/src/fungible.rs\<close>; \<open>XpMachine\<close>: all of it as one step relation.
  \<^item> \<open>VirtualField\<close>: \<open>SumDynType\<close> and its helpers (\<open>frame/suite/src/virtuals.rs\<close>) and the product
    structure of \<open>pallets/commitment/src/balance.rs\<close>; \<open>ShareBalance\<close>: the sixteen models of
    \<open>frame/plugins/src/balances.rs\<close>; \<open>SharePool\<close>: their closed forms and the contract of the
    fixed-point type; \<open>ShareSolvency\<close> and \<open>ShareProperties\<close>: the invariant over all runs and what
    follows from it.
  \<^item> \<open>Elections\<close> and \<open>LoadElections\<close>: \<open>frame/plugins/src/elections.rs\<close>; \<open>PluginModels\<close>:
    \<open>penalty.rs\<close> and the order-only models of \<open>influence.rs\<close>.
  \<^item> \<open>FixedTypes\<close> and \<open>FixedMath\<close>: the types, conversions and algorithms of
    \<open>frame/suite/src/fixedpoint.rs\<close>; \<open>FixedModels\<close>: the models of \<open>influence.rs\<close> and the payouts of
    \<open>rewards.rs\<close> over them; \<open>Payees\<close>: the payees of \<open>rewards.rs\<close>; \<open>FixedSqrt\<close>: the accuracy of
    the square root; \<open>FixedProperties\<close>: powers; \<open>PayeeProperties\<close> and \<open>ModelProperties\<close>: what
    payees, models and conversions return; \<open>ModelSamples\<close>: computed cases.
  \<^item> \<open>CommitTypes\<close> and \<open>CommitData\<close>: the structures of \<open>pallets/commitment/src/types.rs\<close>;
    \<open>CommitStore\<close>: storage, the wrappers of \<open>balance.rs\<close>, deduction and resolution of
    \<open>helpers.rs\<close>; \<open>CommitFlow\<close>: deposits, withdrawals, release and recovery of pools;
    \<open>CommitPallet\<close>: the operations of \<open>commitment.rs\<close> and the reserve calls of \<open>lib.rs\<close>;
    \<open>CommitInspect\<close>: queries and checks; \<open>CommitInvariant\<close>: what every operation keeps;
    \<open>CommitAccounting\<close>, \<open>CommitPools\<close>, \<open>CommitProperties\<close>: what they account for;
    \<open>CommitSamples\<close>: concrete runs.
  \<^item> \<open>AuthorTypes\<close>: data, storage and genesis of \<open>pallets/authors/src/types.rs\<close> and \<open>lib.rs\<close>;
    \<open>AuthorRoles\<close>, \<open>AuthorFunding\<close>, \<open>AuthorCompensation\<close>: the role traits of \<open>roles.rs\<close> and the
    block hook; \<open>AuthorElection\<close>: \<open>election.rs\<close> and \<open>frame/suite/src/elections.rs\<close>;
    \<open>AuthorPallet\<close>: calls and queries of \<open>lib.rs\<close>; \<open>AuthorSchedule\<close>: what the scans over block
    numbers return; \<open>AuthorMachine\<close>: all of it as one step relation with the life cycle;
    \<open>AuthorInvariant\<close>: what every step keeps; \<open>AuthorProperties\<close> and \<open>AuthorBacking\<close>: schedule,
    hold, funders and elections; \<open>AuthorSamples\<close>: concrete runs.
  \<^item> \<open>OffchainStore\<close>: the node-local storage, its values and \<open>ForkLocalDepot\<close>; \<open>ForkGraph\<close>:
    \<open>frame/suite/src/forks.rs\<close>; \<open>OffchainRoutines\<close>: the persistent, fork-aware and finalized stores
    of \<open>frame/suite/src/routines.rs\<close>; \<open>ForkProperties\<close>: the graph and its registrations;
    \<open>RoutineProperties\<close>: what the stores return.

  How the code is read. A storage map is a partial map, a bounded vector a list with its bound
  checked where the code checks it, an integer a word of the runtime's width (points 128 bits,
  pulses and block numbers 32 bits; generic in the share balance). An operation returns its
  state with an error too, since only a dispatched call is rolled back (\<open>transactional\<close>).
  Origins are the outcome of their check. \<open>debug_assert!\<close> and log output are left out. The codec,
  the hash function, the iteration over owners, the dispatch of an inner call, \<open>set_frozen\<close> of the
  FRAME trait, the asset of the commitment pallet, its key generation and the fixed-point type of
  \<open>sp_arithmetic\<close> are parameters.

  What the lemmas show. The allocation locales state what reserves and locks promise and carry the
  frame lemmas of both; \<open>xp_inv\<close> and \<open>store_ok\<close> are kept by every operation, and by the unchecked
  \<open>new_xp\<close>, \<open>create_xp\<close> and \<open>set_owner\<close> exactly when their caller keeps to a condition the code
  does not check, so every store reached under it is consistent. The share balance is solvent in
  every reachable state, refused operations included, whatever contract compliant fixed-point type
  is used: the issued shares are those of the open receipts, no receipt can take more than its part,
  and all of them together no more than the balance holds. The rankings are characterised up to uniqueness by a stable descending sort, and the load elections
  by a greedy specification.

  In the commitment pallet every reachable store is well formed, every operation on a pool leaves
  its balance backed by the receipts of its slots, and the net pending amount and the reason's
  total move with the values that are set and resolved; the lemmas also show where this fails: the
  commission of a pool, and an index commitment too small for one of its entries.

  In the authors pallet every step follows the life cycle of an author and keeps the storage
  consistent; the schedule, the hold, the records of funders and the elected are characterised
  exactly, including where they go wrong: an author without funding, a record that outlives its
  commitment, a second election in a block, a full calendar. Its steps include changes of the
  commitment pallet, so the statements do not depend on what happens there in between.

  In the fixed-point suite the arithmetic of \<open>sp_arithmetic\<close> is a locale of documented laws,
  interpreted for the four types. Under it the Newton loop converges within its iterations to the
  integer root or two units above, which makes the quadratic influence the integer square root;
  whole powers are exact or saturate; the shares payee hands out the floors and at most one unit
  more to each. The samples compute cases of the repository's tests, and the inputs on which
  payouts double, are lost or lose their scale.

  The fork graph is local to a node, so its storage may be lost, corrupt or written by another
  worker meanwhile (\<open>fe_race\<close>). Under a hash without collisions every reachable graph is well
  formed, a registration ends for any storage, and registers its block on a branch that sees what
  the parent's branch saw. A fork-aware value is kept once for all forks, only its visibility is
  kept apart; a finalized value is safe after its window and observations, and not before, where
  observations count whenever they are later than the one before, on whatever fork.

  Termination. \<open>increment\<close> loops for ever under a zero threshold, so it and its callers are
  partial functions whose domain is characterised exactly (\<open>earn_xp_diverges_iff\<close>), and so are
  the scans over block numbers of the authors pallet (\<open>penalize_diverges_iff\<close>); the election
  loops are total functions by the length of the list of candidates left. The series of the
  fixed-point suite run at most \<open>MAX_ITERATIONS\<close> times, the bound of the code. The
  recovery loop of the fork graph is a partial function as well; one repair makes it decide
  (\<open>start_returns\<close>). The walk to a root branch is partial, without a claim. No fuel is used.

  Not modelled: the session and off-chain logic of the chain manager, and the logging of the
  routines. The \<open>inspect_\<close> calls of the commitment pallet only deposit the result of a query as an
  event. Weights, benchmarks, mocks, tests, macros and the node carry no logic of their own.
\<close>

end
